(* ===== verification/Prelude.thy ===== *)
theory Prelude
  imports Complex_Main "HOL-Library.Word" "HOL-Library.Char_ord" "HOL-Library.List_Lexorder"
begin

text \<open>
  Shared vocabulary of the development.

  \<^item> \<open>Result\<close>: a Rust \<open>Result<T, E>\<close> is the sum \<open>'e + 'a\<close>, with \<open>Inl\<close> for \<open>Err\<close> and
    \<open>Inr\<close> for \<open>Ok\<close>; \<open>and_then\<close> is both \<open>Result::and_then\<close> and the \<open>?\<close> operator.
  \<^item> Machine integers keep their width (\<open>u16\<close>, \<open>u32\<close>, \<open>u64\<close>); \<open>i64\<close> counters that only
    count list elements are \<open>int\<close>.
  \<^item> Strings are HOL strings. One HOL character stands for one Rust \<open>char\<close> (a Unicode
    scalar value) and the alphabet is cut at U+00FF; every string function below follows
    the standard library on that alphabet (\<open>trim\<close> knows the white space of Latin-1).
  \<^item> A \<open>BTreeSet<String>\<close> is its strictly ascending list of elements (\<open>bset\<close>), so that its
    iteration order is visible; a \<open>HashSet\<close> is a set, a \<open>HashMap\<close> an association list or a map.

  The locale \<open>saturation\<close> states once what the repository's "extend until the length no longer
  changes" loops compute.
\<close>

section \<open>Types and collections of facts\<close>

type_synonym u16 = "16 word"
type_synonym u32 = "32 word"
type_synonym u64 = "64 word"
type_synonym i64 = int
type_synonym uuid = "128 word"
type_synonym datetime = int
type_synonym f64 = rat

named_theorems result_simps
named_theorems str_simps

section \<open>Results\<close>

definition and_then :: "'e + 'a \<Rightarrow> ('a \<Rightarrow> 'e + 'b) \<Rightarrow> 'e + 'b" where
  "and_then r f = (case r of Inl e \<Rightarrow> Inl e | Inr x \<Rightarrow> f x)"

definition map_err :: "('e \<Rightarrow> 'f) \<Rightarrow> 'e + 'a \<Rightarrow> 'f + 'a" where
  "map_err h r = (case r of Inl e \<Rightarrow> Inl (h e) | Inr x \<Rightarrow> Inr x)"

definition ok_or :: "'a option \<Rightarrow> 'e \<Rightarrow> 'e + 'a" where
  "ok_or x e = (case x of None \<Rightarrow> Inl e | Some y \<Rightarrow> Inr y)"

definition is_ok :: "'e + 'a \<Rightarrow> bool" where
  "is_ok r = (case r of Inl _ \<Rightarrow> False | Inr _ \<Rightarrow> True)"

fun for_each :: "('a \<Rightarrow> 'e + unit) \<Rightarrow> 'a list \<Rightarrow> 'e + unit" where
  "for_each f [] = Inr ()"
| "for_each f (x # xs) = and_then (f x) (\<lambda>_. for_each f xs)"

lemma and_then_simps [simp, result_simps]:
  "and_then (Inl e) f = Inl e" "and_then (Inr x) f = f x"
  by (simp_all add: and_then_def)

lemma and_then_eq_Inr [result_simps]:
  "and_then r f = Inr y \<longleftrightarrow> (\<exists>x. r = Inr x \<and> f x = Inr y)"
  by (cases r) auto

lemma and_then_eq_Inl [result_simps]:
  "and_then r f = Inl e \<longleftrightarrow> r = Inl e \<or> (\<exists>x. r = Inr x \<and> f x = Inl e)"
  by (cases r) auto

lemma map_err_simps [simp, result_simps]:
  "map_err h (Inl e) = Inl (h e)" "map_err h (Inr x) = Inr x"
  by (simp_all add: map_err_def)

lemma map_err_eq_Inr [result_simps]: "map_err h r = Inr y \<longleftrightarrow> r = Inr y"
  by (cases r) auto

lemma map_err_eq_Inl [result_simps]: "map_err h r = Inl e \<longleftrightarrow> (\<exists>d. r = Inl d \<and> e = h d)"
  by (cases r) auto

lemma ok_or_simps [simp, result_simps]:
  "ok_or None e = Inl e" "ok_or (Some x) e = Inr x"
  by (simp_all add: ok_or_def)

lemma ok_or_eq_Inr [result_simps]: "ok_or x e = Inr y \<longleftrightarrow> x = Some y"
  by (cases x) auto

lemma is_ok_simps [simp, result_simps]: "is_ok (Inl e) = False" "is_ok (Inr x) = True"
  by (simp_all add: is_ok_def)

lemma is_ok_iff: "is_ok r \<longleftrightarrow> (\<exists>x. r = Inr x)"
  by (cases r) auto

lemma not_is_ok_iff: "\<not> is_ok r \<longleftrightarrow> (\<exists>e. r = Inl e)"
  by (cases r) auto

lemma result_unit_ok: "(r :: 'e + unit) = Inr () \<longleftrightarrow> is_ok r"
  by (cases r) auto

lemma for_each_ok [result_simps]: "for_each f xs = Inr () \<longleftrightarrow> (\<forall>x \<in> set xs. f x = Inr ())"
  by (induction xs) (auto simp: and_then_eq_Inr)

lemma for_each_error: "for_each f xs = Inl e \<Longrightarrow> \<exists>x \<in> set xs. f x = Inl e"
  by (induction xs) (auto simp: and_then_eq_Inl)

section \<open>Strings\<close>

definition char_code :: "char \<Rightarrow> nat" where
  "char_code c = of_char c"

text \<open>Rust's \<open>char::is_whitespace\<close> (Unicode White\_Space) on U+0000 to U+00FF.\<close>

definition is_whitespace :: "char \<Rightarrow> bool" where
  "is_whitespace c \<longleftrightarrow>
     (let n = char_code c in (9 \<le> n \<and> n \<le> 13) \<or> n = 32 \<or> n = 133 \<or> n = 160)"

definition trim :: "string \<Rightarrow> string" where
  "trim s = rev (dropWhile is_whitespace (rev (dropWhile is_whitespace s)))"

definition to_ascii_uppercase :: "string \<Rightarrow> string" where
  "to_ascii_uppercase =
     map (\<lambda>c. let n = char_code c in if 97 \<le> n \<and> n \<le> 122 then char_of (n - 32) else c)"

definition to_ascii_lowercase :: "string \<Rightarrow> string" where
  "to_ascii_lowercase =
     map (\<lambda>c. let n = char_code c in if 65 \<le> n \<and> n \<le> 90 then char_of (n + 32) else c)"

definition replace_char :: "char \<Rightarrow> char \<Rightarrow> string \<Rightarrow> string" where
  "replace_char a b = map (\<lambda>c. if c = a then b else c)"

fun starts_with :: "string \<Rightarrow> string \<Rightarrow> bool" where
  "starts_with [] s = True"
| "starts_with (p # ps) [] = False"
| "starts_with (p # ps) (c # cs) = (p = c \<and> starts_with ps cs)"

text \<open>\<open>str::find\<close>: the least offset at which the pattern occurs.\<close>

fun find_str :: "string \<Rightarrow> string \<Rightarrow> nat option" where
  "find_str p [] = (if p = [] then Some 0 else None)"
| "find_str p (c # cs) =
     (if starts_with p (c # cs) then Some 0 else map_option Suc (find_str p cs))"

text \<open>
  \<open>str::replace\<close> with a non-empty pattern: matches are found from the left and do not overlap.
\<close>

function replace_str :: "string \<Rightarrow> string \<Rightarrow> string \<Rightarrow> string" where
  "replace_str p r s =
     (if s = [] then []
      else if p \<noteq> [] \<and> starts_with p s then r @ replace_str p r (drop (length p) s)
      else hd s # replace_str p r (tl s))"
  by pat_completeness auto
termination
  by (relation "measure (\<lambda>(p, r, s). length s)") auto

declare replace_str.simps [simp del]

definition join_str :: "string \<Rightarrow> string list \<Rightarrow> string" where
  "join_str sep xs = (case xs of [] \<Rightarrow> [] | y # ys \<Rightarrow> y @ concat (map (\<lambda>z. sep @ z) ys))"

text \<open>
  \<open>str::lines\<close>: pieces end at a line feed, which is dropped together with a carriage return
  directly before it; a last piece without a line feed is kept as it is, and an empty one is
  no line.
\<close>

definition strip_cr :: "string \<Rightarrow> string" where
  "strip_cr l = (if l \<noteq> [] \<and> last l = CHR 0x0D then butlast l else l)"

fun lines_acc :: "string \<Rightarrow> string \<Rightarrow> string list" where
  "lines_acc acc [] = (if acc = [] then [] else [rev acc])"
| "lines_acc acc (c # cs) =
     (if c = CHR 0x0A then strip_cr (rev acc) # lines_acc [] cs else lines_acc (c # acc) cs)"

definition lines :: "string \<Rightarrow> string list" where
  "lines s = lines_acc [] s"

text \<open>Decimal output of unsigned integers, as \<open>format!\<close> prints them.\<close>

fun dec_of_nat :: "nat \<Rightarrow> string" where
  "dec_of_nat n =
     (if n < 10 then [char_of (48 + n)] else dec_of_nat (n div 10) @ [char_of (48 + n mod 10)])"

declare dec_of_nat.simps [simp del]

definition quoted :: "string \<Rightarrow> string" where
  "quoted s = ''`'' @ s @ ''`''"

lemma starts_with_iff: "starts_with p s \<longleftrightarrow> (\<exists>t. s = p @ t)"
  by (induction p s rule: starts_with.induct) auto

lemma starts_with_append [simp, str_simps]: "starts_with p (p @ t)"
  by (auto simp: starts_with_iff)

lemma starts_with_Nil [simp]: "starts_with p [] \<longleftrightarrow> p = []"
  by (cases p) auto

lemma find_str_SomeD:
  "find_str p s = Some n \<Longrightarrow> starts_with p (drop n s) \<and> n \<le> length s"
  by (induction p s arbitrary: n rule: find_str.induct) (auto split: if_splits)

lemma find_str_None_iff: "find_str p s = None \<longleftrightarrow> (\<nexists>u v. s = u @ p @ v)"
proof (induction p s rule: find_str.induct)
  case (1 p)
  then show ?case by auto
next
  case (2 p c cs)
  have "(\<exists>u v. c # cs = u @ p @ v) \<longleftrightarrow> starts_with p (c # cs) \<or> (\<exists>u v. cs = u @ p @ v)"
    by (auto simp: starts_with_iff Cons_eq_append_conv)
  with 2 show ?case by auto
qed

lemma find_str_min: "find_str p s = Some n \<Longrightarrow> m < n \<Longrightarrow> \<not> starts_with p (drop m s)"
proof (induction p s arbitrary: n m rule: find_str.induct)
  case (1 p)
  then show ?case by (auto split: if_splits)
next
  case (2 p c cs)
  then show ?case by (cases m) (auto split: if_splits)
qed

lemma replace_str_Nil [simp, str_simps]: "replace_str p r [] = []"
  by (simp add: replace_str.simps)

lemma replace_str_prefix [str_simps]:
  "p \<noteq> [] \<Longrightarrow> replace_str p r (p @ s) = r @ replace_str p r s"
  by (subst replace_str.simps) simp

lemma replace_str_skip [str_simps]:
  "\<not> starts_with p (c # s) \<Longrightarrow> replace_str p r (c # s) = c # replace_str p r s"
  by (subst replace_str.simps) simp

lemma replace_str_absent: "find_str p s = None \<Longrightarrow> replace_str p r s = s"
  by (induction p s rule: find_str.induct) (auto simp: replace_str_skip split: if_splits)

lemma trim_subset: "set (trim s) \<subseteq> set s"
  by (auto simp: trim_def dest!: set_dropWhileD)

lemma length_trim: "length (trim s) \<le> length s"
  unfolding trim_def
  by (metis length_dropWhile_le length_rev order_trans)

lemma trim_all_whitespace: "trim s = [] \<longleftrightarrow> (\<forall>c \<in> set s. is_whitespace c)"
proof
  assume "trim s = []"
  then have "dropWhile is_whitespace s = []"
    by (simp add: trim_def dropWhile_eq_Nil_conv)
      (metis dropWhile_eq_Nil_conv hd_dropWhile list.set_sel(1))
  then show "\<forall>c \<in> set s. is_whitespace c" by (simp add: dropWhile_eq_Nil_conv)
next
  assume "\<forall>c \<in> set s. is_whitespace c"
  then show "trim s = []" by (auto simp: trim_def dest!: set_dropWhileD)
qed

section \<open>Ordered sets\<close>

type_synonym bset = "string list"

definition bset_ok :: "bset \<Rightarrow> bool" where
  "bset_ok xs \<longleftrightarrow> sorted xs \<and> distinct xs"

definition bset_extend :: "bset \<Rightarrow> string list \<Rightarrow> bset" where
  "bset_extend xs ys = fold insort_insert ys xs"

definition bset_of :: "string list \<Rightarrow> bset" where
  "bset_of ys = bset_extend [] ys"

text \<open>\<open>a.difference(b)\<close> iterates over \<open>a\<close> in ascending order.\<close>

definition bset_difference :: "bset \<Rightarrow> bset \<Rightarrow> string list" where
  "bset_difference xs ys = filter (\<lambda>x. x \<notin> set ys) xs"

lemma bset_extend_simps [simp]:
  "bset_extend xs [] = xs"
  "bset_extend xs (y # ys) = bset_extend (insort_insert y xs) ys"
  by (simp_all add: bset_extend_def)

lemma set_bset_extend [simp]: "set (bset_extend xs ys) = set xs \<union> set ys"
  by (induction ys arbitrary: xs) (auto simp: set_insort_insert)

lemma bset_ok_insert: "bset_ok xs \<Longrightarrow> bset_ok (insort_insert x xs)"
  by (simp add: bset_ok_def distinct_insort_insert sorted_insort_insert)

lemma bset_ok_extend [simp]: "bset_ok xs \<Longrightarrow> bset_ok (bset_extend xs ys)"
  by (induction ys arbitrary: xs) (auto simp: bset_ok_insert)

lemma bset_ok_of [simp]: "bset_ok (bset_of ys)"
  by (simp add: bset_of_def bset_ok_def)
     (metis bset_ok_def bset_ok_extend distinct.simps(1) sorted_wrt.simps(1))

lemma set_bset_of [simp]: "set (bset_of ys) = set ys"
  by (simp add: bset_of_def)

lemma set_bset_difference [simp]: "set (bset_difference xs ys) = set xs - set ys"
  by (auto simp: bset_difference_def)

lemma length_insort_insert_le: "length xs \<le> length (insort_insert x xs)"
  by (simp add: insort_insert_key_def)

lemma length_bset_extend_le: "length xs \<le> length (bset_extend xs ys)"
  by (induction ys arbitrary: xs) (auto intro: order_trans [OF length_insort_insert_le])

lemma bset_extend_same_length_iff:
  "length (bset_extend xs ys) = length xs \<longleftrightarrow> set ys \<subseteq> set xs"
proof (induction ys arbitrary: xs)
  case Nil
  then show ?case by simp
next
  case (Cons y ys)
  show ?case
  proof (cases "y \<in> set xs")
    case True
    then show ?thesis using Cons.IH [of xs] by (simp add: insort_insert_key_def)
  next
    case False
    then have "length (insort_insert y xs) = Suc (length xs)"
      by (simp add: insort_insert_key_def)
    then have "length (bset_extend (insort_insert y xs) ys) \<noteq> length xs"
      using length_bset_extend_le [of "insort_insert y xs" ys] by simp
    with False show ?thesis by simp
  qed
qed

lemma bset_extend_subset: "set ys \<subseteq> set xs \<Longrightarrow> bset_extend xs ys = xs"
  by (induction ys arbitrary: xs) (auto simp: insort_insert_key_def)

section \<open>Saturation loops\<close>

text \<open>
  The contract of a loop that extends an ordered set by the successors of its elements until the
  number of elements no longer changes: its result is the reflexive transitive image of the start
  set under the step relation. The workflow crate has two such loops.
\<close>

locale saturation =
  fixes succs :: "'p \<Rightarrow> bset \<Rightarrow> string list"
    and run :: "'p \<Rightarrow> bset \<Rightarrow> bset"
    and step :: "'p \<Rightarrow> (string \<times> string) set"
  assumes run_eq: "run p xs =
      (let ys = bset_extend xs (succs p xs) in if length xs = length ys then ys else run p ys)"
    and succs_iff: "y \<in> set (succs p xs) \<longleftrightarrow> (\<exists>x \<in> set xs. (x, y) \<in> step p)"
    and finite_step: "finite (Range (step p))"
begin

lemma run_done: "set (succs p xs) \<subseteq> set xs \<Longrightarrow> run p xs = xs"
  by (subst run_eq) (simp add: bset_extend_subset)

lemma run_more:
  assumes "\<not> set (succs p xs) \<subseteq> set xs"
  shows "run p xs = run p (bset_extend xs (succs p xs))"
proof -
  from assms have "length xs \<noteq> length (bset_extend xs (succs p xs))"
    by (metis bset_extend_same_length_iff)
  then show ?thesis by (subst run_eq) (simp add: Let_def)
qed

lemma closed_Image:
  assumes "set (succs p xs) \<subseteq> set xs"
  shows "(step p)\<^sup>* `` set xs = set xs"
proof -
  have "y \<in> set xs" if "(x, y) \<in> (step p)\<^sup>*" "x \<in> set xs" for x y
    using that
  proof (induction rule: rtrancl_induct)
    case base
    then show ?case .
  next
    case (step y z)
    then have "z \<in> set (succs p xs)" by (auto simp: succs_iff)
    with assms show ?case by auto
  qed
  then show ?thesis by auto
qed

lemma run_correct:
  "set (run p xs) = (step p)\<^sup>* `` set xs \<and> (bset_ok xs \<longrightarrow> bset_ok (run p xs))"
proof (induction "card (Range (step p) - set xs)" arbitrary: xs rule: less_induct)
  case less
  show ?case
  proof (cases "set (succs p xs) \<subseteq> set xs")
    case True
    then show ?thesis by (simp add: run_done closed_Image)
  next
    case False
    let ?ys = "bset_extend xs (succs p xs)"
    have new: "set (succs p xs) \<subseteq> Range (step p)" by (auto simp: succs_iff)
    with False have "Range (step p) - set ?ys \<subset> Range (step p) - set xs" by auto
    then have "card (Range (step p) - set ?ys) < card (Range (step p) - set xs)"
      by (rule psubset_card_mono [rotated]) (simp add: finite_step)
    from less [OF this] have IH: "set (run p ?ys) = (step p)\<^sup>* `` set ?ys"
      and ok: "bset_ok ?ys \<longrightarrow> bset_ok (run p ?ys)" by blast+
    have "(step p)\<^sup>* `` set ?ys = (step p)\<^sup>* `` set xs"
      by (auto simp: succs_iff) (meson ImageI converse_rtrancl_into_rtrancl)
    with IH ok False show ?thesis by (simp add: run_more)
  qed
qed

lemma set_run: "set (run p xs) = (step p)\<^sup>* `` set xs"
  using run_correct by blast

lemma run_ok: "bset_ok xs \<Longrightarrow> bset_ok (run p xs)"
  using run_correct by blast

lemma run_extends: "set xs \<subseteq> set (run p xs)"
  by (auto simp: set_run)

lemma run_closed: "x \<in> set (run p xs) \<Longrightarrow> (x, y) \<in> step p \<Longrightarrow> y \<in> set (run p xs)"
  by (auto simp: set_run intro: rtrancl_into_rtrancl)

end

section \<open>Lists\<close>

text \<open>The first element of a list that occurs before it, the pattern of every
  \<open>if !seen.insert(x)\<close> loop of the sources.\<close>

fun first_dup :: "'a set \<Rightarrow> 'a list \<Rightarrow> 'a option" where
  "first_dup seen [] = None"
| "first_dup seen (x # xs) = (if x \<in> seen then Some x else first_dup (insert x seen) xs)"

lemma first_dup_None_iff: "first_dup seen xs = None \<longleftrightarrow> distinct xs \<and> seen \<inter> set xs = {}"
  by (induction xs arbitrary: seen) auto

lemma first_dup_None [simp]: "first_dup {} xs = None \<longleftrightarrow> distinct xs"
  by (simp add: first_dup_None_iff)

lemma first_dup_Some: "first_dup seen xs = Some x \<Longrightarrow> x \<in> set xs"
  by (induction xs arbitrary: seen) (auto split: if_splits)

lemma first_dup_not_distinct [dest]: "first_dup {} xs = Some x \<Longrightarrow> \<not> distinct xs"
  by (metis first_dup_None option.distinct(1))

lemma map_filter_mem: "y \<in> set (List.map_filter f xs) \<longleftrightarrow> (\<exists>x \<in> set xs. f x = Some y)"
  by (force simp: List.map_filter_def)

lemma map_filter_map_arg: "List.map_filter f (map h xs) = List.map_filter (\<lambda>x. f (h x)) xs"
  by (induction xs) (auto simp: List.map_filter_def)

lemma sum_list_pos_iff:
  fixes f :: "'a \<Rightarrow> int"
  assumes "\<And>x. 0 \<le> f x"
  shows "0 < sum_list (map f xs) \<longleftrightarrow> list_ex (\<lambda>x. 0 < f x) xs"
proof (induction xs)
  case (Cons x xs)
  have "0 \<le> sum_list (map f xs)" using assms by (intro sum_list_nonneg) auto
  with Cons assms [of x] show ?case by auto
qed simp

lemma guarded_Some:
  "(case m of None \<Rightarrow> None | Some n \<Rightarrow> if P n then Some (f n) else None) = Some y \<longleftrightarrow>
     (\<exists>n. m = Some n \<and> P n \<and> y = f n)"
  by (auto split: option.splits)

section \<open>Hash maps with vector values\<close>

text \<open>
  \<open>map.entry(k).or_default().push(v)\<close> on a \<open>HashMap<K, Vec<V>>\<close>; the map is only read with
  \<open>get\<close>, so the order of its association list is not observable.
\<close>

fun entry_push :: "('k \<times> 'v list) list \<Rightarrow> 'k \<Rightarrow> 'v \<Rightarrow> ('k \<times> 'v list) list" where
  "entry_push [] k v = [(k, [v])]"
| "entry_push ((k', vs) # m) k v =
     (if k' = k then (k', vs @ [v]) # m else (k', vs) # entry_push m k v)"

definition get_or_empty :: "('k \<times> 'v list) list \<Rightarrow> 'k \<Rightarrow> 'v list" where
  "get_or_empty m k = (case map_of m k of None \<Rightarrow> [] | Some vs \<Rightarrow> vs)"

definition push_all :: "('a \<Rightarrow> 'k) \<Rightarrow> ('a \<Rightarrow> 'v) \<Rightarrow> 'a list \<Rightarrow> ('k \<times> 'v list) list \<Rightarrow> ('k \<times> 'v list) list"
  where "push_all key val xs m = fold (\<lambda>x m. entry_push m (key x) (val x)) xs m"

lemma get_or_empty_push:
  "get_or_empty (entry_push m k v) i = get_or_empty m i @ (if i = k then [v] else [])"
  by (induction m k v rule: entry_push.induct) (auto simp: get_or_empty_def)

lemma dom_entry_push: "dom (map_of (entry_push m k v)) = insert k (dom (map_of m))"
  unfolding dom_map_of_conv_image_fst
  by (induction m k v rule: entry_push.induct) auto

lemma get_or_empty_push_all:
  "get_or_empty (push_all key val xs m) i =
     get_or_empty m i @ map val (filter (\<lambda>x. key x = i) xs)"
  by (induction xs arbitrary: m) (auto simp: push_all_def get_or_empty_push)

lemma dom_push_all: "dom (map_of (push_all key val xs m)) = key ` set xs \<union> dom (map_of m)"
  by (induction xs arbitrary: m) (auto simp: push_all_def dom_entry_push)

lemma get_or_empty_const [simp]: "get_or_empty (map (\<lambda>x. (key x, [])) xs) i = []"
  by (induction xs) (auto simp: get_or_empty_def)

lemma map_of_const_dom [simp]: "dom (map_of (map (\<lambda>x. (key x, c)) xs)) = key ` set xs"
  by (auto simp: dom_map_of_conv_image_fst image_image)

end
