(* ===== verification/Serde.thy ===== *)
theory Serde
  imports Prelude
begin

text \<open>
  The JSON library. \<open>serde_json\<close> is a third-party crate, so the model does not define it: the
  type \<open>serde_json::Value\<close> is a type variable \<open>'v\<close>, and the operations the sources call are the
  fields of a record \<open>'v serde_json\<close> that every definition which calls them takes as an argument.
  \<open>json_lit\<close> is the syntax of the \<open>json!\<close> literals the sources write; \<open>sj_json\<close> is the macro.

  What the sources rely on is named here as two predicates, used as hypotheses where a property
  needs them: \<open>serde_accessors\<close> (accessors on a value built from a literal) and
  \<open>serde_roundtrip\<close> (printing a value and parsing the text gives the value back).
  \<open>lit_serde\<close> is an executable instance, which shows that the hypotheses can hold.
\<close>

datatype json_lit =
    JNull
  | JBool bool
  | JU32 u32
  | JStr string
  | JArr "json_lit list"
  | JObj "(string \<times> json_lit) list"

record 'v serde_json =
  sj_from_str :: "string \<Rightarrow> string + 'v"
  sj_to_string :: "'v \<Rightarrow> string + string"
  sj_get :: "'v \<Rightarrow> string \<Rightarrow> 'v option"
  sj_as_str :: "'v \<Rightarrow> string option"
  sj_as_array :: "'v \<Rightarrow> 'v list option"
  sj_is_null :: "'v \<Rightarrow> bool"
  sj_json :: "json_lit \<Rightarrow> 'v"

definition serde_accessors :: "'v serde_json \<Rightarrow> bool" where
  "serde_accessors S \<longleftrightarrow>
     (\<forall>kvs k. distinct (map fst kvs) \<longrightarrow>
        sj_get S (sj_json S (JObj kvs)) k = map_option (sj_json S) (map_of kvs k)) \<and>
     (\<forall>s. sj_as_str S (sj_json S (JStr s)) = Some s) \<and>
     (\<forall>xs. sj_as_array S (sj_json S (JArr xs)) = Some (map (sj_json S) xs)) \<and>
     (\<forall>k. sj_get S (sj_json S JNull) k = None) \<and>
     (\<forall>l. sj_is_null S (sj_json S l) \<longleftrightarrow> l = JNull)"

definition serde_roundtrip :: "'v serde_json \<Rightarrow> json_lit \<Rightarrow> bool" where
  "serde_roundtrip S l \<longleftrightarrow>
     (\<exists>t. sj_to_string S (sj_json S l) = Inr t \<and> sj_from_str S t = Inr (sj_json S l))"

lemma serde_accessorsD:
  assumes "serde_accessors S"
  shows "distinct (map fst kvs) \<Longrightarrow>
      sj_get S (sj_json S (JObj kvs)) k = map_option (sj_json S) (map_of kvs k)"
    and "sj_as_str S (sj_json S (JStr s)) = Some s"
    and "sj_as_array S (sj_json S (JArr xs)) = Some (map (sj_json S) xs)"
    and "sj_get S (sj_json S JNull) k = None"
    and "sj_is_null S (sj_json S l) \<longleftrightarrow> l = JNull"
  using assms unfolding serde_accessors_def by blast+

text \<open>
  An instance whose values are the literals themselves; it prints every value of a given table
  as the text listed there and parses that text back.
\<close>

fun lit_get :: "json_lit \<Rightarrow> string \<Rightarrow> json_lit option" where
  "lit_get (JObj kvs) k = map_of kvs k"
| "lit_get _ k = None"

fun lit_as_str :: "json_lit \<Rightarrow> string option" where
  "lit_as_str (JStr s) = Some s"
| "lit_as_str _ = None"

fun lit_as_array :: "json_lit \<Rightarrow> json_lit list option" where
  "lit_as_array (JArr xs) = Some xs"
| "lit_as_array _ = None"

definition lit_serde :: "(string \<times> json_lit) list \<Rightarrow> json_lit serde_json" where
  "lit_serde tab = \<lparr>
     sj_from_str = (\<lambda>t. ok_or (map_of tab t) ''expected value''),
     sj_to_string = (\<lambda>v. ok_or (map_of (map (\<lambda>(t, l). (l, t)) tab) v) ''no text''),
     sj_get = lit_get,
     sj_as_str = lit_as_str,
     sj_as_array = lit_as_array,
     sj_is_null = (\<lambda>v. v = JNull),
     sj_json = (\<lambda>l. l)\<rparr>"

lemma lit_serde_simps [simp]:
  "sj_from_str (lit_serde tab) t = ok_or (map_of tab t) ''expected value''"
  "sj_to_string (lit_serde tab) v = ok_or (map_of (map (\<lambda>(t, l). (l, t)) tab) v) ''no text''"
  "sj_get (lit_serde tab) = lit_get"
  "sj_as_str (lit_serde tab) = lit_as_str"
  "sj_as_array (lit_serde tab) = lit_as_array"
  "sj_is_null (lit_serde tab) = (\<lambda>v. v = JNull)"
  "sj_json (lit_serde tab) = (\<lambda>l. l)"
  by (simp_all add: lit_serde_def)

lemma lit_serde_accessors [simp]: "serde_accessors (lit_serde tab)"
  by (simp add: serde_accessors_def option.map_ident)

lemma lit_serde_roundtrip [simp]: "serde_roundtrip (lit_serde [(t, l)]) l"
  by (simp add: serde_roundtrip_def)

end
