(* ===== verification/Graph.thy ===== *)
theory Graph
  imports Serde
begin

text \<open>
  The workflow graph of \<open>crates/workflow/src/graph.rs\<close>: one record per struct, one datatype per
  enum, with the source's fields and variants (field names carry a prefix for their struct). The
  type variable \<open>'v\<close> is \<open>serde_json::Value\<close>. The serde attributes only say how the
  JSON text looks and have no counterpart here. Derived notions at the end (\<open>node_ids\<close>,
  \<open>edge_rel\<close>) are the vocabulary the properties are stated in.
\<close>

section \<open>Enumerations\<close>

datatype WorkflowNodeKind = KStart | KEnd | KAgent | KCondition | KHumanGate | KTransform | KArena

datatype WorkflowEdgeKind = EDefault | EConditionBranch | EApproval | ERejection | EArenaWinner

datatype AgentOutputCapture = LastMessage | FullText | DiffSummary

datatype ArenaPromoteStrategy = Manual

datatype ArenaApplyStrategy = DiffApply

datatype ConditionRoutingMode = RSingle | RMulti

datatype HumanGateAction = Approve | ApproveOrReject

datatype TransformMode = TTemplate | TRegexExtract | TTruncate

datatype WorkflowCanvasObjectKind = StickyNote | StageGroup

datatype WorkflowCanvasObjectColor = Amber | Blue | Green | Neutral

section \<open>Structs\<close>

record WorkflowNodePosition =
  pos_x :: f64
  pos_y :: f64

record WorkflowCanvasObjectSize =
  size_width :: f64
  size_height :: f64

record WorkflowCanvasStickyNote =
  note_id :: string
  note_kind :: WorkflowCanvasObjectKind
  note_title :: "string option"
  note_content :: string
  note_position :: WorkflowNodePosition
  note_size :: WorkflowCanvasObjectSize
  note_color :: "WorkflowCanvasObjectColor option"

record WorkflowCanvasStageGroup =
  group_id :: string
  group_kind :: WorkflowCanvasObjectKind
  group_title :: string
  group_description :: "string option"
  group_position :: WorkflowNodePosition
  group_size :: WorkflowCanvasObjectSize
  group_color :: "WorkflowCanvasObjectColor option"

record WorkflowCanvasData =
  canvas_notes :: "WorkflowCanvasStickyNote list"
  canvas_groups :: "WorkflowCanvasStageGroup list"

record 'v ArenaAttemptConfig =
  arena_id :: "string option"
  arena_display_name :: "string option"
  arena_role_template_id :: "string option"
  arena_executor_config :: "'v option"
  arena_prompt_template :: "string option"

record ConditionBranch =
  branch_id :: "string option"
  branch_target_node_id :: "string option"
  branch_condition :: "string option"

record 'v WorkflowNodeData =
  display_name :: "string option"
  session_id :: "string option"
  role_template_id :: "string option"
  executor_config :: "'v option"
  prompt_template :: "string option"
  include_workflow_context :: "bool option"
  output_capture :: "AgentOutputCapture option"
  attempts :: "'v ArenaAttemptConfig list option"
  promote_strategy :: "ArenaPromoteStrategy option"
  apply_strategy :: "ArenaApplyStrategy option"
  routing_mode :: "ConditionRoutingMode option"
  branches :: "ConditionBranch list option"
  prompt_to_human :: "string option"
  required_action :: "HumanGateAction option"
  tmode :: "TransformMode option"
  template :: "string option"
  regex :: "string option"
  max_chars :: "nat option"

record 'v WorkflowNode =
  wn_id :: string
  wn_kind :: WorkflowNodeKind
  wn_data :: "'v WorkflowNodeData"
  wn_position :: "WorkflowNodePosition option"

record 'v WorkflowEdge =
  we_id :: string
  we_source :: string
  we_source_handle :: "string option"
  we_target :: string
  we_target_handle :: "string option"
  we_kind :: WorkflowEdgeKind
  we_data :: "'v option"

record 'v WorkflowGraph =
  wg_version :: u32
  wg_nodes :: "'v WorkflowNode list"
  wg_edges :: "'v WorkflowEdge list"
  router_executor_config :: "'v option"
  wg_canvas :: "WorkflowCanvasData option"

text \<open>\<open>WorkflowNodeData::default()\<close>: every field is \<open>None\<close>.\<close>

definition default_node_data :: "'v WorkflowNodeData" where
  "default_node_data = \<lparr>display_name = None, session_id = None, role_template_id = None,
     executor_config = None, prompt_template = None, include_workflow_context = None,
     output_capture = None, attempts = None, promote_strategy = None, apply_strategy = None,
     routing_mode = None, branches = None, prompt_to_human = None, required_action = None,
     tmode = None, template = None, regex = None, max_chars = None\<rparr>"

section \<open>Derived notions\<close>

definition node_ids :: "'v WorkflowGraph \<Rightarrow> string list" where
  "node_ids g = map wn_id (wg_nodes g)"

definition edge_rel :: "'v WorkflowGraph \<Rightarrow> (string \<times> string) set" where
  "edge_rel g = (\<lambda>e. (we_source e, we_target e)) ` set (wg_edges g)"

definition edges_closed :: "'v WorkflowGraph \<Rightarrow> bool" where
  "edges_closed g \<longleftrightarrow>
     (\<forall>e \<in> set (wg_edges g). we_source e \<in> set (node_ids g) \<and> we_target e \<in> set (node_ids g))"

definition find_node :: "'v WorkflowGraph \<Rightarrow> string \<Rightarrow> 'v WorkflowNode option" where
  "find_node g i = find (\<lambda>n. wn_id n = i) (wg_nodes g)"

lemma edge_rel_iff:
  "(u, v) \<in> edge_rel g \<longleftrightarrow> (\<exists>e \<in> set (wg_edges g). we_source e = u \<and> we_target e = v)"
  by (auto simp: edge_rel_def)

lemma finite_edge_rel [simp]: "finite (edge_rel g)"
  by (simp add: edge_rel_def)

lemma edges_closedD:
  "edges_closed g \<Longrightarrow> (u, v) \<in> edge_rel g \<Longrightarrow> u \<in> set (node_ids g) \<and> v \<in> set (node_ids g)"
  by (auto simp: edges_closed_def edge_rel_iff)

lemma find_node_Some:
  "find_node g i = Some n \<Longrightarrow> n \<in> set (wg_nodes g) \<and> wn_id n = i"
  by (auto simp: find_node_def find_Some_iff)

lemma find_node_None: "find_node g i = None \<longleftrightarrow> i \<notin> set (node_ids g)"
  by (auto simp: find_node_def find_None_iff node_ids_def)

lemma find_node_distinct:
  assumes "distinct (node_ids g)" "n \<in> set (wg_nodes g)"
  shows "find_node g (wn_id n) = Some n"
proof (cases "find_node g (wn_id n)")
  case None
  with assms(2) show ?thesis by (auto simp: find_node_None node_ids_def)
next
  case (Some m)
  from find_node_Some [OF this] have "m \<in> set (wg_nodes g)" "wn_id m = wn_id n" by auto
  with assms have "m = n" by (auto simp: node_ids_def distinct_map inj_on_def)
  with Some show ?thesis by simp
qed

section \<open>Graphs of the unit tests\<close>

text \<open>The helpers \<open>node\<close>, \<open>edge\<close> and \<open>graph\<close> of the crate's unit tests, for concrete instances.\<close>

definition test_node :: "string \<Rightarrow> WorkflowNodeKind \<Rightarrow> 'v WorkflowNode" where
  "test_node i k = \<lparr>wn_id = i, wn_kind = k,
     wn_data = default_node_data\<lparr>display_name := Some i\<rparr>, wn_position = None\<rparr>"

definition test_edge :: "string \<Rightarrow> string \<Rightarrow> string \<Rightarrow> 'v WorkflowEdge" where
  "test_edge i s t = \<lparr>we_id = i, we_source = s, we_source_handle = Some ''output-right'',
     we_target = t, we_target_handle = Some ''input-left'', we_kind = EDefault, we_data = None\<rparr>"

definition test_graph :: "'v WorkflowNode list \<Rightarrow> 'v WorkflowEdge list \<Rightarrow> 'v WorkflowGraph" where
  "test_graph ns es = \<lparr>wg_version = 2, wg_nodes = ns, wg_edges = es,
     router_executor_config = None, wg_canvas = None\<rparr>"

lemma test_simps [simp]:
  "wn_id (test_node i k) = i" "wn_kind (test_node i k) = k"
  "wn_data (test_node i k) = default_node_data\<lparr>display_name := Some i\<rparr>"
  "we_source (test_edge i s t) = s" "we_target (test_edge i s t) = t"
  "wg_nodes (test_graph ns es) = ns" "wg_edges (test_graph ns es) = es"
  "wg_version (test_graph ns es) = 2" "router_executor_config (test_graph ns es) = None"
  by (simp_all add: test_node_def test_edge_def test_graph_def)

text \<open>A linear graph and a graph whose condition node chooses between two targets.\<close>

definition line_graph :: "json_lit WorkflowGraph" where
  "line_graph = test_graph
     [test_node ''start'' KStart, test_node ''agent'' KAgent, test_node ''end'' KEnd]
     [test_edge ''e1'' ''start'' ''agent'', test_edge ''e2'' ''agent'' ''end'']"

definition test_branch :: "string \<Rightarrow> string \<Rightarrow> ConditionBranch" where
  "test_branch t c = \<lparr>branch_id = Some (''branch-'' @ t), branch_target_node_id = Some t,
     branch_condition = Some c\<rparr>"

definition condition_test_node :: "'v WorkflowNode" where
  "condition_test_node = (test_node ''condition'' KCondition)
     \<lparr>wn_data := default_node_data\<lparr>display_name := Some ''condition'',
        branches := Some [test_branch ''agent'' ''Needs implementation'',
                          test_branch ''end'' ''No work needed'']\<rparr>\<rparr>"

definition condition_graph :: "json_lit WorkflowGraph" where
  "condition_graph = (test_graph
     [test_node ''start'' KStart, condition_test_node, test_node ''agent'' KAgent,
      test_node ''end'' KEnd]
     [test_edge ''e1'' ''start'' ''condition'', test_edge ''e2'' ''condition'' ''agent'',
      test_edge ''e3'' ''condition'' ''end'', test_edge ''e4'' ''agent'' ''end''])
     \<lparr>router_executor_config := Some (JObj [(''executor'', JStr ''codex'')])\<rparr>"

end
