(* ===== verification/Validation.thy ===== *)
theory Validation
  imports Graph
begin

text \<open>
  Graph validation, \<open>crates/workflow/src/validation.rs\<close>: the draft check \<open>validate_graph\<close>, the
  check before a run \<open>validate_graph_for_run\<close>, and the searches they use (the three-colour cycle
  check \<open>visit_for_cycle\<close> and the breadth-first search \<open>reachable_nodes\<close>).

  The specification is \<open>graph_wf\<close>, stated with reachability and acyclicity of the edge relation.
  The lemmas show that both searches terminate and decide these notions, and that
  \<open>validate_graph\<close> accepts exactly the well-formed graphs.
\<close>

section \<open>Definitions\<close>

record ValidatedGraph =
  vg_version :: u32
  vg_start_node_id :: string
  vg_end_node_ids :: "string list"

datatype ValidationError = ValidationError (ve_message: string)

datatype VisitState = Visiting | Visited

type_synonym adjacency = "(string \<times> string list) list"
type_synonym visit_states = "string \<rightharpoonup> VisitState"

definition adjacency_map :: "'v WorkflowGraph \<Rightarrow> adjacency" where
  "adjacency_map g =
     push_all we_source we_target (wg_edges g) (map (\<lambda>n. (wn_id n, [])) (wg_nodes g))"

definition condition_outgoing_edges :: "'v WorkflowGraph \<Rightarrow> string \<Rightarrow> 'v WorkflowEdge list" where
  "condition_outgoing_edges g i = filter (\<lambda>e. we_source e = i) (wg_edges g)"

definition condition_nodes :: "'v WorkflowGraph \<Rightarrow> 'v WorkflowNode list" where
  "condition_nodes g = filter (\<lambda>n. wn_kind n = KCondition) (wg_nodes g)"

definition reject_duplicate_condition_targets :: "'v WorkflowGraph \<Rightarrow> ValidationError + unit" where
  "reject_duplicate_condition_targets g =
     for_each (\<lambda>n.
       case first_dup {} (map we_target (condition_outgoing_edges g (wn_id n))) of
         Some t \<Rightarrow> Inl (ValidationError (''condition node '' @ quoted (wn_id n) @
                    '' has duplicate outgoing target '' @ quoted t))
       | None \<Rightarrow> Inr ()) (condition_nodes g)"

text \<open>
  The recursive cycle check. The states are threaded through the loop over the targets, so a
  call depends on the result of the call before it; the termination proof below needs that a
  successful call only adds states.
\<close>

function (sequential)
  visit_for_cycle :: "adjacency \<Rightarrow> string \<Rightarrow> visit_states \<Rightarrow> ValidationError + visit_states"
and visit_targets :: "adjacency \<Rightarrow> string list \<Rightarrow> visit_states \<Rightarrow> ValidationError + visit_states"
where
  "visit_for_cycle adj node_id st =
     (case st node_id of
        Some Visiting \<Rightarrow>
          Inl (ValidationError (''workflow graph contains a cycle at '' @ quoted node_id))
      | Some Visited \<Rightarrow> Inr st
      | None \<Rightarrow>
          and_then (visit_targets adj (get_or_empty adj node_id) (st(node_id \<mapsto> Visiting)))
            (\<lambda>st'. Inr (st'(node_id \<mapsto> Visited))))"
| "visit_targets adj [] st = Inr st"
| "visit_targets adj (t # ts) st =
     (case visit_for_cycle adj t st of
        Inl e \<Rightarrow> Inl e
      | Inr st' \<Rightarrow> visit_targets adj ts st')"
  by pat_completeness auto

lemma visit_states_grow:
  "visit_for_cycle_visit_targets_dom (Inl (adj, n, st)) \<Longrightarrow>
     visit_for_cycle adj n st = Inr st' \<Longrightarrow> dom st \<subseteq> dom st'"
  "visit_for_cycle_visit_targets_dom (Inr (adj, ts, st)) \<Longrightarrow>
     visit_targets adj ts st = Inr st'' \<Longrightarrow> dom st \<subseteq> dom st''"
proof (induction adj n st and adj ts st arbitrary: st' and st'' rule: visit_for_cycle_visit_targets.pinduct)
  case (1 adj n st)
  show ?case
  proof (cases "st n")
    case None
    with 1 obtain st1 where st1: "visit_targets adj (get_or_empty adj n) (st(n \<mapsto> Visiting)) = Inr st1"
      and st': "st' = st1(n \<mapsto> Visited)"
      by (auto simp: visit_for_cycle.psimps and_then_eq_Inr)
    from "1.IH" [OF None st1] have "dom (st(n \<mapsto> Visiting)) \<subseteq> dom st1" .
    with st' show ?thesis by auto
  next
    case (Some s)
    with 1 show ?thesis by (auto simp: visit_for_cycle.psimps split: VisitState.splits)
  qed
next
  case (2 adj st)
  then show ?case by (simp add: visit_targets.psimps)
next
  case (3 adj t ts st)
  then obtain st1 where st1: "visit_for_cycle adj t st = Inr st1"
    and rest: "visit_targets adj ts st1 = Inr st''"
    by (auto simp: visit_targets.psimps split: sum.splits)
  from "3.IH"(1) [OF st1] "3.IH"(2) [OF st1 rest] show ?case by blast
qed

text \<open>
  Termination: the nodes and targets of the adjacency map that have no state yet become fewer at
  every visit of a node of the map; a node outside the map has no targets.
\<close>

definition adj_nodes :: "adjacency \<Rightarrow> string set" where
  "adj_nodes adj = fst ` set adj \<union> \<Union> (set ` snd ` set adj)"

lemma finite_adj_nodes [simp]: "finite (adj_nodes adj)"
  by (auto simp: adj_nodes_def)

lemma get_or_empty_adj_nodes: "set (get_or_empty adj n) \<subseteq> adj_nodes adj"
  by (auto simp: get_or_empty_def adj_nodes_def split: option.splits)
     (metis map_of_SomeD snd_conv)

lemma get_or_empty_outside: "n \<notin> adj_nodes adj \<Longrightarrow> get_or_empty adj n = []"
  by (auto simp: get_or_empty_def adj_nodes_def split: option.splits)
     (metis fst_conv image_eqI map_of_SomeD)

definition unseen :: "adjacency \<Rightarrow> visit_states \<Rightarrow> nat" where
  "unseen adj st = card (adj_nodes adj - dom st)"

lemma unseen_mono: "dom st \<subseteq> dom st' \<Longrightarrow> unseen adj st' \<le> unseen adj st"
  by (auto simp: unseen_def intro!: card_mono)

lemma unseen_visit:
  "st n = None \<Longrightarrow> n \<in> adj_nodes adj \<Longrightarrow> unseen adj (st(n \<mapsto> s)) < unseen adj st"
  unfolding unseen_def by (rule psubset_card_mono) auto

termination visit_for_cycle
proof (relation "measures
    [\<lambda>x. case x of Inl (adj, n, st) \<Rightarrow> unseen adj st | Inr (adj, ts, st) \<Rightarrow> unseen adj st,
     \<lambda>x. case x of Inl (adj, n, st) \<Rightarrow> 1 | Inr (adj, ts, st) \<Rightarrow> 2 * length ts]", goal_cases)
  case 1
  then show ?case by simp
next
  case (2 adj n st)
  show ?case
  proof (cases "n \<in> adj_nodes adj")
    case True
    with 2 show ?thesis using unseen_visit [of st n adj Visiting] by simp
  next
    case False
    have "unseen adj (st(n \<mapsto> Visiting)) \<le> unseen adj st" by (rule unseen_mono) auto
    with False show ?thesis by (auto simp: get_or_empty_outside)
  qed
next
  case (3 adj t ts st)
  then show ?case by simp
next
  case (4 adj t ts st st')
  from visit_states_grow(1) [OF 4(2) 4(1)] have "unseen adj st' \<le> unseen adj st"
    by (rule unseen_mono)
  then show ?case by auto
qed

declare visit_for_cycle.simps [simp del] visit_targets.simps [simp del]

text \<open>\<open>reject_cycles\<close> visits the nodes in the order of the graph and skips nodes with a state.\<close>

fun reject_cycles_from :: "adjacency \<Rightarrow> string list \<Rightarrow> visit_states \<Rightarrow> ValidationError + visit_states" where
  "reject_cycles_from adj [] st = Inr st"
| "reject_cycles_from adj (n # ns) st =
     (case st n of
        Some _ \<Rightarrow> reject_cycles_from adj ns st
      | None \<Rightarrow> and_then (visit_for_cycle adj n st) (reject_cycles_from adj ns))"

definition reject_cycles :: "'v WorkflowGraph \<Rightarrow> adjacency \<Rightarrow> ValidationError + unit" where
  "reject_cycles g adj =
     and_then (reject_cycles_from adj (map wn_id (wg_nodes g)) Map.empty) (\<lambda>_. Inr ())"

text \<open>The breadth-first search; the queue is a list, front first.\<close>

function reachable_loop :: "adjacency \<Rightarrow> string set \<Rightarrow> string list \<Rightarrow> string set" where
  "reachable_loop adj reachable [] = reachable"
| "reachable_loop adj reachable (n # queue) =
     (if n \<in> reachable then reachable_loop adj reachable queue
      else reachable_loop adj (insert n reachable) (queue @ get_or_empty adj n))"
  by pat_completeness auto
termination
proof (relation "measures
    [\<lambda>(adj, reachable, queue). card ((set queue \<union> adj_nodes adj) - reachable),
     \<lambda>(adj, reachable, queue). length queue]", goal_cases)
  case 1
  then show ?case by simp
next
  case (2 adj reachable n queue)
  then have "(set queue \<union> adj_nodes adj) - reachable = (set (n # queue) \<union> adj_nodes adj) - reachable"
    by auto
  then show ?case by simp
next
  case (3 adj reachable n queue)
  with get_or_empty_adj_nodes [of adj n] have "(set (queue @ get_or_empty adj n) \<union> adj_nodes adj) - insert n reachable
      \<subset> (set (n # queue) \<union> adj_nodes adj) - reachable"
    by auto
  then have "card ((set (queue @ get_or_empty adj n) \<union> adj_nodes adj) - insert n reachable)
      < card ((set (n # queue) \<union> adj_nodes adj) - reachable)"
    by (rule psubset_card_mono [rotated]) simp
  then show ?case by simp
qed

definition reachable_nodes :: "string \<Rightarrow> adjacency \<Rightarrow> string set" where
  "reachable_nodes start adj = reachable_loop adj {} [start]"

definition check_edge :: "string set \<Rightarrow> 'v WorkflowEdge \<Rightarrow> ValidationError + unit" where
  "check_edge ids e =
     (if we_source e \<notin> ids
      then Inl (ValidationError (''edge '' @ quoted (we_id e) @ '' has missing source node '' @
             quoted (we_source e)))
      else if we_target e \<notin> ids
      then Inl (ValidationError (''edge '' @ quoted (we_id e) @ '' has missing target node '' @
             quoted (we_target e)))
      else Inr ())"

definition check_reachable :: "string set \<Rightarrow> 'v WorkflowNode \<Rightarrow> ValidationError + unit" where
  "check_reachable reachable n =
     (if wn_kind n \<noteq> KStart \<and> wn_id n \<notin> reachable
      then Inl (ValidationError (''unreachable node '' @ quoted (wn_id n)))
      else Inr ())"

definition validate_graph :: "'v WorkflowGraph \<Rightarrow> ValidationError + ValidatedGraph" where
  "validate_graph g =
     (if wg_version g \<noteq> 1 \<and> wg_version g \<noteq> 2
      then Inl (ValidationError (''unsupported workflow graph version '' @
             dec_of_nat (unat (wg_version g))))
      else case first_dup {} (map wn_id (wg_nodes g)) of
        Some i \<Rightarrow> Inl (ValidationError (''duplicate node id '' @ quoted i))
      | None \<Rightarrow>
        (let ids = set (map wn_id (wg_nodes g));
             start_nodes = filter (\<lambda>n. wn_kind n = KStart) (wg_nodes g);
             end_node_ids = map wn_id (filter (\<lambda>n. wn_kind n = KEnd) (wg_nodes g))
         in if start_nodes = [] then Inl (ValidationError ''missing start node'')
            else if 1 < length start_nodes
            then Inl (ValidationError ''workflow graph must contain exactly one start node'')
            else if end_node_ids = [] then Inl (ValidationError ''missing end node'')
            else and_then (for_each (check_edge ids) (wg_edges g)) (\<lambda>_.
              let adj = adjacency_map g in
              and_then (reject_duplicate_condition_targets g) (\<lambda>_.
              and_then (reject_cycles g adj) (\<lambda>_.
              let start_node_id = wn_id (hd start_nodes) in
              and_then (for_each (check_reachable (reachable_nodes start_node_id adj)) (wg_nodes g)) (\<lambda>_.
              Inr \<lparr>vg_version = wg_version g, vg_start_node_id = start_node_id,
                   vg_end_node_ids = end_node_ids\<rparr>))))))"

text \<open>Routing checks before a run.\<close>

definition is_known_executor :: "string \<Rightarrow> bool" where
  "is_known_executor executor =
     (to_ascii_uppercase (replace_char CHR ''-'' CHR ''_'' (trim executor)) \<in>
        {''CLAUDE_CODE'', ''GEMINI'', ''CODEX'', ''OH_MY_PI'', ''OPENCODE'', ''DEEPSEEK_HARNESS''})"

definition router_executor_config_has_executor :: "'v serde_json \<Rightarrow> 'v \<Rightarrow> bool" where
  "router_executor_config_has_executor S config =
     (case Option.bind (sj_get S config ''executor'') (sj_as_str S) of
        Some executor \<Rightarrow> is_known_executor executor
      | None \<Rightarrow> False)"

fun check_branches ::
  "string \<Rightarrow> string set \<Rightarrow> string set \<Rightarrow> ConditionBranch list \<Rightarrow> ValidationError + string set"
where
  "check_branches node outgoing seen [] = Inr seen"
| "check_branches node outgoing seen (b # bs) =
     (case branch_target_node_id b of
        None \<Rightarrow> Inl (ValidationError (''condition node '' @ quoted node @ '' has a branch without target''))
      | Some t \<Rightarrow>
          if t \<in> seen
          then Inl (ValidationError (''condition node '' @ quoted node @
                 '' has duplicate branch target '' @ quoted t))
          else if t \<notin> outgoing
          then Inl (ValidationError (''condition node '' @ quoted node @
                 '' has stale branch target '' @ quoted t))
          else if trim (case branch_condition b of None \<Rightarrow> [] | Some c \<Rightarrow> c) = []
          then Inl (ValidationError (''condition node '' @ quoted node @
                 '' has empty branch condition for target '' @ quoted t))
          else check_branches node outgoing (insert t seen) bs)"

text \<open>
  The last loop of the source iterates over a \<open>HashSet\<close>, whose order is not specified: the
  parameter \<open>hash_iter\<close> is that order.
\<close>

definition validate_condition_node ::
  "(string set \<Rightarrow> string list) \<Rightarrow> 'v WorkflowGraph \<Rightarrow> 'v WorkflowNode \<Rightarrow> ValidationError + unit"
where
  "validate_condition_node hash_iter g n =
     (let outgoing = set (map we_target (condition_outgoing_edges g (wn_id n)));
          bs = (case branches (wn_data n) of None \<Rightarrow> [] | Some bs \<Rightarrow> bs)
      in and_then (check_branches (wn_id n) outgoing {} bs) (\<lambda>branch_targets.
         for_each (\<lambda>t.
           if t \<notin> branch_targets
           then Inl (ValidationError (''condition node '' @ quoted (wn_id n) @
                  '' is missing branch config for target '' @ quoted t))
           else Inr ()) (hash_iter outgoing)))"

definition validate_condition_routing_for_run ::
  "'v serde_json \<Rightarrow> (string set \<Rightarrow> string list) \<Rightarrow> 'v WorkflowGraph \<Rightarrow> ValidationError + unit"
where
  "validate_condition_routing_for_run S hash_iter g =
     (if condition_nodes g = [] then Inr ()
      else if (case router_executor_config g of
                 None \<Rightarrow> True
               | Some config \<Rightarrow> \<not> router_executor_config_has_executor S config)
      then Inl (ValidationError ''workflow with condition nodes requires router executor config'')
      else for_each (validate_condition_node hash_iter g) (condition_nodes g))"

definition validate_graph_for_run ::
  "'v serde_json \<Rightarrow> (string set \<Rightarrow> string list) \<Rightarrow> 'v WorkflowGraph \<Rightarrow> ValidationError + ValidatedGraph"
where
  "validate_graph_for_run S hash_iter g =
     and_then (validate_graph g) (\<lambda>validated.
     and_then (validate_condition_routing_for_run S hash_iter g) (\<lambda>_. Inr validated))"

section \<open>Specification\<close>

text \<open>
  A well-formed graph, as the error messages of the source describe it.
\<close>

definition start_ids :: "'v WorkflowGraph \<Rightarrow> string list" where
  "start_ids g = map wn_id (filter (\<lambda>n. wn_kind n = KStart) (wg_nodes g))"

definition end_ids :: "'v WorkflowGraph \<Rightarrow> string list" where
  "end_ids g = map wn_id (filter (\<lambda>n. wn_kind n = KEnd) (wg_nodes g))"

definition condition_targets_distinct :: "'v WorkflowGraph \<Rightarrow> bool" where
  "condition_targets_distinct g \<longleftrightarrow>
     (\<forall>n \<in> set (wg_nodes g). wn_kind n = KCondition \<longrightarrow>
        distinct (map we_target (filter (\<lambda>e. we_source e = wn_id n) (wg_edges g))))"

definition all_reachable :: "'v WorkflowGraph \<Rightarrow> string \<Rightarrow> bool" where
  "all_reachable g s \<longleftrightarrow> (\<forall>i \<in> set (node_ids g). (s, i) \<in> (edge_rel g)\<^sup>*)"

definition graph_wf :: "'v WorkflowGraph \<Rightarrow> bool" where
  "graph_wf g \<longleftrightarrow>
     wg_version g \<in> {1, 2} \<and> distinct (node_ids g) \<and> length (start_ids g) = 1 \<and>
     end_ids g \<noteq> [] \<and> edges_closed g \<and> condition_targets_distinct g \<and>
     acyclic (edge_rel g) \<and> all_reachable g (hd (start_ids g))"

text \<open>What a condition node needs before a run: one branch per outgoing target and no other,
  each with a target and a non-blank condition.\<close>

definition branches_complete :: "'v WorkflowGraph \<Rightarrow> 'v WorkflowNode \<Rightarrow> bool" where
  "branches_complete g n \<longleftrightarrow>
     (let outgoing = we_target ` {e \<in> set (wg_edges g). we_source e = wn_id n};
          bs = (case branches (wn_data n) of None \<Rightarrow> [] | Some bs \<Rightarrow> bs)
      in distinct (map branch_target_node_id bs) \<and>
         branch_target_node_id ` set bs = Some ` outgoing \<and>
         (\<forall>b \<in> set bs. \<exists>c. branch_condition b = Some c \<and> trim c \<noteq> []))"

definition routing_ready :: "'v serde_json \<Rightarrow> 'v WorkflowGraph \<Rightarrow> bool" where
  "routing_ready S g \<longleftrightarrow>
     condition_nodes g = [] \<or>
     (\<exists>config. router_executor_config g = Some config \<and>
        router_executor_config_has_executor S config) \<and>
     (\<forall>n \<in> set (condition_nodes g). branches_complete g n)"

section \<open>The adjacency map\<close>

definition adj_rel :: "adjacency \<Rightarrow> (string \<times> string) set" where
  "adj_rel adj = {(u, v). v \<in> set (get_or_empty adj u)}"

lemma get_or_empty_adjacency_map:
  "get_or_empty (adjacency_map g) u = map we_target (filter (\<lambda>e. we_source e = u) (wg_edges g))"
  by (simp add: adjacency_map_def get_or_empty_push_all)

lemma adj_rel_adjacency_map [simp]: "adj_rel (adjacency_map g) = edge_rel g"
  by (auto simp: adj_rel_def get_or_empty_adjacency_map edge_rel_iff)

section \<open>The cycle check decides acyclicity\<close>

definition coloured :: "VisitState \<Rightarrow> visit_states \<Rightarrow> string set" where
  "coloured c st = {n. st n = Some c}"

lemma coloured_upd:
  "coloured c (st(n \<mapsto> c')) = (if c = c' then insert n (coloured c st) else coloured c st - {n})"
  by (auto simp: coloured_def)

text \<open>
  Finished nodes have only finished successors and lie on no cycle.
\<close>

definition finished_ok :: "adjacency \<Rightarrow> visit_states \<Rightarrow> bool" where
  "finished_ok adj st \<longleftrightarrow>
     adj_rel adj `` coloured Visited st \<subseteq> coloured Visited st \<and>
     (\<forall>n \<in> coloured Visited st. (n, n) \<notin> (adj_rel adj)\<^sup>+)"

lemma closed_trancl:
  assumes "r `` A \<subseteq> A" "(x, y) \<in> r\<^sup>+" "x \<in> A"
  shows "y \<in> A"
  using assms(2,3,1) by (induction rule: trancl_induct) auto

lemma finished_ok_finish:
  assumes ok: "finished_ok adj st" and grey: "st n = Some Visiting"
    and succs: "set (get_or_empty adj n) \<subseteq> coloured Visited st"
  shows "finished_ok adj (st(n \<mapsto> Visited))"
proof -
  let ?B = "coloured Visited st"
  from ok have closed: "adj_rel adj `` ?B \<subseteq> ?B" by (simp add: finished_ok_def)
  have "n \<notin> ?B" using grey by (simp add: coloured_def)
  have "(n, n) \<notin> (adj_rel adj)\<^sup>+"
  proof
    assume "(n, n) \<in> (adj_rel adj)\<^sup>+"
    then obtain m where "(n, m) \<in> adj_rel adj" "(m, n) \<in> (adj_rel adj)\<^sup>*"
      by (auto dest: tranclD)
    then have "m \<in> ?B" and "m = n \<or> (m, n) \<in> (adj_rel adj)\<^sup>+"
      using succs by (auto simp: adj_rel_def dest: rtranclD)
    with closed have "n \<in> ?B" by (auto dest: closed_trancl)
    with \<open>n \<notin> ?B\<close> show False ..
  qed
  with ok succs show ?thesis
    by (auto simp: finished_ok_def coloured_upd adj_rel_def)
qed

lemma visit_sound:
  "visit_for_cycle adj n st = Inr st1 \<Longrightarrow> finished_ok adj st \<Longrightarrow>
     finished_ok adj st1 \<and> coloured Visiting st1 = coloured Visiting st \<and>
     insert n (coloured Visited st) \<subseteq> coloured Visited st1"
  "visit_targets adj ts st = Inr st2 \<Longrightarrow> finished_ok adj st \<Longrightarrow>
     finished_ok adj st2 \<and> coloured Visiting st2 = coloured Visiting st \<and>
     set ts \<union> coloured Visited st \<subseteq> coloured Visited st2"
proof (induction adj n st and adj ts st arbitrary: st1 and st2
    rule: visit_for_cycle_visit_targets.induct)
  case (1 adj n st)
  show ?case
  proof (cases "st n")
    case None
    let ?st0 = "st(n \<mapsto> Visiting)"
    from 1 None obtain st' where st': "visit_targets adj (get_or_empty adj n) ?st0 = Inr st'"
      and st1: "st1 = st'(n \<mapsto> Visited)"
      by (auto simp: visit_for_cycle.simps and_then_eq_Inr)
    have black: "coloured Visited ?st0 = coloured Visited st"
      using None by (auto simp: coloured_def)
    have grey: "coloured Visiting ?st0 = insert n (coloured Visiting st)"
      by (simp add: coloured_upd)
    from black "1.prems"(2) have "finished_ok adj ?st0" by (simp add: finished_ok_def)
    from "1.IH" [OF None st' this, unfolded black grey] have IH: "finished_ok adj st'"
      "coloured Visiting st' = insert n (coloured Visiting st)"
      "set (get_or_empty adj n) \<union> coloured Visited st \<subseteq> coloured Visited st'"
      by blast+
    then have "st' n = Some Visiting" by (auto simp: coloured_def)
    from finished_ok_finish [OF IH(1) this] IH(3) have "finished_ok adj st1"
      by (simp add: st1)
    moreover have "n \<notin> coloured Visiting st" using None by (simp add: coloured_def)
    then have "coloured Visiting st1 = coloured Visiting st"
      using IH(2) by (simp add: st1 coloured_upd)
    moreover have "insert n (coloured Visited st) \<subseteq> coloured Visited st1"
      using IH(3) by (auto simp: st1 coloured_upd)
    ultimately show ?thesis by blast
  next
    case (Some c)
    with 1 show ?thesis
      by (auto simp: visit_for_cycle.simps coloured_def split: VisitState.splits)
  qed
next
  case (2 adj st)
  then show ?case by (simp add: visit_targets.simps)
next
  case (3 adj t ts st)
  then obtain st' where st': "visit_for_cycle adj t st = Inr st'"
    and rest: "visit_targets adj ts st' = Inr st2"
    by (auto simp: visit_targets.simps split: sum.splits)
  from "3.IH"(1) [OF st' "3.prems"(2)] "3.IH"(2) [OF st' rest] show ?case by auto
qed

lemma visit_error:
  "visit_for_cycle adj n st = Inl e \<Longrightarrow> finished_ok adj st \<Longrightarrow>
     (\<And>g. g \<in> coloured Visiting st \<Longrightarrow> (g, n) \<in> (adj_rel adj)\<^sup>+) \<Longrightarrow>
     \<exists>m. (m, m) \<in> (adj_rel adj)\<^sup>+ \<and>
         e = ValidationError (''workflow graph contains a cycle at '' @ quoted m)"
  "visit_targets adj ts st = Inl e \<Longrightarrow> finished_ok adj st \<Longrightarrow>
     (\<And>g t. g \<in> coloured Visiting st \<Longrightarrow> t \<in> set ts \<Longrightarrow> (g, t) \<in> (adj_rel adj)\<^sup>+) \<Longrightarrow>
     \<exists>m. (m, m) \<in> (adj_rel adj)\<^sup>+ \<and>
         e = ValidationError (''workflow graph contains a cycle at '' @ quoted m)"
proof (induction adj n st and adj ts st rule: visit_for_cycle_visit_targets.induct)
  case (1 adj n st)
  show ?case
  proof (cases "st n")
    case None
    let ?st0 = "st(n \<mapsto> Visiting)"
    from 1 None have err: "visit_targets adj (get_or_empty adj n) ?st0 = Inl e"
      by (auto simp: visit_for_cycle.simps and_then_eq_Inl)
    have "coloured Visited ?st0 = coloured Visited st"
      using None by (auto simp: coloured_def)
    with "1.prems"(2) have ok: "finished_ok adj ?st0" by (simp add: finished_ok_def)
    have "(g, t) \<in> (adj_rel adj)\<^sup>+"
      if "g \<in> coloured Visiting ?st0" "t \<in> set (get_or_empty adj n)" for g t
    proof -
      from that(2) have step: "(n, t) \<in> adj_rel adj" by (simp add: adj_rel_def)
      from that(1) have "g = n \<or> g \<in> coloured Visiting st" by (auto simp: coloured_def split: if_splits)
      with step "1.prems"(3) show ?thesis by (auto intro: trancl_into_trancl)
    qed
    from "1.IH" [OF None err ok this] show ?thesis by blast
  next
    case (Some c)
    with 1 show ?thesis
      by (auto simp: visit_for_cycle.simps coloured_def split: VisitState.splits)
  qed
next
  case (2 adj st)
  then show ?case by (simp add: visit_targets.simps)
next
  case (3 adj t ts st)
  show ?case
  proof (cases "visit_for_cycle adj t st")
    case (Inl e')
    with "3.prems" "3.IH"(1) show ?thesis by (auto simp: visit_targets.simps)
  next
    case (Inr st')
    from visit_sound(1) [OF this "3.prems"(2)] have "finished_ok adj st'"
      "coloured Visiting st' = coloured Visiting st" by auto
    with Inr "3.prems" "3.IH"(2) [OF Inr] show ?thesis by (auto simp: visit_targets.simps)
  qed
qed

lemma finished_ok_empty [simp]: "finished_ok adj Map.empty"
  by (simp add: finished_ok_def coloured_def)

lemma no_grey_empty [simp]: "coloured Visiting Map.empty = {}"
  by (simp add: coloured_def)

lemma reject_cycles_from_ok:
  "reject_cycles_from adj ns st = Inr st' \<Longrightarrow> finished_ok adj st \<Longrightarrow>
     coloured Visiting st = {} \<Longrightarrow>
     finished_ok adj st' \<and> set ns \<union> coloured Visited st \<subseteq> coloured Visited st'"
proof (induction adj ns st rule: reject_cycles_from.induct)
  case (1 adj st)
  then show ?case by simp
next
  case (2 adj n ns st)
  show ?case
  proof (cases "st n")
    case None
    with 2 obtain st1 where st1: "visit_for_cycle adj n st = Inr st1"
      and rest: "reject_cycles_from adj ns st1 = Inr st'"
      by (auto simp: and_then_eq_Inr)
    from visit_sound(1) [OF st1 "2.prems"(2)] "2.prems"(3)
    have "finished_ok adj st1" "coloured Visiting st1 = {}"
      "insert n (coloured Visited st) \<subseteq> coloured Visited st1" by auto
    with "2.IH"(1) [OF None rest] show ?thesis by auto
  next
    case (Some c)
    with "2.prems"(3) have "c = Visited" by (cases c) (auto simp: coloured_def)
    with Some 2 show ?thesis by (auto simp: coloured_def)
  qed
qed

lemma reject_cycles_from_error:
  "reject_cycles_from adj ns st = Inl e \<Longrightarrow> finished_ok adj st \<Longrightarrow>
     coloured Visiting st = {} \<Longrightarrow>
     \<exists>m. (m, m) \<in> (adj_rel adj)\<^sup>+ \<and>
         e = ValidationError (''workflow graph contains a cycle at '' @ quoted m)"
proof (induction adj ns st rule: reject_cycles_from.induct)
  case (1 adj st)
  then show ?case by simp
next
  case (2 adj n ns st)
  show ?case
  proof (cases "st n")
    case (Some c)
    with 2 show ?thesis by simp
  next
    case None
    show ?thesis
    proof (cases "visit_for_cycle adj n st")
      case (Inl e')
      with visit_error(1) [OF Inl "2.prems"(2)] "2.prems" None show ?thesis by auto
    next
      case (Inr st1)
      from visit_sound(1) [OF Inr "2.prems"(2)] "2.prems"(3)
      have "finished_ok adj st1" "coloured Visiting st1 = {}" by auto
      with 2 None Inr show ?thesis by simp
    qed
  qed
qed

lemma cycle_starts_at_source: "(m, m) \<in> r\<^sup>+ \<Longrightarrow> m \<in> Domain r"
  by (auto dest: tranclD)

lemma reject_cycles_ok:
  assumes "edges_closed g"
  shows "reject_cycles g (adjacency_map g) = Inr () \<longleftrightarrow> acyclic (edge_rel g)"
proof
  assume "reject_cycles g (adjacency_map g) = Inr ()"
  then obtain st where "reject_cycles_from (adjacency_map g) (node_ids g) Map.empty = Inr st"
    by (auto simp: reject_cycles_def and_then_eq_Inr node_ids_def)
  from reject_cycles_from_ok [OF this] have fin: "finished_ok (adjacency_map g) st"
    and all: "set (node_ids g) \<subseteq> coloured Visited st" by auto
  have "(m, m) \<notin> (edge_rel g)\<^sup>+" for m
  proof
    assume cyc: "(m, m) \<in> (edge_rel g)\<^sup>+"
    then have "m \<in> set (node_ids g)"
      using assms by (auto dest!: cycle_starts_at_source dest: edges_closedD)
    with all fin cyc show False by (auto simp: finished_ok_def)
  qed
  then show "acyclic (edge_rel g)" by (simp add: acyclic_def)
next
  assume acyc: "acyclic (edge_rel g)"
  show "reject_cycles g (adjacency_map g) = Inr ()"
  proof (cases "reject_cycles_from (adjacency_map g) (map wn_id (wg_nodes g)) Map.empty")
    case (Inl e)
    from reject_cycles_from_error [OF this] acyc show ?thesis by (auto simp: acyclic_def)
  next
    case (Inr st)
    then show ?thesis by (simp add: reject_cycles_def)
  qed
qed

section \<open>The breadth-first search computes reachability\<close>

lemma reachable_loop_correct:
  assumes "adj_rel adj `` reachable \<subseteq> reachable \<union> set queue"
  shows "reachable_loop adj reachable queue = reachable \<union> (adj_rel adj)\<^sup>* `` set queue"
  using assms
proof (induction adj reachable queue rule: reachable_loop.induct)
  case (1 adj reachable)
  then show ?case by simp
next
  case (2 adj reachable n queue)
  let ?R = "(adj_rel adj)\<^sup>*"
  have targets: "set (get_or_empty adj n) = adj_rel adj `` {n}" by (auto simp: adj_rel_def)
  show ?case
  proof (cases "n \<in> reachable")
    case True
    with "2.prems" have inv: "adj_rel adj `` reachable \<subseteq> reachable \<union> set queue" by auto
    have "?R `` {n} \<subseteq> reachable \<union> ?R `` set queue"
    proof (rule subsetI)
      fix y
      assume "y \<in> ?R `` {n}"
      then have "(n, y) \<in> ?R" by simp
      then show "y \<in> reachable \<union> ?R `` set queue"
        using True inv by (induction rule: rtrancl_induct) (auto intro: rtrancl_into_rtrancl)
    qed
    with True "2.IH"(1) [OF True inv] show ?thesis by auto
  next
    case False
    from "2.prems" targets have inv: "adj_rel adj `` insert n reachable
        \<subseteq> insert n reachable \<union> set (queue @ get_or_empty adj n)" by auto
    have "?R `` {n} = insert n (?R `` set (get_or_empty adj n))"
      unfolding targets by (auto elim: converse_rtranclE intro: converse_rtrancl_into_rtrancl)
    with False "2.IH"(2) [OF False inv] show ?thesis by auto
  qed
qed

lemma reachable_nodes_eq: "reachable_nodes s adj = (adj_rel adj)\<^sup>* `` {s}"
  using reachable_loop_correct [of adj "{}" "[s]"]
  by (simp add: reachable_nodes_def del: reachable_loop.simps)

lemma reachable_nodes_adjacency_map:
  "i \<in> reachable_nodes s (adjacency_map g) \<longleftrightarrow> (s, i) \<in> (edge_rel g)\<^sup>*"
  by (simp add: reachable_nodes_eq)

section \<open>Validation accepts the well-formed graphs\<close>

lemma for_each_check_edge:
  "for_each (check_edge (set (node_ids g))) (wg_edges g) = Inr () \<longleftrightarrow> edges_closed g"
  by (auto simp: for_each_ok check_edge_def edges_closed_def split: if_splits)

lemma reject_duplicate_condition_targets_ok:
  "reject_duplicate_condition_targets g = Inr () \<longleftrightarrow> condition_targets_distinct g"
  by (auto simp: reject_duplicate_condition_targets_def for_each_ok condition_targets_distinct_def
      condition_nodes_def condition_outgoing_edges_def split: option.splits)

lemma for_each_check_reachable:
  "for_each (check_reachable R) (wg_nodes g) = Inr () \<longleftrightarrow>
     (\<forall>n \<in> set (wg_nodes g). wn_kind n \<noteq> KStart \<longrightarrow> wn_id n \<in> R)"
  by (auto simp: for_each_ok check_reachable_def split: if_splits)

lemma single_start:
  assumes "length (start_ids g) = 1"
  shows "(\<forall>n \<in> set (wg_nodes g). wn_kind n \<noteq> KStart \<longrightarrow> (hd (start_ids g), wn_id n) \<in> r\<^sup>*) \<longleftrightarrow>
         (\<forall>i \<in> set (node_ids g). (hd (start_ids g), i) \<in> r\<^sup>*)"
proof -
  from assms obtain s where s: "start_ids g = [s]" by (auto simp: length_Suc_conv)
  have "wn_id n = s" if "n \<in> set (wg_nodes g)" "wn_kind n = KStart" for n
  proof -
    from that have "wn_id n \<in> set (start_ids g)" by (auto simp: start_ids_def)
    with s show ?thesis by simp
  qed
  then show ?thesis by (auto simp: s node_ids_def)
qed

lemma validate_graph_wf:
  "validate_graph g = Inr v \<longleftrightarrow>
     graph_wf g \<and> v = \<lparr>vg_version = wg_version g, vg_start_node_id = hd (start_ids g),
                     vg_end_node_ids = end_ids g\<rparr>"
proof -
  let ?starts = "filter (\<lambda>n. wn_kind n = KStart) (wg_nodes g)"
  let ?ends = "filter (\<lambda>n. wn_kind n = KEnd) (wg_nodes g)"
  let ?reach = "\<forall>n \<in> set (wg_nodes g). wn_kind n \<noteq> KStart \<longrightarrow>
      (hd (start_ids g), wn_id n) \<in> (edge_rel g)\<^sup>*"
  have hd: "?starts \<noteq> [] \<Longrightarrow> wn_id (hd ?starts) = hd (start_ids g)"
    by (simp add: start_ids_def hd_map)
  have len: "length (start_ids g) = 1 \<longleftrightarrow> ?starts \<noteq> [] \<and> \<not> 1 < length ?starts"
    by (cases ?starts) (auto simp: start_ids_def)
  have ends: "end_ids g \<noteq> [] \<longleftrightarrow> ?ends \<noteq> []" by (simp add: end_ids_def)
  have "validate_graph g = Inr v \<longleftrightarrow>
      wg_version g \<in> {1, 2} \<and> distinct (node_ids g) \<and> length (start_ids g) = 1 \<and>
      end_ids g \<noteq> [] \<and> edges_closed g \<and> condition_targets_distinct g \<and>
      reject_cycles g (adjacency_map g) = Inr () \<and> ?reach \<and>
      v = \<lparr>vg_version = wg_version g, vg_start_node_id = hd (start_ids g),
           vg_end_node_ids = end_ids g\<rparr>"
    unfolding validate_graph_def len ends
    by (auto simp: Let_def and_then_eq_Inr hd node_ids_def [symmetric] for_each_check_edge
        reject_duplicate_condition_targets_ok for_each_check_reachable
        reachable_nodes_adjacency_map end_ids_def split: option.splits if_splits)
  then show ?thesis
    unfolding graph_wf_def all_reachable_def
    using reject_cycles_ok [of g] single_start [of g "edge_rel g"] by blast
qed

lemma graph_wfD:
  assumes "graph_wf g"
  shows "distinct (node_ids g)" "edges_closed g" "acyclic (edge_rel g)"
    "all_reachable g (hd (start_ids g))" "condition_targets_distinct g"
    "length (start_ids g) = 1"
  using assms by (auto simp: graph_wf_def)

lemma validate_graphD: "validate_graph g = Inr v \<Longrightarrow> graph_wf g"
  by (simp add: validate_graph_wf)

lemma check_branches_ok:
  "check_branches node outgoing seen bs = Inr seen' \<longleftrightarrow>
     distinct (map branch_target_node_id bs) \<and>
     (\<forall>b \<in> set bs. \<exists>t. branch_target_node_id b = Some t \<and> t \<in> outgoing \<and> t \<notin> seen) \<and>
     (\<forall>b \<in> set bs. \<exists>c. branch_condition b = Some c \<and> trim c \<noteq> []) \<and>
     seen' = seen \<union> {t. Some t \<in> branch_target_node_id ` set bs}"
proof (induction node outgoing seen bs rule: check_branches.induct)
  case (1 node outgoing seen)
  then show ?case by auto
next
  case (2 node outgoing seen b bs)
  have "trim [] = []" by (simp add: trim_def)
  show ?case
  proof (cases "branch_target_node_id b")
    case None
    then show ?thesis by simp
  next
    case (Some t)
    let ?c = "case branch_condition b of None \<Rightarrow> [] | Some c \<Rightarrow> c"
    have cond: "trim ?c \<noteq> [] \<longleftrightarrow> (\<exists>c. branch_condition b = Some c \<and> trim c \<noteq> [])"
      using \<open>trim [] = []\<close> by (auto split: option.splits)
    have fresh: "Some t \<notin> set (map branch_target_node_id bs) \<longleftrightarrow>
        (\<forall>b' \<in> set bs. branch_target_node_id b' \<noteq> Some t)" by (simp add: image_iff) metis
    show ?thesis
    proof (cases "t \<in> seen \<or> t \<notin> outgoing \<or> trim ?c = []")
      case True
      then show ?thesis using Some cond by auto
    next
      case False
      then have "check_branches node outgoing seen (b # bs) = check_branches node outgoing (insert t seen) bs"
        using Some by simp
      moreover have "(\<forall>b' \<in> set bs. \<exists>t'. branch_target_node_id b' = Some t' \<and>
            t' \<in> outgoing \<and> t' \<notin> insert t seen) \<longleftrightarrow>
          (\<forall>b' \<in> set bs. branch_target_node_id b' \<noteq> Some t) \<and>
          (\<forall>b' \<in> set bs. \<exists>t'. branch_target_node_id b' = Some t' \<and> t' \<in> outgoing \<and> t' \<notin> seen)"
        by auto
      moreover have "insert t seen \<union> {t'. Some t' \<in> branch_target_node_id ` set bs} =
          seen \<union> {t'. Some t' \<in> branch_target_node_id ` set (b # bs)}"
        using Some by auto
      ultimately show ?thesis
        using "2.IH" [OF Some] False Some cond fresh by (simp add: conj_ac)
    qed
  qed
qed

lemma image_Some_eq:
  "((\<forall>b \<in> B. \<exists>t. f b = Some t \<and> t \<in> A) \<and> A \<subseteq> {t. Some t \<in> f ` B}) \<longleftrightarrow> f ` B = Some ` A"
  by (auto simp: image_iff subset_iff)

lemma validate_condition_node_ok:
  assumes "\<And>A. finite A \<Longrightarrow> set (hash_iter A) = A"
  shows "validate_condition_node hash_iter g n = Inr () \<longleftrightarrow> branches_complete g n"
proof -
  let ?out = "we_target ` {e \<in> set (wg_edges g). we_source e = wn_id n}"
  let ?bs = "case branches (wn_data n) of None \<Rightarrow> [] | Some bs \<Rightarrow> bs"
  have out: "set (map we_target (condition_outgoing_edges g (wn_id n))) = ?out"
    by (auto simp: condition_outgoing_edges_def)
  have iter: "set (hash_iter ?out) = ?out" by (rule assms) simp
  have "validate_condition_node hash_iter g n = Inr () \<longleftrightarrow>
      (\<exists>bt. check_branches (wn_id n) ?out {} ?bs = Inr bt \<and> ?out \<subseteq> bt)"
    unfolding validate_condition_node_def Let_def out
    by (auto simp: and_then_eq_Inr for_each_ok iter split: if_splits)
  also have "\<dots> \<longleftrightarrow> distinct (map branch_target_node_id ?bs) \<and>
      ((\<forall>b \<in> set ?bs. \<exists>t. branch_target_node_id b = Some t \<and> t \<in> ?out) \<and>
       ?out \<subseteq> {t. Some t \<in> branch_target_node_id ` set ?bs}) \<and>
      (\<forall>b \<in> set ?bs. \<exists>c. branch_condition b = Some c \<and> trim c \<noteq> [])"
    unfolding check_branches_ok by simp blast
  also have "\<dots> \<longleftrightarrow> branches_complete g n"
    unfolding branches_complete_def Let_def image_Some_eq ..
  finally show ?thesis .
qed

lemma validate_condition_routing_ok:
  assumes "\<And>A. finite A \<Longrightarrow> set (hash_iter A) = A"
  shows "validate_condition_routing_for_run S hash_iter g = Inr () \<longleftrightarrow> routing_ready S g"
  by (auto simp: validate_condition_routing_for_run_def routing_ready_def for_each_ok
      validate_condition_node_ok [OF assms] split: option.splits)

section \<open>Properties\<close>

text \<open>
  C2: \<open>validate_graph\<close> accepts exactly the well-formed graphs (supported version, unique node ids,
  one start node, an end node, edges between existing nodes, no repeated target of a condition
  node, no cycle, every node reachable from the start), and returns the version, the id of the
  start node and the ids of the end nodes in graph order.
\<close>

theorem validate_graph_accepts_iff_wf:
  "validate_graph g = Inr v \<longleftrightarrow>
     graph_wf g \<and> v = \<lparr>vg_version = wg_version g, vg_start_node_id = hd (start_ids g),
                     vg_end_node_ids = end_ids g\<rparr>"
  by (rule validate_graph_wf)

text \<open>
  C39: on a graph whose edges join existing nodes, the three-colour depth-first search of
  \<open>reject_cycles\<close> succeeds exactly when the edge relation is acyclic, and the node its error
  names lies on a cycle.
\<close>

theorem reject_cycles_decides:
  assumes "edges_closed g"
  shows "(reject_cycles g (adjacency_map g) = Inr () \<longleftrightarrow> acyclic (edge_rel g)) \<and>
    (\<forall>e. reject_cycles g (adjacency_map g) = Inl e \<longrightarrow>
       (\<exists>m. (m, m) \<in> (edge_rel g)\<^sup>+ \<and>
            e = ValidationError (''workflow graph contains a cycle at '' @ quoted m)))"
proof (intro conjI allI impI)
  show "reject_cycles g (adjacency_map g) = Inr () \<longleftrightarrow> acyclic (edge_rel g)"
    by (rule reject_cycles_ok) fact
  fix e
  assume "reject_cycles g (adjacency_map g) = Inl e"
  then have "reject_cycles_from (adjacency_map g) (map wn_id (wg_nodes g)) Map.empty = Inl e"
    by (auto simp: reject_cycles_def and_then_eq_Inl)
  from reject_cycles_from_error [OF this] show "\<exists>m. (m, m) \<in> (edge_rel g)\<^sup>+ \<and>
      e = ValidationError (''workflow graph contains a cycle at '' @ quoted m)"
    by simp
qed

theorem reject_cycles_decides_witness:
  "edges_closed line_graph \<and> reject_cycles line_graph (adjacency_map line_graph) = Inr () \<and>
   acyclic (edge_rel line_graph)"
proof -
  have closed: "edges_closed line_graph"
    by (simp add: edges_closed_def line_graph_def node_ids_def)
  have "reject_cycles line_graph (adjacency_map line_graph) = Inr ()" by code_simp
  with closed reject_cycles_decides [OF closed] show ?thesis by blast
qed

text \<open>
  The breadth-first search returns the nodes reachable from the start node, no more and no
  fewer, on every graph.
\<close>

theorem reachable_nodes_exact:
  "reachable_nodes s (adjacency_map g) = (edge_rel g)\<^sup>* `` {s}"
  by (simp add: reachable_nodes_eq)

text \<open>
  \<open>validate_graph_for_run\<close> accepts exactly the well-formed graphs whose routing is complete:
  with condition nodes there is a router configuration with a known executor, and every
  condition node has one branch per outgoing target, each with a non-blank condition. The answer
  does not depend on the order in which the hash set of targets is iterated.
\<close>

theorem validate_graph_for_run_iff:
  assumes "\<And>A. finite A \<Longrightarrow> set (hash_iter A) = A"
  shows "is_ok (validate_graph_for_run S hash_iter g) \<longleftrightarrow> graph_wf g \<and> routing_ready S g"
  by (auto simp: validate_graph_for_run_def is_ok_iff and_then_eq_Inr validate_graph_wf
      validate_condition_routing_ok [OF assms])

theorem validate_graph_for_run_iff_witness:
  "is_ok (validate_graph_for_run (lit_serde []) sorted_list_of_set condition_graph) \<and>
   graph_wf condition_graph \<and> routing_ready (lit_serde []) condition_graph"
proof -
  have "is_ok (validate_graph_for_run (lit_serde []) sorted_list_of_set condition_graph)"
    by code_simp
  then show ?thesis
    using validate_graph_for_run_iff
      [of sorted_list_of_set "lit_serde []" condition_graph, OF set_sorted_list_of_set] by blast
qed

end
