(* ===== verification/Planner.thy ===== *)
theory Planner
  imports Validation
begin

text \<open>
  The planner, \<open>crates/workflow/src/planner.rs\<close>: which node executions of a run are ready. The
  run is a snapshot of node executions; nodes without an execution count as pending in iteration
  0. A pending execution is ready when some incoming edge has been triggered by a succeeded
  execution of its source; a condition node triggers only the targets its recorded output
  selects. The thin wrapper \<open>runner.rs\<close> of the crate is modelled here too.
\<close>

section \<open>Definitions\<close>

datatype NodeExecutionStatus =
  NPending | NRunning | NAwaitingHuman | NAwaitingArena | NCancelling | NSucceeded | NFailed
| NCancelled | NSkipped

record NodeExecutionSnapshot =
  es_node_id :: string
  es_iteration :: i64
  es_status :: NodeExecutionStatus
  es_output_text :: "string option"
  es_error_text :: "string option"

record RunSnapshot =
  rs_run_id :: string
  rs_nodes :: "NodeExecutionSnapshot list"

record ReadyNode =
  rn_node_id :: string
  rn_iteration :: i64
  rn_kind :: WorkflowNodeKind
  writes_main_worktree :: bool

datatype PlannerWarning = SerializedMainWorktreeAgents "string list"

record ReadyPlan =
  ready_nodes :: "ReadyNode list"
  plan_warnings :: "PlannerWarning list"

definition pending_execution :: "string \<Rightarrow> NodeExecutionSnapshot" where
  "pending_execution i = \<lparr>es_node_id = i, es_iteration = 0, es_status = NPending,
     es_output_text = None, es_error_text = None\<rparr>"

definition execution_snapshots :: "'v WorkflowGraph \<Rightarrow> RunSnapshot \<Rightarrow> NodeExecutionSnapshot list" where
  "execution_snapshots g snapshot =
     (let known = set (map es_node_id (rs_nodes snapshot))
      in rs_nodes snapshot @
         map (\<lambda>n. pending_execution (wn_id n)) (filter (\<lambda>n. wn_id n \<notin> known) (wg_nodes g)))"

definition incoming_edges :: "'v WorkflowGraph \<Rightarrow> (string \<times> 'v WorkflowEdge list) list" where
  "incoming_edges g =
     push_all we_target (\<lambda>e. e) (wg_edges g) (map (\<lambda>n. (wn_id n, [])) (wg_nodes g))"

definition json_string_array_contains :: "'v serde_json \<Rightarrow> 'v option \<Rightarrow> string \<Rightarrow> bool" where
  "json_string_array_contains S value needle =
     (case Option.bind value (sj_as_array S) of
        None \<Rightarrow> False
      | Some items \<Rightarrow> list_ex (\<lambda>item. sj_as_str S item = Some needle) items)"

definition condition_output_selects_target ::
  "'v serde_json \<Rightarrow> string option \<Rightarrow> string \<Rightarrow> bool" where
  "condition_output_selects_target S output target =
     (case output of
        None \<Rightarrow> False
      | Some text \<Rightarrow>
          (case sj_from_str S text of
             Inl _ \<Rightarrow> False
           | Inr value \<Rightarrow>
               json_string_array_contains S (sj_get S value ''selected_target_node_ids'') target \<or>
               json_string_array_contains S
                 (Option.bind (sj_get S value ''decision'')
                    (\<lambda>d. sj_get S d ''selected_target_node_ids'')) target))"

definition execution_triggers_edge ::
  "'v serde_json \<Rightarrow> 'v WorkflowGraph \<Rightarrow> 'v WorkflowEdge \<Rightarrow> NodeExecutionSnapshot \<Rightarrow> bool" where
  "execution_triggers_edge S g e x =
     (case find_node g (we_source e) of
        None \<Rightarrow> False
      | Some source_node \<Rightarrow>
          if wn_kind source_node \<noteq> KCondition then True
          else condition_output_selects_target S (es_output_text x) (we_target e))"

definition succeeded_trigger_count_for_edge ::
  "'v serde_json \<Rightarrow> 'v WorkflowGraph \<Rightarrow> 'v WorkflowEdge \<Rightarrow> NodeExecutionSnapshot list \<Rightarrow> i64" where
  "succeeded_trigger_count_for_edge S g e xs =
     int (length (filter (\<lambda>x. es_status x = NSucceeded \<and> es_node_id x = we_source e \<and>
                              execution_triggers_edge S g e x) xs))"

definition execution_is_ready ::
  "'v serde_json \<Rightarrow> 'v WorkflowNode \<Rightarrow> i64 \<Rightarrow> 'v WorkflowEdge list option \<Rightarrow> 'v WorkflowGraph \<Rightarrow>
   NodeExecutionSnapshot list \<Rightarrow> bool" where
  "execution_is_ready S n iteration incoming g xs =
     (case incoming of
        None \<Rightarrow> wn_kind n = KStart \<and> iteration = 0
      | Some es \<Rightarrow>
          if es = [] then wn_kind n = KStart \<and> iteration = 0
          else list_ex (\<lambda>e. succeeded_trigger_count_for_edge S g e xs > 0) es)"

definition ready_node :: "'v WorkflowNode \<Rightarrow> i64 \<Rightarrow> ReadyNode" where
  "ready_node n iteration = \<lparr>rn_node_id = wn_id n, rn_iteration = iteration, rn_kind = wn_kind n,
     writes_main_worktree = (wn_kind n = KAgent)\<rparr>"

text \<open>\<open>nodes_by_id\<close> is collected into a \<open>HashMap\<close>, so the last node with an id wins.\<close>

definition nodes_by_id :: "'v WorkflowGraph \<Rightarrow> string \<rightharpoonup> 'v WorkflowNode" where
  "nodes_by_id g = map_of (rev (map (\<lambda>n. (wn_id n, n)) (wg_nodes g)))"

definition plan_ready_nodes :: "'v serde_json \<Rightarrow> 'v WorkflowGraph \<Rightarrow> RunSnapshot \<Rightarrow> ReadyPlan" where
  "plan_ready_nodes S g snapshot =
     (let xs = execution_snapshots g snapshot; incoming = incoming_edges g
      in \<lparr>ready_nodes = List.map_filter (\<lambda>x.
             case nodes_by_id g (es_node_id x) of
               None \<Rightarrow> None
             | Some n \<Rightarrow>
                 if execution_is_ready S n (es_iteration x) (map_of incoming (wn_id n)) g xs
                 then Some (ready_node n (es_iteration x)) else None)
             (filter (\<lambda>x. es_status x = NPending) xs),
          plan_warnings = []\<rparr>)"

definition triggered_execution_count ::
  "'v serde_json \<Rightarrow> 'v WorkflowGraph \<Rightarrow> RunSnapshot \<Rightarrow> string \<Rightarrow> i64" where
  "triggered_execution_count S g snapshot target =
     (case map_of (incoming_edges g) target of
        None \<Rightarrow> 0
      | Some es \<Rightarrow> sum_list (map (\<lambda>e. succeeded_trigger_count_for_edge S g e
                                (execution_snapshots g snapshot)) es))"

text \<open>\<open>WorkflowRunner\<close> holds a graph and plans over it.\<close>

record 'v WorkflowRunner =
  runner_graph :: "'v WorkflowGraph"

definition from_graph :: "'v WorkflowGraph \<Rightarrow> 'v WorkflowRunner" where
  "from_graph g = \<lparr>runner_graph = g\<rparr>"

definition ready_plan :: "'v serde_json \<Rightarrow> 'v WorkflowRunner \<Rightarrow> RunSnapshot \<Rightarrow> ReadyPlan" where
  "ready_plan S r snapshot = plan_ready_nodes S (runner_graph r) snapshot"

section \<open>What triggers an execution\<close>

text \<open>
  The specification: node \<open>i\<close> is triggered when an edge into it starts at a node with a succeeded
  execution and, if that node is a condition, the recorded output selects \<open>i\<close>.
\<close>

definition triggers :: "'v serde_json \<Rightarrow> 'v WorkflowGraph \<Rightarrow> NodeExecutionSnapshot \<Rightarrow> string \<Rightarrow> bool" where
  "triggers S g x i \<longleftrightarrow>
     es_status x = NSucceeded \<and> (es_node_id x, i) \<in> edge_rel g \<and>
     (\<exists>n. find_node g (es_node_id x) = Some n \<and>
          (wn_kind n = KCondition \<longrightarrow> condition_output_selects_target S (es_output_text x) i))"

definition root_node :: "'v WorkflowGraph \<Rightarrow> string \<Rightarrow> bool" where
  "root_node g i \<longleftrightarrow> (\<forall>u. (u, i) \<notin> edge_rel g)"

lemma get_or_empty_incoming_edges:
  "get_or_empty (incoming_edges g) i = filter (\<lambda>e. we_target e = i) (wg_edges g)"
  by (simp add: incoming_edges_def get_or_empty_push_all)

lemma incoming_edges_None:
  "map_of (incoming_edges g) i = None \<Longrightarrow> root_node g i"
proof -
  assume "map_of (incoming_edges g) i = None"
  then have "i \<notin> dom (map_of (incoming_edges g))" by auto
  then show ?thesis by (auto simp: incoming_edges_def dom_push_all root_node_def edge_rel_iff)
qed

lemma incoming_edges_Some:
  "map_of (incoming_edges g) i = Some es \<Longrightarrow> es = filter (\<lambda>e. we_target e = i) (wg_edges g)"
  using get_or_empty_incoming_edges [of g i] by (simp add: get_or_empty_def)

lemma trigger_count_pos:
  "0 < succeeded_trigger_count_for_edge S g e xs \<longleftrightarrow>
     (\<exists>x \<in> set xs. es_status x = NSucceeded \<and> es_node_id x = we_source e \<and>
        execution_triggers_edge S g e x)"
  by (auto simp: succeeded_trigger_count_for_edge_def filter_empty_conv)

lemma execution_triggers_edge_iff:
  "execution_triggers_edge S g e x \<longleftrightarrow>
     (\<exists>n. find_node g (we_source e) = Some n \<and>
        (wn_kind n = KCondition \<longrightarrow> condition_output_selects_target S (es_output_text x) (we_target e)))"
  by (auto simp: execution_triggers_edge_def split: option.splits)

lemma triggers_iff:
  "triggers S g x i \<longleftrightarrow>
     (\<exists>e \<in> set (wg_edges g). we_target e = i \<and> es_status x = NSucceeded \<and>
        es_node_id x = we_source e \<and> execution_triggers_edge S g e x)"
  unfolding triggers_def execution_triggers_edge_iff edge_rel_iff by auto

lemma execution_is_ready_iff:
  "execution_is_ready S n it (map_of (incoming_edges g) (wn_id n)) g xs \<longleftrightarrow>
     (root_node g (wn_id n) \<and> wn_kind n = KStart \<and> it = 0) \<or>
     (\<exists>x \<in> set xs. triggers S g x (wn_id n))"
proof (cases "map_of (incoming_edges g) (wn_id n)")
  case None
  from incoming_edges_None [OF this] None show ?thesis
    by (auto simp: execution_is_ready_def root_node_def triggers_def)
next
  case (Some es)
  from incoming_edges_Some [OF this] have es: "es = filter (\<lambda>e. we_target e = wn_id n) (wg_edges g)" .
  have "root_node g (wn_id n) \<longleftrightarrow> es = []"
    by (auto simp: es root_node_def edge_rel_iff filter_empty_conv)
  moreover have "list_ex (\<lambda>e. 0 < succeeded_trigger_count_for_edge S g e xs) es \<longleftrightarrow>
      (\<exists>x \<in> set xs. triggers S g x (wn_id n))"
    by (auto simp: es list_ex_iff trigger_count_pos triggers_iff)
  moreover have "es = [] \<Longrightarrow> \<not> (\<exists>x \<in> set xs. triggers S g x (wn_id n))"
    by (auto simp: es triggers_iff filter_empty_conv)
  ultimately show ?thesis using Some by (auto simp: execution_is_ready_def)
qed

lemma nodes_by_id_Some:
  "nodes_by_id g i = Some n \<Longrightarrow> n \<in> set (wg_nodes g) \<and> wn_id n = i"
  by (auto simp: nodes_by_id_def dest: map_of_SomeD)

lemma nodes_by_id_distinct:
  assumes "distinct (node_ids g)" "n \<in> set (wg_nodes g)"
  shows "nodes_by_id g (wn_id n) = Some n"
  unfolding nodes_by_id_def
  using assms by (auto intro!: map_of_is_SomeI simp: node_ids_def rev_map comp_def simp flip: rev_map)

lemma nodes_by_id_find_node:
  assumes "distinct (node_ids g)"
  shows "nodes_by_id g i = find_node g i"
proof (cases "find_node g i")
  case None
  then have "nodes_by_id g i \<noteq> Some n" for n
    using nodes_by_id_Some [of g i n] by (auto simp: find_node_None node_ids_def)
  with None show ?thesis by (cases "nodes_by_id g i") auto
next
  case (Some n)
  from find_node_Some [OF this] assms nodes_by_id_distinct show ?thesis using Some by fastforce
qed

section \<open>The ready set\<close>

lemma plan_ready_nodes_mem:
  assumes "distinct (node_ids g)"
  shows "r \<in> set (ready_nodes (plan_ready_nodes S g snapshot)) \<longleftrightarrow>
    (\<exists>x n. x \<in> set (execution_snapshots g snapshot) \<and> es_status x = NPending \<and>
       find_node g (es_node_id x) = Some n \<and> r = ready_node n (es_iteration x) \<and>
       ((root_node g (wn_id n) \<and> wn_kind n = KStart \<and> es_iteration x = 0) \<or>
        (\<exists>y \<in> set (execution_snapshots g snapshot). triggers S g y (wn_id n))))"
  unfolding plan_ready_nodes_def Let_def nodes_by_id_find_node [OF assms] execution_is_ready_iff
  by (simp add: map_filter_mem guarded_Some) blast

lemma execution_snapshots_cover:
  assumes "i \<in> set (node_ids g)"
  shows "\<exists>x \<in> set (execution_snapshots g snapshot). es_node_id x = i"
proof (cases "i \<in> set (map es_node_id (rs_nodes snapshot))")
  case True
  then show ?thesis by (auto simp: execution_snapshots_def Let_def)
next
  case False
  from assms obtain n where n: "n \<in> set (wg_nodes g)" "wn_id n = i" by (auto simp: node_ids_def)
  with False have "pending_execution i \<in> set (execution_snapshots g snapshot)"
    by (auto simp: execution_snapshots_def Let_def)
  then show ?thesis by (rule bexI [rotated]) (simp add: pending_execution_def)
qed

lemma execution_snapshots_settled:
  assumes "x \<in> set (execution_snapshots g snapshot)" "es_status x \<noteq> NPending"
  shows "x \<in> set (rs_nodes snapshot)"
  using assms by (auto simp: execution_snapshots_def Let_def pending_execution_def)

text \<open>The start node of a well-formed graph has no incoming edge.\<close>

lemma wf_start_root:
  assumes "graph_wf g"
  shows "root_node g (hd (start_ids g))"
  unfolding root_node_def
proof (intro allI notI)
  fix u
  let ?s = "hd (start_ids g)"
  assume edge: "(u, ?s) \<in> edge_rel g"
  with assms have "u \<in> set (node_ids g)" by (auto dest: edges_closedD graph_wfD)
  with assms have "(?s, u) \<in> (edge_rel g)\<^sup>*"
    using graph_wfD(4) by (auto simp: all_reachable_def)
  from this edge have "(?s, ?s) \<in> (edge_rel g)\<^sup>+" by (rule rtrancl_into_trancl1)
  with assms show False using graph_wfD(3) by (auto simp: acyclic_def)
qed

lemma wf_start_node:
  assumes "graph_wf g"
  obtains n where "n \<in> set (wg_nodes g)" "wn_kind n = KStart" "wn_id n = hd (start_ids g)"
    "find_node g (hd (start_ids g)) = Some n"
proof -
  from assms have "hd (start_ids g) \<in> set (start_ids g)"
    using graph_wfD(6) [OF assms] by (cases "start_ids g") auto
  then obtain n where n: "n \<in> set (wg_nodes g)" "wn_kind n = KStart" "wn_id n = hd (start_ids g)"
    by (auto simp: start_ids_def)
  with find_node_distinct [OF graph_wfD(1) [OF assms] n(1)] show thesis by (auto intro: that)
qed

lemma wf_start_unique:
  assumes "graph_wf g" "n \<in> set (wg_nodes g)" "wn_kind n = KStart"
  shows "wn_id n = hd (start_ids g)"
proof -
  from assms(2,3) have "wn_id n \<in> set (start_ids g)" by (auto simp: start_ids_def)
  with graph_wfD(6) [OF assms(1)] show ?thesis by (auto simp: length_Suc_conv)
qed

text \<open>
  A boundary between succeeded and unfinished nodes: if the start node belongs to a set and some
  reachable node does not, an edge leaves the set.
\<close>

lemma edge_leaves_set:
  assumes "(s, t) \<in> r\<^sup>*" "s \<in> A" "t \<notin> A"
  shows "\<exists>u v. (u, v) \<in> r \<and> u \<in> A \<and> v \<notin> A"
  using assms by (induction rule: rtrancl_induct) blast+

definition succeeded_ids :: "RunSnapshot \<Rightarrow> string set" where
  "succeeded_ids snapshot =
     es_node_id ` {x \<in> set (rs_nodes snapshot). es_status x = NSucceeded}"

text \<open>
  A run in which nothing has failed, been skipped or been suspended: every recorded execution is
  pending or has succeeded, and pending executions of the start node are in iteration 0.
\<close>

definition undisturbed :: "'v WorkflowGraph \<Rightarrow> RunSnapshot \<Rightarrow> bool" where
  "undisturbed g snapshot \<longleftrightarrow>
     (\<forall>x \<in> set (rs_nodes snapshot). es_status x \<in> {NPending, NSucceeded} \<and>
        (es_node_id x = hd (start_ids g) \<longrightarrow> es_status x = NPending \<longrightarrow> es_iteration x = 0))"

lemma undisturbed_execution:
  assumes "undisturbed g snapshot" "i \<in> set (node_ids g)" "i \<notin> succeeded_ids snapshot"
  obtains x where "x \<in> set (execution_snapshots g snapshot)" "es_node_id x = i"
    "es_status x = NPending" "i = hd (start_ids g) \<longrightarrow> es_iteration x = 0"
proof -
  from execution_snapshots_cover [OF assms(2)] obtain x
    where x: "x \<in> set (execution_snapshots g snapshot)" "es_node_id x = i" by blast
  have pend: "es_status x = NPending"
  proof (rule ccontr)
    assume ne: "es_status x \<noteq> NPending"
    with x have "x \<in> set (rs_nodes snapshot)" by (blast intro: execution_snapshots_settled)
    with ne assms x(2) show False by (auto simp: undisturbed_def succeeded_ids_def)
  qed
  have "i = hd (start_ids g) \<longrightarrow> es_iteration x = 0"
    using x pend assms(1) unfolding undisturbed_def
    by (auto simp: execution_snapshots_def Let_def pending_execution_def)
  from that [OF x pend this] show thesis .
qed

lemma planner_progress:
  assumes wf: "graph_wf g" and no_cond: "condition_nodes g = []"
    and run: "undisturbed g snapshot"
    and todo: "i \<in> set (node_ids g)" "i \<notin> succeeded_ids snapshot"
  shows "\<exists>r \<in> set (ready_nodes (plan_ready_nodes S g snapshot)).
    rn_node_id r \<notin> succeeded_ids snapshot"
proof -
  let ?s = "hd (start_ids g)" and ?X = "succeeded_ids snapshot"
  let ?execs = "execution_snapshots g snapshot"
  note ready = plan_ready_nodes_mem [OF graph_wfD(1) [OF wf]]
  obtain sn where sn: "wn_kind sn = KStart" "wn_id sn = ?s" "find_node g ?s = Some sn"
    "sn \<in> set (wg_nodes g)" using wf_start_node [OF wf] by metis
  show ?thesis
  proof (cases "?s \<in> ?X")
    case False
    from sn have "?s \<in> set (node_ids g)" by (auto simp: node_ids_def intro: rev_image_eqI)
    from undisturbed_execution [OF run this False] obtain x
      where x: "x \<in> set ?execs" "es_node_id x = ?s" "es_status x = NPending" "es_iteration x = 0"
      by metis
    then have "ready_node sn 0 \<in> set (ready_nodes (plan_ready_nodes S g snapshot))"
      unfolding ready using sn wf_start_root [OF wf] by auto
    moreover have "rn_node_id (ready_node sn 0) \<notin> ?X" using sn False by (simp add: ready_node_def)
    ultimately show ?thesis by blast
  next
    case True
    from wf todo have "(?s, i) \<in> (edge_rel g)\<^sup>*"
      using graph_wfD(4) by (auto simp: all_reachable_def)
    from edge_leaves_set [OF this True todo(2)] obtain u v
      where uv: "(u, v) \<in> edge_rel g" "u \<in> ?X" "v \<notin> ?X" by blast
    from edges_closedD [OF graph_wfD(2) [OF wf] uv(1)]
    have nodes: "u \<in> set (node_ids g)" "v \<in> set (node_ids g)" by auto
    from uv(2) obtain y where y: "y \<in> set (rs_nodes snapshot)" "es_node_id y = u"
      "es_status y = NSucceeded" by (auto simp: succeeded_ids_def)
    then have y_exec: "y \<in> set ?execs" by (simp add: execution_snapshots_def Let_def)
    from nodes obtain un vn where un: "find_node g u = Some un" and vn: "find_node g v = Some vn"
      using find_node_None by fastforce
    from find_node_Some [OF un] no_cond have "wn_kind un \<noteq> KCondition"
      by (auto simp: condition_nodes_def filter_empty_conv)
    with un uv(1) y have "triggers S g y v" by (auto simp: triggers_def)
    moreover from undisturbed_execution [OF run nodes(2) uv(3)] obtain x
      where x: "x \<in> set ?execs" "es_node_id x = v" "es_status x = NPending" by metis
    moreover from find_node_Some [OF vn] have "wn_id vn = v" by simp
    ultimately have "ready_node vn (es_iteration x) \<in>
        set (ready_nodes (plan_ready_nodes S g snapshot))"
      unfolding ready using vn y_exec by (intro exI [of _ x] exI [of _ vn]) auto
    moreover have "rn_node_id (ready_node vn (es_iteration x)) \<notin> ?X"
      using \<open>wn_id vn = v\<close> uv(3) by (simp add: ready_node_def)
    ultimately show ?thesis by blast
  qed
qed

section \<open>The first plan of a run\<close>

lemma execution_snapshots_empty:
  "execution_snapshots g \<lparr>rs_run_id = r, rs_nodes = []\<rparr> =
     map (\<lambda>n. pending_execution (wn_id n)) (wg_nodes g)"
  by (simp add: execution_snapshots_def)

lemma map_filter_guard:
  "(\<And>x. x \<in> set xs \<Longrightarrow> f x = (if P x then Some (h x) else None)) \<Longrightarrow>
     List.map_filter f xs = map h (filter P xs)"
  by (induction xs) (auto simp: List.map_filter_def)

lemma first_plan:
  assumes wf: "graph_wf g"
  shows "ready_nodes (plan_ready_nodes S g \<lparr>rs_run_id = r, rs_nodes = []\<rparr>) =
    map (\<lambda>n. ready_node n 0) (filter (\<lambda>n. wn_kind n = KStart) (wg_nodes g))"
proof -
  let ?xs = "map (\<lambda>n. pending_execution (wn_id n)) (wg_nodes g)"
  have pend: "es_node_id (pending_execution i) = i" "es_iteration (pending_execution i) = 0"
    "es_status (pending_execution i) = NPending" for i
    by (simp_all add: pending_execution_def)
  have none: "\<not> triggers S g y i" if "y \<in> set ?xs" for y i
    using that by (auto simp: triggers_def pend)
  have guard: "(case nodes_by_id g (wn_id n) of None \<Rightarrow> None
      | Some m \<Rightarrow> if execution_is_ready S m 0 (map_of (incoming_edges g) (wn_id m)) g ?xs
          then Some (ready_node m 0) else None) =
      (if wn_kind n = KStart then Some (ready_node n 0) else None)"
    if "n \<in> set (wg_nodes g)" for n
    using nodes_by_id_distinct [OF graph_wfD(1) [OF wf] that] none wf_start_root [OF wf]
      wf_start_unique [OF wf that]
    by (auto simp: execution_is_ready_iff)
  have "filter (\<lambda>x. es_status x = NPending) ?xs = ?xs" by (simp add: filter_map comp_def pend)
  then show ?thesis
    unfolding plan_ready_nodes_def execution_snapshots_empty Let_def
    by (simp add: map_filter_map_arg, intro map_filter_guard) (simp only: pend guard)
qed

section \<open>No execution is planned twice\<close>

definition execution_keys :: "NodeExecutionSnapshot list \<Rightarrow> (string \<times> i64) list" where
  "execution_keys xs = map (\<lambda>x. (es_node_id x, es_iteration x)) xs"

lemma execution_snapshots_keys:
  assumes "distinct (node_ids g)" "distinct (execution_keys (rs_nodes snapshot))"
  shows "distinct (execution_keys (execution_snapshots g snapshot))"
proof -
  let ?new = "filter (\<lambda>n. wn_id n \<notin> set (map es_node_id (rs_nodes snapshot))) (wg_nodes g)"
  have "distinct (map wn_id ?new)"
    using assms(1) by (simp add: node_ids_def distinct_map_filter)
  then have "distinct (execution_keys (map (\<lambda>n. pending_execution (wn_id n)) ?new))"
    by (simp add: execution_keys_def comp_def pending_execution_def distinct_map inj_on_def)
  with assms(2) show ?thesis
    by (auto simp: execution_snapshots_def Let_def execution_keys_def pending_execution_def image_iff)
qed

lemma map_filter_keys:
  assumes "distinct (map key xs)"
    and "\<And>x y. x \<in> set xs \<Longrightarrow> f x = Some y \<Longrightarrow> key' y = key x"
  shows "distinct (map key' (List.map_filter f xs))"
  using assms
proof (induction xs)
  case Nil
  then show ?case by (simp add: List.map_filter_def)
next
  case (Cons x xs)
  then have IH: "distinct (map key' (List.map_filter f xs))" by simp
  show ?case
  proof (cases "f x")
    case None
    with IH show ?thesis by (simp add: List.map_filter_simps)
  next
    case (Some y)
    have "key' y \<notin> key' ` set (List.map_filter f xs)"
    proof
      assume "key' y \<in> key' ` set (List.map_filter f xs)"
      then obtain x' y' where "x' \<in> set xs" "f x' = Some y'" "key' y' = key' y"
        by (auto simp: map_filter_mem)
      with Cons.prems Some have "key x' = key x" by (metis list.set_intros)
      with \<open>x' \<in> set xs\<close> Cons.prems(1) show False by (auto simp: image_iff)
    qed
    with IH Some show ?thesis by (simp add: List.map_filter_simps)
  qed
qed

section \<open>Properties\<close>

text \<open>
  C3: on a graph with unique node ids, the plan lists exactly the pending executions whose node is
  triggered: the start node without incoming edges in iteration 0, or a node that some succeeded
  execution triggers along an edge; a condition execution triggers only the targets its recorded
  output selects. The entry carries the node's kind and whether it writes the main worktree.
\<close>

theorem plan_ready_nodes_iff:
  assumes "distinct (node_ids g)"
  shows "r \<in> set (ready_nodes (plan_ready_nodes S g snapshot)) \<longleftrightarrow>
    (\<exists>x n. x \<in> set (execution_snapshots g snapshot) \<and> es_status x = NPending \<and>
       find_node g (es_node_id x) = Some n \<and> r = ready_node n (es_iteration x) \<and>
       ((root_node g (wn_id n) \<and> wn_kind n = KStart \<and> es_iteration x = 0) \<or>
        (\<exists>y \<in> set (execution_snapshots g snapshot). triggers S g y (wn_id n))))"
  by (rule plan_ready_nodes_mem [OF assms])

definition routed_snapshot :: RunSnapshot where
  "routed_snapshot = \<lparr>rs_run_id = ''run-1'', rs_nodes =
     [(pending_execution ''start'')\<lparr>es_status := NSucceeded\<rparr>,
      (pending_execution ''condition'')\<lparr>es_status := NSucceeded,
         es_output_text := Some ''routed''\<rparr>]\<rparr>"

definition routed_serde :: "json_lit serde_json" where
  "routed_serde = lit_serde [(''routed'', JObj [(''selected_target_node_ids'', JArr [JStr ''agent''])])]"

theorem plan_ready_nodes_iff_witness:
  "distinct (node_ids condition_graph) \<and>
   (\<exists>r \<in> set (ready_nodes (plan_ready_nodes routed_serde condition_graph routed_snapshot)).
      \<exists>y \<in> set (execution_snapshots condition_graph routed_snapshot).
        triggers routed_serde condition_graph y (rn_node_id r))"
proof -
  have dist: "distinct (node_ids condition_graph)" by code_simp
  have mem: "\<lparr>rn_node_id = ''agent'', rn_iteration = 0, rn_kind = KAgent, writes_main_worktree = True\<rparr>
      \<in> set (ready_nodes (plan_ready_nodes routed_serde condition_graph routed_snapshot))"
    by code_simp
  from mem [unfolded plan_ready_nodes_iff [OF dist]]
  have "\<exists>y \<in> set (execution_snapshots condition_graph routed_snapshot).
      triggers routed_serde condition_graph y ''agent''"
    by (auto simp: ready_node_def)
  with dist mem show ?thesis by (metis ReadyNode.select_convs(1))
qed

text \<open>
  The first plan of a run over a well-formed graph is the start node alone, in iteration 0.
\<close>

theorem first_plan_is_start:
  assumes "graph_wf g"
  shows "\<exists>n. wn_kind n = KStart \<and> find_node g (hd (start_ids g)) = Some n \<and>
    ready_nodes (plan_ready_nodes S g \<lparr>rs_run_id = r, rs_nodes = []\<rparr>) = [ready_node n 0]"
proof -
  from wf_start_node [OF assms] obtain n where n: "n \<in> set (wg_nodes g)" "wn_kind n = KStart"
    "find_node g (hd (start_ids g)) = Some n" by metis
  let ?starts = "filter (\<lambda>n. wn_kind n = KStart) (wg_nodes g)"
  from n have "n \<in> set ?starts" by simp
  moreover have "length ?starts = 1"
    using graph_wfD(6) [OF assms] by (simp add: start_ids_def)
  ultimately have "?starts = [n]"
    by (metis One_nat_def length_0_conv length_Suc_conv list.set(1) empty_iff set_ConsD)
  with n first_plan [OF assms] show ?thesis by auto
qed

theorem first_plan_is_start_witness:
  "graph_wf line_graph \<and>
   (\<exists>n. wn_kind n = KStart \<and> find_node line_graph (hd (start_ids line_graph)) = Some n \<and>
      ready_nodes (plan_ready_nodes (lit_serde []) line_graph \<lparr>rs_run_id = ''r'', rs_nodes = []\<rparr>) =
        [ready_node n 0])"
proof -
  have "is_ok (validate_graph line_graph)" by code_simp
  then have "graph_wf line_graph" by (auto simp: is_ok_iff dest: validate_graphD)
  then show ?thesis using first_plan_is_start [of line_graph "lit_serde []" "''r''"] by blast
qed

text \<open>
  C1: a run over a well-formed graph without condition nodes never gets stuck. As long as every recorded
  execution is pending or succeeded, and a pending execution of the start node is in iteration 0 (the only iteration
  in which the planner starts it), any node without a succeeded execution means that some such node is in the plan.
\<close>

theorem planner_never_stuck:
  assumes "graph_wf g" "condition_nodes g = []" "undisturbed g snapshot"
    and "i \<in> set (node_ids g)" "i \<notin> succeeded_ids snapshot"
  shows "\<exists>r \<in> set (ready_nodes (plan_ready_nodes S g snapshot)).
    rn_node_id r \<notin> succeeded_ids snapshot"
  by (rule planner_progress [OF assms])

definition half_run :: RunSnapshot where
  "half_run = \<lparr>rs_run_id = ''run-1'', rs_nodes =
     [(pending_execution ''start'')\<lparr>es_status := NSucceeded\<rparr>]\<rparr>"

theorem planner_never_stuck_witness:
  "\<exists>r \<in> set (ready_nodes (plan_ready_nodes (lit_serde []) line_graph half_run)).
     rn_node_id r \<notin> succeeded_ids half_run"
proof -
  have "is_ok (validate_graph line_graph)" by code_simp
  then have wf: "graph_wf line_graph" by (auto simp: is_ok_iff dest: validate_graphD)
  have cond: "condition_nodes line_graph = []" by code_simp
  have run: "undisturbed line_graph half_run"
    by (simp add: undisturbed_def half_run_def pending_execution_def)
  have todo: "''end'' \<in> set (node_ids line_graph)" "''end'' \<notin> succeeded_ids half_run"
    by code_simp+
  show ?thesis by (rule planner_never_stuck [OF wf cond run todo])
qed

text \<open>
  If node ids and the (node, iteration) pairs of the recorded executions are unique, no
  (node, iteration) pair occurs twice in the plan, so no execution is started twice by one plan.
\<close>

theorem plan_ready_nodes_once:
  assumes "distinct (node_ids g)" "distinct (execution_keys (rs_nodes snapshot))"
  shows "distinct (map (\<lambda>r. (rn_node_id r, rn_iteration r))
    (ready_nodes (plan_ready_nodes S g snapshot)))"
proof -
  let ?pend = "filter (\<lambda>x. es_status x = NPending) (execution_snapshots g snapshot)"
  from execution_snapshots_keys [OF assms] have "distinct (execution_keys ?pend)"
    by (simp add: execution_keys_def distinct_map_filter)
  then have "distinct (map (\<lambda>x. (es_node_id x, es_iteration x)) ?pend)"
    by (simp add: execution_keys_def)
  then show ?thesis
    unfolding plan_ready_nodes_def Let_def
    by (simp, elim map_filter_keys)
      (auto simp: guarded_Some ready_node_def dest: nodes_by_id_Some)
qed

theorem plan_ready_nodes_once_witness:
  "distinct (map (\<lambda>r. (rn_node_id r, rn_iteration r))
     (ready_nodes (plan_ready_nodes routed_serde condition_graph routed_snapshot)))"
proof -
  have ids: "distinct (node_ids condition_graph)" by code_simp
  have keys: "distinct (execution_keys (rs_nodes routed_snapshot))" by code_simp
  show ?thesis by (rule plan_ready_nodes_once [OF ids keys])
qed

text \<open>
  The two queries of the planner agree. For a pending execution of a node with incoming edges,
  being in the plan means that \<open>triggered_execution_count\<close> of the node is positive.
\<close>

theorem triggered_count_agrees_with_plan:
  assumes "distinct (node_ids g)" "x \<in> set (execution_snapshots g snapshot)"
    and "es_status x = NPending" "find_node g (es_node_id x) = Some n" "\<not> root_node g (wn_id n)"
  shows "ready_node n (es_iteration x) \<in> set (ready_nodes (plan_ready_nodes S g snapshot)) \<longleftrightarrow>
    0 < triggered_execution_count S g snapshot (wn_id n)"
proof -
  let ?execs = "execution_snapshots g snapshot"
  have nn: "0 \<le> succeeded_trigger_count_for_edge S g e ?execs" for e
    by (simp add: succeeded_trigger_count_for_edge_def)
  from assms(5) incoming_edges_None obtain es where es: "map_of (incoming_edges g) (wn_id n) = Some es"
    by (cases "map_of (incoming_edges g) (wn_id n)") auto
  have "0 < triggered_execution_count S g snapshot (wn_id n) \<longleftrightarrow>
      (\<exists>y \<in> set ?execs. triggers S g y (wn_id n))"
    using es incoming_edges_Some [OF es]
    by (simp add: triggered_execution_count_def sum_list_pos_iff [OF nn] list_ex_iff trigger_count_pos
        triggers_iff) blast
  moreover have "ready_node n (es_iteration x) \<in> set (ready_nodes (plan_ready_nodes S g snapshot)) \<longleftrightarrow>
      (\<exists>y \<in> set ?execs. triggers S g y (wn_id n))"
    unfolding plan_ready_nodes_mem [OF assms(1)]
  proof
    assume "\<exists>y \<in> set ?execs. triggers S g y (wn_id n)"
    with assms(2-4) show "\<exists>x' m. x' \<in> set ?execs \<and> es_status x' = NPending \<and>
        find_node g (es_node_id x') = Some m \<and> ready_node n (es_iteration x) = ready_node m (es_iteration x') \<and>
        (root_node g (wn_id m) \<and> wn_kind m = KStart \<and> es_iteration x' = 0 \<or>
         (\<exists>y \<in> set ?execs. triggers S g y (wn_id m)))"
      by (intro exI [of _ x] exI [of _ n]) auto
  qed (use assms(5) in \<open>auto simp: ready_node_def\<close>)
  ultimately show ?thesis by simp
qed

theorem triggered_count_agrees_with_plan_witness:
  "ready_node (test_node ''agent'' KAgent :: json_lit WorkflowNode) 0
     \<in> set (ready_nodes (plan_ready_nodes routed_serde condition_graph routed_snapshot)) \<longleftrightarrow>
   0 < triggered_execution_count routed_serde condition_graph routed_snapshot ''agent''"
proof -
  let ?x = "pending_execution ''agent''" and ?n = "test_node ''agent'' KAgent :: json_lit WorkflowNode"
  have ids: "distinct (node_ids condition_graph)" by code_simp
  have x: "?x \<in> set (execution_snapshots condition_graph routed_snapshot)" by code_simp
  have st: "es_status ?x = NPending" by code_simp
  have n: "find_node condition_graph (es_node_id ?x) = Some ?n" by code_simp
  have "\<not> root_node condition_graph (wn_id ?n)"
    by (auto simp: root_node_def edge_rel_iff condition_graph_def intro!: exI [of _ "''condition''"])
  from triggered_count_agrees_with_plan [OF ids x st n this, of routed_serde]
  show ?thesis by (simp add: pending_execution_def)
qed

end
