(* ===== verification/Rework.thy ===== *)
theory Rework
  imports Planner
begin

text \<open>
  Planning a new delivery, \<open>crates/workflow/src/rework.rs\<close>: which nodes a rework runs again, which
  recorded executions it reuses, and which nodes the recorded routes exclude. The two loops of the
  file (\<open>downstream_closure\<close> and \<open>permitted_nodes\<close>) are instances of the locale \<open>saturation\<close>.
\<close>

section \<open>Definitions\<close>

record ReworkSourceExecution =
  rw_execution_id :: string
  rw_node_id :: string
  rw_iteration :: i64
  rw_status :: NodeExecutionStatus
  rw_output_text :: "string option"

record ReuseBinding =
  rb_node_id :: string
  rb_iteration :: i64
  rb_source_execution_id :: string

record ReworkPlan =
  affected_node_ids :: bset
  reuse :: "ReuseBinding list"
  skipped_node_ids :: bset

text \<open>The vector \<open>next\<close> of one round of each loop.\<close>

definition downstream_next :: "'v WorkflowGraph \<Rightarrow> bset \<Rightarrow> string list" where
  "downstream_next g nodes =
     map we_target (filter (\<lambda>e. we_source e \<in> set nodes) (wg_edges g))"

lemma extend_decreases:
  assumes "set ys \<subseteq> A" "finite A" "length xs \<noteq> length (bset_extend xs ys)"
  shows "card (A - set (bset_extend xs ys)) < card (A - set xs)"
proof (rule psubset_card_mono)
  from assms(3) have "\<not> set ys \<subseteq> set xs" by (metis bset_extend_same_length_iff)
  with assms(1) show "A - set (bset_extend xs ys) \<subset> A - set xs" by auto
qed (simp add: assms(2))

function downstream_closure :: "'v WorkflowGraph \<Rightarrow> bset \<Rightarrow> bset" where
  "downstream_closure g nodes =
     (let extended = bset_extend nodes (downstream_next g nodes)
      in if length nodes = length extended then extended else downstream_closure g extended)"
  by pat_completeness auto
termination
proof (relation "measure (\<lambda>(g, nodes). card (we_target ` set (wg_edges g) - set nodes))", goal_cases)
  case (2 g nodes extended)
  have "set (downstream_next g nodes) \<subseteq> we_target ` set (wg_edges g)"
    by (auto simp: downstream_next_def)
  from extend_decreases [OF this, of nodes] 2 show ?case by simp
qed simp

declare downstream_closure.simps [simp del]

definition edge_permitted ::
  "'v serde_json \<Rightarrow> 'v WorkflowGraph \<Rightarrow> bset \<Rightarrow> ReworkSourceExecution list \<Rightarrow> 'v WorkflowEdge \<Rightarrow> bool" where
  "edge_permitted S g affected source e =
     (let is_condition = list_ex (\<lambda>n. wn_id n = we_source e \<and> wn_kind n = KCondition) (wg_nodes g)
      in \<not> is_condition \<or> we_source e \<in> set affected \<or>
         list_ex (\<lambda>r. rw_node_id r = we_source e \<and> rw_status r = NSucceeded \<and>
           condition_output_selects_target S (rw_output_text r) (we_target e)) source)"

definition permitted_next ::
  "'v serde_json \<Rightarrow> 'v WorkflowGraph \<Rightarrow> bset \<Rightarrow> ReworkSourceExecution list \<Rightarrow> bset \<Rightarrow> string list" where
  "permitted_next S g affected source reachable =
     map we_target (filter (\<lambda>e. we_source e \<in> set reachable \<and> edge_permitted S g affected source e)
       (wg_edges g))"

function permitted_loop ::
  "'v serde_json \<Rightarrow> 'v WorkflowGraph \<Rightarrow> bset \<Rightarrow> ReworkSourceExecution list \<Rightarrow> bset \<Rightarrow> bset" where
  "permitted_loop S g affected source reachable =
     (let extended = bset_extend reachable (permitted_next S g affected source reachable)
      in if length reachable = length extended then extended
         else permitted_loop S g affected source extended)"
  by pat_completeness auto
termination
proof (relation "measure (\<lambda>(S, g, affected, source, reachable).
    card (we_target ` set (wg_edges g) - set reachable))", goal_cases)
  case (2 S g affected source reachable extended)
  have "set (permitted_next S g affected source reachable) \<subseteq> we_target ` set (wg_edges g)"
    by (auto simp: permitted_next_def)
  from extend_decreases [OF this, of reachable] 2 show ?case by simp
qed simp

declare permitted_loop.simps [simp del]

definition permitted_nodes ::
  "'v serde_json \<Rightarrow> 'v WorkflowGraph \<Rightarrow> bset \<Rightarrow> ReworkSourceExecution list \<Rightarrow> bset" where
  "permitted_nodes S g affected source =
     permitted_loop S g affected source
       (bset_of (map wn_id (filter (\<lambda>n. wn_kind n = KStart) (wg_nodes g))))"

text \<open>The loop over the unaffected nodes, in ascending order of their ids.\<close>

definition reusable :: "ReworkSourceExecution list \<Rightarrow> bool" where
  "reusable records \<longleftrightarrow>
     filter (\<lambda>r. rw_status r = NSucceeded) records \<noteq> [] \<and>
     \<not> list_ex (\<lambda>r. rw_status r \<notin> {NSucceeded, NSkipped}) records"

definition binding_of :: "string \<Rightarrow> ReworkSourceExecution \<Rightarrow> ReuseBinding" where
  "binding_of i r = \<lparr>rb_node_id = i, rb_iteration = rw_iteration r,
     rb_source_execution_id = rw_execution_id r\<rparr>"

fun collect_inputs ::
  "ReworkSourceExecution list \<Rightarrow> bset \<Rightarrow> string list \<Rightarrow> ReuseBinding list \<Rightarrow> bset \<Rightarrow>
   string + (ReuseBinding list \<times> bset)"
where
  "collect_inputs source permitted [] bindings skipped = Inr (bindings, skipped)"
| "collect_inputs source permitted (i # ids) bindings skipped =
     (if i \<notin> set permitted
      then collect_inputs source permitted ids bindings (insort_insert i skipped)
      else let records = filter (\<lambda>r. rw_node_id r = i) source
           in if \<not> reusable records
              then Inl (''Cannot reuse Node '' @ quoted i @
                     '': the settled source has no complete successful input; choose an earlier rework Node'')
              else collect_inputs source permitted ids
                     (bindings @ map (binding_of i) (filter (\<lambda>r. rw_status r = NSucceeded) records))
                     skipped)"

definition plan_rework ::
  "'v serde_json \<Rightarrow> 'v WorkflowGraph \<Rightarrow> string list option \<Rightarrow> ReworkSourceExecution list \<Rightarrow>
   string + ReworkPlan"
where
  "plan_rework S g roots source =
     (let all_nodes = bset_of (map wn_id (wg_nodes g))
      in and_then
        (case roots of
           None \<Rightarrow> Inr all_nodes
         | Some rs \<Rightarrow>
             if rs = [] \<or> card (set rs) \<noteq> length rs
             then Inl ''Partial rework requires distinct, non-empty Node IDs''
             else (case find (\<lambda>i. i \<notin> set all_nodes) rs of
                     Some i \<Rightarrow> Inl (''Node '' @ quoted i @ '' is not in the frozen workflow'')
                   | None \<Rightarrow> Inr (downstream_closure g (bset_of rs))))
        (\<lambda>affected.
          let permitted = permitted_nodes S g affected source
          in case Option.bind roots (find (\<lambda>i. i \<notin> set permitted)) of
               Some rt \<Rightarrow> Inl (''Node '' @ quoted rt @
                 '' is outside the recorded Condition route; include an earlier Condition in the rework scope'')
             | None \<Rightarrow>
                 and_then (collect_inputs source permitted (bset_difference all_nodes affected) [] [])
                   (\<lambda>(bindings, skipped).
                     Inr \<lparr>affected_node_ids = affected, reuse = bindings, skipped_node_ids = skipped\<rparr>)))"

section \<open>The closures\<close>

definition permitted_rel ::
  "'v serde_json \<Rightarrow> 'v WorkflowGraph \<Rightarrow> bset \<Rightarrow> ReworkSourceExecution list \<Rightarrow> (string \<times> string) set" where
  "permitted_rel S g affected source =
     {(we_source e, we_target e) | e. e \<in> set (wg_edges g) \<and> edge_permitted S g affected source e}"

lemma finite_permitted_rel: "finite (permitted_rel S g affected source)"
proof (rule finite_subset)
  show "permitted_rel S g affected source \<subseteq> edge_rel g"
    by (auto simp: permitted_rel_def edge_rel_iff)
qed simp

interpretation down: saturation downstream_next downstream_closure edge_rel
proof
  show "downstream_closure p xs =
      (let ys = bset_extend xs (downstream_next p xs)
       in if length xs = length ys then ys else downstream_closure p ys)" for p :: "'a WorkflowGraph" and xs
    by (rule downstream_closure.simps)
  show "y \<in> set (downstream_next p xs) \<longleftrightarrow> (\<exists>x \<in> set xs. (x, y) \<in> edge_rel p)"
    for p :: "'a WorkflowGraph" and xs y
    by (auto simp: downstream_next_def edge_rel_iff)
  show "finite (Range (edge_rel p))" for p :: "'a WorkflowGraph"
    by (simp add: finite_Range)
qed

interpretation perm: saturation
  "\<lambda>(S, g, affected, source). permitted_next S g affected source"
  "\<lambda>(S, g, affected, source). permitted_loop S g affected source"
  "\<lambda>(S, g, affected, source). permitted_rel S g affected source"
proof (standard, goal_cases)
  case (1 p xs)
  then show ?case by (cases p) (simp add: permitted_loop.simps [of _ _ _ _ xs] Let_def)
next
  case (2 y p xs)
  then show ?case by (cases p) (auto simp: permitted_next_def permitted_rel_def)
next
  case (3 p)
  then show ?case by (cases p) (simp add: finite_permitted_rel finite_Range)
qed

lemmas set_downstream_closure = down.set_run
lemmas downstream_closure_ok = down.run_ok
lemmas set_permitted_loop = perm.set_run [where p = "(S, g, affected, source)" for S g affected source, simplified]

lemma set_permitted_nodes:
  "set (permitted_nodes S g affected source) =
     (permitted_rel S g affected source)\<^sup>* `` set (start_ids g)"
  by (simp add: permitted_nodes_def set_permitted_loop start_ids_def)

section \<open>The inputs\<close>

abbreviation records_of :: "ReworkSourceExecution list \<Rightarrow> string \<Rightarrow> ReworkSourceExecution list" where
  "records_of source i \<equiv> filter (\<lambda>r. rw_node_id r = i) source"

definition bindings_for :: "ReworkSourceExecution list \<Rightarrow> string \<Rightarrow> ReuseBinding list" where
  "bindings_for source i =
     map (binding_of i) (filter (\<lambda>r. rw_status r = NSucceeded) (records_of source i))"

lemma collect_inputs_ok:
  "collect_inputs source permitted ids bs sk = Inr (bs', sk') \<longleftrightarrow>
     (\<forall>i \<in> set ids. i \<in> set permitted \<longrightarrow> reusable (records_of source i)) \<and>
     bs' = bs @ concat (map (bindings_for source) (filter (\<lambda>i. i \<in> set permitted) ids)) \<and>
     sk' = bset_extend sk (filter (\<lambda>i. i \<notin> set permitted) ids)"
proof (induction source permitted ids bs sk rule: collect_inputs.induct)
  case (1 source permitted bs sk)
  then show ?case by auto
next
  case (2 source permitted i ids bs sk)
  then show ?case by (auto simp: Let_def bindings_for_def)
qed

lemma card_distinct_iff: "card (set xs) \<noteq> length xs \<longleftrightarrow> \<not> distinct xs"
  using card_distinct distinct_card by blast

lemma find_absent_None: "find (\<lambda>i. i \<notin> A) xs = None \<longleftrightarrow> set xs \<subseteq> A"
  by (auto simp: find_None_iff)

text \<open>When \<open>plan_rework\<close> succeeds and what it returns, over any choice of roots.\<close>

definition rework_scope :: "'v WorkflowGraph \<Rightarrow> string list option \<Rightarrow> bset" where
  "rework_scope g roots =
     (case roots of None \<Rightarrow> bset_of (node_ids g) | Some rs \<Rightarrow> downstream_closure g (bset_of rs))"

definition roots_ok :: "'v WorkflowGraph \<Rightarrow> string list option \<Rightarrow> bool" where
  "roots_ok g roots \<longleftrightarrow>
     (case roots of None \<Rightarrow> True | Some rs \<Rightarrow> rs \<noteq> [] \<and> distinct rs \<and> set rs \<subseteq> set (node_ids g))"

lemma plan_rework_ok:
  fixes g :: "'v WorkflowGraph"
  defines "P \<equiv> \<lambda>S roots source. permitted_nodes S g (rework_scope g roots) source"
    and "D \<equiv> \<lambda>roots. bset_difference (bset_of (node_ids g)) (rework_scope g roots)"
  shows "plan_rework S g roots source = Inr p \<longleftrightarrow>
    roots_ok g roots \<and>
    (case roots of None \<Rightarrow> True | Some rs \<Rightarrow> set rs \<subseteq> set (P S roots source)) \<and>
    (\<forall>i \<in> set (D roots). i \<in> set (P S roots source) \<longrightarrow> reusable (records_of source i)) \<and>
    p = \<lparr>affected_node_ids = rework_scope g roots,
         reuse = concat (map (bindings_for source)
                   (filter (\<lambda>i. i \<in> set (P S roots source)) (D roots))),
         skipped_node_ids = bset_of (filter (\<lambda>i. i \<notin> set (P S roots source)) (D roots))\<rparr>"
proof (cases roots)
  case None
  show ?thesis
    unfolding plan_rework_def P_def D_def roots_ok_def rework_scope_def None
    by (auto simp: Let_def node_ids_def [symmetric] and_then_eq_Inr collect_inputs_ok bset_of_def)
next
  case (Some rs)
  show ?thesis
  proof (cases "roots_ok g roots")
    case True
    then have "find (\<lambda>i. i \<notin> set (bset_of (node_ids g))) rs = None" "rs \<noteq> []" "distinct rs"
      using Some by (auto simp: roots_ok_def find_absent_None)
    moreover have "P S roots source =
        permitted_nodes S g (downstream_closure g (bset_of rs)) source"
      by (simp add: P_def rework_scope_def Some)
    moreover have "find (\<lambda>i. i \<notin> A) rs = Some x \<Longrightarrow> \<not> set rs \<subseteq> A" for A x
      using find_absent_None [of A rs] by auto
    ultimately show ?thesis
      using True unfolding plan_rework_def D_def rework_scope_def Some
      by (auto simp: Let_def node_ids_def [symmetric] and_then_eq_Inr collect_inputs_ok bset_of_def
          card_distinct_iff find_absent_None split: option.splits)
  next
    case False
    then have "is_ok (plan_rework S g roots source) = False"
      using Some by (auto simp: plan_rework_def roots_ok_def Let_def card_distinct_iff
          node_ids_def [symmetric] find_absent_None subset_iff find_None_iff split: option.splits)
    then show ?thesis using False by (auto simp: is_ok_iff)
  qed
qed

lemma set_bindings_for:
  "b \<in> set (bindings_for source i) \<longleftrightarrow>
     (\<exists>r \<in> set source. rw_node_id r = i \<and> rw_status r = NSucceeded \<and> b = binding_of i r)"
  by (auto simp: bindings_for_def)

lemma reusable_bindings: "reusable (records_of source i) \<Longrightarrow> bindings_for source i \<noteq> []"
  by (simp add: reusable_def bindings_for_def)

lemma scope_within:
  assumes "roots_ok g roots" "edges_closed g"
  shows "set (rework_scope g roots) \<subseteq> set (node_ids g)"
proof (cases roots)
  case None
  then show ?thesis by (simp add: rework_scope_def)
next
  case (Some rs)
  have "y \<in> set (node_ids g)" if "(x, y) \<in> (edge_rel g)\<^sup>*" "x \<in> set (node_ids g)" for x y
    using that assms(2) by (induction rule: rtrancl_induct) (auto dest: edges_closedD)
  with Some assms(1) show ?thesis
    by (auto simp: rework_scope_def set_downstream_closure roots_ok_def)
qed

section \<open>Facts about a successful plan\<close>

abbreviation reused_ids :: "ReworkPlan \<Rightarrow> string set" where
  "reused_ids p \<equiv> rb_node_id ` set (reuse p)"

lemma plan_affected:
  assumes "plan_rework S g roots source = Inr p"
  shows "affected_node_ids p = rework_scope g roots"
  using assms by (simp add: plan_rework_ok)

lemma plan_reuse_iff:
  assumes "plan_rework S g roots source = Inr p"
  shows "b \<in> set (reuse p) \<longleftrightarrow>
    (\<exists>r \<in> set source. rw_status r = NSucceeded \<and> b = binding_of (rw_node_id r) r \<and>
       rw_node_id r \<in> set (node_ids g) - set (affected_node_ids p) \<and>
       rw_node_id r \<in> set (permitted_nodes S g (affected_node_ids p) source))"
  using assms by (auto simp: plan_rework_ok set_bindings_for)

lemma plan_skipped:
  assumes "plan_rework S g roots source = Inr p"
  shows "set (skipped_node_ids p) =
    set (node_ids g) - set (affected_node_ids p) - set (permitted_nodes S g (affected_node_ids p) source)"
  using assms by (auto simp: plan_rework_ok)

lemma plan_reused_ids:
  assumes "plan_rework S g roots source = Inr p"
  shows "reused_ids p =
    (set (node_ids g) - set (affected_node_ids p)) \<inter> set (permitted_nodes S g (affected_node_ids p) source)"
    (is "_ = ?U \<inter> ?P")
proof
  show "reused_ids p \<subseteq> ?U \<inter> ?P"
    by (auto simp: plan_reuse_iff [OF assms] binding_of_def)
  show "?U \<inter> ?P \<subseteq> reused_ids p"
  proof
    fix i
    assume i: "i \<in> ?U \<inter> ?P"
    with assms have "reusable (records_of source i)" by (auto simp: plan_rework_ok)
    then obtain r where "r \<in> set source" "rw_node_id r = i" "rw_status r = NSucceeded"
      by (auto simp: reusable_def filter_empty_conv)
    with i have "binding_of i r \<in> set (reuse p)" by (auto simp: plan_reuse_iff [OF assms])
    then show "i \<in> reused_ids p" by (force simp: binding_of_def)
  qed
qed

lemma scope_closed:
  assumes "edges_closed g" "(u, v) \<in> edge_rel g" "u \<in> set (rework_scope g roots)"
  shows "v \<in> set (rework_scope g roots)"
  using assms
  by (auto simp: rework_scope_def set_downstream_closure dest: edges_closedD rtrancl_into_rtrancl
      split: option.splits)

text \<open>A permitted node outside the scope is reached through nodes outside the scope only.\<close>

lemma permitted_predecessor:
  assumes "edges_closed g" "i \<in> set (permitted_nodes S g (rework_scope g roots) source)"
    and "i \<notin> set (rework_scope g roots)"
  shows "i \<in> set (start_ids g) \<or>
    (\<exists>e \<in> set (wg_edges g). we_target e = i \<and> edge_permitted S g (rework_scope g roots) source e \<and>
       we_source e \<in> set (permitted_nodes S g (rework_scope g roots) source) - set (rework_scope g roots))"
proof -
  let ?R = "permitted_rel S g (rework_scope g roots) source"
  from assms(2) obtain s where "s \<in> set (start_ids g)" and path: "(s, i) \<in> ?R\<^sup>*"
    by (auto simp: set_permitted_nodes)
  from path show ?thesis
  proof (cases rule: rtranclE)
    case base
    with \<open>s \<in> set (start_ids g)\<close> show ?thesis by simp
  next
    case (step j)
    then obtain e where e: "e \<in> set (wg_edges g)" "we_source e = j" "we_target e = i"
        "edge_permitted S g (rework_scope g roots) source e"
      by (auto simp: permitted_rel_def)
    then have "j \<notin> set (rework_scope g roots)"
      using scope_closed [OF assms(1), of j i roots] assms(3) by (auto simp: edge_rel_iff)
    moreover have "j \<in> set (permitted_nodes S g (rework_scope g roots) source)"
      using step \<open>s \<in> set (start_ids g)\<close> by (auto simp: set_permitted_nodes)
    ultimately show ?thesis using e by blast
  qed
qed

section \<open>Properties\<close>

text \<open>
  C29: When a rework is planned, the nodes that run again are exactly the nodes reachable from the
  chosen roots along the edges of the graph (the roots included), or all nodes of the graph when no
  roots are given, listed in ascending order without repetition.
\<close>

theorem rework_affects_downstream_closure:
  assumes "plan_rework S g roots source = Inr p"
  shows "set (affected_node_ids p) =
      (case roots of None \<Rightarrow> set (node_ids g) | Some rs \<Rightarrow> (edge_rel g)\<^sup>* `` set rs) \<and>
    bset_ok (affected_node_ids p)"
  unfolding plan_affected [OF assms] rework_scope_def
  by (cases roots) (simp_all add: set_downstream_closure downstream_closure_ok)

definition done_record :: "string \<Rightarrow> string \<Rightarrow> ReworkSourceExecution" where
  "done_record x i = \<lparr>rw_execution_id = x, rw_node_id = i, rw_iteration = 0,
     rw_status = NSucceeded, rw_output_text = None\<rparr>"

abbreviation line_records :: "ReworkSourceExecution list" where
  "line_records \<equiv> [done_record ''x0'' ''start'', done_record ''x1'' ''agent'', done_record ''x2'' ''end'']"

lemma line_rework:
  "plan_rework (lit_serde []) line_graph (Some [''agent'']) line_records =
     Inr \<lparr>affected_node_ids = [''agent'', ''end''],
          reuse = [\<lparr>rb_node_id = ''start'', rb_iteration = 0, rb_source_execution_id = ''x0''\<rparr>],
          skipped_node_ids = []\<rparr>"
  by code_simp

theorem rework_affects_downstream_closure_witness:
  "set [''agent'', ''end''] = (edge_rel line_graph)\<^sup>* `` {''agent''}"
  using rework_affects_downstream_closure [OF line_rework] by simp

text \<open>
  On a graph whose edges join existing nodes, a planned rework sorts every node into exactly
  one of three classes: run again, reused from the source delivery, or skipped.
\<close>

theorem rework_partitions_nodes:
  assumes "plan_rework S g roots source = Inr p" and "edges_closed g"
  shows "set (affected_node_ids p) \<union> reused_ids p \<union> set (skipped_node_ids p) = set (node_ids g) \<and>
    set (affected_node_ids p) \<inter> reused_ids p = {} \<and>
    set (affected_node_ids p) \<inter> set (skipped_node_ids p) = {} \<and>
    reused_ids p \<inter> set (skipped_node_ids p) = {}"
proof -
  have "set (affected_node_ids p) \<subseteq> set (node_ids g)"
    using scope_within assms by (metis plan_affected plan_rework_ok)
  then show ?thesis
    by (auto simp: plan_reused_ids [OF assms(1)] plan_skipped [OF assms(1)])
qed

theorem rework_partitions_nodes_witness:
  "set [''agent'', ''end''] \<union> {''start''} \<union> {} = set (node_ids line_graph)"
proof -
  have "edges_closed line_graph" by code_simp
  from rework_partitions_nodes [OF line_rework this] show ?thesis by simp
qed

text \<open>
  A reuse binding always points to a recorded execution, and the bindings of a plan are exactly
  the succeeded recorded executions of the nodes outside the rework scope that the recorded condition
  routes permit: no success is invented and none is dropped.
\<close>

theorem rework_reuses_recorded_successes:
  assumes "plan_rework S g roots source = Inr p"
  shows "b \<in> set (reuse p) \<longleftrightarrow>
    (\<exists>r \<in> set source. rw_status r = NSucceeded \<and>
       b = \<lparr>rb_node_id = rw_node_id r, rb_iteration = rw_iteration r,
            rb_source_execution_id = rw_execution_id r\<rparr> \<and>
       rw_node_id r \<in> set (node_ids g) - set (affected_node_ids p) \<and>
       (\<exists>s \<in> set (start_ids g). (s, rw_node_id r) \<in> (permitted_rel S g (affected_node_ids p) source)\<^sup>*))"
  unfolding plan_reuse_iff [OF assms] set_permitted_nodes binding_of_def by auto

theorem rework_reuses_recorded_successes_witness:
  "\<exists>r \<in> set line_records. rw_status r = NSucceeded \<and> rw_execution_id r = ''x0'' \<and>
     rw_node_id r \<in> set (node_ids line_graph)"
  using rework_reuses_recorded_successes
      [OF line_rework, of "\<lparr>rb_node_id = ''start'', rb_iteration = 0, rb_source_execution_id = ''x0''\<rparr>"]
  by auto

text \<open>
  C30: the reused inputs are grounded: on a graph whose edges join nodes of the graph, every reused node is a start
  node or has an incoming edge, permitted by the recorded routes, whose source is reused as well.
\<close>

theorem rework_reuse_grounded:
  assumes "plan_rework S g roots source = Inr p" and "edges_closed g" and "i \<in> reused_ids p"
  shows "i \<in> set (start_ids g) \<or>
    (\<exists>e \<in> set (wg_edges g). we_target e = i \<and> we_source e \<in> reused_ids p \<and>
       edge_permitted S g (affected_node_ids p) source e)"
proof -
  note sets = plan_reused_ids [OF assms(1)] and scope = plan_affected [OF assms(1)]
  from assms(3) have "i \<in> set (permitted_nodes S g (rework_scope g roots) source)"
      "i \<notin> set (rework_scope g roots)"
    by (auto simp: sets scope)
  from permitted_predecessor [OF assms(2) this] show ?thesis
    using assms(2) unfolding sets scope edges_closed_def by blast
qed

lemma line_rework_end:
  "plan_rework (lit_serde []) line_graph (Some [''end'']) line_records =
     Inr \<lparr>affected_node_ids = [''end''],
          reuse = [\<lparr>rb_node_id = ''agent'', rb_iteration = 0, rb_source_execution_id = ''x1''\<rparr>,
                   \<lparr>rb_node_id = ''start'', rb_iteration = 0, rb_source_execution_id = ''x0''\<rparr>],
          skipped_node_ids = []\<rparr>"
  by code_simp

theorem rework_reuse_grounded_witness:
  "\<exists>e \<in> set (wg_edges line_graph). we_target e = ''agent'' \<and> we_source e \<in> {''agent'', ''start''}"
proof -
  have "edges_closed line_graph" "''agent'' \<notin> set (start_ids line_graph)" by code_simp+
  with rework_reuse_grounded [OF line_rework_end, of "''agent''"] show ?thesis by auto
qed

text \<open>
  C28: A rework is planned if and only if the roots, where given, are non-empty, distinct nodes of
  the graph that the recorded routes can still reach, and every permitted node outside the scope has
  only succeeded or skipped recorded executions, at least one of them succeeded. In every other
  case the function returns an error.
\<close>

theorem plan_rework_succeeds_iff:
  "is_ok (plan_rework S g roots source) \<longleftrightarrow>
     (let affected = (case roots of None \<Rightarrow> bset_of (node_ids g) | Some rs \<Rightarrow> downstream_closure g (bset_of rs));
          permitted = permitted_nodes S g affected source
      in (case roots of None \<Rightarrow> True
          | Some rs \<Rightarrow> rs \<noteq> [] \<and> distinct rs \<and> set rs \<subseteq> set (node_ids g) \<and> set rs \<subseteq> set permitted) \<and>
         (\<forall>i \<in> set (node_ids g). i \<notin> set affected \<and> i \<in> set permitted \<longrightarrow>
            (\<exists>r \<in> set source. rw_node_id r = i \<and> rw_status r = NSucceeded) \<and>
            (\<forall>r \<in> set source. rw_node_id r = i \<longrightarrow> rw_status r = NSucceeded \<or> rw_status r = NSkipped)))"
proof -
  have reusable: "reusable (records_of source i) \<longleftrightarrow>
      (\<exists>r \<in> set source. rw_node_id r = i \<and> rw_status r = NSucceeded) \<and>
      (\<forall>r \<in> set source. rw_node_id r = i \<longrightarrow> rw_status r = NSucceeded \<or> rw_status r = NSkipped)" for i
    by (auto simp: reusable_def list_ex_iff filter_empty_conv)
  show ?thesis
    unfolding is_ok_iff plan_rework_ok rework_scope_def [symmetric] Let_def
    by (cases roots) (auto simp: roots_ok_def reusable)
qed

theorem plan_rework_succeeds_iff_witness:
  "is_ok (plan_rework (lit_serde []) line_graph (Some [''agent'']) line_records)"
  unfolding plan_rework_succeeds_iff by code_simp

text \<open>
  A rework of the whole delivery (no roots given) never fails: all nodes run again, nothing is
  reused and nothing is skipped.
\<close>

theorem full_rework_never_fails:
  "plan_rework S g None source =
     Inr \<lparr>affected_node_ids = bset_of (node_ids g), reuse = [], skipped_node_ids = []\<rparr>"
  unfolding plan_rework_ok by (simp add: roots_ok_def rework_scope_def bset_difference_def bset_of_def)

end
