(* ===== verification/Handlers.thy ===== *)
theory Handlers
  imports Graph
begin

text \<open>
  The nodes the workflow crate executes itself: the text transforms of
  \<open>crates/workflow/src/transform.rs\<close> and the pure node handlers of
  \<open>crates/workflow/src/handlers.rs\<close>. The \<open>regex\<close> crate is third-party code: its two functions
  \<open>Regex::new\<close> and \<open>Regex::captures\<close> are the fields of the record \<open>'r regex_crate\<close>, an argument of
  every definition that calls them; \<open>captures_have_match\<close> is the documented guarantee that group 0
  of a successful match is present.
\<close>

section \<open>Definitions\<close>

datatype TransformError = TransformError (te_message: string)

record 'r regex_crate =
  rx_new :: "string \<Rightarrow> string + 'r"
  rx_captures :: "'r \<Rightarrow> string \<Rightarrow> (nat \<Rightarrow> string option) option"

definition apply_template :: "'v WorkflowNodeData \<Rightarrow> string \<Rightarrow> TransformError + string" where
  "apply_template data input =
     and_then (ok_or (template data) (TransformError ''template transform requires template text''))
       (\<lambda>t. Inr (replace_str ''{{upstream}}'' input (replace_str ''{{input}}'' input t)))"

definition apply_regex_extract ::
  "'r regex_crate \<Rightarrow> 'v WorkflowNodeData \<Rightarrow> string \<Rightarrow> TransformError + string" where
  "apply_regex_extract RX data input =
     and_then (ok_or (regex data) (TransformError ''regex_extract transform requires regex'')) (\<lambda>pattern.
     and_then (map_err (\<lambda>err. TransformError (''invalid regex '' @ quoted pattern @ '': '' @ err))
                 (rx_new RX pattern)) (\<lambda>r.
     and_then (ok_or (rx_captures RX r input)
                 (TransformError ''regex_extract transform found no match'')) (\<lambda>captures.
     ok_or (case captures 1 of Some c \<Rightarrow> Some c | None \<Rightarrow> captures 0)
       (TransformError ''regex_extract transform found no capture''))))"

definition apply_truncate :: "'v WorkflowNodeData \<Rightarrow> string \<Rightarrow> TransformError + string" where
  "apply_truncate data input =
     and_then (ok_or (max_chars data) (TransformError ''truncate transform requires max_chars''))
       (\<lambda>n. Inr (take n input))"

definition apply_transform ::
  "'r regex_crate \<Rightarrow> 'v WorkflowNodeData \<Rightarrow> string \<Rightarrow> TransformError + string" where
  "apply_transform RX data input =
     and_then (ok_or (tmode data) (TransformError ''transform mode is required'')) (\<lambda>m.
       case m of
         TTemplate \<Rightarrow> apply_template data input
       | TRegexExtract \<Rightarrow> apply_regex_extract RX data input
       | TTruncate \<Rightarrow> apply_truncate data input)"

datatype NodeHandlerStatus = HSucceeded | HAwaitingHuman | HAwaitingArena

record UpstreamOutput =
  uo_node_id :: string
  uo_output_text :: string

record NodeHandlerContext =
  run_input_text :: string
  upstream_outputs :: "UpstreamOutput list"

definition from_run_input :: "string \<Rightarrow> NodeHandlerContext" where
  "from_run_input t = \<lparr>run_input_text = t, upstream_outputs = []\<rparr>"

definition with_upstream_outputs :: "string \<Rightarrow> UpstreamOutput list \<Rightarrow> NodeHandlerContext" where
  "with_upstream_outputs t us = \<lparr>run_input_text = t, upstream_outputs = us\<rparr>"

definition upstream_text :: "NodeHandlerContext \<Rightarrow> string" where
  "upstream_text ctx =
     (if upstream_outputs ctx = [] then run_input_text ctx
      else join_str [CHR 0x0A, CHR 0x0A] (map uo_output_text (upstream_outputs ctx)))"

record NodeHandlerOutcome =
  ho_status :: NodeHandlerStatus
  ho_output_text :: "string option"
  ho_selected :: "string list"
  ho_skipped :: "string list"
  ho_prompt :: "string option"

definition succeeded_outcome :: "string \<Rightarrow> NodeHandlerOutcome" where
  "succeeded_outcome t = \<lparr>ho_status = HSucceeded, ho_output_text = Some t, ho_selected = [],
     ho_skipped = [], ho_prompt = None\<rparr>"

definition waiting_outcome :: "NodeHandlerStatus \<Rightarrow> string option \<Rightarrow> NodeHandlerOutcome" where
  "waiting_outcome st p = \<lparr>ho_status = st, ho_output_text = None, ho_selected = [],
     ho_skipped = [], ho_prompt = p\<rparr>"

datatype HandlerError = HandlerError (he_message: string)

definition handler_error_of_transform :: "TransformError \<Rightarrow> HandlerError" where
  "handler_error_of_transform e = HandlerError (te_message e)"

definition handle_start :: "NodeHandlerContext \<Rightarrow> NodeHandlerOutcome" where
  "handle_start ctx = succeeded_outcome (run_input_text ctx)"

definition handle_end :: "NodeHandlerContext \<Rightarrow> NodeHandlerOutcome" where
  "handle_end ctx = succeeded_outcome (upstream_text ctx)"

definition handle_transform ::
  "'r regex_crate \<Rightarrow> 'v WorkflowNode \<Rightarrow> NodeHandlerContext \<Rightarrow> HandlerError + NodeHandlerOutcome" where
  "handle_transform RX n ctx =
     and_then (map_err handler_error_of_transform (apply_transform RX (wn_data n) (upstream_text ctx)))
       (\<lambda>t. Inr (succeeded_outcome t))"

definition handle_human_gate :: "'v WorkflowNode \<Rightarrow> NodeHandlerOutcome" where
  "handle_human_gate n = waiting_outcome HAwaitingHuman (prompt_to_human (wn_data n))"

definition handle_arena :: "'v WorkflowNode \<Rightarrow> NodeHandlerOutcome" where
  "handle_arena n = waiting_outcome HAwaitingArena (prompt_template (wn_data n))"

definition handle_pure_node ::
  "'r regex_crate \<Rightarrow> 'v WorkflowNode \<Rightarrow> 'v WorkflowEdge list \<Rightarrow> NodeHandlerContext \<Rightarrow>
   HandlerError + NodeHandlerOutcome"
where
  "handle_pure_node RX n outgoing ctx =
     (case wn_kind n of
        KStart \<Rightarrow> Inr (handle_start ctx)
      | KEnd \<Rightarrow> Inr (handle_end ctx)
      | KCondition \<Rightarrow> Inl (HandlerError
          ''condition nodes require the workflow condition router and are not pure handlers'')
      | KTransform \<Rightarrow> handle_transform RX n ctx
      | KHumanGate \<Rightarrow> Inr (handle_human_gate n)
      | KArena \<Rightarrow> Inr (handle_arena n)
      | KAgent \<Rightarrow> Inl (HandlerError
          ''agent nodes require an executor port and are not pure handlers''))"

section \<open>Specification\<close>

definition captures_have_match :: "'r regex_crate \<Rightarrow> bool" where
  "captures_have_match RX \<longleftrightarrow> (\<forall>r s c. rx_captures RX r s = Some c \<longrightarrow> c 0 \<noteq> None)"

text \<open>A template as its author thinks of it: literal text and the two placeholders.\<close>

datatype segment = Literal string | InputHole | UpstreamHole

fun print_segment :: "segment \<Rightarrow> string" where
  "print_segment (Literal t) = t"
| "print_segment InputHole = ''{{input}}''"
| "print_segment UpstreamHole = ''{{upstream}}''"

fun fill_segment :: "string \<Rightarrow> segment \<Rightarrow> string" where
  "fill_segment input (Literal t) = t"
| "fill_segment input _ = input"

abbreviation print_template :: "segment list \<Rightarrow> string" where
  "print_template segs \<equiv> concat (map print_segment segs)"

definition brace_free :: "string \<Rightarrow> bool" where
  "brace_free t \<longleftrightarrow> CHR ''{'' \<notin> set t"

definition literals_brace_free :: "segment list \<Rightarrow> bool" where
  "literals_brace_free segs \<longleftrightarrow> (\<forall>t. Literal t \<in> set segs \<longrightarrow> brace_free t)"

lemma replace_str_brace_free:
  "brace_free t \<Longrightarrow> replace_str (CHR ''{'' # p) r (t @ s) = t @ replace_str (CHR ''{'' # p) r s"
  by (induction t) (auto simp: brace_free_def replace_str_skip)

lemma replace_input_keeps_upstream:
  "replace_str ''{{input}}'' r (''{{upstream}}'' @ s) = ''{{upstream}}'' @ replace_str ''{{input}}'' r s"
  by (simp add: replace_str_skip)

lemma replace_input_template:
  assumes "literals_brace_free segs"
  shows "replace_str ''{{input}}'' r (print_template segs) =
    print_template (map (\<lambda>x. if x = InputHole then Literal r else x) segs)"
  using assms
proof (induction segs)
  case (Cons x segs)
  then have IH: "replace_str ''{{input}}'' r (print_template segs) =
      print_template (map (\<lambda>x. if x = InputHole then Literal r else x) segs)"
    by (auto simp: literals_brace_free_def)
  show ?case
  proof (cases x)
    case (Literal t)
    with Cons.prems have "brace_free t" by (auto simp: literals_brace_free_def)
    with Literal IH show ?thesis by (simp add: replace_str_brace_free)
  next
    case InputHole
    have "replace_str ''{{input}}'' r (''{{input}}'' @ s) = r @ replace_str ''{{input}}'' r s" for s
      by (rule replace_str_prefix) simp
    with InputHole IH show ?thesis by simp
  next
    case UpstreamHole
    with IH replace_input_keeps_upstream [of r "print_template segs"] show ?thesis by simp
  qed
qed simp

lemma replace_upstream_template:
  assumes "literals_brace_free segs" "InputHole \<notin> set segs"
  shows "replace_str ''{{upstream}}'' r (print_template segs) = concat (map (fill_segment r) segs)"
  using assms
proof (induction segs)
  case (Cons x segs)
  then have IH: "replace_str ''{{upstream}}'' r (print_template segs) = concat (map (fill_segment r) segs)"
    by (auto simp: literals_brace_free_def)
  show ?case
  proof (cases x)
    case (Literal t)
    with Cons.prems have "brace_free t" by (auto simp: literals_brace_free_def)
    with Literal IH show ?thesis by (simp add: replace_str_brace_free)
  next
    case InputHole
    with Cons.prems show ?thesis by simp
  next
    case UpstreamHole
    have "replace_str ''{{upstream}}'' r (''{{upstream}}'' @ s) = r @ replace_str ''{{upstream}}'' r s" for s
      by (rule replace_str_prefix) simp
    with UpstreamHole IH show ?thesis by simp
  qed
qed simp

lemma fill_after_input:
  "concat (map (fill_segment r) (map (\<lambda>x. if x = InputHole then Literal r else x) segs)) =
     concat (map (fill_segment r) segs)"
  by (induction segs) auto

text \<open>
  The second \<open>replace\<close> runs over the text the first one inserted, so an input that contains the
  other placeholder is expanded once more.
\<close>

lemma template_expands_inserted_text:
  "apply_template (default_node_data\<lparr>template := Some ''<{{input}}>''\<rparr>) ''a{{upstream}}b'' =
     Inr ''<aa{{upstream}}bb>''"
  by code_simp

section \<open>Properties\<close>

text \<open>
  A template transform replaces every placeholder by the upstream text and leaves the literal
  text as it is, for every template whose literal text, and every input that, has no opening brace.
\<close>

theorem template_fills_placeholders:
  assumes "template data = Some (print_template segs)"
    and "literals_brace_free segs" "brace_free input"
  shows "apply_template data input = Inr (concat (map (fill_segment input) segs))"
proof -
  let ?mid = "map (\<lambda>x. if x = InputHole then Literal input else x) segs"
  have "literals_brace_free ?mid" "InputHole \<notin> set ?mid"
    using assms(2,3) by (auto simp: literals_brace_free_def split: if_splits)
  then show ?thesis
    using assms(1) replace_input_template [OF assms(2), of input] replace_upstream_template [of ?mid input]
    by (simp add: apply_template_def fill_after_input [unfolded map_map])
qed

theorem template_fills_placeholders_witness:
  "apply_template (default_node_data\<lparr>template := Some ''Review: {{upstream}} ({{input}})''\<rparr>) ''hello'' =
     Inr ''Review: hello (hello)''"
proof -
  let ?segs = "[Literal ''Review: '', UpstreamHole, Literal '' ('', InputHole, Literal '')'']"
  have "literals_brace_free ?segs" "brace_free ''hello''"
    by (auto simp: literals_brace_free_def brace_free_def)
  from template_fills_placeholders [OF _ this, of "default_node_data\<lparr>template := Some ''Review: {{upstream}} ({{input}})''\<rparr>"]
  show ?thesis by simp
qed

text \<open>
  The pure handler fails in exactly these cases: a condition or an agent node, and a transform
  node whose mode or whose mode's parameter is missing, or whose regular expression does not compile or
  does not match. When group 0 of a match is always present, no other failure is possible.
\<close>

theorem handle_pure_node_fails_iff:
  assumes "captures_have_match RX"
  shows "\<not> is_ok (handle_pure_node RX n outgoing ctx) \<longleftrightarrow>
    wn_kind n = KCondition \<or> wn_kind n = KAgent \<or>
    wn_kind n = KTransform \<and>
      (case tmode (wn_data n) of
         None \<Rightarrow> True
       | Some TTemplate \<Rightarrow> template (wn_data n) = None
       | Some TTruncate \<Rightarrow> max_chars (wn_data n) = None
       | Some TRegexExtract \<Rightarrow>
           (\<forall>p r. regex (wn_data n) = Some p \<longrightarrow> rx_new RX p = Inr r \<longrightarrow>
              rx_captures RX r (upstream_text ctx) = None))"
proof -
  have rx: "is_ok (apply_regex_extract RX (wn_data n) t) \<longleftrightarrow>
      (\<exists>p r c. regex (wn_data n) = Some p \<and> rx_new RX p = Inr r \<and> rx_captures RX r t = Some c)" for t
    using assms unfolding apply_regex_extract_def is_ok_iff
    by (fastforce simp: result_simps captures_have_match_def split: option.splits)
  have tr: "is_ok (handle_transform RX n ctx) \<longleftrightarrow> is_ok (apply_transform RX (wn_data n) (upstream_text ctx))"
    by (auto simp: handle_transform_def is_ok_iff result_simps)
  show ?thesis
  proof (cases "wn_kind n = KTransform")
    case True
    then show ?thesis using rx [of "upstream_text ctx"]
      by (auto simp: handle_pure_node_def tr apply_transform_def apply_template_def
          apply_truncate_def ok_or_def split: option.splits TransformMode.splits)
  next
    case False
    then show ?thesis by (auto simp: handle_pure_node_def split: WorkflowNodeKind.splits)
  qed
qed

text \<open>A regular expression engine for the witness: every pattern compiles to itself and matches
  where it occurs as a substring.\<close>

definition substring_regex :: "string regex_crate" where
  "substring_regex = \<lparr>rx_new = Inr,
     rx_captures = (\<lambda>p s. if find_str p s = None then None else Some (\<lambda>i. if i = 0 then Some p else None))\<rparr>"

theorem handle_pure_node_fails_iff_witness:
  "captures_have_match substring_regex \<and>
   \<not> is_ok (handle_pure_node substring_regex
     ((test_node ''t'' KTransform :: json_lit WorkflowNode)
        \<lparr>wn_data := default_node_data\<lparr>tmode := Some TRegexExtract, regex := Some ''PR-''\<rparr>\<rparr>) []
     (from_run_input ''no link''))"
proof -
  have "captures_have_match substring_regex"
    by (simp add: captures_have_match_def substring_regex_def)
  moreover have "find_str ''PR-'' ''no link'' = None" by code_simp
  ultimately show ?thesis
    by (subst handle_pure_node_fails_iff)
       (simp_all add: substring_regex_def upstream_text_def from_run_input_def)
qed

text \<open>
  The text a successful pure node records. A start node passes the run input on, an end node
  the upstream text, and a truncating transform a prefix of it that has at most \<open>max_chars\<close>
  characters and is the whole text when that is short enough; waiting nodes record no text, and
  no pure handler selects or skips targets.
\<close>

theorem handle_pure_node_output:
  assumes "handle_pure_node RX n outgoing ctx = Inr out"
  shows "ho_selected out = [] \<and> ho_skipped out = [] \<and>
    (ho_status out = HSucceeded \<longleftrightarrow> ho_output_text out \<noteq> None) \<and>
    (wn_kind n = KStart \<longrightarrow> ho_output_text out = Some (run_input_text ctx)) \<and>
    (wn_kind n = KEnd \<longrightarrow> ho_output_text out = Some (upstream_text ctx)) \<and>
    (wn_kind n = KTransform \<and> tmode (wn_data n) = Some TTruncate \<longrightarrow>
       (\<exists>t rest m. ho_output_text out = Some t \<and> max_chars (wn_data n) = Some m \<and>
          upstream_text ctx = t @ rest \<and> length t \<le> m \<and> (length (upstream_text ctx) \<le> m \<longrightarrow> rest = [])))"
proof -
  have trunc: "apply_truncate (wn_data n) s = Inr t \<Longrightarrow>
      \<exists>rest m. max_chars (wn_data n) = Some m \<and> s = t @ rest \<and> length t \<le> m \<and> (length s \<le> m \<longrightarrow> rest = [])"
    for s t
    unfolding apply_truncate_def
    by (auto simp: result_simps) (metis append_take_drop_id drop_all)
  show ?thesis
    using assms trunc
    by (auto simp: handle_pure_node_def handle_start_def handle_end_def handle_human_gate_def
        handle_arena_def handle_transform_def apply_transform_def succeeded_outcome_def
        waiting_outcome_def result_simps split: WorkflowNodeKind.splits)
qed

theorem handle_pure_node_output_witness:
  "\<exists>t rest. ''upstream'' = t @ rest \<and> length t \<le> 2"
proof -
  let ?n = "(test_node ''t'' KTransform :: json_lit WorkflowNode)
        \<lparr>wn_data := default_node_data\<lparr>tmode := Some TTruncate, max_chars := Some 2\<rparr>\<rparr>"
  have "handle_pure_node substring_regex ?n [] (from_run_input ''upstream'') =
      Inr (succeeded_outcome ''up'')"
    by code_simp
  from handle_pure_node_output [OF this] show ?thesis
    by (auto simp: upstream_text_def from_run_input_def)
qed

end
