(* ===== verification/Events.thy ===== *)
theory Events
  imports Serde
begin

text \<open>
  The in-process event stream, \<open>crates/workflow/src/events.rs\<close>: the constructors of
  \<open>WorkflowEvent\<close> and the bus that numbers what is published. \<open>publish\<close> holds the mutex of the
  bus for its whole body (a poisoned lock is taken over), so concurrent publishers are some
  sequence of \<open>publish\<close> steps; \<open>publish_all\<close> is such a sequence.
\<close>

section \<open>Definitions\<close>

datatype WorkflowEventKind =
  WRunStatus | WNodeStatus | WNodeOutput | WNodeError | WNodeWaitingHuman | WNodeWaitingArena

definition v1_kinds :: "WorkflowEventKind list" where
  "v1_kinds = [WRunStatus, WNodeStatus, WNodeOutput, WNodeError, WNodeWaitingHuman, WNodeWaitingArena]"

record 'v WorkflowEvent =
  ev_sequence :: u64
  ev_run_id :: string
  ev_node_id :: "string option"
  ev_kind :: WorkflowEventKind
  ev_status :: "string option"
  ev_payload :: 'v

definition new_event ::
  "WorkflowEventKind \<Rightarrow> string \<Rightarrow> string option \<Rightarrow> string option \<Rightarrow> 'v \<Rightarrow> 'v WorkflowEvent" where
  "new_event kind run_id node_id status payload =
     \<lparr>ev_sequence = 0, ev_run_id = run_id, ev_node_id = node_id, ev_kind = kind,
      ev_status = status, ev_payload = payload\<rparr>"

definition run_status_event :: "string \<Rightarrow> string \<Rightarrow> 'v \<Rightarrow> 'v WorkflowEvent" where
  "run_status_event run_id status payload = new_event WRunStatus run_id None (Some status) payload"

definition node_status_event :: "string \<Rightarrow> string \<Rightarrow> string \<Rightarrow> 'v \<Rightarrow> 'v WorkflowEvent" where
  "node_status_event run_id node_id status payload =
     new_event WNodeStatus run_id (Some node_id) (Some status) payload"

definition node_output_event :: "string \<Rightarrow> string \<Rightarrow> 'v \<Rightarrow> 'v WorkflowEvent" where
  "node_output_event run_id node_id payload = new_event WNodeOutput run_id (Some node_id) None payload"

definition node_error_event :: "string \<Rightarrow> string \<Rightarrow> 'v \<Rightarrow> 'v WorkflowEvent" where
  "node_error_event run_id node_id payload = new_event WNodeError run_id (Some node_id) None payload"

definition node_waiting_human_event :: "string \<Rightarrow> string \<Rightarrow> 'v \<Rightarrow> 'v WorkflowEvent" where
  "node_waiting_human_event run_id node_id payload =
     new_event WNodeWaitingHuman run_id (Some node_id) None payload"

definition node_waiting_arena_event :: "string \<Rightarrow> string \<Rightarrow> 'v \<Rightarrow> 'v WorkflowEvent" where
  "node_waiting_arena_event run_id node_id payload =
     new_event WNodeWaitingArena run_id (Some node_id) None payload"

record 'v WorkflowEventBus =
  next_sequence :: u64
  bus_events :: "'v WorkflowEvent list"

definition default_bus :: "'v WorkflowEventBus" where
  "default_bus = \<lparr>next_sequence = 0, bus_events = []\<rparr>"

definition publish :: "'v WorkflowEventBus \<Rightarrow> 'v WorkflowEvent \<Rightarrow> 'v WorkflowEventBus \<times> 'v WorkflowEvent" where
  "publish bus event =
     (let seq = next_sequence bus + 1;
          event = event\<lparr>ev_sequence := seq\<rparr>
      in (\<lparr>next_sequence = seq, bus_events = bus_events bus @ [event]\<rparr>, event))"

fun publish_all :: "'v WorkflowEventBus \<Rightarrow> 'v WorkflowEvent list \<Rightarrow> 'v WorkflowEventBus \<times> 'v WorkflowEvent list" where
  "publish_all bus [] = (bus, [])"
| "publish_all bus (e # es) =
     (let (bus', e') = publish bus e; (bus'', es') = publish_all bus' es in (bus'', e' # es'))"

section \<open>The bus invariant\<close>

definition numbered_from :: "nat \<Rightarrow> 'v WorkflowEvent list \<Rightarrow> 'v WorkflowEvent list" where
  "numbered_from k es = map (\<lambda>(i, e). e\<lparr>ev_sequence := of_nat i\<rparr>) (zip [k ..< k + length es] es)"

definition bus_ok :: "'v WorkflowEventBus \<Rightarrow> bool" where
  "bus_ok bus \<longleftrightarrow>
     next_sequence bus = of_nat (length (bus_events bus)) \<and>
     map ev_sequence (bus_events bus) = map of_nat [1 ..< Suc (length (bus_events bus))]"

lemma bus_ok_default [simp]: "bus_ok default_bus"
  by (simp add: bus_ok_def default_bus_def)

lemma bus_ok_publish: "bus_ok bus \<Longrightarrow> bus_ok (fst (publish bus e))"
  by (simp add: bus_ok_def publish_def Let_def add.commute)

lemma numbered_from_Cons:
  "numbered_from k (e # es) = e\<lparr>ev_sequence := of_nat k\<rparr> # numbered_from (Suc k) es"
  by (simp add: numbered_from_def upt_conv_Cons del: upt_Suc)

lemma publish_all_events:
  assumes "bus_ok bus"
  shows "publish_all bus es =
    (\<lparr>next_sequence = of_nat (length (bus_events bus) + length es),
      bus_events = bus_events bus @ numbered_from (Suc (length (bus_events bus))) es\<rparr>,
     numbered_from (Suc (length (bus_events bus))) es)"
  using assms
proof (induction es arbitrary: bus)
  case Nil
  then show ?case by (simp add: bus_ok_def numbered_from_def)
next
  case (Cons e es)
  let ?e = "e\<lparr>ev_sequence := of_nat (Suc (length (bus_events bus)))\<rparr>"
  let ?bus = "\<lparr>next_sequence = of_nat (Suc (length (bus_events bus))), bus_events = bus_events bus @ [?e]\<rparr>"
  have "publish bus e = (?bus, ?e)"
    using Cons.prems by (simp add: publish_def Let_def bus_ok_def add.commute)
  moreover have "bus_ok ?bus" using bus_ok_publish [OF Cons.prems, of e] calculation by simp
  ultimately show ?case using Cons.IH [of ?bus] by (simp add: numbered_from_Cons)
qed

lemma length_numbered [simp]: "length (numbered_from k es) = length es"
  by (simp add: numbered_from_def)

lemma numbered_nth:
  "i < length es \<Longrightarrow> numbered_from k es ! i = (es ! i)\<lparr>ev_sequence := of_nat (k + i)\<rparr>"
  by (simp add: numbered_from_def)

section \<open>Properties\<close>

text \<open>
  On a bus that has been used through \<open>publish\<close> only, the events that any sequence of
  publishers appends keep their order and contents, get the consecutive numbers that follow the
  last one given out, and each publisher gets back the event as it was stored. The
  stored history is never rewritten.
\<close>

theorem publish_all_numbers_events:
  "publish_all (fst (publish_all default_bus old)) es =
     (\<lparr>next_sequence = of_nat (length old + length es),
       bus_events = bus_events (fst (publish_all default_bus old)) @ numbered_from (Suc (length old)) es\<rparr>,
      numbered_from (Suc (length old)) es)"
proof -
  have old: "publish_all default_bus old =
      (\<lparr>next_sequence = of_nat (length old), bus_events = numbered_from 1 old\<rparr>, numbered_from 1 old)"
    using publish_all_events [OF bus_ok_default, of old] by (simp add: default_bus_def)
  have "bus_ok (fst (publish_all default_bus old))"
  proof (induction old rule: rev_induct)
    case Nil
    then show ?case by simp
  next
    case (snoc e xs)
    have "publish_all bus (xs @ [e]) =
        (fst (publish (fst (publish_all bus xs)) e),
         snd (publish_all bus xs) @ [snd (publish (fst (publish_all bus xs)) e)])" for bus
      by (induction xs arbitrary: bus) (auto simp: split_beta Let_def)
    with snoc show ?case by (simp add: bus_ok_publish)
  qed
  from publish_all_events [OF this, of es] show ?thesis by (simp add: old)
qed

text \<open>
  C40: as long as fewer than \<open>2 ^ 64\<close> events have been published on a new bus, the sequence numbers of the
  stored events are, in order, 1, 2, 3 and so on up to the number of events, without a wrap-around; in particular they are
  strictly increasing, and no number is given out twice.
\<close>

theorem bus_sequences_strictly_increasing:
  assumes "length es < 2 ^ 64"
  shows "map (unat \<circ> ev_sequence) (bus_events (fst (publish_all default_bus es))) = [1..<Suc (length es)] \<and>
    sorted_wrt (<) (map ev_sequence (bus_events (fst (publish_all default_bus es))))"
proof -
  let ?ns = "map ev_sequence (bus_events (fst (publish_all default_bus es)))"
  have len: "length ?ns = length es"
    using publish_all_events [OF bus_ok_default, of es] by (simp add: default_bus_def)
  have nth: "unat (?ns ! i) = Suc i" if "i < length es" for i
  proof -
    have "unat (of_nat (Suc i) :: u64) = Suc i"
      using that assms by (simp add: unat_of_nat del: of_nat_Suc)
    then show ?thesis
      using publish_all_events [OF bus_ok_default, of es] that
      by (simp add: default_bus_def numbered_nth)
  qed
  have "sorted_wrt (<) ?ns"
    unfolding sorted_wrt_iff_nth_less using nth len by (auto simp: word_less_nat_alt)
  moreover have "map unat ?ns = [1..<Suc (length es)]"
    by (rule nth_equalityI) (use len nth in \<open>simp_all del: upt_Suc\<close>)
  ultimately show ?thesis by simp
qed

theorem bus_sequences_strictly_increasing_witness:
  "map (unat \<circ> ev_sequence) (bus_events (fst (publish_all default_bus
     [run_status_event ''run-1'' ''running'' JNull, node_output_event ''run-1'' ''node-1'' JNull]))) = [1, 2]"
  using bus_sequences_strictly_increasing
    [of "[run_status_event ''run-1'' ''running'' JNull, node_output_event ''run-1'' ''node-1'' JNull]"]
  by (simp add: upt_rec del: publish_all.simps map_map)

end
