(* ===== verification/Templates.thy ===== *)
theory Templates
  imports Planner
begin

text \<open>
  The built-in workflow and role templates, \<open>crates/workflow/src/templates.rs\<close>, as the data they
  are. The executor configuration of an agent node is built with the \<open>json!\<close> macro, so the
  templates take the JSON library as an argument.
\<close>

section \<open>Definitions\<close>

definition PLAN_PARALLEL_FULLSTACK_REVIEW_FINALIZE_ID :: string where
  "PLAN_PARALLEL_FULLSTACK_REVIEW_FINALIZE_ID = ''8f1f2f0c-0e58-4c7c-8dc1-000000000004''"

definition RESEARCH_MULTI_PERSPECTIVE_SYNTHESIZE_ID :: string where
  "RESEARCH_MULTI_PERSPECTIVE_SYNTHESIZE_ID = ''8f1f2f0c-0e58-4c7c-8dc1-000000000005''"

record 'v WorkflowTemplate =
  wt_id :: string
  wt_name :: string
  wt_description :: string
  wt_graph :: "'v WorkflowGraph"

record RoleTemplate =
  rt_id :: string
  rt_name :: string
  rt_description :: string
  rt_prompt_template :: string

definition template_node ::
  "string \<Rightarrow> WorkflowNodeKind \<Rightarrow> 'v WorkflowNodeData \<Rightarrow> f64 \<Rightarrow> f64 \<Rightarrow> 'v WorkflowNode" where
  "template_node i kind data x y = \<lparr>wn_id = i, wn_kind = kind, wn_data = data,
     wn_position = Some \<lparr>pos_x = x, pos_y = y\<rparr>\<rparr>"

definition template_edge :: "string \<Rightarrow> string \<Rightarrow> string \<Rightarrow> WorkflowEdgeKind \<Rightarrow> 'v WorkflowEdge" where
  "template_edge i s t kind = \<lparr>we_id = i, we_source = s, we_source_handle = Some ''output-right'',
     we_target = t, we_target_handle = Some ''input-left'', we_kind = kind, we_data = None\<rparr>"

definition display_data :: "string \<Rightarrow> 'v WorkflowNodeData" where
  "display_data name = default_node_data\<lparr>display_name := Some name\<rparr>"

definition agent_data ::
  "'v serde_json \<Rightarrow> string \<Rightarrow> string \<Rightarrow> string \<Rightarrow> string \<Rightarrow> 'v WorkflowNodeData" where
  "agent_data S name role prompt executor = default_node_data
     \<lparr>display_name := Some name, role_template_id := Some role,
      executor_config := Some (sj_json S (JObj [(''executor'', JStr executor)])),
      prompt_template := Some prompt, output_capture := Some LastMessage\<rparr>"

definition plan_parallel_fullstack_review_finalize :: "'v serde_json \<Rightarrow> 'v WorkflowTemplate" where
  "plan_parallel_fullstack_review_finalize S = \<lparr>
    wt_id = PLAN_PARALLEL_FULLSTACK_REVIEW_FINALIZE_ID,
    wt_name = ''Plan, Parallel Frontend & Backend, Review, Finalize'',
    wt_description = ''Plans and splits the work, implements frontend and backend in parallel, reviews with tests, then commits and updates docs.'',
    wt_graph = \<lparr>wg_version = 2,
     wg_nodes = [
      template_node ''start'' KStart
        (display_data ''Start'') 40 300,
      template_node ''plan'' KAgent
        (agent_data S ''Plan & Split'' ''architect''
          ''Analyze the issue and produce an implementation plan that splits the work into independent frontend and backend tracks.''
          ''CLAUDE_CODE'') 280 260,
      template_node ''frontend'' KAgent
        (agent_data S ''Frontend'' ''implementer''
          ''Implement the frontend track of the plan.''
          ''GEMINI'') 600 110,
      template_node ''backend'' KAgent
        (agent_data S ''Backend'' ''implementer''
          ''Implement the backend track of the plan.''
          ''CODEX'') 600 410,
      template_node ''review'' KAgent
        (agent_data S ''Review & Test'' ''reviewer''
          ''Review the combined frontend and backend changes and run the test suite.''
          ''CLAUDE_CODE'') 920 260,
      template_node ''finalize'' KAgent
        (agent_data S ''Finalize'' ''implementer''
          ''Commit the changes with a clear message and update the project documentation.''
          ''CLAUDE_CODE'') 1240 260,
      template_node ''end'' KEnd
        (display_data ''End'') 1560 300],
     wg_edges = [
      template_edge ''e1'' ''start'' ''plan'' EDefault,
      template_edge ''e2'' ''plan'' ''frontend'' EDefault,
      template_edge ''e3'' ''plan'' ''backend'' EDefault,
      template_edge ''e4'' ''frontend'' ''review'' EDefault,
      template_edge ''e5'' ''backend'' ''review'' EDefault,
      template_edge ''e6'' ''review'' ''finalize'' EDefault,
      template_edge ''e7'' ''finalize'' ''end'' EDefault],
     router_executor_config = None, wg_canvas = None\<rparr>\<rparr>"

definition research_multi_perspective_synthesize :: "'v serde_json \<Rightarrow> 'v WorkflowTemplate" where
  "research_multi_perspective_synthesize S = \<lparr>
    wt_id = RESEARCH_MULTI_PERSPECTIVE_SYNTHESIZE_ID,
    wt_name = ''Research, Multi-Perspective Drafts, Synthesize'',
    wt_description = ''Frames the research topic, drafts three independent perspective documents in parallel, then synthesizes the conclusions.'',
    wt_graph = \<lparr>wg_version = 2,
     wg_nodes = [
      template_node ''start'' KStart
        (display_data ''Start'') 40 340,
      template_node ''frame'' KAgent
        (agent_data S ''Frame Topic'' ''researcher''
          ''Turn the research input from the issue into a well-scoped topic with a clear outline of the questions to answer.''
          ''CLAUDE_CODE'') 280 300,
      template_node ''draft-a'' KAgent
        (agent_data S ''Draft: Pragmatic'' ''custom''
          ''Write an independent design document for the framed topic from a pragmatic perspective: the most direct solution under current constraints.''
          ''CODEX'') 600 80,
      template_node ''draft-b'' KAgent
        (agent_data S ''Draft: Exploratory'' ''custom''
          ''Write an independent design document for the framed topic from an exploratory perspective: alternative approaches and novel ideas.''
          ''GEMINI'') 600 300,
      template_node ''draft-c'' KAgent
        (agent_data S ''Draft: Risk & Trade-offs'' ''custom''
          ''Write an independent design document for the framed topic from a risk perspective: costs, risks, and long-term maintainability trade-offs.''
          ''CLAUDE_CODE'') 600 520,
      template_node ''synthesize'' KAgent
        (agent_data S ''Synthesize'' ''custom''
          ''Compare the three perspective documents, reconcile their differences, and write the final conclusions and recommendation.''
          ''CLAUDE_CODE'') 920 300,
      template_node ''end'' KEnd
        (display_data ''End'') 1240 340],
     wg_edges = [
      template_edge ''e1'' ''start'' ''frame'' EDefault,
      template_edge ''e2'' ''frame'' ''draft-a'' EDefault,
      template_edge ''e3'' ''frame'' ''draft-b'' EDefault,
      template_edge ''e4'' ''frame'' ''draft-c'' EDefault,
      template_edge ''e5'' ''draft-a'' ''synthesize'' EDefault,
      template_edge ''e6'' ''draft-b'' ''synthesize'' EDefault,
      template_edge ''e7'' ''draft-c'' ''synthesize'' EDefault,
      template_edge ''e8'' ''synthesize'' ''end'' EDefault],
     router_executor_config = None, wg_canvas = None\<rparr>\<rparr>"

definition built_in_templates :: "'v serde_json \<Rightarrow> 'v WorkflowTemplate list" where
  "built_in_templates S =
     [plan_parallel_fullstack_review_finalize S, research_multi_perspective_synthesize S]"

definition role_templates :: "RoleTemplate list" where
  "role_templates = [
    \<lparr>rt_id = ''architect'', rt_name = ''Architect'',
     rt_description = ''Plans structure, boundaries, and implementation sequence.'',
     rt_prompt_template = ''Design the implementation approach for the issue.''\<rparr>,
    \<lparr>rt_id = ''researcher'', rt_name = ''Researcher'',
     rt_description = ''Inspects the codebase and gathers relevant context.'',
     rt_prompt_template = ''Research the issue and summarize the useful code context.''\<rparr>,
    \<lparr>rt_id = ''implementer'', rt_name = ''Implementer'',
     rt_description = ''Makes focused code changes for the requested task.'',
     rt_prompt_template = ''Implement the requested change using the provided plan and context.''\<rparr>,
    \<lparr>rt_id = ''reviewer'', rt_name = ''Reviewer'',
     rt_description = ''Reviews changes for correctness, risk, and missing tests.'',
     rt_prompt_template = ''Review the current changes and report concrete issues.''\<rparr>,
    \<lparr>rt_id = ''fixer'', rt_name = ''Fixer'',
     rt_description = ''Applies targeted fixes after review or failed verification.'',
     rt_prompt_template = ''Fix the reported issues with the smallest safe change.''\<rparr>,
    \<lparr>rt_id = ''custom'', rt_name = ''Custom'',
     rt_description = ''Uses the workflow node prompt without a predefined role.'',
     rt_prompt_template = ''''\<rparr>]"

section \<open>Properties\<close>

definition node_ready :: "'v serde_json \<Rightarrow> 'v WorkflowNode \<Rightarrow> bool" where
  "node_ready S n \<longleftrightarrow>
     (case role_template_id (wn_data n) of
        None \<Rightarrow> True | Some r \<Rightarrow> r \<in> rt_id ` set role_templates) \<and>
     (wn_kind n = KAgent \<longrightarrow>
        (\<exists>config. executor_config (wn_data n) = Some config \<and>
           router_executor_config_has_executor S config))"

lemma agent_data_ready:
  assumes "serde_accessors S" "is_known_executor executor" "role \<in> rt_id ` set role_templates"
  shows "node_ready S (template_node i kind (agent_data S name role prompt executor) x y)"
  using assms
  by (simp add: node_ready_def template_node_def agent_data_def router_executor_config_has_executor_def
      serde_accessorsD)

lemma display_data_ready:
  "kind \<noteq> KAgent \<Longrightarrow> node_ready S (template_node i kind (display_data name) x y)"
  by (simp add: node_ready_def template_node_def display_data_def default_node_data_def)

lemma known_template_executors:
  "is_known_executor ''CLAUDE_CODE''" "is_known_executor ''GEMINI''" "is_known_executor ''CODEX''"
  by code_simp+

lemma role_template_ids:
  "rt_id ` set role_templates =
     {''architect'', ''researcher'', ''implementer'', ''reviewer'', ''fixer'', ''custom''}"
  by (simp add: role_templates_def)

text \<open>
  Both built-in templates can be run as they are. Each graph passes the validation that
  precedes a run, its agent nodes name a known executor and existing roles, and the persisted
  template ids differ. This rests on the accessors of the JSON library only.
\<close>

theorem built_in_templates_runnable:
  assumes "serde_accessors S"
  shows "list_all (\<lambda>t. is_ok (validate_graph_for_run S hash_iter (wt_graph t)) \<and>
      list_all (node_ready S) (wg_nodes (wt_graph t))) (built_in_templates S) \<and>
    distinct (map wt_id (built_in_templates S))"
proof -
  have "list_all (\<lambda>t. is_ok (validate_graph_for_run S hash_iter (wt_graph t))) (built_in_templates S)"
    by code_simp
  moreover have "list_all (\<lambda>t. list_all (node_ready S) (wg_nodes (wt_graph t))) (built_in_templates S)"
    by (simp add: built_in_templates_def plan_parallel_fullstack_review_finalize_def
        research_multi_perspective_synthesize_def agent_data_ready [OF assms] display_data_ready
        known_template_executors role_template_ids)
  moreover have "distinct (map wt_id (built_in_templates S))" by code_simp
  ultimately show ?thesis by (simp add: list_all_iff)
qed

theorem built_in_templates_runnable_witness:
  "list_all (\<lambda>t. list_all (node_ready (lit_serde [])) (wg_nodes (wt_graph t)))
     (built_in_templates (lit_serde []))"
  using built_in_templates_runnable [OF lit_serde_accessors, of "[]" sorted_list_of_set]
  by (simp add: list_all_iff)

end
