(* ===== verification/Hash_Map.thy ===== *)
theory Hash_Map
  imports Prelude "HOL-Library.AList"
begin

text \<open>
  \<open>std::collections::HashMap\<close> as an association list with distinct keys. The list order is the
  iteration order, which Rust leaves open: every definition that iterates works on an arbitrary
  list, so a theorem about it holds for every iteration order. \<open>insert\<close> is \<open>AList.update\<close> and
  \<open>remove\<close> is \<open>AList.delete\<close>; equality of two maps is \<open>hm_eq\<close>. The locale \<open>map_loop\<close> states once
  what a loop over one map that inserts into another computes.
\<close>

definition hm_ok :: "('k \<times> 'v) list \<Rightarrow> bool" where
  "hm_ok m \<longleftrightarrow> distinct (map fst m)"

definition hm_eq :: "('k \<times> 'v) list \<Rightarrow> ('k \<times> 'v) list \<Rightarrow> bool" where
  "hm_eq m m' \<longleftrightarrow> list_all (\<lambda>k. map_of m k = map_of m' k) (map fst m @ map fst m')"

text \<open>\<open>map.entry(k).or_insert(v)\<close>\<close>

definition or_insert :: "'k \<Rightarrow> 'v \<Rightarrow> ('k \<times> 'v) list \<Rightarrow> ('k \<times> 'v) list" where
  "or_insert k v m = (if k \<in> set (map fst m) then m else AList.update k v m)"

lemma hm_ok_Nil [simp]: "hm_ok []"
  by (simp add: hm_ok_def)

lemma hm_ok_update [simp]: "hm_ok m \<Longrightarrow> hm_ok (AList.update k v m)"
  by (simp add: hm_ok_def distinct_update)

lemma hm_ok_delete [simp]: "hm_ok m \<Longrightarrow> hm_ok (AList.delete k m)"
  by (simp add: hm_ok_def distinct_delete)

lemma hm_ok_or_insert [simp]: "hm_ok m \<Longrightarrow> hm_ok (or_insert k v m)"
  by (simp add: or_insert_def)

lemma map_of_update [simp]: "map_of (AList.update k v m) = (map_of m)(k \<mapsto> v)"
  by (rule update_conv')

lemma map_of_delete [simp]: "map_of (AList.delete k m) = (map_of m)(k := None)"
  by (rule delete_conv')

lemma map_of_or_insert [simp]:
  "map_of (or_insert k v m) =
     (case map_of m k of None \<Rightarrow> (map_of m)(k \<mapsto> v) | Some _ \<Rightarrow> map_of m)"
  by (auto simp: or_insert_def split: option.splits
      dest: map_of_eq_None_iff [THEN iffD1] map_of_SomeD) (force dest: map_of_SomeD)

lemma hm_eq_iff: "hm_eq m m' \<longleftrightarrow> map_of m = map_of m'"
proof
  assume eq: "hm_eq m m'"
  show "map_of m = map_of m'"
  proof
    fix k
    show "map_of m k = map_of m' k"
      using eq by (cases "k \<in> set (map fst m @ map fst m')")
        (auto simp: hm_eq_def list_all_iff map_of_eq_None_iff [THEN iffD2])
  qed
qed (simp add: hm_eq_def list_all_iff)

lemma hm_keys: "k \<in> fst ` set m \<longleftrightarrow> map_of m k \<noteq> None"
  by (simp add: map_of_eq_None_iff)

lemma hm_mem: "hm_ok m \<Longrightarrow> (k, v) \<in> set m \<longleftrightarrow> map_of m k = Some v"
  by (simp add: hm_ok_def)

text \<open>
  A loop \<open>for (k, v) in source { ... target.insert(k, f(k, v)) }\<close> in which \<open>f\<close> may decline and
  may read the entry it replaces.
\<close>

locale map_loop =
  fixes f :: "'p \<Rightarrow> 'k \<Rightarrow> 'v \<Rightarrow> 'w option \<Rightarrow> 'w option"
    and body :: "'p \<Rightarrow> 'k \<times> 'v \<Rightarrow> ('k \<times> 'w) list \<Rightarrow> ('k \<times> 'w) list"
  assumes body_eq: "body p (k, v) m =
      (case f p k v (map_of m k) of None \<Rightarrow> m | Some w \<Rightarrow> AList.update k w m)"
begin

lemma hm_ok_loop: "hm_ok m \<Longrightarrow> hm_ok (fold (body p) src m)"
  by (induction src arbitrary: m) (auto simp: body_eq split: option.splits)

lemma map_of_loop:
  assumes "hm_ok src"
  shows "map_of (fold (body p) src m) k =
    (case map_of src k of
       None \<Rightarrow> map_of m k
     | Some v \<Rightarrow> (case f p k v (map_of m k) of None \<Rightarrow> map_of m k | Some w \<Rightarrow> Some w))"
  using assms
proof (induction src arbitrary: m)
  case (Cons x src)
  obtain k' v where x: "x = (k', v)" by (cases x)
  from Cons.prems have src: "hm_ok src" "map_of src k' = None"
    by (auto simp: hm_ok_def x map_of_eq_None_iff)
  have step: "map_of (body p x m) k =
      (if k = k' then (case f p k' v (map_of m k') of None \<Rightarrow> map_of m k' | Some w \<Rightarrow> Some w)
       else map_of m k)"
    by (auto simp: x body_eq split: option.splits)
  show ?case
    using Cons.IH [OF src(1), of "body p x m"] src(2) step by (auto simp: x split: option.splits)
qed simp

end

end
