(* ===== verification/Profiles.thy ===== *)
theory Profiles
  imports Hash_Map
begin

text \<open>
  Executor identities and profiles, \<open>crates/executors/src/profile.rs\<close>,
  \<open>profile/runtime_identity.rs\<close> and the enumerations of \<open>executors/mod.rs\<close> they use (default
  build, without the feature \<open>qa-mode\<close>). The settings inside a \<open>CodingAgent\<close> are the type variable
  \<open>'c\<close>; \<open>base_of\<close> is the discriminant of a configuration. Parameters for code outside the
  repository: the crate \<open>convert_case\<close>, JSON printing and parsing of a whole
  \<open>ExecutorConfigs\<close>, the file system, and the availability probe of an agent.
\<close>

section \<open>Identities\<close>

datatype BaseCodingAgent = ClaudeCode | Gemini | Codex | OhMyPi | Opencode | DeepseekHarness

fun agent_to_string :: "BaseCodingAgent \<Rightarrow> string" where
  "agent_to_string ClaudeCode = ''CLAUDE_CODE''"
| "agent_to_string Gemini = ''GEMINI''"
| "agent_to_string Codex = ''CODEX''"
| "agent_to_string OhMyPi = ''OH_MY_PI''"
| "agent_to_string Opencode = ''OPENCODE''"
| "agent_to_string DeepseekHarness = ''DEEPSEEK_HARNESS''"

definition all_agents :: "BaseCodingAgent list" where
  "all_agents = [ClaudeCode, Gemini, Codex, OhMyPi, Opencode, DeepseekHarness]"

definition agent_from_str :: "string \<Rightarrow> BaseCodingAgent option" where
  "agent_from_str s = find (\<lambda>a. agent_to_string a = s) all_agents"

definition de_base_coding_agent_kebab :: "string \<Rightarrow> string + BaseCodingAgent" where
  "de_base_coding_agent_kebab raw =
     (let norm = to_ascii_uppercase (replace_char CHR ''-'' CHR ''_'' raw)
      in ok_or (agent_from_str norm)
           (''unknown executor '' @ [CHR 0x27] @ raw @ [CHR 0x27] @ '' (normalized to '' @
            [CHR 0x27] @ norm @ [CHR 0x27] @ '')''))"

record convert_case =
  to_snake :: "string \<Rightarrow> string"
  to_screaming_snake :: "string \<Rightarrow> string"

definition canonical_variant_key :: "convert_case \<Rightarrow> string \<Rightarrow> string" where
  "canonical_variant_key CC key =
     (if to_ascii_lowercase key = ''default'' then ''DEFAULT''
      else to_screaming_snake CC (to_snake CC key))"

record ExecutorProfileId =
  pid_executor :: BaseCodingAgent
  pid_variant :: "string option"

definition profile_id_new :: "BaseCodingAgent \<Rightarrow> ExecutorProfileId" where
  "profile_id_new a = \<lparr>pid_executor = a, pid_variant = None\<rparr>"

definition with_variant :: "BaseCodingAgent \<Rightarrow> string \<Rightarrow> ExecutorProfileId" where
  "with_variant a v = \<lparr>pid_executor = a, pid_variant = Some v\<rparr>"

definition cache_key :: "ExecutorProfileId \<Rightarrow> string" where
  "cache_key p =
     (case pid_variant p of
        Some v \<Rightarrow> agent_to_string (pid_executor p) @ '':'' @ v
      | None \<Rightarrow> agent_to_string (pid_executor p))"

datatype PermissionPolicy = PPAuto | PPSupervised | PPPlan

record ExecutorConfig =
  xc_executor :: BaseCodingAgent
  xc_variant :: "string option"
  xc_model_id :: "string option"
  xc_agent_id :: "string option"
  xc_reasoning_id :: "string option"
  xc_permission_policy :: "PermissionPolicy option"

definition executor_config_new :: "BaseCodingAgent \<Rightarrow> ExecutorConfig" where
  "executor_config_new a = \<lparr>xc_executor = a, xc_variant = None, xc_model_id = None,
     xc_agent_id = None, xc_reasoning_id = None, xc_permission_policy = None\<rparr>"

definition profile_id :: "ExecutorConfig \<Rightarrow> ExecutorProfileId" where
  "profile_id c = \<lparr>pid_executor = xc_executor c, pid_variant = xc_variant c\<rparr>"

definition has_overrides :: "ExecutorConfig \<Rightarrow> bool" where
  "has_overrides c \<longleftrightarrow> xc_model_id c \<noteq> None \<or> xc_agent_id c \<noteq> None \<or>
     xc_reasoning_id c \<noteq> None \<or> xc_permission_policy c \<noteq> None"

definition config_of_profile_id :: "ExecutorProfileId \<Rightarrow> ExecutorConfig" where
  "config_of_profile_id p = \<lparr>xc_executor = pid_executor p, xc_variant = pid_variant p,
     xc_model_id = None, xc_agent_id = None, xc_reasoning_id = None, xc_permission_policy = None\<rparr>"

text \<open>\<open>str::split_once\<close> with a character.\<close>

fun split_once :: "char \<Rightarrow> string \<Rightarrow> (string \<times> string) option" where
  "split_once d [] = None"
| "split_once d (c # cs) =
     (if c = d then Some ([], cs) else map_option (\<lambda>(l, r). (c # l, r)) (split_once d cs))"

definition default_identity :: "string \<Rightarrow> string" where
  "default_identity i =
     (case split_once CHR '':'' i of
        Some (provider, rest) \<Rightarrow> if rest = ''DEFAULT'' \<and> provider \<noteq> [] then provider else i
      | None \<Rightarrow> i)"

definition runtime_profile_ids_match :: "string \<Rightarrow> string \<Rightarrow> bool" where
  "runtime_profile_ids_match left right \<longleftrightarrow> default_identity left = default_identity right"

section \<open>Profiles\<close>

datatype ProfileError =
  CannotDeleteExecutor BaseCodingAgent
| CannotDeleteBuiltInConfig BaseCodingAgent string
| ProfileValidation string
| ProfileIo string
| ProfileSerde string
| NoAvailableExecutorProfile

record ExecutorRecentModels =
  recent_models :: "string list"
  reasoning_by_model :: "(string \<times> string) list"

definition default_recent :: ExecutorRecentModels where
  "default_recent = \<lparr>recent_models = [], reasoning_by_model = []\<rparr>"

record 'c ExecutorProfile =
  recently_used_models :: "ExecutorRecentModels option"
  configurations :: "(string \<times> 'c) list"

type_synonym 'c ExecutorConfigs = "(BaseCodingAgent \<times> 'c ExecutorProfile) list"

text \<open>The derived \<open>PartialEq\<close> of \<open>Option<ExecutorRecentModels>\<close>.\<close>

fun recent_eq :: "ExecutorRecentModels option \<Rightarrow> ExecutorRecentModels option \<Rightarrow> bool" where
  "recent_eq None None = True"
| "recent_eq (Some a) (Some b) =
     (recent_models a = recent_models b \<and> hm_eq (reasoning_by_model a) (reasoning_by_model b))"
| "recent_eq _ _ = False"

definition get_variant :: "'c ExecutorProfile \<Rightarrow> string \<Rightarrow> 'c option" where
  "get_variant p v = map_of (configurations p) v"

definition set_variant ::
  "convert_case \<Rightarrow> 'c ExecutorProfile \<Rightarrow> string \<Rightarrow> 'c \<Rightarrow> 'c ExecutorProfile \<times> (string + unit)" where
  "set_variant CC p name config =
     (let key = canonical_variant_key CC name
      in if key = ''DEFAULT''
         then (p, Inl (''Cannot override '' @ [CHR 0x27] @ ''DEFAULT'' @ [CHR 0x27] @
                  '' variant using set_variant, use set_default instead''))
         else (p\<lparr>configurations := AList.update key config (configurations p)\<rparr>, Inr ()))"

definition set_default :: "'c ExecutorProfile \<Rightarrow> 'c \<Rightarrow> 'c ExecutorProfile" where
  "set_default p config = p\<lparr>configurations := AList.update ''DEFAULT'' config (configurations p)\<rparr>"

definition rename_key :: "string \<times> string \<Rightarrow> (string \<times> 'c) list \<Rightarrow> (string \<times> 'c) list" where
  "rename_key on confs =
     (case map_of confs (fst on) of
        Some cfg \<Rightarrow> or_insert (snd on) cfg (AList.delete (fst on) confs)
      | None \<Rightarrow> confs)"

definition canonicalise_profile :: "convert_case \<Rightarrow> 'c ExecutorProfile \<Rightarrow> 'c ExecutorProfile" where
  "canonicalise_profile CC p =
     (let replacements = filter (\<lambda>(key, canon). canon \<noteq> key)
            (map (\<lambda>key. (key, canonical_variant_key CC key)) (map fst (configurations p)))
      in p\<lparr>configurations := fold rename_key replacements (configurations p)\<rparr>)"

definition canonicalise :: "convert_case \<Rightarrow> 'c ExecutorConfigs \<Rightarrow> 'c ExecutorConfigs" where
  "canonicalise CC cs = map (\<lambda>(k, p). (k, canonicalise_profile CC p)) cs"

definition merge_profile :: "'c ExecutorProfile \<Rightarrow> 'c ExecutorProfile \<Rightarrow> 'c ExecutorProfile" where
  "merge_profile dp op = \<lparr>
     recently_used_models =
       (if recently_used_models op \<noteq> None then recently_used_models op else recently_used_models dp),
     configurations = fold (\<lambda>(name, config). AList.update name config) (configurations op) (configurations dp)\<rparr>"

definition merge_executor ::
  "BaseCodingAgent \<times> 'c ExecutorProfile \<Rightarrow> 'c ExecutorConfigs \<Rightarrow> 'c ExecutorConfigs" where
  "merge_executor kp defaults =
     (case map_of defaults (fst kp) of
        Some dp \<Rightarrow> AList.update (fst kp) (merge_profile dp (snd kp)) defaults
      | None \<Rightarrow> AList.update (fst kp) (snd kp) defaults)"

definition merge_with_defaults :: "'c ExecutorConfigs \<Rightarrow> 'c ExecutorConfigs \<Rightarrow> 'c ExecutorConfigs" where
  "merge_with_defaults defaults overrides = fold merge_executor overrides defaults"

definition check_not_deleted ::
  "'c ExecutorConfigs \<Rightarrow> BaseCodingAgent \<times> 'c ExecutorProfile \<Rightarrow> ProfileError + unit" where
  "check_not_deleted current kp =
     (case map_of current (fst kp) of
        None \<Rightarrow> Inl (CannotDeleteExecutor (fst kp))
      | Some cp \<Rightarrow> for_each
          (\<lambda>name. if map_of (configurations cp) name = None
                  then Inl (CannotDeleteBuiltInConfig (fst kp) name) else Inr ())
          (map fst (configurations (snd kp))))"

definition override_configuration ::
  "'c ExecutorProfile \<Rightarrow> string \<times> 'c \<Rightarrow> (string \<times> 'c) list \<Rightarrow> (string \<times> 'c) list" where
  "override_configuration dp nc acc =
     (case map_of (configurations dp) (fst nc) of
        Some default_config \<Rightarrow> if snd nc \<noteq> default_config then AList.update (fst nc) (snd nc) acc else acc
      | None \<Rightarrow> AList.update (fst nc) (snd nc) acc)"

definition override_profile ::
  "'c ExecutorProfile \<Rightarrow> 'c ExecutorProfile \<Rightarrow> 'c ExecutorProfile" where
  "override_profile dp cp = \<lparr>
     recently_used_models =
       (if \<not> recent_eq (recently_used_models cp) (recently_used_models dp)
        then (case recently_used_models cp of Some r \<Rightarrow> Some r | None \<Rightarrow> Some default_recent)
        else None),
     configurations = fold (override_configuration dp) (configurations cp) []\<rparr>"

definition override_executor ::
  "'c ExecutorConfigs \<Rightarrow> BaseCodingAgent \<times> 'c ExecutorProfile \<Rightarrow> 'c ExecutorConfigs \<Rightarrow> 'c ExecutorConfigs" where
  "override_executor defaults kp overrides =
     (case map_of defaults (fst kp) of
        Some dp \<Rightarrow>
          (let op = override_profile dp (snd kp)
           in if configurations op \<noteq> [] \<or> recently_used_models op \<noteq> None
              then AList.update (fst kp) op overrides else overrides)
      | None \<Rightarrow> AList.update (fst kp) (snd kp) overrides)"

definition compute_overrides ::
  "'c ExecutorConfigs \<Rightarrow> 'c ExecutorConfigs \<Rightarrow> ProfileError + 'c ExecutorConfigs" where
  "compute_overrides defaults current =
     and_then (for_each (check_not_deleted current) defaults)
       (\<lambda>_. Inr (fold (override_executor defaults) current []))"

definition validate_merged_profile ::
  "('c \<Rightarrow> BaseCodingAgent) \<Rightarrow> BaseCodingAgent \<times> 'c ExecutorProfile \<Rightarrow> ProfileError + unit" where
  "validate_merged_profile base_of kp =
     (let q = [CHR 0x27]; key = agent_to_string (fst kp)
      in case map_of (configurations (snd kp)) ''DEFAULT'' of
        None \<Rightarrow> Inl (ProfileValidation (''Executor '' @ q @ key @ q @ '' is missing required '' @ q @
                  ''default'' @ q @ '' configuration''))
      | Some dc \<Rightarrow>
          if base_of dc \<noteq> fst kp
          then Inl (ProfileValidation (''Executor key '' @ q @ key @ q @
                 '' does not match the agent variant '' @ q @ agent_to_string (base_of dc) @ q))
          else for_each (\<lambda>name. if starts_with ''__'' name
                 then Inl (ProfileValidation (''Configuration name '' @ q @ name @ q @
                        '' is reserved (starts with '' @ q @ ''__'' @ q @ '')''))
                 else Inr ()) (map fst (configurations (snd kp))))"

definition validate_merged ::
  "('c \<Rightarrow> BaseCodingAgent) \<Rightarrow> 'c ExecutorConfigs \<Rightarrow> ProfileError + unit" where
  "validate_merged base_of merged = for_each (validate_merged_profile base_of) merged"

definition get_coding_agent :: "'c ExecutorConfigs \<Rightarrow> ExecutorProfileId \<Rightarrow> 'c option" where
  "get_coding_agent cs p =
     Option.bind (map_of cs (pid_executor p))
       (\<lambda>profile. get_variant profile (case pid_variant p of Some v \<Rightarrow> v | None \<Rightarrow> ''DEFAULT''))"

text \<open>\<open>None\<close> is the panic of \<open>expect\<close>.\<close>

definition get_coding_agent_or_default :: "'c ExecutorConfigs \<Rightarrow> ExecutorProfileId \<Rightarrow> 'c option" where
  "get_coding_agent_or_default cs p =
     (case get_coding_agent cs p of
        Some c \<Rightarrow> Some c
      | None \<Rightarrow> get_coding_agent cs (p\<lparr>pid_variant := Some ''DEFAULT''\<rparr>))"

text \<open>
  Loading and saving. The file is \<open>None\<close> when it cannot be read; \<open>fs_write\<close> gives the new file
  and the result of the system call.
\<close>

definition load_profiles ::
  "convert_case \<Rightarrow> 'c ExecutorConfigs \<Rightarrow> (string \<Rightarrow> string + 'c ExecutorConfigs) \<Rightarrow> string option \<Rightarrow>
   'c ExecutorConfigs"
where
  "load_profiles CC from_defaults from_json file =
     (let defaults = canonicalise CC from_defaults
      in case file of
           None \<Rightarrow> defaults
         | Some content \<Rightarrow>
             (case from_json content of
                Inr user_overrides \<Rightarrow> merge_with_defaults defaults (canonicalise CC user_overrides)
              | Inl _ \<Rightarrow> defaults))"

definition save_overrides ::
  "convert_case \<Rightarrow> ('c \<Rightarrow> BaseCodingAgent) \<Rightarrow> 'c ExecutorConfigs \<Rightarrow>
   ('c ExecutorConfigs \<Rightarrow> string + string) \<Rightarrow> (string \<Rightarrow> string option \<Rightarrow> string option \<times> (string + unit)) \<Rightarrow>
   'c ExecutorConfigs \<Rightarrow> string option \<Rightarrow> string option \<times> (ProfileError + unit)"
where
  "save_overrides CC base_of from_defaults to_json fs_write current file =
     (let defaults = canonicalise CC from_defaults;
          prepared =
            and_then (compute_overrides defaults (canonicalise CC current)) (\<lambda>overrides.
            and_then (validate_merged base_of (merge_with_defaults defaults overrides)) (\<lambda>_.
            map_err ProfileSerde (to_json overrides)))
      in case prepared of
           Inl e \<Rightarrow> (file, Inl e)
         | Inr content \<Rightarrow> (let (file', r) = fs_write content file in (file', map_err ProfileIo r)))"

datatype AvailabilityInfo = LoginDetected i64 | InstallationFound | AgentNotFound

fun is_available :: "AvailabilityInfo \<Rightarrow> bool" where
  "is_available (LoginDetected _) = True"
| "is_available InstallationFound = True"
| "is_available AgentNotFound = False"

datatype cmp_ordering = CLess | CEqual | CGreater

fun cmp_i64 :: "i64 \<Rightarrow> i64 \<Rightarrow> cmp_ordering" where
  "cmp_i64 a b = (if a < b then CLess else if a = b then CEqual else CGreater)"

fun compare_availability :: "AvailabilityInfo \<Rightarrow> AvailabilityInfo \<Rightarrow> cmp_ordering" where
  "compare_availability (LoginDetected a) (LoginDetected b) = cmp_i64 b a"
| "compare_availability (LoginDetected _) InstallationFound = CLess"
| "compare_availability InstallationFound (LoginDetected _) = CGreater"
| "compare_availability (LoginDetected _) AgentNotFound = CLess"
| "compare_availability AgentNotFound (LoginDetected _) = CGreater"
| "compare_availability InstallationFound AgentNotFound = CLess"
| "compare_availability AgentNotFound InstallationFound = CGreater"
| "compare_availability _ _ = CEqual"

text \<open>\<open>slice::sort_by\<close>, a stable sort.\<close>

fun insert_by :: "('a \<Rightarrow> 'a \<Rightarrow> cmp_ordering) \<Rightarrow> 'a \<Rightarrow> 'a list \<Rightarrow> 'a list" where
  "insert_by cmp x [] = [x]"
| "insert_by cmp x (y # ys) = (if cmp x y = CGreater then y # insert_by cmp x ys else x # y # ys)"

definition sort_by :: "('a \<Rightarrow> 'a \<Rightarrow> cmp_ordering) \<Rightarrow> 'a list \<Rightarrow> 'a list" where
  "sort_by cmp xs = foldr (insert_by cmp) xs []"

definition get_recommended_executor_profile ::
  "('c \<Rightarrow> AvailabilityInfo) \<Rightarrow> 'c ExecutorConfigs \<Rightarrow> ProfileError + ExecutorProfileId" where
  "get_recommended_executor_profile availability cs =
     (let agents_with_info = List.map_filter
            (\<lambda>a. case get_coding_agent cs (profile_id_new a) of
                   Some c \<Rightarrow> if is_available (availability c) then Some (a, availability c) else None
                 | None \<Rightarrow> None) (map fst cs);
          sorted_agents = sort_by (\<lambda>a b. compare_availability (snd a) (snd b)) agents_with_info
      in case sorted_agents of
           [] \<Rightarrow> Inl NoAvailableExecutorProfile
         | x # _ \<Rightarrow> Inr (profile_id_new (fst x)))"

section \<open>Loops over profiles\<close>

interpretation merge_confs: map_loop
  "\<lambda>(u :: unit) (name :: string) config old. Some config"
  "\<lambda>u (name, config). AList.update name config"
  by unfold_locales simp

interpretation merge_execs: map_loop
  "\<lambda>(u :: unit) (k :: BaseCodingAgent) op old.
     Some (case old of Some dp \<Rightarrow> merge_profile dp op | None \<Rightarrow> op)"
  "\<lambda>u. merge_executor"
  by unfold_locales (simp add: merge_executor_def split: option.splits)

interpretation override_confs: map_loop
  "\<lambda>dp name config old. if map_of (configurations dp) name = Some config then None else Some config"
  override_configuration
  by unfold_locales (simp add: override_configuration_def split: option.splits)

definition override_entry ::
  "'c ExecutorConfigs \<Rightarrow> BaseCodingAgent \<Rightarrow> 'c ExecutorProfile \<Rightarrow> 'c ExecutorProfile option" where
  "override_entry defaults k cp =
     (case map_of defaults k of
        Some dp \<Rightarrow>
          (let op = override_profile dp cp
           in if configurations op \<noteq> [] \<or> recently_used_models op \<noteq> None then Some op else None)
      | None \<Rightarrow> Some cp)"

interpretation override_execs: map_loop
  "\<lambda>defaults k cp old. override_entry defaults k cp" override_executor
  by unfold_locales (simp add: override_executor_def override_entry_def Let_def split: option.splits)

definition configs_ok :: "'c ExecutorConfigs \<Rightarrow> bool" where
  "configs_ok cs \<longleftrightarrow> hm_ok cs \<and> (\<forall>p \<in> snd ` set cs. hm_ok (configurations p))"

lemma configs_okD: "configs_ok cs \<Longrightarrow> map_of cs k = Some p \<Longrightarrow> hm_ok (configurations p)"
  unfolding configs_ok_def by (force dest: map_of_SomeD)

lemma map_of_override_confs:
  assumes "hm_ok (configurations cp)"
  shows "map_of (configurations (override_profile dp cp)) n =
    (case map_of (configurations cp) n of
       None \<Rightarrow> None
     | Some c \<Rightarrow> if map_of (configurations dp) n = Some c then None else Some c)"
  using override_confs.map_of_loop [OF assms, of dp "[]" n]
  by (simp add: override_profile_def split: option.splits)

lemma hm_ok_override_confs: "hm_ok (configurations (override_profile dp cp))"
  using override_confs.hm_ok_loop [OF hm_ok_Nil, of dp "configurations cp"]
  by (simp add: override_profile_def)

lemma map_of_merge_confs:
  assumes "hm_ok (configurations op)"
  shows "map_of (configurations (merge_profile dp op)) n =
    (case map_of (configurations op) n of None \<Rightarrow> map_of (configurations dp) n | Some c \<Rightarrow> Some c)"
  using merge_confs.map_of_loop [OF assms, of "configurations dp" n]
  by (simp add: merge_profile_def split: option.splits)

lemma map_of_merge:
  assumes "hm_ok overrides"
  shows "map_of (merge_with_defaults defaults overrides) k =
    (case map_of overrides k of
       None \<Rightarrow> map_of defaults k
     | Some op \<Rightarrow> Some (case map_of defaults k of Some dp \<Rightarrow> merge_profile dp op | None \<Rightarrow> op))"
  using merge_execs.map_of_loop [OF assms, of defaults k]
  by (simp add: merge_with_defaults_def split: option.splits)

section \<open>Restoring a configuration from its overrides\<close>

definition nothing_deleted :: "'c ExecutorConfigs \<Rightarrow> 'c ExecutorConfigs \<Rightarrow> bool" where
  "nothing_deleted defaults current \<longleftrightarrow>
     (\<forall>(k, dp) \<in> set defaults. \<exists>cp. map_of current k = Some cp \<and>
        fst ` set (configurations dp) \<subseteq> fst ` set (configurations cp))"

text \<open>
  What saving and loading keeps of a profile: its configurations, and its recently used models,
  except that clearing recently used models the defaults have is stored as an empty list.
\<close>

definition same_profile :: "'c ExecutorProfile \<Rightarrow> 'c ExecutorProfile \<Rightarrow> bool" where
  "same_profile mp cp \<longleftrightarrow>
     map_of (configurations mp) = map_of (configurations cp) \<and>
     (recent_eq (recently_used_models mp) (recently_used_models cp) \<or>
      recently_used_models cp = None \<and> recently_used_models mp = Some default_recent)"

definition same_configs :: "'c ExecutorConfigs \<Rightarrow> 'c ExecutorConfigs \<Rightarrow> bool" where
  "same_configs ms cs \<longleftrightarrow> (\<forall>k. rel_option same_profile (map_of ms k) (map_of cs k))"

lemma recent_eq_refl [simp]: "recent_eq r r"
  by (cases r) (simp_all add: hm_eq_iff)

lemma recent_eq_sym: "recent_eq r s \<Longrightarrow> recent_eq s r"
  by (cases r; cases s) (simp_all add: hm_eq_iff)

lemma check_not_deleted_ok:
  "check_not_deleted current (k, dp) = Inr () \<longleftrightarrow>
     (\<exists>cp. map_of current k = Some cp \<and>
        fst ` set (configurations dp) \<subseteq> fst ` set (configurations cp))"
  by (cases "map_of current k")
     (auto simp: check_not_deleted_def for_each_ok image_subset_iff hm_keys split: if_splits)

lemma compute_overrides_ok:
  "compute_overrides defaults current = Inr overrides \<longleftrightarrow>
     nothing_deleted defaults current \<and> overrides = fold (override_executor defaults) current []"
proof -
  have "for_each (check_not_deleted current) defaults = Inr () \<longleftrightarrow> nothing_deleted defaults current"
    by (auto simp: for_each_ok nothing_deleted_def check_not_deleted_ok)
  then show ?thesis by (auto simp: compute_overrides_def and_then_eq_Inr)
qed

lemma same_profile_merge:
  assumes "hm_ok (configurations cp)" "fst ` set (configurations dp) \<subseteq> fst ` set (configurations cp)"
  shows "same_profile (merge_profile dp (override_profile dp cp)) cp"
proof -
  let ?op = "override_profile dp cp"
  have "map_of (configurations (merge_profile dp ?op)) n = map_of (configurations cp) n" for n
    using assms(2) hm_keys [of n "configurations dp"] hm_keys [of n "configurations cp"]
    by (auto simp: map_of_merge_confs hm_ok_override_confs map_of_override_confs [OF assms(1)]
        split: option.splits)
  then have "map_of (configurations (merge_profile dp ?op)) = map_of (configurations cp)" ..
  moreover have "recent_eq (recently_used_models (merge_profile dp ?op)) (recently_used_models cp) \<or>
      recently_used_models cp = None \<and> recently_used_models (merge_profile dp ?op) = Some default_recent"
    by (cases "recent_eq (recently_used_models cp) (recently_used_models dp)"; cases "recently_used_models cp")
       (simp_all add: merge_profile_def override_profile_def recent_eq_sym)
  ultimately show ?thesis by (simp add: same_profile_def)
qed

lemma same_profile_unchanged:
  assumes "hm_ok (configurations cp)" "fst ` set (configurations dp) \<subseteq> fst ` set (configurations cp)"
    and "configurations (override_profile dp cp) = []" "recently_used_models (override_profile dp cp) = None"
  shows "same_profile dp cp"
proof -
  have "merge_profile dp (override_profile dp cp) = dp"
    using assms(3,4) by (simp add: merge_profile_def)
  with same_profile_merge [OF assms(1,2)] show ?thesis by simp
qed

lemma merge_restores:
  assumes "configs_ok current" "compute_overrides defaults current = Inr overrides"
    and "hm_ok defaults"
  shows "same_configs (merge_with_defaults defaults overrides) current"
  unfolding same_configs_def
proof
  fix k
  from assms(2) have kept: "nothing_deleted defaults current"
    and ov: "overrides = fold (override_executor defaults) current []"
    by (simp_all add: compute_overrides_ok)
  have ok: "hm_ok overrides" unfolding ov by (rule override_execs.hm_ok_loop) simp
  have get: "map_of overrides k =
      (case map_of current k of None \<Rightarrow> None | Some cp \<Rightarrow> override_entry defaults k cp)"
    unfolding ov using override_execs.map_of_loop [of current defaults "[]" k] assms(1)
    by (simp add: configs_ok_def split: option.splits)
  have deleted: "map_of current k \<noteq> None \<and>
      fst ` set (configurations dp) \<subseteq> fst ` set (configurations (the (map_of current k)))"
    if "map_of defaults k = Some dp" for dp
    using kept map_of_SomeD [OF that] by (force simp: nothing_deleted_def)
  show "rel_option same_profile (map_of (merge_with_defaults defaults overrides) k) (map_of current k)"
  proof (cases "map_of current k")
    case None
    then show ?thesis using deleted by (cases "map_of defaults k") (auto simp: map_of_merge [OF ok] get)
  next
    case (Some cp)
    note cp = configs_okD [OF assms(1) Some]
    show ?thesis
    proof (cases "map_of defaults k")
      case None
      with Some show ?thesis by (simp add: map_of_merge [OF ok] get override_entry_def same_profile_def)
    next
      case dp: (Some dp)
      with deleted Some have sub: "fst ` set (configurations dp) \<subseteq> fst ` set (configurations cp)" by auto
      show ?thesis
        using same_profile_merge [OF cp sub] same_profile_unchanged [OF cp sub] Some dp
        by (auto simp: map_of_merge [OF ok] get override_entry_def Let_def)
    qed
  qed
qed

section \<open>Canonical variant keys\<close>

text \<open>What the code relies on of \<open>convert_case\<close>: converting a converted key changes nothing.\<close>

definition case_stable :: "convert_case \<Rightarrow> bool" where
  "case_stable CC \<longleftrightarrow>
     (\<forall>s. canonical_variant_key CC (canonical_variant_key CC s) = canonical_variant_key CC s)"

abbreviation conf_keys :: "'c ExecutorProfile \<Rightarrow> string set" where
  "conf_keys p \<equiv> fst ` set (configurations p)"

lemma hm_ok_rename_keys: "hm_ok m \<Longrightarrow> hm_ok (fold rename_key rs m)"
  by (induction rs arbitrary: m) (auto simp: rename_key_def split: option.splits)

lemma map_of_rename_key:
  "old \<noteq> new \<Longrightarrow> map_of (rename_key (old, new) m) k =
     (case map_of m old of
        None \<Rightarrow> map_of m k
      | Some v \<Rightarrow> if k = old then None
                  else if k = new then (case map_of m new of None \<Rightarrow> Some v | Some w \<Rightarrow> Some w)
                  else map_of m k)"
  by (auto simp: rename_key_def split: option.splits)

text \<open>A run of renamings away from keys in \<open>fst ` set rs\<close> towards keys outside that set.\<close>

lemma map_of_rename_keys:
  assumes "distinct (map fst rs)" "fst ` set rs \<inter> snd ` set rs = {}" "fst ` set rs \<subseteq> dom (map_of m)"
  shows "dom (map_of (fold rename_key rs m)) = (dom (map_of m) - fst ` set rs) \<union> snd ` set rs \<and>
    (\<forall>k v. k \<notin> fst ` set rs \<longrightarrow> map_of m k = Some v \<longrightarrow> map_of (fold rename_key rs m) k = Some v)"
  using assms
proof (induction rs arbitrary: m)
  case (Cons x rs)
  obtain old new where x: "x = (old, new)" by (cases x)
  let ?m = "rename_key x m"
  from Cons.prems(2) have ne: "old \<noteq> new" by (force simp: x)
  from Cons.prems(3) have old: "map_of m old \<noteq> None" by (auto simp: x)
  have dom: "dom (map_of ?m) = insert new (dom (map_of m) - {old})"
    using old ne by (auto simp: x map_of_rename_key [OF ne] dom_def split: option.splits if_splits)
  have keep: "map_of ?m k = Some v" if "k \<noteq> old" "map_of m k = Some v" for k v
    using that by (auto simp: x map_of_rename_key [OF ne] split: option.splits)
  have "distinct (map fst rs)" "fst ` set rs \<inter> snd ` set rs = {}" using Cons.prems by auto
  moreover have "fst ` set rs \<subseteq> dom (map_of ?m)"
    unfolding dom using Cons.prems by (auto simp: x)
  ultimately have IH: "dom (map_of (fold rename_key rs ?m)) = (dom (map_of ?m) - fst ` set rs) \<union> snd ` set rs"
      "\<And>k v. k \<notin> fst ` set rs \<Longrightarrow> map_of ?m k = Some v \<Longrightarrow> map_of (fold rename_key rs ?m) k = Some v"
    using Cons.IH [of ?m] by blast+
  have "insert new (dom (map_of m) - {old}) - fst ` set rs \<union> snd ` set rs =
      dom (map_of m) - insert old (fst ` set rs) \<union> insert new (snd ` set rs)"
    using Cons.prems(2) by (auto simp: x)
  with IH keep show ?case by (simp add: dom) (simp add: x)
qed auto

lemma canonicalise_profile_keys:
  assumes "case_stable CC" "hm_ok (configurations p)"
  shows "conf_keys (canonicalise_profile CC p) = canonical_variant_key CC ` conf_keys p \<and>
    hm_ok (configurations (canonicalise_profile CC p)) \<and>
    (\<forall>k v. canonical_variant_key CC k = k \<longrightarrow> map_of (configurations p) k = Some v \<longrightarrow>
       map_of (configurations (canonicalise_profile CC p)) k = Some v)"
proof -
  let ?c = "canonical_variant_key CC" and ?m = "configurations p"
  let ?rs = "filter (\<lambda>(key, canon). canon \<noteq> key) (map (\<lambda>key. (key, ?c key)) (map fst ?m))"
  have fsts: "fst ` set ?rs = {k \<in> fst ` set ?m. ?c k \<noteq> k}"
    and snds: "snd ` set ?rs = ?c ` {k \<in> fst ` set ?m. ?c k \<noteq> k}"
    by (force simp: image_iff)+
  have "distinct (map fst ?rs)"
    using assms(2) by (simp add: hm_ok_def filter_map o_def split_def distinct_map_filter)
  moreover have "fst ` set ?rs \<inter> snd ` set ?rs = {}"
    using assms(1) unfolding fsts snds case_stable_def by auto
  moreover have "fst ` set ?rs \<subseteq> dom (map_of ?m)"
    unfolding fsts by (auto simp: dom_map_of_conv_image_fst)
  ultimately have all: "dom (map_of (fold rename_key ?rs ?m)) =
        (dom (map_of ?m) - fst ` set ?rs) \<union> snd ` set ?rs \<and>
      (\<forall>k v. k \<notin> fst ` set ?rs \<longrightarrow> map_of ?m k = Some v \<longrightarrow> map_of (fold rename_key ?rs ?m) k = Some v)"
    by (rule map_of_rename_keys)
  note main = all [THEN conjunct1] and keep = all [THEN conjunct2]
  have conf: "configurations (canonicalise_profile CC p) = fold rename_key ?rs ?m"
    by (simp add: canonicalise_profile_def Let_def)
  have "(K - {k \<in> K. c k \<noteq> k}) \<union> c ` {k \<in> K. c k \<noteq> k} = c ` K" for K and c :: "string \<Rightarrow> string"
    by (auto simp: image_iff) metis
  with main have "fst ` set (fold rename_key ?rs ?m) = ?c ` fst ` set ?m"
    unfolding dom_map_of_conv_image_fst fsts snds by simp
  moreover have "hm_ok (fold rename_key ?rs ?m)" using assms(2) by (rule hm_ok_rename_keys)
  ultimately show ?thesis unfolding conf using keep fsts by auto
qed

lemma canonicalise_profile_fixed:
  assumes "\<forall>k \<in> conf_keys p. canonical_variant_key CC k = k"
  shows "canonicalise_profile CC p = p"
proof -
  have "filter (\<lambda>(key, canon). canon \<noteq> key)
      (map (\<lambda>key. (key, canonical_variant_key CC key)) (map fst (configurations p))) = []"
    using assms by (auto simp: filter_empty_conv)
  then show ?thesis by (simp add: canonicalise_profile_def Let_def)
qed

definition canonical_configs :: "convert_case \<Rightarrow> 'c ExecutorConfigs \<Rightarrow> bool" where
  "canonical_configs CC cs \<longleftrightarrow>
     (\<forall>p \<in> snd ` set cs. \<forall>k \<in> conf_keys p. canonical_variant_key CC k = k)"

lemma canonicalise_fixed: "canonical_configs CC cs \<Longrightarrow> canonicalise CC cs = cs"
  unfolding canonicalise_def canonical_configs_def
  by (rule map_idI) (auto simp: canonicalise_profile_fixed)

lemma map_fst_canonicalise [simp]: "map fst (canonicalise CC cs) = map fst cs"
  by (simp add: canonicalise_def o_def split_def)

lemma map_of_canonicalise:
  "map_of (canonicalise CC cs) k = map_option (canonicalise_profile CC) (map_of cs k)"
  by (induction cs) (auto simp: canonicalise_def)

lemma canonicalise_ok:
  assumes "case_stable CC" "configs_ok cs"
  shows "configs_ok (canonicalise CC cs)" "canonical_configs CC (canonicalise CC cs)"
proof -
  have snds: "snd ` set (canonicalise CC cs) = canonicalise_profile CC ` snd ` set cs"
    by (force simp: canonicalise_def)
  show "configs_ok (canonicalise CC cs)"
    using assms canonicalise_profile_keys [OF assms(1)]
    unfolding configs_ok_def hm_ok_def map_fst_canonicalise snds by auto
  show "canonical_configs CC (canonicalise CC cs)"
    unfolding canonical_configs_def snds
  proof (intro ballI)
    fix p k
    assume "p \<in> canonicalise_profile CC ` snd ` set cs" "k \<in> conf_keys p"
    then obtain kp where "k \<in> conf_keys p" "p = canonicalise_profile CC kp" "kp \<in> snd ` set cs"
      by blast
    moreover have "hm_ok (configurations kp)"
      using \<open>kp \<in> snd ` set cs\<close> assms(2) unfolding configs_ok_def by blast
    ultimately have "k \<in> canonical_variant_key CC ` conf_keys kp"
      using canonicalise_profile_keys [OF assms(1), of kp] by simp
    with assms(1) show "canonical_variant_key CC k = k" by (auto simp: case_stable_def)
  qed
qed

lemma override_keys: "conf_keys (override_profile dp cp) \<subseteq> conf_keys cp"
proof -
  have step: "fst ` set (override_configuration dp x acc) \<subseteq> insert (fst x) (fst ` set acc)" for x acc
    by (auto simp: override_configuration_def dom_update split: option.splits)
  have "fst ` set (fold (override_configuration dp) xs acc) \<subseteq> fst ` set xs \<union> fst ` set acc" for xs acc
  proof (induction xs arbitrary: acc)
    case (Cons x xs)
    from Cons [of "override_configuration dp x acc"] step [of x acc] show ?case by auto
  qed simp
  from this [of "configurations cp" "[]"] show ?thesis by (simp add: override_profile_def)
qed

lemma overrides_canonical:
  assumes "canonical_configs CC current" "compute_overrides defaults current = Inr overrides"
  shows "canonical_configs CC overrides"
proof -
  have "canonical_configs CC (fold (override_executor defaults) cs acc)"
    if "canonical_configs CC cs" "canonical_configs CC acc" for cs acc
    using that
  proof (induction cs arbitrary: acc)
    case (Cons x cs)
    have "canonical_configs CC (AList.update k p m)"
      if "\<forall>k \<in> conf_keys p. canonical_variant_key CC k = k" "canonical_configs CC m" for k p m
      using that(2) by (induction m) (auto simp: canonical_configs_def that(1))
    moreover have own: "\<forall>k \<in> conf_keys (snd x). canonical_variant_key CC k = k"
      using Cons.prems(1) by (simp add: canonical_configs_def)
    moreover have "\<forall>k \<in> conf_keys (override_profile dp (snd x)). canonical_variant_key CC k = k" for dp
      using own override_keys [of dp "snd x"] by blast
    ultimately have "canonical_configs CC (override_executor defaults x acc)"
      using Cons.prems(2) unfolding override_executor_def Let_def
      by (cases "map_of defaults (fst x)") (simp_all only: option.case if_split, blast+)
    with Cons show ?case by (simp add: canonical_configs_def)
  qed simp
  from this [OF assms(1), of "[]"] assms(2) show ?thesis
    by (simp add: compute_overrides_ok canonical_configs_def)
qed

section \<open>Availability\<close>

definition agent_available :: "('c \<Rightarrow> AvailabilityInfo) \<Rightarrow> 'c ExecutorConfigs \<Rightarrow> BaseCodingAgent \<Rightarrow> bool" where
  "agent_available availability cs a \<longleftrightarrow> a \<in> fst ` set cs \<and>
     (\<exists>c. get_coding_agent cs (profile_id_new a) = Some c \<and> is_available (availability c))"

section \<open>Equality of configurations\<close>

text \<open>The derived \<open>PartialEq\<close> of \<open>ExecutorConfigs\<close>: equal as maps, whatever the iteration order.\<close>

definition profile_eq :: "'c ExecutorProfile \<Rightarrow> 'c ExecutorProfile \<Rightarrow> bool" where
  "profile_eq p q \<longleftrightarrow> map_of (configurations p) = map_of (configurations q) \<and>
     recent_eq (recently_used_models p) (recently_used_models q)"

definition configs_eq :: "'c ExecutorConfigs \<Rightarrow> 'c ExecutorConfigs \<Rightarrow> bool" where
  "configs_eq a b \<longleftrightarrow> (\<forall>k. rel_option profile_eq (map_of a k) (map_of b k))"

lemma configs_ok_mem: "configs_ok cs \<Longrightarrow> p \<in> snd ` set cs \<longleftrightarrow> (\<exists>k. map_of cs k = Some p)"
  by (force simp: configs_ok_def hm_ok_def)

lemma configs_okI:
  "hm_ok cs \<Longrightarrow> (\<And>k p. map_of cs k = Some p \<Longrightarrow> hm_ok (configurations p)) \<Longrightarrow> configs_ok cs"
  unfolding configs_ok_def by (auto simp: hm_ok_def)

lemma overrides_ok:
  assumes "configs_ok current" "compute_overrides defaults current = Inr overrides"
  shows "configs_ok overrides"
proof (rule configs_okI)
  from assms(2) have ov: "overrides = fold (override_executor defaults) current []"
    by (simp add: compute_overrides_ok)
  show "hm_ok overrides" unfolding ov by (rule override_execs.hm_ok_loop) simp
  fix k p
  assume "map_of overrides k = Some p"
  then obtain cp where "map_of current k = Some cp" "override_entry defaults k cp = Some p"
    unfolding ov using override_execs.map_of_loop [of current defaults "[]" k] assms(1)
    by (auto simp: configs_ok_def split: option.splits)
  then show "hm_ok (configurations p)"
    using configs_okD [OF assms(1)] hm_ok_override_confs
    by (auto simp: override_entry_def Let_def split: option.splits if_splits)
qed

lemma recent_eq_None [simp]: "recent_eq None r \<longleftrightarrow> r = None" "recent_eq r None \<longleftrightarrow> r = None"
  by (cases r; simp)+

lemma merge_profile_eq:
  assumes "profile_eq p q" "hm_ok (configurations p)" "hm_ok (configurations q)"
  shows "profile_eq (merge_profile dp p) (merge_profile dp q)"
proof -
  have "map_of (configurations (merge_profile dp p)) n = map_of (configurations (merge_profile dp q)) n" for n
    using assms by (simp add: map_of_merge_confs profile_eq_def)
  then have "map_of (configurations (merge_profile dp p)) = map_of (configurations (merge_profile dp q))" ..
  moreover have "recent_eq (recently_used_models (merge_profile dp p)) (recently_used_models (merge_profile dp q))"
    using assms(1) by (auto simp: profile_eq_def merge_profile_def)
  ultimately show ?thesis by (simp add: profile_eq_def)
qed

lemma merge_configs_eq:
  assumes "configs_eq a b" "configs_ok a" "configs_ok b"
  shows "configs_eq (merge_with_defaults defaults a) (merge_with_defaults defaults b)"
  unfolding configs_eq_def
proof
  fix k
  have ok: "hm_ok a" "hm_ok b" using assms by (simp_all add: configs_ok_def)
  have rel: "rel_option profile_eq (map_of a k) (map_of b k)" using assms(1) by (simp add: configs_eq_def)
  show "rel_option profile_eq (map_of (merge_with_defaults defaults a) k) (map_of (merge_with_defaults defaults b) k)"
  proof (cases "map_of a k")
    case None
    with rel have "map_of b k = None" by simp
    with None show ?thesis
      by (cases "map_of defaults k") (simp_all add: map_of_merge [OF ok(1)] map_of_merge [OF ok(2)] profile_eq_def)
  next
    case (Some p)
    with rel obtain q where q: "map_of b k = Some q" "profile_eq p q" by (cases "map_of b k") auto
    from Some q assms(2,3) have "hm_ok (configurations p)" "hm_ok (configurations q)"
      by (auto dest: configs_okD)
    with q Some show ?thesis
      by (cases "map_of defaults k")
         (simp_all add: map_of_merge [OF ok(1)] map_of_merge [OF ok(2)] merge_profile_eq)
  qed
qed

lemma recent_eq_default: "recent_eq r (Some default_recent) \<Longrightarrow> r = Some default_recent"
proof (cases r)
  case (Some a)
  assume "recent_eq r (Some default_recent)"
  with Some have "recent_models a = []" "map_of (reasoning_by_model a) = Map.empty"
    by (simp_all add: default_recent_def hm_eq_iff)
  with Some show ?thesis by (simp add: default_recent_def)
qed simp

lemma recent_eq_trans: "recent_eq a b \<Longrightarrow> recent_eq b c \<Longrightarrow> recent_eq a c"
  by (cases a; cases b; cases c) (simp_all add: hm_eq_iff)

lemma same_profile_eq: "profile_eq p q \<Longrightarrow> same_profile q c \<Longrightarrow> same_profile p c"
  unfolding profile_eq_def same_profile_def by (auto dest: recent_eq_default recent_eq_trans)

lemma same_configs_eq: "configs_eq a b \<Longrightarrow> same_configs b c \<Longrightarrow> same_configs a c"
  unfolding configs_eq_def same_configs_def
  by (metis option.rel_sel same_profile_eq)

lemma canonical_configs_eq:
  assumes "configs_eq a b" "configs_ok a" "configs_ok b" "canonical_configs CC b"
  shows "canonical_configs CC a"
  unfolding canonical_configs_def
proof (intro ballI)
  fix p key
  assume "p \<in> snd ` set a" and key: "key \<in> conf_keys p"
  then obtain k where "map_of a k = Some p" using configs_ok_mem [OF assms(2)] by blast
  moreover have "rel_option profile_eq (map_of a k) (map_of b k)"
    using assms(1) by (simp add: configs_eq_def)
  ultimately obtain q where "map_of b k = Some q" "map_of (configurations p) = map_of (configurations q)"
    by (cases "map_of b k") (auto simp: profile_eq_def)
  then have "q \<in> snd ` set b" "conf_keys p = conf_keys q"
    using configs_ok_mem [OF assms(3)] by (blast, metis dom_map_of_conv_image_fst)
  with assms(4) key show "canonical_variant_key CC key = key" unfolding canonical_configs_def by blast
qed

section \<open>Properties\<close>

text \<open>
  The JSON form of a profile flattens its configurations beside the field \<open>recently_used_models\<close>; a variant with that name would
  collide with the field. Canonical variant keys have no lower-case letters, so no saved profile has one.
\<close>

definition no_field_keys :: "'c ExecutorConfigs \<Rightarrow> bool" where
  "no_field_keys cs \<longleftrightarrow> (\<forall>p \<in> snd ` set cs. ''recently_used_models'' \<notin> conf_keys p)"

lemma canonical_no_field_keys:
  assumes "\<And>s. to_ascii_uppercase (to_screaming_snake CC s) = to_screaming_snake CC s" "canonical_configs CC cs"
  shows "no_field_keys cs"
proof -
  have "to_ascii_lowercase ''recently_used_models'' \<noteq> ''default''" "to_ascii_uppercase ''recently_used_models'' \<noteq> ''recently_used_models''"
    by code_simp+
  then have "canonical_variant_key CC ''recently_used_models'' \<noteq> ''recently_used_models''"
    unfolding canonical_variant_key_def using assms(1) [of "to_snake CC ''recently_used_models''"] by (auto simp del: list.inject)
  with assms(2) show ?thesis unfolding no_field_keys_def canonical_configs_def by metis
qed

text \<open>
  C33: saving the executor profiles and loading them again gives the saved profiles back, with canonical variant
  keys: the same configurations, and the same recently used models, except that recently used models which are
  absent (cleared, where the defaults have some) may come back as an empty list. It rests on the JSON printer and parser
  being inverse up to the order of maps, for profiles without a variant called \<open>recently_used_models\<close>, on a
  successful write storing what was written, and on the conversion of variant keys being stable and giving upper-case keys.
\<close>

theorem save_then_load_restores:
  assumes "case_stable CC" "configs_ok from_defaults" "configs_ok current"
    and json: "\<And>cs t. configs_ok cs \<Longrightarrow> no_field_keys cs \<Longrightarrow> to_json cs = Inr t \<Longrightarrow>
      \<exists>cs'. from_json t = Inr cs' \<and> configs_ok cs' \<and> configs_eq cs' cs"
    and stores: "\<And>t f f'. fs_write t f = (f', Inr ()) \<Longrightarrow> f' = Some t"
    and saved: "save_overrides CC base_of from_defaults to_json fs_write current file = (file', Inr ())"
    and upper: "\<And>s. to_ascii_uppercase (to_screaming_snake CC s) = to_screaming_snake CC s"
  shows "same_configs (load_profiles CC from_defaults from_json file') (canonicalise CC current)"
proof -
  let ?d = "canonicalise CC from_defaults" and ?c = "canonicalise CC current"
  note ok = canonicalise_ok [OF assms(1,2)] canonicalise_ok [OF assms(1,3)]
  from saved obtain ov t where ov: "compute_overrides ?d ?c = Inr ov" and t: "to_json ov = Inr t"
      and w: "fs_write t file = (file', Inr ())"
    by (auto simp: save_overrides_def Let_def split_def result_simps split: sum.splits prod.splits)
       (metis prod.collapse)
  have okov: "configs_ok ov" using overrides_ok [OF ok(3) ov] .
  note canonical = overrides_canonical [OF ok(4) ov]
  from json [OF okov canonical_no_field_keys [OF upper canonical] t] obtain ov' where ov': "from_json t = Inr ov'" "configs_ok ov'" "configs_eq ov' ov"
    by blast
  have "canonical_configs CC ov'"
    using canonical_configs_eq [OF ov'(3,2) okov] canonical by blast
  then have "load_profiles CC from_defaults from_json file' = merge_with_defaults ?d ov'"
    using stores [OF w] ov'(1) by (simp add: load_profiles_def canonicalise_fixed)
  moreover have "same_configs (merge_with_defaults ?d ov) ?c"
    using merge_restores [OF ok(3) ov] ok(1) by (simp add: configs_ok_def)
  ultimately show ?thesis
    using same_configs_eq merge_configs_eq [OF ov'(3,2) okov] by metis
qed

text \<open>An instance: one built-in executor, to which a variant has been added.\<close>

definition sample_case :: convert_case where
  "sample_case = \<lparr>to_snake = (\<lambda>s. s), to_screaming_snake = to_ascii_uppercase\<rparr>"

definition sample_defaults :: "BaseCodingAgent ExecutorConfigs" where
  "sample_defaults = [(Codex, \<lparr>recently_used_models = None, configurations = [(''DEFAULT'', Codex)]\<rparr>)]"

definition sample_current :: "BaseCodingAgent ExecutorConfigs" where
  "sample_current = [(Codex, \<lparr>recently_used_models = None,
     configurations = [(''default'', Codex), (''PLAN'', Codex)]\<rparr>)]"

definition sample_overrides :: "BaseCodingAgent ExecutorConfigs" where
  "sample_overrides = [(Codex, \<lparr>recently_used_models = None, configurations = [(''PLAN'', Codex)]\<rparr>)]"

lemma ascii_case:
  "to_ascii_uppercase (to_ascii_uppercase s) = to_ascii_uppercase s" "to_ascii_lowercase (to_ascii_uppercase s) = to_ascii_lowercase s"
proof -
  have code: "char_code (char_of n) = n" if "n < 256" for n using that by (simp add: char_code_def)
  have "char_of (char_code c) = c" for c by (simp add: char_code_def)
  then show "to_ascii_uppercase (to_ascii_uppercase s) = to_ascii_uppercase s" "to_ascii_lowercase (to_ascii_uppercase s) = to_ascii_lowercase s"
    by (auto simp: to_ascii_uppercase_def to_ascii_lowercase_def Let_def code)
qed

lemma sample_case_stable: "case_stable sample_case"
proof -
  have "to_ascii_lowercase ''DEFAULT'' = ''default''" by code_simp
  then show ?thesis by (simp add: case_stable_def canonical_variant_key_def sample_case_def ascii_case)
qed

lemma sample_ok: "configs_ok sample_defaults" "configs_ok sample_current" "configs_ok sample_overrides"
  by (simp_all add: configs_ok_def hm_ok_def sample_defaults_def sample_current_def sample_overrides_def)

theorem save_then_load_restores_witness:
  "same_configs
     (load_profiles sample_case sample_defaults
        (\<lambda>t. if t = ''plan'' then Inr sample_overrides else Inl ''syntax'') (Some ''plan''))
     (canonicalise sample_case sample_current)"
proof (rule save_then_load_restores [OF sample_case_stable sample_ok(1,2),
    where to_json = "\<lambda>cs. if cs = sample_overrides then Inr ''plan'' else Inl ''unsupported''"
      and fs_write = "\<lambda>t f. (Some t, Inr ())" and base_of = "\<lambda>a. a"])
  fix cs :: "BaseCodingAgent ExecutorConfigs" and t
  assume "(if cs = sample_overrides then Inr ''plan'' else Inl ''unsupported'') = (Inr t :: string + string)"
  then have "cs = sample_overrides" "t = ''plan''" by (simp_all split: if_splits)
  moreover have "configs_eq sample_overrides sample_overrides"
    by (simp add: configs_eq_def profile_eq_def option.rel_refl)
  ultimately show "\<exists>cs'. (if t = ''plan'' then Inr sample_overrides else Inl ''syntax'') = (Inr cs' :: string + _) \<and>
      configs_ok cs' \<and> configs_eq cs' cs"
    using sample_ok by auto
next
  show "save_overrides sample_case (\<lambda>a. a) sample_defaults
      (\<lambda>cs. if cs = sample_overrides then Inr ''plan'' else Inl ''unsupported'')
      (\<lambda>t f. (Some t, Inr ())) sample_current None = (Some ''plan'', Inr ())"
    by code_simp
qed (simp_all add: sample_case_def ascii_case)

text \<open>
  \<open>compute_overrides\<close> refuses exactly the configurations from which a built-in executor or a
  built-in configuration has been deleted.
\<close>

theorem compute_overrides_refuses_deletions:
  assumes "configs_ok defaults"
  shows "is_ok (compute_overrides defaults current) \<longleftrightarrow>
    (\<forall>k dp. map_of defaults k = Some dp \<longrightarrow>
       (\<exists>cp. map_of current k = Some cp \<and>
          (\<forall>n. map_of (configurations dp) n \<noteq> None \<longrightarrow> map_of (configurations cp) n \<noteq> None)))"
proof -
  have mem: "(k, dp) \<in> set defaults \<longleftrightarrow> map_of defaults k = Some dp" for k dp
    using assms by (simp add: configs_ok_def hm_ok_def)
  have sub: "conf_keys dp \<subseteq> conf_keys cp \<longleftrightarrow>
      (\<forall>n. map_of (configurations dp) n \<noteq> None \<longrightarrow> map_of (configurations cp) n \<noteq> None)"
    for dp cp :: "'a ExecutorProfile"
    unfolding subset_iff hm_keys ..
  show ?thesis
    unfolding is_ok_iff compute_overrides_ok nothing_deleted_def split_beta Ball_def split_paired_All mem
      fst_conv snd_conv sub
    by auto
qed

theorem compute_overrides_refuses_deletions_witness:
  "\<not> is_ok (compute_overrides sample_defaults [])"
  unfolding compute_overrides_refuses_deletions [OF sample_ok(1)] by (simp add: sample_defaults_def)

lemma split_once_agent:
  "split_once CHR '':'' (agent_to_string a) = None"
  "split_once CHR '':'' (agent_to_string a @ CHR '':'' # v) = Some (agent_to_string a, v)"
  by (cases a; simp)+

lemma agent_to_string_simps [simp]:
  "agent_to_string a \<noteq> []" "agent_to_string a = agent_to_string b \<longleftrightarrow> a = b"
  by (cases a; simp) (cases a; cases b; simp)

lemma agent_prefix:
  "agent_to_string a @ CHR '':'' # v = agent_to_string b @ CHR '':'' # w \<longleftrightarrow> a = b \<and> v = w"
  "agent_to_string a @ CHR '':'' # v \<noteq> agent_to_string b"
  by (metis split_once_agent option.inject prod.inject agent_to_string_simps(2))
     (metis split_once_agent option.distinct(1))

lemma agent_prefix': "agent_to_string b \<noteq> agent_to_string a @ CHR '':'' # v"
  using agent_prefix(2) [of a v b] by metis

lemma match_iff_same_lookup:
  "runtime_profile_ids_match (cache_key a) (cache_key b) \<longleftrightarrow>
     pid_executor a = pid_executor b \<and>
     (case pid_variant a of Some v \<Rightarrow> v | None \<Rightarrow> ''DEFAULT'') =
     (case pid_variant b of Some v \<Rightarrow> v | None \<Rightarrow> ''DEFAULT'')"
proof -
  have "default_identity (cache_key p) =
      (case pid_variant p of
         None \<Rightarrow> agent_to_string (pid_executor p)
       | Some v \<Rightarrow> if v = ''DEFAULT'' then agent_to_string (pid_executor p)
                   else agent_to_string (pid_executor p) @ CHR '':'' # v)" for p
    by (simp add: default_identity_def cache_key_def split_once_agent split: option.splits)
  then show ?thesis
    by (auto simp: runtime_profile_ids_match_def agent_prefix agent_prefix' split: option.splits)
qed

text \<open>
  Two persisted runtime profile ids match exactly when profile lookup treats the profiles as
  the same: equal executors, and equal variants once an omitted variant is read as \<open>DEFAULT\<close>.
\<close>

theorem runtime_ids_match_like_lookup:
  "runtime_profile_ids_match (cache_key a) (cache_key b) \<longleftrightarrow>
     pid_executor a = pid_executor b \<and>
     (case pid_variant a of Some v \<Rightarrow> v | None \<Rightarrow> ''DEFAULT'') =
     (case pid_variant b of Some v \<Rightarrow> v | None \<Rightarrow> ''DEFAULT'')"
  by (rule match_iff_same_lookup)

text \<open>
  Once the merged profiles have been validated, looking up an agent with a fallback to its
  default variant never panics for an executor that has a profile.
\<close>

theorem validated_lookup_never_panics:
  assumes "validate_merged base_of merged = Inr ()" "pid_executor p \<in> fst ` set merged"
  shows "\<exists>c. get_coding_agent_or_default merged p = Some c"
proof -
  from assms(2) obtain profile where profile: "map_of merged (pid_executor p) = Some profile"
    unfolding hm_keys by blast
  from map_of_SomeD [OF this] assms(1)
  have "validate_merged_profile base_of (pid_executor p, profile) = Inr ()"
    by (simp add: validate_merged_def for_each_ok)
  then have "map_of (configurations profile) ''DEFAULT'' \<noteq> None"
    by (auto simp: validate_merged_profile_def Let_def split: option.splits)
  with profile show ?thesis
    by (auto simp: get_coding_agent_or_default_def get_coding_agent_def get_variant_def split: option.splits)
qed

theorem validated_lookup_never_panics_witness:
  "\<exists>c. get_coding_agent_or_default sample_defaults (with_variant Codex ''REVIEW'') = Some c"
proof (rule validated_lookup_never_panics [where base_of = "\<lambda>a. a"])
  show "validate_merged (\<lambda>a. a) sample_defaults = Inr ()" by code_simp
qed (simp add: sample_defaults_def with_variant_def)

lemma set_insert_by [simp]: "set (insert_by cmp x ys) = insert x (set ys)"
  by (induction ys) auto

lemma set_sort_by [simp]: "set (sort_by cmp xs) = set xs"
  unfolding sort_by_def by (induction xs) auto

lemma compare_availability_trans:
  "compare_availability a b \<noteq> CGreater \<Longrightarrow> compare_availability b c \<noteq> CGreater \<Longrightarrow>
     compare_availability a c \<noteq> CGreater"
  by (cases a; cases b; cases c) (auto split: if_splits)

lemma compare_availability_flip:
  "compare_availability a b = CGreater \<Longrightarrow> compare_availability b a \<noteq> CGreater"
  by (cases a; cases b) (auto split: if_splits)

lemma hd_sort_by:
  assumes "xs \<noteq> []" "y \<in> set xs"
  shows "compare_availability (snd (hd (sort_by (\<lambda>a b. compare_availability (snd a) (snd b)) xs))) (snd y) \<noteq> CGreater"
  using assms
proof (induction xs arbitrary: y)
  case (Cons x xs)
  let ?cmp = "\<lambda>a b. compare_availability (snd a) (snd b)"
  have refl: "compare_availability a a \<noteq> CGreater" for a by (cases a) auto
  show ?case
  proof (cases "sort_by ?cmp xs")
    case Nil
    then have "xs = []" using set_sort_by [of ?cmp xs] by simp
    with Cons.prems refl show ?thesis by (simp add: sort_by_def)
  next
    case (Cons z zs)
    then have ne: "xs \<noteq> []" by (auto simp: sort_by_def)
    from Cons have z: "?cmp z w \<noteq> CGreater" if "w \<in> set xs" for w
      using Cons.IH [OF ne that] by simp
    show ?thesis
    proof (cases "?cmp x z = CGreater")
      case True
      then have "hd (sort_by ?cmp (x # xs)) = z" using Cons by (simp add: sort_by_def)
      with z [of y] \<open>y \<in> set (x # xs)\<close> compare_availability_flip [OF True] show ?thesis by auto
    next
      case False
      then have "hd (sort_by ?cmp (x # xs)) = x" using Cons by (simp add: sort_by_def)
      with z [of y] \<open>y \<in> set (x # xs)\<close> refl compare_availability_trans [OF False, of "snd y"] show ?thesis by auto
    qed
  qed
qed simp

text \<open>
  The recommended executor is available and no available executor is preferred to it: a
  detected login beats a mere installation, and among logins the most recent one wins. The
  recommendation fails only when no executor is available.
\<close>

theorem recommended_profile_is_best:
  "case get_recommended_executor_profile availability cs of
      Inl e \<Rightarrow> e = NoAvailableExecutorProfile \<and> (\<nexists>a. agent_available availability cs a)
    | Inr p \<Rightarrow> pid_variant p = None \<and> agent_available availability cs (pid_executor p) \<and>
        (\<forall>a. agent_available availability cs a \<longrightarrow>
           compare_availability (availability (the (get_coding_agent cs p)))
             (availability (the (get_coding_agent cs (profile_id_new a)))) \<noteq> CGreater)"
proof -
  let ?f = "\<lambda>a. case get_coding_agent cs (profile_id_new a) of
      Some c \<Rightarrow> if is_available (availability c) then Some (a, availability c) else None | None \<Rightarrow> None"
  let ?xs = "List.map_filter ?f (map fst cs)"
  let ?s = "sort_by (\<lambda>a b. compare_availability (snd a) (snd b)) ?xs"
  have mem: "x \<in> set ?xs \<longleftrightarrow> agent_available availability cs (fst x) \<and>
      snd x = availability (the (get_coding_agent cs (profile_id_new (fst x))))" for x
  proof (cases x)
    case (Pair a v)
    have "(\<exists>b \<in> set (map fst cs). ?f b = Some x) \<longleftrightarrow> a \<in> set (map fst cs) \<and> ?f a = Some x"
      using Pair by (auto split: option.splits if_splits)
    then show ?thesis
      by (cases "get_coding_agent cs (profile_id_new a)") (auto simp: map_filter_mem agent_available_def Pair)
  qed
  show ?thesis
  proof (cases ?s)
    case Nil
    from arg_cong [OF this, of set] have "set ?xs = {}" by simp
    then have "\<not> agent_available availability cs a" for a
      using mem [of "(a, availability (the (get_coding_agent cs (profile_id_new a))))"] by simp
    with Nil show ?thesis by (simp add: get_recommended_executor_profile_def)
  next
    case (Cons x zs)
    from arg_cong [OF this, of set] have x: "x \<in> set ?xs" by auto
    then have "?xs \<noteq> []" by auto
    then have best: "compare_availability (snd x) (snd y) \<noteq> CGreater" if "y \<in> set ?xs" for y
      using hd_sort_by [OF _ that] Cons by simp
    have "compare_availability (snd x) (availability (the (get_coding_agent cs (profile_id_new a)))) \<noteq> CGreater"
      if "agent_available availability cs a" for a
      using best [of "(a, availability (the (get_coding_agent cs (profile_id_new a))))"] that mem by simp
    with x [unfolded mem] Cons show ?thesis
      by (simp add: get_recommended_executor_profile_def) (simp add: profile_id_new_def)
  qed
qed

theorem recommended_profile_is_best_witness:
  "compare_availability InstallationFound (LoginDetected 7) = CGreater \<and>
   get_recommended_executor_profile (\<lambda>a. if a = Codex then LoginDetected 7 else InstallationFound)
     [(Gemini, \<lparr>recently_used_models = None, configurations = [(''DEFAULT'', Gemini)]\<rparr>),
      (Codex, \<lparr>recently_used_models = None, configurations = [(''DEFAULT'', Codex)]\<rparr>)] =
     Inr (profile_id_new Codex) \<and>
   agent_available (\<lambda>a. if a = Codex then LoginDetected 7 else InstallationFound)
     [(Gemini, \<lparr>recently_used_models = None, configurations = [(''DEFAULT'', Gemini)]\<rparr>),
      (Codex, \<lparr>recently_used_models = None, configurations = [(''DEFAULT'', Codex)]\<rparr>)] Codex"
proof -
  let ?av = "\<lambda>a. if a = Codex then LoginDetected 7 else InstallationFound"
  let ?cs = "[(Gemini, \<lparr>recently_used_models = None, configurations = [(''DEFAULT'', Gemini)]\<rparr>),
      (Codex, \<lparr>recently_used_models = None, configurations = [(''DEFAULT'', Codex)]\<rparr>)]"
  have rec: "get_recommended_executor_profile ?av ?cs = Inr (profile_id_new Codex)" by code_simp
  with recommended_profile_is_best [of ?av ?cs] have "agent_available ?av ?cs Codex"
    by (simp add: profile_id_new_def)
  with rec show ?thesis by simp
qed

end
