(* ===== verification/Contracts.thy ===== *)
theory Contracts
  imports Serde Profiles
begin

text \<open>
  The versioned contracts of the agent runtime, \<open>crates/executors/src/runtime\<close>:
  \<open>contracts.rs\<close> (requests, capability snapshots, events, run state), \<open>error.rs\<close>, \<open>event.rs\<close>,
  \<open>lifecycle.rs\<close> and \<open>launch_phase.rs\<close>. Field names carry a prefix for their struct and variants a
  prefix for their enum; \<open>'v\<close> is \<open>serde_json::Value\<close>. The serde-derived decoder of a payload is the
  parameter \<open>from_value\<close> of \<open>upcast\<close>.
\<close>

section \<open>Versions\<close>

definition AGENT_REQUEST_SCHEMA_VERSION :: u16 where "AGENT_REQUEST_SCHEMA_VERSION = 1"
definition AGENT_REQUEST_PAYLOAD_VERSION :: u16 where "AGENT_REQUEST_PAYLOAD_VERSION = 1"
definition CAPABILITY_SNAPSHOT_SCHEMA_VERSION :: u16 where "CAPABILITY_SNAPSHOT_SCHEMA_VERSION = 1"
definition PROVIDER_SESSION_REFERENCE_SCHEMA_VERSION :: u16 where
  "PROVIDER_SESSION_REFERENCE_SCHEMA_VERSION = 1"
definition AGENT_EVENT_SCHEMA_VERSION :: u16 where "AGENT_EVENT_SCHEMA_VERSION = 1"
definition AGENT_EVENT_PAYLOAD_VERSION :: u16 where "AGENT_EVENT_PAYLOAD_VERSION = 1"
definition RUN_STATE_SCHEMA_VERSION :: u16 where "RUN_STATE_SCHEMA_VERSION = 1"
definition RUN_STATE_REDUCER_VERSION :: u16 where "RUN_STATE_REDUCER_VERSION = 1"

datatype ContractVersionError =
  MissingUpcaster string u16 u16
| UnsupportedFutureVersion string u16 u16

definition validate_current_version :: "string \<Rightarrow> u16 \<Rightarrow> u16 \<Rightarrow> ContractVersionError + unit" where
  "validate_current_version contract provided current =
     (if provided < current then Inl (MissingUpcaster contract provided current)
      else if current < provided then Inl (UnsupportedFutureVersion contract provided current)
      else Inr ())"

datatype ContractDecodeError =
  DecodeMissingUpcaster string u16 u16
| MalformedCurrentPayload string

section \<open>Requests and capabilities\<close>

datatype AgentRunIntent = IntentInitial | IntentFollowUp | IntentReview

datatype RunAttemptMode = ModeLaunch | ModeResume | ModeRestart

datatype WorkspaceMode = SharedWorkspace | IsolatedWorktree

record WorkspaceReference =
  ws_workspace_id :: uuid
  ws_mode :: WorkspaceMode
  ws_path :: string

datatype AgentCapability =
  CapSessionResume | CapSteering | CapApproval | CapImages | CapReview | CapMcp | CapSubagents
| CapTokenUsage

datatype CapabilityState = CapNative | CapEmulated | CapUnsupported | CapUnknown

datatype CapabilitySource = FromRuntimeProfile | FromVersionProbe | FromRuntimeProbe | FromRunPolicy
| FromUnknown

record 'v CapabilitySnapshotEntry =
  cap_capability :: AgentCapability
  cap_state :: CapabilityState
  cap_source :: CapabilitySource
  cap_emulation_policy :: "string option"
  cap_evidence :: "'v option"

record 'v CapabilitySnapshot =
  cs_schema_version :: u16
  cs_runtime_profile_id :: string
  cs_provider_id :: string
  cs_runtime_version :: "string option"
  cs_protocol_version :: "string option"
  cs_adapter_version :: string
  cs_resolved_at :: datetime
  cs_capabilities :: "'v CapabilitySnapshotEntry list"

datatype CapabilitySnapshotError =
  CapVersion ContractVersionError
| CapDuplicate AgentCapability
| CapMissingEmulationPolicy AgentCapability
| CapUnexpectedEmulationPolicy AgentCapability

definition resolve_capability :: "'v CapabilitySnapshot \<Rightarrow> AgentCapability \<Rightarrow> CapabilityState" where
  "resolve_capability cs c =
     (case find (\<lambda>e. cap_capability e = c) (cs_capabilities cs) of
        Some e \<Rightarrow> cap_state e
      | None \<Rightarrow> CapUnknown)"

fun validate_entries ::
  "'v CapabilitySnapshotEntry list \<Rightarrow> 'v CapabilitySnapshotEntry list \<Rightarrow> CapabilitySnapshotError + unit"
where
  "validate_entries earlier [] = Inr ()"
| "validate_entries earlier (e # es) =
     (if list_ex (\<lambda>x. cap_capability x = cap_capability e) earlier
      then Inl (CapDuplicate (cap_capability e))
      else and_then
        (case (cap_state e, cap_emulation_policy e) of
           (CapEmulated, Some policy) \<Rightarrow>
             if trim policy \<noteq> [] then Inr () else Inl (CapMissingEmulationPolicy (cap_capability e))
         | (CapEmulated, None) \<Rightarrow> Inl (CapMissingEmulationPolicy (cap_capability e))
         | (_, Some _) \<Rightarrow> Inl (CapUnexpectedEmulationPolicy (cap_capability e))
         | _ \<Rightarrow> Inr ())
        (\<lambda>_. validate_entries (earlier @ [e]) es))"

definition validate_capability_snapshot :: "'v CapabilitySnapshot \<Rightarrow> CapabilitySnapshotError + unit" where
  "validate_capability_snapshot cs =
     and_then (map_err CapVersion (validate_current_version ''capability_snapshot.schema''
        (cs_schema_version cs) CAPABILITY_SNAPSHOT_SCHEMA_VERSION))
       (\<lambda>_. validate_entries [] (cs_capabilities cs))"

record 'v ProviderSessionReference =
  ps_schema_version :: u16
  ps_provider_id :: string
  ps_runtime_profile_id :: string
  ps_provider_session_id :: string
  ps_observed_at :: datetime
  ps_metadata :: "'v option"

definition validate_provider_session :: "'v ProviderSessionReference \<Rightarrow> ContractVersionError + unit" where
  "validate_provider_session ps =
     validate_current_version ''provider_session_reference.schema'' (ps_schema_version ps)
       PROVIDER_SESSION_REFERENCE_SCHEMA_VERSION"

datatype AgentRuntimeMessageRole = RoleUser | RoleAssistant | RoleSystem

datatype AgentRuntimeToolStatus =
  ToolCreated | ToolRunning | ToolWaitingApproval | ToolApproved | ToolDenied | ToolSucceeded
| ToolFailed | ToolTimedOut

record CanonicalMessage =
  cm_message_id :: uuid
  cm_role :: AgentRuntimeMessageRole
  cm_content :: string

record AgentRunRequestEnvelope =
  rq_schema_version :: u16
  rq_payload_version :: u16
  rq_request_id :: uuid
  rq_idempotency_key :: string
  rq_session_id :: uuid
  rq_agent_run_id :: uuid
  rq_turn_id :: uuid
  rq_correlation_id :: uuid
  rq_intent :: AgentRunIntent
  rq_runtime_profile_id :: string
  rq_provider_id :: string
  rq_workspace :: WorkspaceReference
  rq_input :: CanonicalMessage
  rq_created_at :: datetime

definition validate_run_request :: "AgentRunRequestEnvelope \<Rightarrow> ContractVersionError + unit" where
  "validate_run_request rq =
     and_then (validate_current_version ''agent_run_request.schema'' (rq_schema_version rq)
        AGENT_REQUEST_SCHEMA_VERSION)
       (\<lambda>_. validate_current_version ''agent_run_request.payload'' (rq_payload_version rq)
          AGENT_REQUEST_PAYLOAD_VERSION)"

datatype AgentTransportKind =
  StdioCli | StdioRpc | Acp | AppServerJsonrpc | HttpSidecar | InProcess

record SelectedSkill =
  skill_name :: string
  skill_path :: string

record 'v RunAttemptRequest =
  ra_schema_version :: u16
  ra_payload_version :: u16
  ra_request_id :: uuid
  ra_idempotency_key :: string
  ra_session_id :: uuid
  ra_agent_run_id :: uuid
  ra_turn_id :: uuid
  ra_run_attempt_id :: uuid
  ra_attempt_number :: u32
  ra_correlation_id :: uuid
  ra_mode :: RunAttemptMode
  ra_transport :: AgentTransportKind
  ra_runtime_profile_id :: string
  ra_provider_id :: string
  ra_workspace :: WorkspaceReference
  ra_capability_snapshot :: "'v CapabilitySnapshot"
  ra_executor_config :: ExecutorConfig
  ra_selected_skills :: "SelectedSkill list option"
  ra_reset_to_message_id :: "string option"
  ra_provider_session :: "'v ProviderSessionReference option"
  ra_created_at :: datetime

datatype RunAttemptRequestError =
  AttemptVersion ContractVersionError
| AttemptCapability CapabilitySnapshotError
| AttemptIdentityMismatch
| ExecutionContextMismatch
| EmptySelectedSkills
| SelectedSkillsOutsideCodingRun
| ResetOutsideFollowUp

definition validate_attempt_current :: "'v RunAttemptRequest \<Rightarrow> ContractVersionError + unit" where
  "validate_attempt_current ra =
     and_then (validate_current_version ''run_attempt_request.schema'' (ra_schema_version ra)
        AGENT_REQUEST_SCHEMA_VERSION)
       (\<lambda>_. validate_current_version ''run_attempt_request.payload'' (ra_payload_version ra)
          AGENT_REQUEST_PAYLOAD_VERSION)"

definition validate_for_run ::
  "'v RunAttemptRequest \<Rightarrow> AgentRunRequestEnvelope \<Rightarrow> RunAttemptRequestError + unit" where
  "validate_for_run ra rq =
     and_then (map_err AttemptVersion (validate_attempt_current ra)) (\<lambda>_.
     and_then (map_err AttemptVersion (validate_run_request rq)) (\<lambda>_.
     and_then (map_err AttemptCapability (validate_capability_snapshot (ra_capability_snapshot ra))) (\<lambda>_.
     if ra_session_id ra \<noteq> rq_session_id rq \<or> ra_agent_run_id ra \<noteq> rq_agent_run_id rq \<or>
        ra_turn_id ra \<noteq> rq_turn_id rq \<or> ra_correlation_id ra \<noteq> rq_correlation_id rq
     then Inl AttemptIdentityMismatch
     else if ra_runtime_profile_id ra \<noteq> rq_runtime_profile_id rq \<or>
        ra_provider_id ra \<noteq> rq_provider_id rq \<or> ra_workspace ra \<noteq> rq_workspace rq \<or>
        cache_key (profile_id (ra_executor_config ra)) \<noteq> ra_runtime_profile_id ra \<or>
        to_ascii_lowercase (agent_to_string (xc_executor (ra_executor_config ra))) \<noteq> ra_provider_id ra \<or>
        cs_runtime_profile_id (ra_capability_snapshot ra) \<noteq> ra_runtime_profile_id ra \<or>
        cs_provider_id (ra_capability_snapshot ra) \<noteq> ra_provider_id ra
     then Inl ExecutionContextMismatch
     else if ra_selected_skills ra = Some [] then Inl EmptySelectedSkills
     else if ra_selected_skills ra \<noteq> None \<and> rq_intent rq = IntentReview
     then Inl SelectedSkillsOutsideCodingRun
     else if ra_reset_to_message_id ra \<noteq> None \<and> rq_intent rq \<noteq> IntentFollowUp
     then Inl ResetOutsideFollowUp
     else case ra_provider_session ra of
            None \<Rightarrow> Inr ()
          | Some ps \<Rightarrow>
              and_then (map_err AttemptVersion (validate_provider_session ps)) (\<lambda>_.
                if \<not> runtime_profile_ids_match (ps_runtime_profile_id ps) (ra_runtime_profile_id ra) \<or>
                   ps_provider_id ps \<noteq> ra_provider_id ra
                then Inl ExecutionContextMismatch else Inr ()))))"

section \<open>Runtime errors and runtime events\<close>

datatype AgentRunLifecycle =
  LifeStarting | LifeRunning | LifeWaitingApproval | LifeWaitingInput | LifeCancelling
| LifeCompleted | LifeFailed | LifeCrashed

datatype AgentRuntimeLaunchPhase =
  PhaseCommandBuild | PhaseProcessSpawn | PhaseProtocolConnect | PhaseWarmup | PhaseSessionResume
| PhaseAccepted

datatype AgentRuntimeErrorKind =
  EKExecutableNotFound | EKCommandBuildFailed | EKAuthRequired | EKStartupFailed | EKProtocolFailed
| EKProcessCrashed | EKOutputParseFailed | EKApprovalCancelled | EKApprovalTimedOut | EKCancelled
| EKUnknown

record AgentRuntimeError =
  re_kind :: AgentRuntimeErrorKind
  re_message :: string
  re_provider :: "string option"
  re_launch_phase :: "AgentRuntimeLaunchPhase option"
  re_exit_code :: "int option"

definition runtime_error_new :: "AgentRuntimeErrorKind \<Rightarrow> string \<Rightarrow> AgentRuntimeError" where
  "runtime_error_new kind message = \<lparr>re_kind = kind, re_message = message, re_provider = None,
     re_launch_phase = None, re_exit_code = None\<rparr>"

definition with_provider :: "AgentRuntimeError \<Rightarrow> string option \<Rightarrow> AgentRuntimeError" where
  "with_provider e p = e\<lparr>re_provider := p\<rparr>"

definition with_launch_phase ::
  "AgentRuntimeError \<Rightarrow> AgentRuntimeLaunchPhase option \<Rightarrow> AgentRuntimeError" where
  "with_launch_phase e p = e\<lparr>re_launch_phase := p\<rparr>"

definition with_exit_code :: "AgentRuntimeError \<Rightarrow> int option \<Rightarrow> AgentRuntimeError" where
  "with_exit_code e c = e\<lparr>re_exit_code := c\<rparr>"

datatype ExecutorApprovalError =
  SessionNotRegistered | RequestFailed string | ServiceUnavailable | ApprovalRequestCancelled

fun approval_error_to_string :: "ExecutorApprovalError \<Rightarrow> string" where
  "approval_error_to_string SessionNotRegistered = ''executor approval session not registered''"
| "approval_error_to_string (RequestFailed e) = ''executor approval request failed: '' @ e"
| "approval_error_to_string ServiceUnavailable = ''executor approval service unavailable''"
| "approval_error_to_string ApprovalRequestCancelled = ''executor approval request cancelled''"

text \<open>The errors of other libraries inside an \<open>ExecutorError\<close> are represented by their text.\<close>

datatype ExecutorError =
  FollowUpNotSupported string | ResetToMessageNotSupported string | SpawnError string
| UnknownExecutorType string | ExecutorIo string | ExecutorJson string | TomlSerialize string
| TomlDeserialize string | ExecutorApproval ExecutorApprovalError | CommandBuild string
| ExecutableNotFound string | SetupHelperNotSupported | AuthRequired string

fun executor_error_to_string :: "ExecutorError \<Rightarrow> string" where
  "executor_error_to_string (FollowUpNotSupported e) = ''Follow-up is not supported: '' @ e"
| "executor_error_to_string (ResetToMessageNotSupported e) =
     ''Reset to a specific message is not supported: '' @ e"
| "executor_error_to_string (SpawnError e) = e"
| "executor_error_to_string (UnknownExecutorType e) = ''Unknown executor type: '' @ e"
| "executor_error_to_string (ExecutorIo e) = ''I/O error: '' @ e"
| "executor_error_to_string (ExecutorJson e) = e"
| "executor_error_to_string (TomlSerialize e) = e"
| "executor_error_to_string (TomlDeserialize e) = e"
| "executor_error_to_string (ExecutorApproval e) = approval_error_to_string e"
| "executor_error_to_string (CommandBuild e) = e"
| "executor_error_to_string (ExecutableNotFound p) = ''Executable '' @ quoted p @ '' not found in PATH''"
| "executor_error_to_string SetupHelperNotSupported = ''Setup helper not supported''"
| "executor_error_to_string (AuthRequired e) = ''Auth required: '' @ e"

fun classify_approval_error :: "ExecutorApprovalError \<Rightarrow> AgentRuntimeErrorKind" where
  "classify_approval_error ApprovalRequestCancelled = EKApprovalCancelled"
| "classify_approval_error SessionNotRegistered = EKProtocolFailed"
| "classify_approval_error (RequestFailed _) = EKProtocolFailed"
| "classify_approval_error ServiceUnavailable = EKProtocolFailed"

fun classify_executor_error :: "ExecutorError \<Rightarrow> AgentRuntimeErrorKind" where
  "classify_executor_error (ExecutableNotFound _) = EKExecutableNotFound"
| "classify_executor_error (CommandBuild _) = EKCommandBuildFailed"
| "classify_executor_error (AuthRequired _) = EKAuthRequired"
| "classify_executor_error (ExecutorJson _) = EKOutputParseFailed"
| "classify_executor_error (ExecutorApproval e) = classify_approval_error e"
| "classify_executor_error (UnknownExecutorType _) = EKStartupFailed"
| "classify_executor_error SetupHelperNotSupported = EKStartupFailed"
| "classify_executor_error (FollowUpNotSupported _) = EKStartupFailed"
| "classify_executor_error (ResetToMessageNotSupported _) = EKStartupFailed"
| "classify_executor_error (SpawnError _) = EKStartupFailed"
| "classify_executor_error (TomlSerialize _) = EKStartupFailed"
| "classify_executor_error (TomlDeserialize _) = EKStartupFailed"
| "classify_executor_error (ExecutorIo _) = EKUnknown"

definition from_executor_error :: "ExecutorError \<Rightarrow> string option \<Rightarrow> AgentRuntimeError" where
  "from_executor_error e provider =
     with_provider (runtime_error_new (classify_executor_error e) (executor_error_to_string e)) provider"

datatype 'v AgentRuntimeEvent =
  REvLifecycleChanged AgentRunLifecycle
| REvSessionObserved string
| REvMessage AgentRuntimeMessageRole string
| REvThinking string
| REvToolCall "string option" string AgentRuntimeToolStatus "'v option" "'v option"
| REvApprovalRequested string "string option" string
| REvApprovalResolved string bool "string option"
| REvInputRequested string string
| REvInputResolved string bool
| REvTokenUsage u32 "u32 option"
| REvWarning string
| REvError AgentRuntimeError
| REvProcessExited bool "int option"

section \<open>Canonical events\<close>

record NativeAuditReference =
  na_stream_id :: uuid
  na_sequence :: u64
  na_checksum :: "string option"

datatype AgentFileChangeType = FileAdded | FileModified | FileDeleted

record AgentFileChange =
  fc_path :: string
  fc_change_type :: AgentFileChangeType

datatype AgentRunStatus =
  APending | AStarting | ARunning | AAwaitingInput | AAwaitingApproval | ACancelling | ASucceeded
| AFailed | ACancelled | ACrashed | AAuditFailed

fun agent_terminal :: "AgentRunStatus \<Rightarrow> bool" where
  "agent_terminal s \<longleftrightarrow> s \<in> {ASucceeded, AFailed, ACancelled, ACrashed, AAuditFailed}"

datatype 'v AgentEventPayload =
  AELifecycleChanged AgentRunStatus
| AESessionObserved "'v ProviderSessionReference"
| AEMessage CanonicalMessage bool
| AEThinking string
| AEFileChanges string "AgentFileChange list"
| AEToolCall "string option" string AgentRuntimeToolStatus "'v option" "'v option"
| AEApprovalRequested string "string option" string
| AEApprovalResolved string bool "string option"
| AEInputRequested string string
| AEInputResolved string bool
| AETokenUsage u64 u64 "u64 option"
| AEError AgentRuntimeError
| AEProjectionDegraded string
| AEProviderExtension string string 'v
| AEUnknown string 'v

definition KNOWN_AGENT_EVENT_TYPES :: "string list" where
  "KNOWN_AGENT_EVENT_TYPES = [''lifecycle_changed'', ''session_observed'', ''message'', ''thinking'',
     ''file_changes'', ''tool_call'', ''approval_requested'', ''approval_resolved'',
     ''input_requested'', ''input_resolved'', ''token_usage'', ''error'', ''projection_degraded'',
     ''provider_extension'', ''unknown'']"

definition payload_type :: "'v serde_json \<Rightarrow> 'v \<Rightarrow> string" where
  "payload_type S payload =
     (case Option.bind (sj_get S payload ''type'') (sj_as_str S) of
        Some t \<Rightarrow> t
      | None \<Rightarrow> ''unknown'')"

definition agent_event_upcast ::
  "'v serde_json \<Rightarrow> ('v \<Rightarrow> string + 'v AgentEventPayload) \<Rightarrow> u16 \<Rightarrow> 'v \<Rightarrow>
   ContractDecodeError + 'v AgentEventPayload"
where
  "agent_event_upcast S from_value payload_version payload =
     (if payload_version < AGENT_EVENT_PAYLOAD_VERSION
      then Inl (DecodeMissingUpcaster ''agent_event.payload'' payload_version AGENT_EVENT_PAYLOAD_VERSION)
      else if AGENT_EVENT_PAYLOAD_VERSION < payload_version
      then Inr (AEUnknown (payload_type S payload) payload)
      else let event_type = payload_type S payload
           in if event_type \<notin> set KNOWN_AGENT_EVENT_TYPES then Inr (AEUnknown event_type payload)
              else map_err MalformedCurrentPayload (from_value payload))"

record 'v AgentEventEnvelope =
  ae_schema_version :: u16
  ae_payload_version :: u16
  ae_event_id :: uuid
  ae_session_id :: uuid
  ae_agent_run_id :: uuid
  ae_turn_id :: uuid
  ae_run_attempt_id :: uuid
  ae_run_attempt_number :: u32
  ae_sequence :: u64
  ae_correlation_id :: uuid
  ae_orchestration_run_id :: "uuid option"
  ae_orchestration_node_execution_id :: "uuid option"
  ae_timestamp :: datetime
  ae_native_refs :: "NativeAuditReference list"
  ae_payload :: "'v AgentEventPayload"

fun is_agent_unknown :: "'v AgentEventPayload \<Rightarrow> bool" where
  "is_agent_unknown (AEUnknown _ _) = True"
| "is_agent_unknown _ = False"

definition agent_validate_for_projection :: "'v AgentEventEnvelope \<Rightarrow> ContractVersionError + unit" where
  "agent_validate_for_projection e =
     and_then (validate_current_version ''agent_event.schema'' (ae_schema_version e)
        AGENT_EVENT_SCHEMA_VERSION) (\<lambda>_.
       if ae_payload_version e < AGENT_EVENT_PAYLOAD_VERSION
       then Inl (MissingUpcaster ''agent_event.payload'' (ae_payload_version e) AGENT_EVENT_PAYLOAD_VERSION)
       else if AGENT_EVENT_PAYLOAD_VERSION < ae_payload_version e \<and> \<not> is_agent_unknown (ae_payload e)
       then Inl (UnsupportedFutureVersion ''agent_event.payload'' (ae_payload_version e)
              AGENT_EVENT_PAYLOAD_VERSION)
       else Inr ())"

section \<open>Run state\<close>

datatype ProjectionStatus = ProjCurrent | ProjDegraded | ProjRebuilding

record 'v RunState =
  st_state_schema_version :: u16
  st_reducer_version :: u16
  st_session_id :: uuid
  st_agent_run_id :: uuid
  st_turn_id :: uuid
  st_status :: AgentRunStatus
  st_projection_status :: ProjectionStatus
  st_last_run_attempt_id :: "uuid option"
  st_last_run_attempt_number :: u32
  st_last_event_sequence :: u64
  st_last_event_id :: "uuid option"
  st_provider_session :: "'v ProviderSessionReference option"
  st_terminal_output :: "CanonicalMessage option"
  st_last_error :: "AgentRuntimeError option"
  st_unknown_event_count :: u64
  st_updated_at :: datetime

definition run_state_pending :: "AgentRunRequestEnvelope \<Rightarrow> 'v RunState" where
  "run_state_pending rq = \<lparr>
     st_state_schema_version = RUN_STATE_SCHEMA_VERSION,
     st_reducer_version = RUN_STATE_REDUCER_VERSION,
     st_session_id = rq_session_id rq, st_agent_run_id = rq_agent_run_id rq,
     st_turn_id = rq_turn_id rq, st_status = APending, st_projection_status = ProjCurrent,
     st_last_run_attempt_id = None, st_last_run_attempt_number = 0, st_last_event_sequence = 0,
     st_last_event_id = None, st_provider_session = None, st_terminal_output = None,
     st_last_error = None, st_unknown_event_count = 0, st_updated_at = rq_created_at rq\<rparr>"

section \<open>Facts\<close>

named_theorems version_defs

declare AGENT_REQUEST_SCHEMA_VERSION_def [version_defs] AGENT_REQUEST_PAYLOAD_VERSION_def [version_defs]
  CAPABILITY_SNAPSHOT_SCHEMA_VERSION_def [version_defs]
  PROVIDER_SESSION_REFERENCE_SCHEMA_VERSION_def [version_defs]
  AGENT_EVENT_SCHEMA_VERSION_def [version_defs] AGENT_EVENT_PAYLOAD_VERSION_def [version_defs]
  RUN_STATE_SCHEMA_VERSION_def [version_defs] RUN_STATE_REDUCER_VERSION_def [version_defs]

lemma validate_current_version_ok [result_simps]:
  "validate_current_version c p q = Inr u \<longleftrightarrow> p = q"
  by (auto simp: validate_current_version_def)

definition policy_fits :: "'v CapabilitySnapshotEntry \<Rightarrow> bool" where
  "policy_fits e \<longleftrightarrow>
     (case cap_emulation_policy e of
        None \<Rightarrow> cap_state e \<noteq> CapEmulated
      | Some policy \<Rightarrow> cap_state e = CapEmulated \<and> (\<exists>c \<in> set policy. \<not> is_whitespace c))"

lemma validate_entries_ok:
  "validate_entries earlier es = Inr () \<longleftrightarrow>
     distinct (map cap_capability es) \<and>
     (\<forall>x \<in> set earlier. \<forall>e \<in> set es. cap_capability x \<noteq> cap_capability e) \<and>
     (\<forall>e \<in> set es. policy_fits e)"
proof (induction earlier es rule: validate_entries.induct)
  case (2 earlier e es)
  have "(case (cap_state e, cap_emulation_policy e) of
           (CapEmulated, Some policy) \<Rightarrow>
             if trim policy \<noteq> [] then Inr () else Inl (CapMissingEmulationPolicy (cap_capability e))
         | (CapEmulated, None) \<Rightarrow> Inl (CapMissingEmulationPolicy (cap_capability e))
         | (_, Some _) \<Rightarrow> Inl (CapUnexpectedEmulationPolicy (cap_capability e))
         | _ \<Rightarrow> Inr ()) = Inr () \<longleftrightarrow> policy_fits e"
    by (auto simp: policy_fits_def trim_all_whitespace split: option.splits CapabilityState.splits)
  with 2 show ?case
    by (cases "list_ex (\<lambda>x. cap_capability x = cap_capability e) earlier")
       (auto simp: and_then_eq_Inr list_ex_iff)
qed auto

lemma validate_capability_snapshot_ok:
  "validate_capability_snapshot cs = Inr () \<longleftrightarrow>
     cs_schema_version cs = 1 \<and> distinct (map cap_capability (cs_capabilities cs)) \<and>
     (\<forall>e \<in> set (cs_capabilities cs). policy_fits e)"
  by (simp add: validate_capability_snapshot_def result_simps validate_entries_ok version_defs)

lemma agent_projectable_iff:
  "agent_validate_for_projection e = Inr u \<longleftrightarrow>
     ae_schema_version e = 1 \<and>
     (ae_payload_version e = 1 \<or> 1 < ae_payload_version e \<and> is_agent_unknown (ae_payload e))"
  by (cases rule: linorder_cases [of "ae_payload_version e" 1])
     (auto simp: agent_validate_for_projection_def result_simps version_defs)

lemma agent_upcast_cases:
  "v < 1 \<Longrightarrow> agent_event_upcast S from_value v payload =
     Inl (DecodeMissingUpcaster ''agent_event.payload'' v 1)"
  "1 < v \<Longrightarrow> agent_event_upcast S from_value v payload = Inr (AEUnknown (payload_type S payload) payload)"
  by (auto simp only: agent_event_upcast_def version_defs split: if_split dest: order.asym)

section \<open>Properties\<close>

text \<open>
  C38: a validated capability snapshot answers every query unambiguously: a capability resolves to a
  state exactly when the snapshot has an entry with that capability and state, or has no entry
  for it and the state is unknown. An emulated capability always comes with a policy that is not
  blank, and no other state carries one.
\<close>

theorem validated_capabilities_unambiguous:
  assumes "validate_capability_snapshot cs = Inr ()"
  shows "(resolve_capability cs c = s \<longleftrightarrow>
      (\<exists>e \<in> set (cs_capabilities cs). cap_capability e = c \<and> cap_state e = s) \<or>
      s = CapUnknown \<and> (\<forall>e \<in> set (cs_capabilities cs). cap_capability e \<noteq> c)) \<and>
    (\<forall>e \<in> set (cs_capabilities cs). cap_state e = CapEmulated \<longleftrightarrow>
       (\<exists>policy. cap_emulation_policy e = Some policy \<and> trim policy \<noteq> []))"
proof -
  from assms have dist: "distinct (map cap_capability (cs_capabilities cs))"
    and fits: "\<forall>e \<in> set (cs_capabilities cs). policy_fits e"
    by (simp_all add: validate_capability_snapshot_ok)
  have uniq: "e = e'" if "e \<in> set (cs_capabilities cs)" "e' \<in> set (cs_capabilities cs)"
      "cap_capability e = cap_capability e'" for e e'
    using dist that by (auto simp: distinct_map inj_on_def)
  have "resolve_capability cs c = s \<longleftrightarrow>
      (\<exists>e \<in> set (cs_capabilities cs). cap_capability e = c \<and> cap_state e = s) \<or>
      s = CapUnknown \<and> (\<forall>e \<in> set (cs_capabilities cs). cap_capability e \<noteq> c)"
  proof (cases "find (\<lambda>e. cap_capability e = c) (cs_capabilities cs)")
    case None
    then have "\<forall>e \<in> set (cs_capabilities cs). cap_capability e \<noteq> c" by (simp add: find_None_iff)
    with None show ?thesis by (auto simp: resolve_capability_def)
  next
    case (Some e)
    then have "e \<in> set (cs_capabilities cs)" "cap_capability e = c"
      by (auto simp: find_Some_iff)
    then show ?thesis using Some uniq by (auto simp: resolve_capability_def)
  qed
  moreover have "\<forall>e \<in> set (cs_capabilities cs). cap_state e = CapEmulated \<longleftrightarrow>
      (\<exists>policy. cap_emulation_policy e = Some policy \<and> trim policy \<noteq> [])"
    using fits by (auto simp: policy_fits_def trim_all_whitespace split: option.splits)
  ultimately show ?thesis by blast
qed

definition sample_capabilities :: "json_lit CapabilitySnapshot" where
  "sample_capabilities = \<lparr>cs_schema_version = 1, cs_runtime_profile_id = ''CODEX'',
     cs_provider_id = ''codex'', cs_runtime_version = None, cs_protocol_version = None,
     cs_adapter_version = ''1'', cs_resolved_at = 0, cs_capabilities =
       [\<lparr>cap_capability = CapApproval, cap_state = CapNative, cap_source = FromRuntimeProfile,
         cap_emulation_policy = None, cap_evidence = None\<rparr>,
        \<lparr>cap_capability = CapSteering, cap_state = CapEmulated, cap_source = FromRunPolicy,
         cap_emulation_policy = Some ''queue'', cap_evidence = None\<rparr>]\<rparr>"

lemma sample_capabilities_valid: "validate_capability_snapshot sample_capabilities = Inr ()"
  by code_simp

theorem validated_capabilities_unambiguous_witness:
  "resolve_capability sample_capabilities CapSteering = CapEmulated"
  using validated_capabilities_unambiguous [OF sample_capabilities_valid, of CapSteering CapEmulated]
  by (simp add: sample_capabilities_def)

text \<open>
  An attempt that passes \<open>validate_for_run\<close> runs in the context its request names. It shares
  session, run, turn, correlation, workspace and provider with the request; the profile id is the
  cache key of its executor configuration; and a provider session it resumes belongs to a profile
  that profile lookup does not distinguish from that configuration.
\<close>

theorem validated_attempt_in_context:
  assumes "validate_for_run ra rq = Inr ()"
  shows "ra_session_id ra = rq_session_id rq \<and> ra_agent_run_id ra = rq_agent_run_id rq \<and>
    ra_turn_id ra = rq_turn_id rq \<and> ra_correlation_id ra = rq_correlation_id rq \<and>
    ra_workspace ra = rq_workspace rq \<and> ra_provider_id ra = rq_provider_id rq \<and>
    rq_runtime_profile_id rq = cache_key (profile_id (ra_executor_config ra)) \<and>
    rq_provider_id rq = to_ascii_lowercase (agent_to_string (xc_executor (ra_executor_config ra))) \<and>
    validate_capability_snapshot (ra_capability_snapshot ra) = Inr () \<and>
    (\<forall>ps p. ra_provider_session ra = Some ps \<and> ps_runtime_profile_id ps = cache_key p \<longrightarrow>
       pid_executor p = xc_executor (ra_executor_config ra) \<and>
       (case pid_variant p of Some v \<Rightarrow> v | None \<Rightarrow> ''DEFAULT'') =
       (case xc_variant (ra_executor_config ra) of Some v \<Rightarrow> v | None \<Rightarrow> ''DEFAULT''))"
proof -
  have session: "runtime_profile_ids_match (ps_runtime_profile_id ps)
      (cache_key (profile_id (ra_executor_config ra)))"
    if "ra_provider_session ra = Some ps" for ps
    using assms that by (simp add: validate_for_run_def result_simps split: if_splits)
  have "pid_executor p = xc_executor (ra_executor_config ra) \<and>
       (case pid_variant p of Some v \<Rightarrow> v | None \<Rightarrow> ''DEFAULT'') =
       (case xc_variant (ra_executor_config ra) of Some v \<Rightarrow> v | None \<Rightarrow> ''DEFAULT'')"
    if "ra_provider_session ra = Some ps" "ps_runtime_profile_id ps = cache_key p" for ps p
    using session [OF that(1)] unfolding that(2) match_iff_same_lookup by (simp add: profile_id_def)
  with assms show ?thesis
    by (auto simp: validate_for_run_def result_simps split: if_splits)
qed

definition sample_workspace :: WorkspaceReference where
  "sample_workspace = \<lparr>ws_workspace_id = 1, ws_mode = SharedWorkspace, ws_path = ''/w''\<rparr>"

definition sample_request :: AgentRunRequestEnvelope where
  "sample_request = \<lparr>rq_schema_version = 1, rq_payload_version = 1, rq_request_id = 1,
     rq_idempotency_key = ''run-command-1'', rq_session_id = 2, rq_agent_run_id = 3, rq_turn_id = 4,
     rq_correlation_id = 5, rq_intent = IntentInitial, rq_runtime_profile_id = ''CODEX'',
     rq_provider_id = ''codex'', rq_workspace = sample_workspace,
     rq_input = \<lparr>cm_message_id = 6, cm_role = RoleUser, cm_content = ''hi''\<rparr>, rq_created_at = 0\<rparr>"

definition sample_attempt :: "json_lit RunAttemptRequest" where
  "sample_attempt = \<lparr>ra_schema_version = 1, ra_payload_version = 1, ra_request_id = 1,
     ra_idempotency_key = ''attempt-1'', ra_session_id = 2, ra_agent_run_id = 3, ra_turn_id = 4,
     ra_run_attempt_id = 7, ra_attempt_number = 1, ra_correlation_id = 5, ra_mode = ModeResume,
     ra_transport = StdioCli, ra_runtime_profile_id = ''CODEX'', ra_provider_id = ''codex'',
     ra_workspace = sample_workspace, ra_capability_snapshot = sample_capabilities,
     ra_executor_config = executor_config_new Codex, ra_selected_skills = None,
     ra_reset_to_message_id = None,
     ra_provider_session = Some \<lparr>ps_schema_version = 1, ps_provider_id = ''codex'',
       ps_runtime_profile_id = ''CODEX:DEFAULT'', ps_provider_session_id = ''s'', ps_observed_at = 0,
       ps_metadata = None\<rparr>,
     ra_created_at = 0\<rparr>"

lemma sample_attempt_valid: "validate_for_run sample_attempt sample_request = Inr ()"
  by code_simp

theorem validated_attempt_in_context_witness:
  "rq_provider_id sample_request = to_ascii_lowercase (agent_to_string Codex)"
  using validated_attempt_in_context [OF sample_attempt_valid]
  by (simp add: sample_attempt_def executor_config_new_def)

text \<open>
  Whatever \<open>upcast\<close> accepts can be projected: an event whose payload came out of \<open>upcast\<close> at its
  payload version, under the current envelope schema, passes \<open>validate_for_projection\<close>. A payload from a
  newer version is kept unchanged as an unknown event.
\<close>

theorem agent_upcast_is_projectable:
  assumes "agent_event_upcast S from_value v payload = Inr p"
    and "ae_schema_version e = AGENT_EVENT_SCHEMA_VERSION" "ae_payload_version e = v" "ae_payload e = p"
  shows "agent_validate_for_projection e = Inr () \<and>
    (AGENT_EVENT_PAYLOAD_VERSION < v \<longrightarrow> (\<exists>t. p = AEUnknown t payload))"
  using assms agent_upcast_cases [of v S from_value payload]
  by (cases rule: linorder_cases [of v 1]) (auto simp: agent_projectable_iff version_defs)

definition sample_event :: "u64 \<Rightarrow> uuid \<Rightarrow> json_lit AgentEventPayload \<Rightarrow> json_lit AgentEventEnvelope" where
  "sample_event n i p = \<lparr>ae_schema_version = 1, ae_payload_version = 1, ae_event_id = i,
     ae_session_id = 2, ae_agent_run_id = 3, ae_turn_id = 4, ae_run_attempt_id = 7,
     ae_run_attempt_number = 1, ae_sequence = n, ae_correlation_id = 5, ae_orchestration_run_id = None,
     ae_orchestration_node_execution_id = None, ae_timestamp = 1, ae_native_refs = [], ae_payload = p\<rparr>"

theorem agent_upcast_is_projectable_witness:
  "agent_validate_for_projection
     ((sample_event 1 9 (AEUnknown ''unknown'' JNull))\<lparr>ae_payload_version := 2\<rparr>) = Inr ()"
proof -
  have "agent_event_upcast (lit_serde []) (\<lambda>_. Inl ''no decoder'') 2 JNull = Inr (AEUnknown ''unknown'' JNull)"
    by code_simp
  from agent_upcast_is_projectable [OF this, of "(sample_event 1 9 (AEUnknown ''unknown'' JNull))\<lparr>ae_payload_version := 2\<rparr>"]
  show ?thesis by (simp add: sample_event_def version_defs)
qed

end
