(* ===== verification/Orchestration.thy ===== *)
theory Orchestration
  imports Contracts
begin

text \<open>
  The contracts of the orchestration layer, \<open>crates/executors/src/runtime/orchestration.rs\<close>: plans,
  commands to agent runs, events and the projected state. The trait \<open>AgentRunPort\<close> at the end of the
  commands is the boundary to process supervision and has no body to model.
\<close>

section \<open>Plans\<close>

definition ORCHESTRATION_PLAN_SCHEMA_VERSION :: u16 where "ORCHESTRATION_PLAN_SCHEMA_VERSION = 1"
definition ORCHESTRATION_COMMAND_SCHEMA_VERSION :: u16 where "ORCHESTRATION_COMMAND_SCHEMA_VERSION = 1"
definition ORCHESTRATION_EVENT_SCHEMA_VERSION :: u16 where "ORCHESTRATION_EVENT_SCHEMA_VERSION = 1"
definition ORCHESTRATION_EVENT_PAYLOAD_VERSION :: u16 where "ORCHESTRATION_EVENT_PAYLOAD_VERSION = 1"
definition ORCHESTRATION_STATE_SCHEMA_VERSION :: u16 where "ORCHESTRATION_STATE_SCHEMA_VERSION = 1"
definition ORCHESTRATION_REDUCER_VERSION :: u16 where "ORCHESTRATION_REDUCER_VERSION = 1"

datatype OrchestrationProductKind = ProductWorkflow | ProductArena

datatype OrchestrationFailurePolicy = FailFast | AllowPartial

datatype OrchestrationJoinPolicy = JoinAll | JoinAny | JoinEach

datatype RemainingUpstreamsPolicy = ContinueRemaining | CancelRemaining

datatype EachDownstreamExecution = EachParallel | EachSerial

datatype RetryBackoffKind = BackoffNone | BackoffFixed | BackoffExponential

record OrchestrationRetryPolicy =
  max_run_attempts :: u32
  backoff :: RetryBackoffKind
  backoff_ms :: u64
  retryable_terminal_statuses :: "AgentRunStatus list"
  retry_mode :: RunAttemptMode

definition default_retry_policy :: OrchestrationRetryPolicy where
  "default_retry_policy = \<lparr>max_run_attempts = 1, backoff = BackoffNone, backoff_ms = 0,
     retryable_terminal_statuses = [], retry_mode = ModeRestart\<rparr>"

definition is_automatic_retry_enabled :: "OrchestrationRetryPolicy \<Rightarrow> bool" where
  "is_automatic_retry_enabled p \<longleftrightarrow> 1 < max_run_attempts p"

record 'v OrchestrationPlanNode =
  pn_node_key :: string
  pn_stable_order :: u32
  pn_dependencies :: "string list"
  pn_join :: OrchestrationJoinPolicy
  pn_failure_policy :: OrchestrationFailurePolicy
  pn_remaining_upstreams :: RemainingUpstreamsPolicy
  pn_each_downstream_execution :: EachDownstreamExecution
  pn_retry :: OrchestrationRetryPolicy
  pn_runtime_profile_id :: "string option"
  pn_provider_id :: "string option"
  pn_provider_config :: "'v option"

record 'v OrchestrationPlanSnapshot =
  pl_schema_version :: u16
  pl_plan_id :: uuid
  pl_source_definition_id :: uuid
  pl_source_definition_version :: string
  pl_product_kind :: OrchestrationProductKind
  pl_workspace_mode :: WorkspaceMode
  pl_nodes :: "'v OrchestrationPlanNode list"
  pl_created_at :: datetime

definition validate_plan_current :: "'v OrchestrationPlanSnapshot \<Rightarrow> ContractVersionError + unit" where
  "validate_plan_current p =
     validate_current_version ''orchestration_plan.schema'' (pl_schema_version p)
       ORCHESTRATION_PLAN_SCHEMA_VERSION"

record UpstreamSourceReference =
  us_orchestration_run_id :: uuid
  us_node_execution_id :: uuid
  us_agent_run_id :: uuid

record UpstreamHandoff =
  uh_source_ref :: UpstreamSourceReference
  uh_initiating_input :: CanonicalMessage
  uh_terminal_output :: "CanonicalMessage option"

section \<open>Commands\<close>

datatype 'v AgentRunPortCommand =
  CmdCreate AgentRunRequestEnvelope "'v RunAttemptRequest"
| CmdCancel string
| CmdSubmitInput string string
| CmdResolveApproval string bool "string option"
| CmdRetry RunAttemptMode uuid

record 'v AgentRunPortCommandEnvelope =
  ce_schema_version :: u16
  ce_command_id :: uuid
  ce_idempotency_key :: string
  ce_agent_run_id :: uuid
  ce_orchestration_run_id :: "uuid option"
  ce_orchestration_node_execution_id :: "uuid option"
  ce_correlation_id :: uuid
  ce_created_at :: datetime
  ce_command :: "'v AgentRunPortCommand"

datatype OrchestrationCommandValidationError =
  CommandVersion ContractVersionError
| InvalidAttempt RunAttemptRequestError
| IncompleteOrchestrationOrigin
| AgentRunIdentityMismatch

definition validate_command ::
  "'v AgentRunPortCommandEnvelope \<Rightarrow> OrchestrationCommandValidationError + unit" where
  "validate_command c =
     and_then (map_err CommandVersion (validate_current_version ''orchestration_command.schema''
        (ce_schema_version c) ORCHESTRATION_COMMAND_SCHEMA_VERSION)) (\<lambda>_.
     if (ce_orchestration_run_id c \<noteq> None) \<noteq> (ce_orchestration_node_execution_id c \<noteq> None)
     then Inl IncompleteOrchestrationOrigin
     else case ce_command c of
            CmdCreate request attempt \<Rightarrow>
              and_then (map_err InvalidAttempt (validate_for_run attempt request)) (\<lambda>_.
                if rq_agent_run_id request \<noteq> ce_agent_run_id c then Inl AgentRunIdentityMismatch
                else Inr ())
          | _ \<Rightarrow> Inr ())"

record 'v AgentRunPortSnapshot =
  snap_agent_run_id :: uuid
  snap_state :: "'v RunState"

datatype AgentRunPortError = PortNotFound uuid | PortUnavailable string | PortRejected string

section \<open>Events and state\<close>

datatype OrchestrationRunStatus =
  OPending | ORunning | OWaitingForInput | OWaitingForApproval | OCancelling | OSucceeded | OFailed
| OCancelled

fun orchestration_terminal :: "OrchestrationRunStatus \<Rightarrow> bool" where
  "orchestration_terminal s \<longleftrightarrow> s \<in> {OSucceeded, OFailed, OCancelled}"

datatype OrchestrationNodeStatus =
  ONPending | ONReady | ONRunning | ONAwaitingInput | ONAwaitingApproval | ONCancelling
| ONSucceeded | ONFailed | ONCancelled

datatype 'v OrchestrationEventPayload =
  OELifecycleChanged OrchestrationRunStatus
| OENodeStatusChanged uuid OrchestrationNodeStatus
| OEAgentRunLinked uuid uuid
| OEJoinDecided uuid OrchestrationJoinPolicy "uuid list"
| OECommandQueued uuid string
| OEProjectionDegraded string
| OEUnknown string 'v

definition KNOWN_ORCHESTRATION_EVENT_TYPES :: "string list" where
  "KNOWN_ORCHESTRATION_EVENT_TYPES = [''lifecycle_changed'', ''node_status_changed'',
     ''agent_run_linked'', ''join_decided'', ''command_queued'', ''projection_degraded'', ''unknown'']"

definition orchestration_payload_type :: "'v serde_json \<Rightarrow> 'v \<Rightarrow> string" where
  "orchestration_payload_type S payload =
     (case Option.bind (sj_get S payload ''type'') (sj_as_str S) of
        Some t \<Rightarrow> t
      | None \<Rightarrow> ''unknown'')"

definition orchestration_upcast ::
  "'v serde_json \<Rightarrow> ('v \<Rightarrow> string + 'v OrchestrationEventPayload) \<Rightarrow> u16 \<Rightarrow> 'v \<Rightarrow>
   ContractDecodeError + 'v OrchestrationEventPayload"
where
  "orchestration_upcast S from_value payload_version payload =
     (if payload_version < ORCHESTRATION_EVENT_PAYLOAD_VERSION
      then Inl (DecodeMissingUpcaster ''orchestration_event.payload'' payload_version
             ORCHESTRATION_EVENT_PAYLOAD_VERSION)
      else if ORCHESTRATION_EVENT_PAYLOAD_VERSION < payload_version
      then Inr (OEUnknown (orchestration_payload_type S payload) payload)
      else let event_type = orchestration_payload_type S payload
           in if event_type \<notin> set KNOWN_ORCHESTRATION_EVENT_TYPES
              then Inr (OEUnknown event_type payload)
              else map_err MalformedCurrentPayload (from_value payload))"

record 'v OrchestrationEventEnvelope =
  oe_schema_version :: u16
  oe_payload_version :: u16
  oe_event_id :: uuid
  oe_orchestration_run_id :: uuid
  oe_sequence :: u64
  oe_correlation_id :: uuid
  oe_timestamp :: datetime
  oe_payload :: "'v OrchestrationEventPayload"

fun is_orchestration_unknown :: "'v OrchestrationEventPayload \<Rightarrow> bool" where
  "is_orchestration_unknown (OEUnknown _ _) = True"
| "is_orchestration_unknown _ = False"

definition orchestration_validate_for_projection ::
  "'v OrchestrationEventEnvelope \<Rightarrow> ContractVersionError + unit" where
  "orchestration_validate_for_projection e =
     and_then (validate_current_version ''orchestration_event.schema'' (oe_schema_version e)
        ORCHESTRATION_EVENT_SCHEMA_VERSION) (\<lambda>_.
       if oe_payload_version e < ORCHESTRATION_EVENT_PAYLOAD_VERSION
       then Inl (MissingUpcaster ''orchestration_event.payload'' (oe_payload_version e)
              ORCHESTRATION_EVENT_PAYLOAD_VERSION)
       else if ORCHESTRATION_EVENT_PAYLOAD_VERSION < oe_payload_version e \<and>
               \<not> is_orchestration_unknown (oe_payload e)
       then Inl (UnsupportedFutureVersion ''orchestration_event.payload'' (oe_payload_version e)
              ORCHESTRATION_EVENT_PAYLOAD_VERSION)
       else Inr ())"

record OrchestrationState =
  os_state_schema_version :: u16
  os_reducer_version :: u16
  os_orchestration_run_id :: uuid
  os_status :: OrchestrationRunStatus
  os_projection_status :: ProjectionStatus
  os_last_event_sequence :: u64
  os_last_event_id :: "uuid option"
  os_unknown_event_count :: u64
  os_updated_at :: datetime

definition orchestration_pending :: "uuid \<Rightarrow> datetime \<Rightarrow> OrchestrationState" where
  "orchestration_pending run_id created_at = \<lparr>
     os_state_schema_version = ORCHESTRATION_STATE_SCHEMA_VERSION,
     os_reducer_version = ORCHESTRATION_REDUCER_VERSION,
     os_orchestration_run_id = run_id, os_status = OPending, os_projection_status = ProjCurrent,
     os_last_event_sequence = 0, os_last_event_id = None, os_unknown_event_count = 0,
     os_updated_at = created_at\<rparr>"

definition validate_orchestration_state :: "OrchestrationState \<Rightarrow> ContractVersionError + unit" where
  "validate_orchestration_state s =
     and_then (validate_current_version ''orchestration_state.schema'' (os_state_schema_version s)
        ORCHESTRATION_STATE_SCHEMA_VERSION)
       (\<lambda>_. validate_current_version ''orchestration_state.reducer'' (os_reducer_version s)
          ORCHESTRATION_REDUCER_VERSION)"

section \<open>Properties\<close>

declare ORCHESTRATION_PLAN_SCHEMA_VERSION_def [version_defs]
  ORCHESTRATION_COMMAND_SCHEMA_VERSION_def [version_defs]
  ORCHESTRATION_EVENT_SCHEMA_VERSION_def [version_defs]
  ORCHESTRATION_EVENT_PAYLOAD_VERSION_def [version_defs]
  ORCHESTRATION_STATE_SCHEMA_VERSION_def [version_defs] ORCHESTRATION_REDUCER_VERSION_def [version_defs]

lemma validate_command_create:
  "ce_command c = CmdCreate rq ra \<Longrightarrow> validate_command c = Inr () \<longleftrightarrow>
     ce_schema_version c = 1 \<and>
     (ce_orchestration_run_id c = None \<longleftrightarrow> ce_orchestration_node_execution_id c = None) \<and>
     validate_for_run ra rq = Inr () \<and> ce_agent_run_id c = rq_agent_run_id rq"
  by (auto simp: validate_command_def result_simps version_defs)

end
