(* ===== verification/Projection.thy ===== *)
theory Projection
  imports Prelude "HOL-Library.Product_Lexorder"
begin

text \<open>
  The contract of an event-sourced projection, shared by the reducer of agent runs and the reducer
  of orchestration runs. A reducer takes a state and an event to a new state and a result; events
  carry a position in their stream, the state a cursor. The locale \<open>event_projection\<close> lists what a
  reducer promises for one event; its lemmas say what follows for any sequence of deliveries, with
  repetitions, reorderings and gaps: each position is applied at most once and in order,
  repeated deliveries change nothing, and a projection that is not degraded has missed nothing.
\<close>

text \<open>The state after delivering a list of events, and the events that were applied on the way.\<close>

fun deliver :: "('s \<Rightarrow> 'e \<Rightarrow> 's \<times> 'r) \<Rightarrow> 's \<Rightarrow> 'e list \<Rightarrow> 's" where
  "deliver reduce s [] = s"
| "deliver reduce s (e # es) = deliver reduce (fst (reduce s e)) es"

fun applied :: "('s \<Rightarrow> 'e \<Rightarrow> 's \<times> ('err + 'a)) \<Rightarrow> 'a \<Rightarrow> 's \<Rightarrow> 'e list \<Rightarrow> 'e list" where
  "applied reduce dup s [] = []"
| "applied reduce dup s (e # es) =
     (case reduce s e of (s', r) \<Rightarrow>
        (case r of Inl _ \<Rightarrow> [] | Inr a \<Rightarrow> if a = dup then [] else [e]) @ applied reduce dup s' es)"

fun chain :: "('p \<Rightarrow> 'p \<Rightarrow> bool) \<Rightarrow> 'p \<Rightarrow> 'p list \<Rightarrow> bool" where
  "chain R p [] = True"
| "chain R p (q # qs) = (R p q \<and> chain R q qs)"

lemma deliver_append: "deliver reduce s (xs @ ys) = deliver reduce (deliver reduce s xs) ys"
  by (induction xs arbitrary: s) auto

locale event_projection =
  fixes reduce :: "'s \<Rightarrow> 'e \<Rightarrow> 's \<times> ('err + 'a)"
    and ok :: "'s \<Rightarrow> bool"
    and cursor :: "'s \<Rightarrow> 'p :: linorder"
    and position :: "'e \<Rightarrow> 'p"
    and follows :: "'p \<Rightarrow> 'p \<Rightarrow> bool"
    and degraded :: "'s \<Rightarrow> bool"
    and dup :: 'a
  assumes ok_reduce: "ok s \<Longrightarrow> ok (fst (reduce s e))"
    and rejected: "ok s \<Longrightarrow> reduce s e = (s', Inl err) \<Longrightarrow> cursor s' = cursor s"
    and duplicate: "ok s \<Longrightarrow> reduce s e = (s', Inr dup) \<Longrightarrow> s' = s \<and> position e = cursor s"
    and accepted: "ok s \<Longrightarrow> reduce s e = (s', Inr a) \<Longrightarrow> a \<noteq> dup \<Longrightarrow>
      cursor s < position e \<and> cursor s' = position e"
    and no_gap: "ok s \<Longrightarrow> reduce s e = (s', Inr a) \<Longrightarrow> a \<noteq> dup \<Longrightarrow> \<not> degraded s' \<Longrightarrow>
      follows (cursor s) (position e)"
    and repeated: "ok s \<Longrightarrow> fst (reduce (fst (reduce s e)) e) = fst (reduce s e)"
    and redelivered: "ok s \<Longrightarrow> reduce s e = (s', Inr a) \<Longrightarrow> reduce s' e = (s', Inr dup)"
    and sticky: "degraded s \<Longrightarrow> degraded (fst (reduce s e))"
begin

lemma ok_deliver: "ok s \<Longrightarrow> ok (deliver reduce s es)"
  by (induction es arbitrary: s) (auto simp: ok_reduce)

lemma degraded_deliver: "degraded s \<Longrightarrow> degraded (deliver reduce s es)"
  by (induction es arbitrary: s) (auto simp: sticky)

lemma cursor_reduce: "ok s \<Longrightarrow> cursor s \<le> cursor (fst (reduce s e))"
proof -
  assume "ok s"
  obtain s' r where red: "reduce s e = (s', r)" by (cases "reduce s e")
  show ?thesis
  proof (cases r)
    case (Inl err)
    with red rejected [OF \<open>ok s\<close>] show ?thesis by auto
  next
    case (Inr a)
    with red duplicate [OF \<open>ok s\<close>] accepted [OF \<open>ok s\<close>] show ?thesis
      by (cases "a = dup") (auto simp: less_imp_le)
  qed
qed

lemma cursor_deliver: "ok s \<Longrightarrow> cursor s \<le> cursor (deliver reduce s es)"
proof (induction es arbitrary: s)
  case (Cons e es)
  from Cons.IH [OF ok_reduce [OF Cons.prems]] cursor_reduce [OF Cons.prems] show ?case
    by (auto intro: order_trans)
qed simp

lemma applied_Cons:
  "applied reduce dup s (e # es) =
     (if \<exists>a. snd (reduce s e) = Inr a \<and> a \<noteq> dup then [e] else []) @
     applied reduce dup (fst (reduce s e)) es"
  by (auto simp: split_beta split: sum.splits)

lemma applied_ascending:
  "ok s \<Longrightarrow> sorted_wrt (<) (cursor s # map position (applied reduce dup s es))"
proof (induction es arbitrary: s)
  case (Cons e es)
  obtain s' r where red: "reduce s e = (s', r)" by (cases "reduce s e")
  have "ok s'" using ok_reduce [OF Cons.prems, of e] red by simp
  note IH = Cons.IH [OF this] and mono = cursor_reduce [OF Cons.prems, of e]
  show ?case
  proof (cases "\<exists>a. r = Inr a \<and> a \<noteq> dup")
    case True
    then obtain a where "r = Inr a" "a \<noteq> dup" by blast
    with accepted [OF Cons.prems] red have "cursor s < position e" "cursor s' = position e" by auto
    with IH True red show ?thesis by (auto simp: applied_Cons simp del: applied.simps)
  next
    case False
    with IH red mono show ?thesis
      by (auto simp: applied_Cons simp del: applied.simps intro: le_less_trans)
  qed
qed simp

lemma applied_once: "ok s \<Longrightarrow> distinct (map position (applied reduce dup s es))"
  using applied_ascending by (auto simp: strict_sorted_iff)

lemma deliver_repeats: "ok s \<Longrightarrow> deliver reduce s (remdups_adj es) = deliver reduce s es"
proof (induction es arbitrary: s rule: remdups_adj.induct)
  case (3 x y xs)
  show ?case
  proof (cases "x = y")
    case True
    with 3 repeated [OF 3(3), of y] show ?thesis by simp
  next
    case False
    with 3(2) [OF False ok_reduce [OF 3(3), of x]] show ?thesis by simp
  qed
qed auto

lemma not_degraded_chain:
  "ok s \<Longrightarrow> \<not> degraded (deliver reduce s es) \<Longrightarrow>
     chain follows (cursor s) (map position (applied reduce dup s es)) \<and>
     cursor (deliver reduce s es) = last (cursor s # map position (applied reduce dup s es))"
proof (induction es arbitrary: s)
  case (Cons e es)
  obtain s' r where red: "reduce s e = (s', r)" by (cases "reduce s e")
  have "ok s'" using ok_reduce [OF Cons.prems(1), of e] red by simp
  moreover have "\<not> degraded (deliver reduce s' es)" using Cons.prems(2) red by simp
  ultimately have IH: "chain follows (cursor s') (map position (applied reduce dup s' es)) \<and>
      cursor (deliver reduce s' es) = last (cursor s' # map position (applied reduce dup s' es))"
    and clean: "\<not> degraded s'"
    using Cons.IH degraded_deliver by blast+
  show ?case
  proof (cases "\<exists>a. r = Inr a \<and> a \<noteq> dup")
    case True
    then obtain a where a: "r = Inr a" "a \<noteq> dup" by blast
    with accepted [OF Cons.prems(1)] no_gap [OF Cons.prems(1)] red clean
    have "follows (cursor s) (position e)" "cursor s' = position e" by auto
    with IH True red show ?thesis by (simp add: applied_Cons del: applied.simps)
  next
    case False
    then have "cursor s' = cursor s"
      using rejected [OF Cons.prems(1), of e s'] duplicate [OF Cons.prems(1), of e s'] red
      by (cases r) auto
    with IH False red show ?thesis by (auto simp: applied_Cons simp del: applied.simps)
  qed
qed simp

end

end
