(* ===== verification/Reducers.thy ===== *)
theory Reducers
  imports Orchestration Projection
begin

text \<open>
  The two reducers, \<open>crates/executors/src/runtime/reducer.rs\<close> and \<open>orchestration_reducer.rs\<close>. Each
  takes a mutable state and returns a result; here it returns the state and the result. Both are
  interpretations of the locale \<open>event_projection\<close>: the cursor of an agent run is the pair of
  attempt number and sequence, compared lexicographically; that of an orchestration run is the sequence.
\<close>

section \<open>Agent runs\<close>

datatype ReducerApply = RApplied | RAppliedDegraded | RDuplicate | RIgnoredTerminalRegression

datatype ReducerError =
  REventVersion ContractVersionError
| RIdentityMismatch
| RRunAttemptConflict
| RInvalidStreamPosition
| RSequenceConflict u64 u64
| RUnsupportedStateSchema u16
| RUnsupportedReducerVersion u16

definition validate_run_state :: "'v RunState \<Rightarrow> ReducerError + unit" where
  "validate_run_state s =
     (if st_state_schema_version s \<noteq> RUN_STATE_SCHEMA_VERSION
      then Inl (RUnsupportedStateSchema (st_state_schema_version s))
      else if st_reducer_version s \<noteq> RUN_STATE_REDUCER_VERSION
      then Inl (RUnsupportedReducerVersion (st_reducer_version s))
      else Inr ())"

definition degrade_run :: "'v RunState \<Rightarrow> 'v RunState" where
  "degrade_run s = s\<lparr>st_projection_status := ProjDegraded\<rparr>"

definition is_new_attempt :: "'v RunState \<Rightarrow> 'v AgentEventEnvelope \<Rightarrow> ReducerError + bool" where
  "is_new_attempt s e =
     (case st_last_run_attempt_id s of
        None \<Rightarrow> Inr True
      | Some last_attempt_id \<Rightarrow>
          if ae_run_attempt_number e < st_last_run_attempt_number s then Inl RRunAttemptConflict
          else if ae_run_attempt_number e = st_last_run_attempt_number s
          then (if ae_run_attempt_id e \<noteq> last_attempt_id then Inl RRunAttemptConflict else Inr False)
          else Inr True)"

definition apply_agent_payload ::
  "bool \<Rightarrow> 'v RunState \<Rightarrow> 'v AgentEventPayload \<Rightarrow> 'v RunState \<times> ReducerApply" where
  "apply_agent_payload is_new s p =
     (case p of
        AELifecycleChanged status \<Rightarrow>
          if \<not> is_new \<and> agent_terminal (st_status s) then (s, RIgnoredTerminalRegression)
          else (s\<lparr>st_status := status\<rparr>, RApplied)
      | AESessionObserved provider_session \<Rightarrow> (s\<lparr>st_provider_session := Some provider_session\<rparr>, RApplied)
      | AEMessage message final_output \<Rightarrow>
          (if final_output then s\<lparr>st_terminal_output := Some message\<rparr> else s, RApplied)
      | AEError error \<Rightarrow> (s\<lparr>st_last_error := Some error\<rparr>, RApplied)
      | AEProjectionDegraded _ \<Rightarrow> (degrade_run s, RAppliedDegraded)
      | AEUnknown _ _ \<Rightarrow>
          (degrade_run (s\<lparr>st_unknown_event_count := st_unknown_event_count s + 1\<rparr>), RAppliedDegraded)
      | _ \<Rightarrow> (s, RApplied))"

definition agent_had_gap :: "bool \<Rightarrow> 'v RunState \<Rightarrow> 'v AgentEventEnvelope \<Rightarrow> bool" where
  "agent_had_gap is_new s e =
     (if is_new
      then ae_sequence e \<noteq> 1 \<or>
           (st_last_run_attempt_number s \<noteq> 0 \<and>
            ae_run_attempt_number e \<noteq> st_last_run_attempt_number s + 1)
      else ae_sequence e \<noteq> st_last_event_sequence s + 1)"

definition commit_agent_event ::
  "bool \<Rightarrow> 'v RunState \<Rightarrow> 'v AgentEventEnvelope \<Rightarrow> 'v RunState \<times> ReducerApply" where
  "commit_agent_event is_new s e =
     (let had_gap = agent_had_gap is_new s e;
          s1 = (if had_gap then degrade_run s else s);
          s2 = (if is_new then s1\<lparr>st_terminal_output := None, st_last_error := None\<rparr> else s1);
          (s3, apply) = apply_agent_payload is_new s2 (ae_payload e);
          s4 = s3\<lparr>st_last_run_attempt_id := Some (ae_run_attempt_id e),
                  st_last_run_attempt_number := ae_run_attempt_number e,
                  st_last_event_sequence := ae_sequence e,
                  st_last_event_id := Some (ae_event_id e),
                  st_updated_at := ae_timestamp e\<rparr>
      in (s4, if had_gap \<or> st_projection_status s4 = ProjDegraded
              then (case apply of
                      RDuplicate \<Rightarrow> RDuplicate
                    | RIgnoredTerminalRegression \<Rightarrow> RIgnoredTerminalRegression
                    | _ \<Rightarrow> RAppliedDegraded)
              else apply))"

definition reduce_agent_event ::
  "'v RunState \<Rightarrow> 'v AgentEventEnvelope \<Rightarrow> 'v RunState \<times> (ReducerError + ReducerApply)" where
  "reduce_agent_event s e =
     (case validate_run_state s of
        Inl err \<Rightarrow> (s, Inl err)
      | Inr _ \<Rightarrow>
     (case agent_validate_for_projection e of
        Inl err \<Rightarrow> (degrade_run s, Inl (REventVersion err))
      | Inr _ \<Rightarrow>
     (if st_session_id s \<noteq> ae_session_id e \<or> st_agent_run_id s \<noteq> ae_agent_run_id e \<or>
         st_turn_id s \<noteq> ae_turn_id e
      then (s, Inl RIdentityMismatch)
      else if ae_run_attempt_number e = 0 \<or> ae_sequence e = 0
      then (degrade_run s, Inl RInvalidStreamPosition)
      else case is_new_attempt s e of
             Inl err \<Rightarrow> (degrade_run s, Inl err)
           | Inr is_new \<Rightarrow>
               if \<not> is_new \<and> ae_sequence e \<le> st_last_event_sequence s
               then (if ae_sequence e = st_last_event_sequence s \<and>
                        st_last_event_id s = Some (ae_event_id e)
                     then (s, Inr RDuplicate)
                     else (degrade_run s,
                           Inl (RSequenceConflict (ae_sequence e) (st_last_event_sequence s))))
               else (let (s', apply) = commit_agent_event is_new s e in (s', Inr apply)))))"

section \<open>Orchestration runs\<close>

datatype OrchestrationReducerApply =
  OApplied | OAppliedDegraded | ODuplicate | OIgnoredTerminalRegression

datatype OrchestrationReducerError =
  OEventVersion ContractVersionError
| OIdentityMismatch
| OInvalidStreamPosition
| OSequenceConflict u64 u64
| OUnsupportedStateSchema u16
| OUnsupportedReducerVersion u16

definition validate_projected_state :: "OrchestrationState \<Rightarrow> OrchestrationReducerError + unit" where
  "validate_projected_state s =
     (if os_state_schema_version s \<noteq> ORCHESTRATION_STATE_SCHEMA_VERSION
      then Inl (OUnsupportedStateSchema (os_state_schema_version s))
      else if os_reducer_version s \<noteq> ORCHESTRATION_REDUCER_VERSION
      then Inl (OUnsupportedReducerVersion (os_reducer_version s))
      else Inr ())"

definition degrade_orchestration :: "OrchestrationState \<Rightarrow> OrchestrationState" where
  "degrade_orchestration s = s\<lparr>os_projection_status := ProjDegraded\<rparr>"

definition apply_orchestration_payload ::
  "OrchestrationState \<Rightarrow> 'v OrchestrationEventPayload \<Rightarrow> OrchestrationState \<times> OrchestrationReducerApply" where
  "apply_orchestration_payload s p =
     (case p of
        OELifecycleChanged status \<Rightarrow>
          if orchestration_terminal (os_status s) \<and> \<not> orchestration_terminal status
          then (s, OIgnoredTerminalRegression)
          else (s\<lparr>os_status := status\<rparr>, OApplied)
      | OEProjectionDegraded _ \<Rightarrow> (degrade_orchestration s, OAppliedDegraded)
      | OEUnknown _ _ \<Rightarrow>
          (degrade_orchestration (s\<lparr>os_unknown_event_count := os_unknown_event_count s + 1\<rparr>),
           OAppliedDegraded)
      | _ \<Rightarrow> (s, OApplied))"

definition commit_orchestration_event ::
  "OrchestrationState \<Rightarrow> 'v OrchestrationEventEnvelope \<Rightarrow> OrchestrationState \<times> OrchestrationReducerApply" where
  "commit_orchestration_event s e =
     (let had_gap = (oe_sequence e \<noteq> os_last_event_sequence s + 1);
          s1 = (if had_gap then degrade_orchestration s else s);
          (s2, apply) = apply_orchestration_payload s1 (oe_payload e);
          s3 = s2\<lparr>os_last_event_sequence := oe_sequence e, os_last_event_id := Some (oe_event_id e),
                  os_updated_at := oe_timestamp e\<rparr>
      in (s3, if had_gap \<or> os_projection_status s3 = ProjDegraded
              then (case apply of
                      ODuplicate \<Rightarrow> ODuplicate
                    | OIgnoredTerminalRegression \<Rightarrow> OIgnoredTerminalRegression
                    | _ \<Rightarrow> OAppliedDegraded)
              else apply))"

definition reduce_orchestration_event ::
  "OrchestrationState \<Rightarrow> 'v OrchestrationEventEnvelope \<Rightarrow>
   OrchestrationState \<times> (OrchestrationReducerError + OrchestrationReducerApply)" where
  "reduce_orchestration_event s e =
     (case validate_projected_state s of
        Inl err \<Rightarrow> (s, Inl err)
      | Inr _ \<Rightarrow>
     (case orchestration_validate_for_projection e of
        Inl err \<Rightarrow> (degrade_orchestration s, Inl (OEventVersion err))
      | Inr _ \<Rightarrow>
     (if os_orchestration_run_id s \<noteq> oe_orchestration_run_id e then (s, Inl OIdentityMismatch)
      else if oe_sequence e = 0 then (degrade_orchestration s, Inl OInvalidStreamPosition)
      else if oe_sequence e \<le> os_last_event_sequence s
      then (if oe_sequence e = os_last_event_sequence s \<and> os_last_event_id s = Some (oe_event_id e)
            then (s, Inr ODuplicate)
            else (degrade_orchestration s,
                  Inl (OSequenceConflict (oe_sequence e) (os_last_event_sequence s))))
      else (let (s', apply) = commit_orchestration_event s e in (s', Inr apply)))))"

section \<open>The laws of the agent reducer\<close>

definition run_ok :: "'v RunState \<Rightarrow> bool" where
  "run_ok s \<longleftrightarrow>
     (st_last_run_attempt_id s = None \<longrightarrow> st_last_run_attempt_number s = 0 \<and> st_last_event_sequence s = 0)"

definition run_cursor :: "'v RunState \<Rightarrow> u32 \<times> u64" where
  "run_cursor s = (st_last_run_attempt_number s, st_last_event_sequence s)"

definition agent_position :: "'v AgentEventEnvelope \<Rightarrow> u32 \<times> u64" where
  "agent_position e = (ae_run_attempt_number e, ae_sequence e)"

definition agent_follows :: "u32 \<times> u64 \<Rightarrow> u32 \<times> u64 \<Rightarrow> bool" where
  "agent_follows p q \<longleftrightarrow>
     (fst q = fst p \<and> snd q = snd p + 1) \<or> (snd q = 1 \<and> (fst p = 0 \<or> fst q = fst p + 1))"

definition run_degraded :: "'v RunState \<Rightarrow> bool" where
  "run_degraded s \<longleftrightarrow> st_projection_status s = ProjDegraded"

text \<open>What a committed payload leaves alone.\<close>

lemma apply_agent_payload_keeps:
  assumes "apply_agent_payload n s p = (s', a)"
  shows "st_state_schema_version s' = st_state_schema_version s"
    "st_reducer_version s' = st_reducer_version s"
    "st_session_id s' = st_session_id s" "st_agent_run_id s' = st_agent_run_id s"
    "st_turn_id s' = st_turn_id s" "run_degraded s \<Longrightarrow> run_degraded s'" "a \<noteq> RDuplicate"
  using assms
  by (auto simp: apply_agent_payload_def degrade_run_def run_degraded_def
      split: AgentEventPayload.splits if_splits)

lemma commit_agent_event_facts:
  assumes "commit_agent_event n s e = (s', a)"
  shows "st_state_schema_version s' = st_state_schema_version s"
    "st_reducer_version s' = st_reducer_version s"
    "st_session_id s' = st_session_id s" "st_agent_run_id s' = st_agent_run_id s"
    "st_turn_id s' = st_turn_id s" "a \<noteq> RDuplicate"
    "st_last_run_attempt_id s' = Some (ae_run_attempt_id e)"
    "st_last_run_attempt_number s' = ae_run_attempt_number e"
    "st_last_event_sequence s' = ae_sequence e" "st_last_event_id s' = Some (ae_event_id e)"
    "run_degraded s \<or> agent_had_gap n s e \<Longrightarrow> run_degraded s'"
proof -
  define s1 where "s1 = (if agent_had_gap n s e then degrade_run s else s)"
  define s2 where "s2 = (if n then s1\<lparr>st_terminal_output := None, st_last_error := None\<rparr> else s1)"
  obtain s3 b where s3: "apply_agent_payload n s2 (ae_payload e) = (s3, b)"
    by (cases "apply_agent_payload n s2 (ae_payload e)")
  note keeps = apply_agent_payload_keeps [OF s3]
  have s': "s' = s3\<lparr>st_last_run_attempt_id := Some (ae_run_attempt_id e),
      st_last_run_attempt_number := ae_run_attempt_number e, st_last_event_sequence := ae_sequence e,
      st_last_event_id := Some (ae_event_id e), st_updated_at := ae_timestamp e\<rparr>"
    and a: "a = (if agent_had_gap n s e \<or> st_projection_status s' = ProjDegraded
      then (case b of RDuplicate \<Rightarrow> RDuplicate
            | RIgnoredTerminalRegression \<Rightarrow> RIgnoredTerminalRegression | _ \<Rightarrow> RAppliedDegraded) else b)"
    using assms s3 unfolding commit_agent_event_def Let_def s1_def [symmetric] s2_def [symmetric]
    by auto
  have same: "st_state_schema_version s2 = st_state_schema_version s"
      "st_reducer_version s2 = st_reducer_version s" "st_session_id s2 = st_session_id s"
      "st_agent_run_id s2 = st_agent_run_id s" "st_turn_id s2 = st_turn_id s"
      "run_degraded s \<or> agent_had_gap n s e \<Longrightarrow> run_degraded s2"
    by (cases n; auto simp: s1_def s2_def degrade_run_def run_degraded_def)+
  show "st_state_schema_version s' = st_state_schema_version s"
    "st_reducer_version s' = st_reducer_version s"
    "st_session_id s' = st_session_id s" "st_agent_run_id s' = st_agent_run_id s"
    "st_turn_id s' = st_turn_id s" "st_last_run_attempt_id s' = Some (ae_run_attempt_id e)"
    "st_last_run_attempt_number s' = ae_run_attempt_number e"
    "st_last_event_sequence s' = ae_sequence e" "st_last_event_id s' = Some (ae_event_id e)"
    using keeps same by (simp_all add: s')
  show "run_degraded s \<or> agent_had_gap n s e \<Longrightarrow> run_degraded s'"
    using keeps(6) same(6) by (simp add: s' run_degraded_def)
  show "a \<noteq> RDuplicate" using keeps(7) by (auto simp: a split: ReducerApply.splits)
qed

lemma degrade_run_simps [simp]:
  "validate_run_state (degrade_run s) = validate_run_state s"
  "is_new_attempt (degrade_run s) e = is_new_attempt s e"
  "run_cursor (degrade_run s) = run_cursor s" "run_ok (degrade_run s) = run_ok s"
  "run_degraded (degrade_run s)" "degrade_run (degrade_run s) = degrade_run s"
  by (simp_all add: degrade_run_def validate_run_state_def is_new_attempt_def run_cursor_def
      run_ok_def run_degraded_def split: option.split)

definition agent_admitted :: "'v RunState \<Rightarrow> 'v AgentEventEnvelope \<Rightarrow> bool" where
  "agent_admitted s e \<longleftrightarrow>
     validate_run_state s = Inr () \<and> agent_validate_for_projection e = Inr () \<and>
     st_session_id s = ae_session_id e \<and> st_agent_run_id s = ae_agent_run_id e \<and>
     st_turn_id s = ae_turn_id e \<and> ae_run_attempt_number e \<noteq> 0 \<and> ae_sequence e \<noteq> 0"

lemma degrade_run_ids [simp]:
  "st_session_id (degrade_run s) = st_session_id s" "st_agent_run_id (degrade_run s) = st_agent_run_id s"
  "st_turn_id (degrade_run s) = st_turn_id s"
  "st_last_event_sequence (degrade_run s) = st_last_event_sequence s"
  "st_last_event_id (degrade_run s) = st_last_event_id s"
  by (simp_all add: degrade_run_def)

text \<open>A rejected event leaves the state alone or marks it degraded, and is rejected again.\<close>

definition agent_rejects :: "'v RunState \<Rightarrow> 'v AgentEventEnvelope \<Rightarrow> 'v RunState \<Rightarrow> bool" where
  "agent_rejects s e s' \<longleftrightarrow> (s' = s \<or> s' = degrade_run s) \<and> fst (reduce_agent_event s' e) = s'"

lemma reduce_agent_not_admitted:
  assumes "\<not> agent_admitted s e"
  shows "\<exists>err s'. reduce_agent_event s e = (s', Inl err) \<and> agent_rejects s e s'"
proof (cases "validate_run_state s")
  case (Inl err)
  then show ?thesis by (simp add: reduce_agent_event_def agent_rejects_def)
next
  case v: (Inr u)
  show ?thesis
  proof (cases "agent_validate_for_projection e")
    case (Inl err)
    with v show ?thesis by (simp add: reduce_agent_event_def agent_rejects_def)
  next
    case (Inr u)
    with v assms show ?thesis
      by (cases "st_session_id s \<noteq> ae_session_id e \<or> st_agent_run_id s \<noteq> ae_agent_run_id e \<or>
          st_turn_id s \<noteq> ae_turn_id e")
         (auto simp: reduce_agent_event_def agent_rejects_def agent_admitted_def)
  qed
qed

lemma reduce_agent_admitted:
  assumes "agent_admitted s e"
  shows "reduce_agent_event s e =
    (case is_new_attempt s e of
       Inl err \<Rightarrow> (degrade_run s, Inl err)
     | Inr n \<Rightarrow>
         if \<not> n \<and> ae_sequence e \<le> st_last_event_sequence s
         then (if ae_sequence e = st_last_event_sequence s \<and> st_last_event_id s = Some (ae_event_id e)
               then (s, Inr RDuplicate)
               else (degrade_run s, Inl (RSequenceConflict (ae_sequence e) (st_last_event_sequence s))))
         else (fst (commit_agent_event n s e), Inr (snd (commit_agent_event n s e))))"
  using assms by (cases "is_new_attempt s e")
    (simp_all add: reduce_agent_event_def agent_admitted_def split_beta Let_def)

lemma agent_admitted_degrade [simp]: "agent_admitted (degrade_run s) e = agent_admitted s e"
  by (simp add: agent_admitted_def)

lemma reduce_agent_outcome:
  assumes "reduce_agent_event s e = (s', r)"
  shows "(\<exists>err. r = Inl err \<and> agent_rejects s e s') \<or>
    (r = Inr RDuplicate \<and> s' = s \<and> agent_admitted s e \<and> is_new_attempt s e = Inr False \<and>
     ae_sequence e = st_last_event_sequence s) \<or>
    (\<exists>n a. r = Inr a \<and> agent_admitted s e \<and> is_new_attempt s e = Inr n \<and>
       (n \<or> st_last_event_sequence s < ae_sequence e) \<and> commit_agent_event n s e = (s', a))"
proof (cases "agent_admitted s e")
  case False
  with reduce_agent_not_admitted [OF False] assms show ?thesis by auto
next
  case True
  show ?thesis
  proof (cases "is_new_attempt s e")
    case (Inl err)
    with True assms show ?thesis
      by (auto simp: reduce_agent_admitted agent_rejects_def)
  next
    case (Inr n)
    show ?thesis
    proof (cases "\<not> n \<and> ae_sequence e \<le> st_last_event_sequence s")
      case old: True
      then show ?thesis using True Inr assms
        by (cases "ae_sequence e = st_last_event_sequence s \<and> st_last_event_id s = Some (ae_event_id e)")
           (auto simp: reduce_agent_admitted agent_rejects_def)
    next
      case False
      then show ?thesis using True Inr assms
        by (auto simp: reduce_agent_admitted prod_eq_iff)
    qed
  qed
qed

lemma agent_redelivered:
  assumes "agent_admitted s e" "commit_agent_event n s e = (s', a)"
  shows "reduce_agent_event s' e = (s', Inr RDuplicate)"
proof -
  note f = commit_agent_event_facts [OF assms(2)]
  have "validate_run_state s' = Inr ()"
    using assms(1) f(1,2) by (auto simp: agent_admitted_def validate_run_state_def split: if_splits)
  moreover have "is_new_attempt s' e = Inr False" using f by (simp add: is_new_attempt_def)
  ultimately show ?thesis
    using assms(1) f unfolding reduce_agent_event_def agent_admitted_def by simp
qed

lemma run_cursor_less:
  assumes "run_ok s" "is_new_attempt s e = Inr n" "n \<or> st_last_event_sequence s < ae_sequence e"
    and "ae_run_attempt_number e \<noteq> 0"
  shows "run_cursor s < agent_position e"
    and "\<not> agent_had_gap n s e \<Longrightarrow> agent_follows (run_cursor s) (agent_position e)"
proof -
  show "run_cursor s < agent_position e"
    using assms by (auto simp: is_new_attempt_def run_cursor_def agent_position_def run_ok_def less_prod_def
        word_gt_0 split: option.splits if_splits)
  show "\<not> agent_had_gap n s e \<Longrightarrow> agent_follows (run_cursor s) (agent_position e)"
    using assms by (auto simp: is_new_attempt_def agent_had_gap_def run_cursor_def agent_position_def
        agent_follows_def split: option.splits if_splits)
qed

lemma agent_rejects_keeps:
  assumes "agent_rejects s e s'"
  shows "run_cursor s' = run_cursor s" "run_ok s' = run_ok s" "run_degraded s \<Longrightarrow> run_degraded s'"
    "fst (reduce_agent_event s' e) = s'"
  using assms by (auto simp: agent_rejects_def)

interpretation agent: event_projection
  reduce_agent_event run_ok run_cursor agent_position agent_follows run_degraded RDuplicate
proof
  fix s :: "'a RunState" and e s' a err
  obtain t r where red: "reduce_agent_event s e = (t, r)" by (cases "reduce_agent_event s e")
  consider (rejected) "agent_rejects s e t" | (duplicate) "t = s"
    | (committed) n b where "agent_admitted s e" "commit_agent_event n s e = (t, b)"
    using reduce_agent_outcome [OF red] by blast
  note outcome = this
  show "run_degraded (fst (reduce_agent_event s e))" if "run_degraded s"
    using that red by (cases rule: outcome)
      (auto simp: agent_rejects_keeps(3) commit_agent_event_facts(11))
  assume ok: "run_ok s"
  show "run_ok (fst (reduce_agent_event s e))"
  proof (cases rule: outcome)
    case (committed n b)
    from commit_agent_event_facts [OF this(2)] red show ?thesis by (simp add: run_ok_def)
  qed (use ok red agent_rejects_keeps(2) in auto)
  show "fst (reduce_agent_event (fst (reduce_agent_event s e)) e) = fst (reduce_agent_event s e)"
  proof (cases rule: outcome)
    case (committed n b)
    from agent_redelivered [OF this] red show ?thesis by simp
  qed (use red agent_rejects_keeps(4) in auto)
  show "run_cursor s' = run_cursor s" if "reduce_agent_event s e = (s', Inl err)"
    using reduce_agent_outcome [OF that] by (auto simp: agent_rejects_keeps)
  show "s' = s \<and> agent_position e = run_cursor s" if "reduce_agent_event s e = (s', Inr RDuplicate)"
  proof -
    have "s' = s" "is_new_attempt s e = Inr False" "ae_sequence e = st_last_event_sequence s"
      using reduce_agent_outcome [OF that] commit_agent_event_facts(6) by blast+
    then show ?thesis
      by (auto simp: agent_position_def run_cursor_def is_new_attempt_def split: option.splits if_splits)
  qed
  show "reduce_agent_event s' e = (s', Inr RDuplicate)" if "reduce_agent_event s e = (s', Inr a)"
    using reduce_agent_outcome [OF that] agent_redelivered that by auto
  assume red: "reduce_agent_event s e = (s', Inr a)" and "a \<noteq> RDuplicate"
  with reduce_agent_outcome [OF red] obtain n where adm: "agent_admitted s e"
      and n: "is_new_attempt s e = Inr n" "n \<or> st_last_event_sequence s < ae_sequence e"
      and com: "commit_agent_event n s e = (s', a)"
    by auto
  from adm have nz: "ae_run_attempt_number e \<noteq> 0" by (simp add: agent_admitted_def)
  note f = commit_agent_event_facts [OF com]
  show "run_cursor s < agent_position e \<and> run_cursor s' = agent_position e"
    using run_cursor_less(1) [OF ok n nz] f by (simp add: run_cursor_def agent_position_def)
  show "agent_follows (run_cursor s) (agent_position e)" if "\<not> run_degraded s'"
    using run_cursor_less(2) [OF ok n nz] f(11) that by blast
qed

section \<open>The laws of the orchestration reducer\<close>

definition orchestration_degraded :: "OrchestrationState \<Rightarrow> bool" where
  "orchestration_degraded s \<longleftrightarrow> os_projection_status s = ProjDegraded"

lemma degrade_orchestration_simps [simp]:
  "validate_projected_state (degrade_orchestration s) = validate_projected_state s"
  "os_orchestration_run_id (degrade_orchestration s) = os_orchestration_run_id s"
  "os_last_event_sequence (degrade_orchestration s) = os_last_event_sequence s"
  "os_last_event_id (degrade_orchestration s) = os_last_event_id s"
  "os_status (degrade_orchestration s) = os_status s"
  "orchestration_degraded (degrade_orchestration s)"
  "degrade_orchestration (degrade_orchestration s) = degrade_orchestration s"
  by (simp_all add: degrade_orchestration_def validate_projected_state_def orchestration_degraded_def)

lemma apply_orchestration_payload_keeps:
  assumes "apply_orchestration_payload s p = (s', a)"
  shows "validate_projected_state s' = validate_projected_state s" "os_orchestration_run_id s' = os_orchestration_run_id s"
    "a \<noteq> ODuplicate" "orchestration_degraded s \<Longrightarrow> orchestration_degraded s'"
    "orchestration_terminal (os_status s) \<Longrightarrow> orchestration_terminal (os_status s')"
  using assms by (cases p; auto simp: apply_orchestration_payload_def degrade_orchestration_def orchestration_degraded_def
      validate_projected_state_def split: if_splits)+

lemma commit_orchestration_event_facts:
  assumes "commit_orchestration_event s e = (s', a)"
  shows "validate_projected_state s' = validate_projected_state s"
    "os_orchestration_run_id s' = os_orchestration_run_id s" "a \<noteq> ODuplicate"
    "os_last_event_sequence s' = oe_sequence e" "os_last_event_id s' = Some (oe_event_id e)"
    "orchestration_degraded s \<or> oe_sequence e \<noteq> os_last_event_sequence s + 1 \<Longrightarrow> orchestration_degraded s'"
    "orchestration_terminal (os_status s) \<Longrightarrow> orchestration_terminal (os_status s')"
proof -
  define s1 where "s1 = (if oe_sequence e \<noteq> os_last_event_sequence s + 1 then degrade_orchestration s else s)"
  obtain s2 b where s2: "apply_orchestration_payload s1 (oe_payload e) = (s2, b)"
    by (cases "apply_orchestration_payload s1 (oe_payload e)")
  note keeps = apply_orchestration_payload_keeps [OF s2]
  have s': "s' = s2\<lparr>os_last_event_sequence := oe_sequence e, os_last_event_id := Some (oe_event_id e), os_updated_at := oe_timestamp e\<rparr>"
    and a: "a = (if oe_sequence e \<noteq> os_last_event_sequence s + 1 \<or> os_projection_status s' = ProjDegraded
      then (case b of ODuplicate \<Rightarrow> ODuplicate
            | OIgnoredTerminalRegression \<Rightarrow> OIgnoredTerminalRegression | _ \<Rightarrow> OAppliedDegraded) else b)"
    using assms s2 unfolding commit_orchestration_event_def Let_def s1_def [symmetric] by auto
  have same: "validate_projected_state s1 = validate_projected_state s" "os_orchestration_run_id s1 = os_orchestration_run_id s"
      "os_status s1 = os_status s"
      "orchestration_degraded s \<or> oe_sequence e \<noteq> os_last_event_sequence s + 1 \<Longrightarrow> orchestration_degraded s1"
    by (auto simp: s1_def degrade_orchestration_def orchestration_degraded_def validate_projected_state_def)
  have "validate_projected_state s' = validate_projected_state s2" by (simp add: s' validate_projected_state_def)
  with keeps(1) same(1) show "validate_projected_state s' = validate_projected_state s" by simp
  show "os_orchestration_run_id s' = os_orchestration_run_id s" "os_last_event_sequence s' = oe_sequence e"
    "os_last_event_id s' = Some (oe_event_id e)" using keeps(2) same(2) by (simp_all add: s')
  show "orchestration_degraded s \<or> oe_sequence e \<noteq> os_last_event_sequence s + 1 \<Longrightarrow> orchestration_degraded s'"
    using keeps(4) same(4) by (simp add: s' orchestration_degraded_def)
  show "orchestration_terminal (os_status s) \<Longrightarrow> orchestration_terminal (os_status s')"
    using keeps(5) same(3) by (simp add: s')
  show "a \<noteq> ODuplicate" using keeps(3) by (auto simp: a split: OrchestrationReducerApply.splits)
qed

definition orchestration_admitted :: "OrchestrationState \<Rightarrow> 'v OrchestrationEventEnvelope \<Rightarrow> bool" where
  "orchestration_admitted s e \<longleftrightarrow>
     validate_projected_state s = Inr () \<and> orchestration_validate_for_projection e = Inr () \<and>
     os_orchestration_run_id s = oe_orchestration_run_id e \<and> oe_sequence e \<noteq> 0"

definition orchestration_rejects ::
  "OrchestrationState \<Rightarrow> 'v OrchestrationEventEnvelope \<Rightarrow> OrchestrationState \<Rightarrow> bool" where
  "orchestration_rejects s e s' \<longleftrightarrow>
     (s' = s \<or> s' = degrade_orchestration s) \<and> fst (reduce_orchestration_event s' e) = s'"

lemma reduce_orchestration_not_admitted:
  assumes "\<not> orchestration_admitted s e"
  shows "\<exists>err s'. reduce_orchestration_event s e = (s', Inl err) \<and> orchestration_rejects s e s'"
proof (cases "validate_projected_state s")
  case (Inl err)
  then show ?thesis by (simp add: reduce_orchestration_event_def orchestration_rejects_def)
next
  case v: (Inr u)
  show ?thesis
  proof (cases "orchestration_validate_for_projection e")
    case (Inl err)
    with v show ?thesis by (simp add: reduce_orchestration_event_def orchestration_rejects_def)
  next
    case (Inr u)
    with v assms show ?thesis
      by (auto simp: reduce_orchestration_event_def orchestration_rejects_def orchestration_admitted_def)
  qed
qed

lemma reduce_orchestration_admitted:
  assumes "orchestration_admitted s e"
  shows "reduce_orchestration_event s e =
    (if oe_sequence e \<le> os_last_event_sequence s
     then (if oe_sequence e = os_last_event_sequence s \<and> os_last_event_id s = Some (oe_event_id e)
           then (s, Inr ODuplicate)
           else (degrade_orchestration s,
                 Inl (OSequenceConflict (oe_sequence e) (os_last_event_sequence s))))
     else (fst (commit_orchestration_event s e), Inr (snd (commit_orchestration_event s e))))"
  using assms by (simp add: reduce_orchestration_event_def orchestration_admitted_def split_beta Let_def)

lemma orchestration_admitted_degrade [simp]:
  "orchestration_admitted (degrade_orchestration s) e = orchestration_admitted s e"
  by (simp add: orchestration_admitted_def)

lemma reduce_orchestration_outcome:
  assumes "reduce_orchestration_event s e = (s', r)"
  shows "(\<exists>err. r = Inl err \<and> orchestration_rejects s e s') \<or>
    (r = Inr ODuplicate \<and> s' = s \<and> oe_sequence e = os_last_event_sequence s) \<or>
    (\<exists>a. r = Inr a \<and> orchestration_admitted s e \<and> os_last_event_sequence s < oe_sequence e \<and>
       commit_orchestration_event s e = (s', a))"
proof (cases "orchestration_admitted s e")
  case False
  with reduce_orchestration_not_admitted [OF False] assms show ?thesis by auto
next
  case True
  show ?thesis
  proof (cases "oe_sequence e \<le> os_last_event_sequence s")
    case old: True
    then show ?thesis using True assms
      by (cases "oe_sequence e = os_last_event_sequence s \<and> os_last_event_id s = Some (oe_event_id e)")
         (auto simp: reduce_orchestration_admitted orchestration_rejects_def)
  next
    case False
    then show ?thesis using True assms by (auto simp: reduce_orchestration_admitted prod_eq_iff)
  qed
qed

lemma orchestration_redelivered:
  assumes "orchestration_admitted s e" "commit_orchestration_event s e = (s', a)"
  shows "reduce_orchestration_event s' e = (s', Inr ODuplicate)"
  using assms(1) commit_orchestration_event_facts [OF assms(2)]
  by (simp add: reduce_orchestration_event_def orchestration_admitted_def)

interpretation orchestration: event_projection
  reduce_orchestration_event "\<lambda>_. True" os_last_event_sequence oe_sequence "\<lambda>p q. q = p + 1"
  orchestration_degraded ODuplicate
proof
  fix s s' :: OrchestrationState and e :: "'a OrchestrationEventEnvelope" and a err
  obtain t r where red: "reduce_orchestration_event s e = (t, r)"
    by (cases "reduce_orchestration_event s e")
  consider (rejected) "orchestration_rejects s e t" | (duplicate) "t = s"
    | (committed) b where "orchestration_admitted s e" "commit_orchestration_event s e = (t, b)"
    using reduce_orchestration_outcome [OF red] by blast
  note outcome = this
  show True ..
  show "orchestration_degraded (fst (reduce_orchestration_event s e))" if "orchestration_degraded s"
    using that red by (cases rule: outcome)
      (auto simp: orchestration_rejects_def commit_orchestration_event_facts(6))
  show "fst (reduce_orchestration_event (fst (reduce_orchestration_event s e)) e) =
      fst (reduce_orchestration_event s e)"
  proof (cases rule: outcome)
    case (committed b)
    from orchestration_redelivered [OF this] red show ?thesis by simp
  qed (use red in \<open>auto simp: orchestration_rejects_def\<close>)
  show "os_last_event_sequence s' = os_last_event_sequence s"
    if "reduce_orchestration_event s e = (s', Inl err)"
    using reduce_orchestration_outcome [OF that] by (auto simp: orchestration_rejects_def)
  show "s' = s \<and> oe_sequence e = os_last_event_sequence s"
    if "reduce_orchestration_event s e = (s', Inr ODuplicate)"
    using reduce_orchestration_outcome [OF that] commit_orchestration_event_facts(3) by blast
  show "reduce_orchestration_event s' e = (s', Inr ODuplicate)"
    if "reduce_orchestration_event s e = (s', Inr a)"
    using reduce_orchestration_outcome [OF that] orchestration_redelivered that by auto
  assume "reduce_orchestration_event s e = (s', Inr a)" and "a \<noteq> ODuplicate"
  with reduce_orchestration_outcome [OF this(1)]
  have less: "os_last_event_sequence s < oe_sequence e" and com: "commit_orchestration_event s e = (s', a)"
    by auto
  note f = commit_orchestration_event_facts [OF com]
  show "os_last_event_sequence s < oe_sequence e \<and> os_last_event_sequence s' = oe_sequence e"
    using less f by simp
  show "oe_sequence e = os_last_event_sequence s + 1" if "\<not> orchestration_degraded s'"
    using f(6) that by blast
qed

section \<open>Helpers for the properties\<close>

lemma run_ok_pending [simp]: "run_ok (run_state_pending rq)"
  by (simp add: run_ok_def run_state_pending_def)

lemma run_cursor_pending [simp]: "run_cursor (run_state_pending rq) = (0, 0)"
  by (simp add: run_cursor_def run_state_pending_def)

text \<open>A status changes only with a lifecycle event that is applied.\<close>

lemma commit_agent_event_status:
  assumes "commit_agent_event False s e = (s', a)" "agent_terminal (st_status s)"
  shows "st_status s' = st_status s"
proof -
  have "st_status (fst (apply_agent_payload False t p)) = st_status t" if "agent_terminal (st_status t)" for t :: "'a RunState" and p
    using that by (cases p; simp add: apply_agent_payload_def degrade_run_def)
  then show ?thesis using assms
    by (cases "agent_had_gap False s e"; force simp: commit_agent_event_def degrade_run_def Let_def split_beta)
qed

lemma reduce_agent_status:
  assumes "reduce_agent_event s e = (s', r)" "agent_terminal (st_status s)"
    and "st_last_run_attempt_id s \<noteq> None" "st_last_run_attempt_number s' = st_last_run_attempt_number s"
  shows "st_status s' = st_status s \<and> st_last_run_attempt_id s' \<noteq> None"
proof -
  have "agent_rejects s e s' \<or> s' = s \<or>
      (\<exists>n a. is_new_attempt s e = Inr n \<and> commit_agent_event n s e = (s', a))"
    using reduce_agent_outcome [OF assms(1)] by blast
  then show ?thesis
  proof (elim disjE exE conjE)
    assume "agent_rejects s e s'"
    then show ?thesis using assms(3) by (auto simp: agent_rejects_def degrade_run_def)
  next
    assume "s' = s"
    then show ?thesis using assms(3) by simp
  next
    fix n a
    assume "is_new_attempt s e = Inr n" and com: "commit_agent_event n s e = (s', a)"
    moreover have "ae_run_attempt_number e = st_last_run_attempt_number s"
      using commit_agent_event_facts(8) [OF com] assms(4) by simp
    ultimately have "\<not> n" using assms(3) by (auto simp: is_new_attempt_def split: if_splits)
    with com commit_agent_event_status [of s e s' a] assms(2) commit_agent_event_facts(7) [OF com]
    show ?thesis by simp
  qed
qed

lemma deliver_agent_status:
  assumes "run_ok s" "agent_terminal (st_status s)" "st_last_run_attempt_id s \<noteq> None"
    and "st_last_run_attempt_number (deliver reduce_agent_event s es) = st_last_run_attempt_number s"
  shows "st_status (deliver reduce_agent_event s es) = st_status s"
  using assms
proof (induction es arbitrary: s)
  case (Cons e es)
  obtain s' r where red: "reduce_agent_event s e = (s', r)" by (cases "reduce_agent_event s e")
  let ?fin = "deliver reduce_agent_event s' es"
  have ok': "run_ok s'" using agent.ok_reduce [OF Cons.prems(1), of e] red by simp
  have "run_cursor s \<le> run_cursor s'" "run_cursor s' \<le> run_cursor ?fin"
    using agent.cursor_reduce [OF Cons.prems(1), of e] agent.cursor_deliver [OF ok'] red by simp_all
  then have "st_last_run_attempt_number s \<le> st_last_run_attempt_number s'"
      "st_last_run_attempt_number s' \<le> st_last_run_attempt_number ?fin"
    by (auto simp: run_cursor_def)
  with Cons.prems(4) red have num: "st_last_run_attempt_number s' = st_last_run_attempt_number s"
    by simp
  from reduce_agent_status [OF red Cons.prems(2,3) num] Cons.IH [OF ok'] Cons.prems num red
  show ?case by simp
qed simp

lemma chain_successors:
  assumes "chain (\<lambda>p q. q = p + 1) p qs" "sorted_wrt (<) (p # qs)"
  shows "map unat qs = [Suc (unat (p :: u64)) ..< Suc (unat p) + length qs]"
  using assms
proof (induction qs arbitrary: p)
  case (Cons q qs)
  then have q: "q = p + 1" "p < q" by auto
  then have "unat q = Suc (unat p)" using unatSuc [of p] by (cases "1 + p = 0") (auto simp: add.commute)
  moreover have "map unat qs = [Suc (unat q) ..< Suc (unat q) + length qs]"
    using Cons by auto
  ultimately show ?case by (simp add: upt_conv_Cons del: upt_Suc)
qed simp

lemma chain_numbers:
  assumes "chain (\<lambda>p q. q = p + 1) (0 :: u64) qs" "sorted_wrt (<) (0 # qs)"
  shows "map unat qs = [1 ..< Suc (length qs)] \<and> unat (last (0 # qs)) = length qs"
proof -
  from chain_successors [OF assms] have nums: "map unat qs = [1 ..< Suc (length qs)]" by simp
  moreover have "unat (last (0 # qs)) = length qs"
  proof (cases "qs = []")
    case False
    then have "unat (last qs) = last (map unat qs)" by (simp add: last_map)
    also have "\<dots> = length qs" using False unfolding nums by (simp add: Suc_le_eq)
    finally show ?thesis using False by simp
  qed simp
  ultimately show ?thesis by simp
qed

section \<open>Properties\<close>

text \<open>
  C36: however the events of a run are delivered, with repetitions, reorderings and losses, the
  events the reducer applies have strictly increasing positions (attempt number, then sequence).
  In particular no position is applied twice.
\<close>

theorem agent_applies_once_in_order:
  "sorted_wrt (<) (map agent_position
     (applied reduce_agent_event RDuplicate (run_state_pending rq) es))"
  using agent.applied_ascending [OF run_ok_pending, of rq es] by simp

text \<open>
  C4: a run state that is not marked degraded was projected without a gap inside an attempt. The applied events begin every
  attempt with sequence 1 and continue it in steps of one, and every attempt but the first has the number after the one
  before it. The number of the first attempt is not pinned, and neither is how far an attempt went before the next
  one began, so a lost end of an attempt goes unnoticed.
\<close>

theorem agent_current_projection_has_no_gap:
  assumes "\<not> run_degraded (deliver reduce_agent_event (run_state_pending rq) es)"
  shows "chain (\<lambda>(n, k) (n', k'). n' = n \<and> k' = k + 1 \<or> k' = 1 \<and> (n = 0 \<or> n' = n + 1)) (0, 0)
    (map agent_position (applied reduce_agent_event RDuplicate (run_state_pending rq) es))"
proof -
  have "agent_follows = (\<lambda>(n, k) (n', k'). n' = n \<and> k' = k + 1 \<or> k' = 1 \<and> (n = 0 \<or> n' = n + 1))"
    by (auto simp: agent_follows_def fun_eq_iff)
  with agent.not_degraded_chain [OF run_ok_pending assms] show ?thesis by simp
qed

definition sample_events :: "json_lit AgentEventEnvelope list" where
  "sample_events = [sample_event 1 11 (AELifecycleChanged ARunning),
     sample_event 2 12 (AELifecycleChanged ASucceeded),
     sample_event 3 13 (AEThinking ''late'')]"

theorem agent_current_projection_has_no_gap_witness:
  "chain (\<lambda>(n, k) (n', k'). n' = n \<and> k' = k + 1 \<or> k' = 1 \<and> (n = 0 \<or> n' = n + 1)) ((0 :: u32), (0 :: u64))
     [(1, 1), (1, 2), (1, 3)]"
proof -
  have clean: "\<not> run_degraded (deliver reduce_agent_event (run_state_pending sample_request) sample_events)"
    by code_simp
  have "map agent_position (applied reduce_agent_event RDuplicate (run_state_pending sample_request) sample_events) =
      [(1, 1), (1, 2), (1, 3)]"
    by code_simp
  with agent_current_projection_has_no_gap [OF clean] show ?thesis by simp
qed

text \<open>
  At-least-once delivery is harmless: delivering every event any number of times in a row
  leaves the run in the same state as delivering it once.
\<close>

theorem agent_repeated_delivery_is_harmless:
  "deliver reduce_agent_event (run_state_pending rq) (concat (map (\<lambda>(e, n). replicate (Suc n) e) deliveries)) =
     deliver reduce_agent_event (run_state_pending rq) (map fst deliveries)"
proof -
  have one: "deliver reduce_agent_event s (replicate (Suc n) e) = fst (reduce_agent_event s e)"
    if "run_ok s" for s :: "'a RunState" and e n
    using that
  proof (induction n arbitrary: s)
    case (Suc n)
    from Suc.IH [OF agent.ok_reduce [OF Suc.prems, of e]] agent.repeated [OF Suc.prems, of e]
    show ?case by simp
  qed simp
  have "deliver reduce_agent_event s (concat (map (\<lambda>(e, n). replicate (Suc n) e) ds)) =
      deliver reduce_agent_event s (map fst ds)" if "run_ok s" for s :: "'a RunState" and ds
    using that
    by (induction ds arbitrary: s)
       (auto simp: deliver_append one agent.ok_reduce simp del: replicate_Suc)
  then show ?thesis by simp
qed

text \<open>
  C37: a terminal status is final within its attempt. Whatever events are delivered, the status of
  a run that has reached a terminal status changes only once a later attempt has begun.
\<close>

theorem agent_terminal_status_is_final:
  assumes "run_ok s" "agent_terminal (st_status s)" "st_last_run_attempt_id s \<noteq> None"
    and "st_last_run_attempt_number (deliver reduce_agent_event s es) = st_last_run_attempt_number s"
  shows "st_status (deliver reduce_agent_event s es) = st_status s"
  using assms by (rule deliver_agent_status)

theorem agent_terminal_status_is_final_witness:
  "st_status (deliver reduce_agent_event
     (deliver reduce_agent_event (run_state_pending sample_request) sample_events)
     [sample_event 4 14 (AELifecycleChanged ARunning)]) = ASucceeded"
proof -
  let ?s = "deliver reduce_agent_event (run_state_pending sample_request) sample_events"
  have status: "st_status ?s = ASucceeded" "st_last_run_attempt_id ?s \<noteq> None" by code_simp+
  have ok: "run_ok ?s" by (rule agent.ok_deliver) simp
  have "st_last_run_attempt_number (deliver reduce_agent_event ?s
      [sample_event 4 14 (AELifecycleChanged ARunning)]) = st_last_run_attempt_number ?s"
    by code_simp
  from agent_terminal_status_is_final [OF ok _ status(2) this] status(1) show ?thesis by simp
qed

text \<open>
  An orchestration state that is not marked degraded has seen a complete prefix of its event
  stream: the applied events carry the sequence numbers 1, 2, 3, ... without gap or
  repetition, and the recorded sequence is their number.
\<close>

theorem orchestration_current_projection_is_complete:
  fixes es :: "'v OrchestrationEventEnvelope list"
  assumes "\<not> orchestration_degraded (deliver reduce_orchestration_event (orchestration_pending i t) es)"
  shows "map (\<lambda>e. unat (oe_sequence e)) (applied reduce_orchestration_event ODuplicate (orchestration_pending i t) es) =
      [1 ..< Suc (length (applied reduce_orchestration_event ODuplicate (orchestration_pending i t) es))] \<and>
    unat (os_last_event_sequence (deliver reduce_orchestration_event (orchestration_pending i t) es)) =
      length (applied reduce_orchestration_event ODuplicate (orchestration_pending i t) es)"
proof -
  let ?s = "orchestration_pending i t"
  let ?qs = "map oe_sequence (applied reduce_orchestration_event ODuplicate ?s es)"
  have zero: "os_last_event_sequence ?s = 0" by (simp add: orchestration_pending_def)
  have chain: "chain (\<lambda>p q. q = p + 1) 0 ?qs"
    and last: "os_last_event_sequence (deliver reduce_orchestration_event ?s es) = last (0 # ?qs)"
    using orchestration.not_degraded_chain [OF TrueI assms] zero by simp_all
  have "sorted_wrt (<) (0 # ?qs)"
    using orchestration.applied_ascending [OF TrueI, of ?s es] zero by simp
  from chain_numbers [OF chain this] last show ?thesis by (simp add: o_def)
qed

definition sample_orchestration_event ::
  "u64 \<Rightarrow> uuid \<Rightarrow> OrchestrationRunStatus \<Rightarrow> json_lit OrchestrationEventEnvelope" where
  "sample_orchestration_event n i st = \<lparr>oe_schema_version = 1, oe_payload_version = 1, oe_event_id = i,
     oe_orchestration_run_id = 1, oe_sequence = n, oe_correlation_id = 5, oe_timestamp = 1,
     oe_payload = OELifecycleChanged st\<rparr>"

theorem orchestration_current_projection_is_complete_witness:
  "unat (os_last_event_sequence (deliver reduce_orchestration_event (orchestration_pending 1 0)
     [sample_orchestration_event 1 11 ORunning, sample_orchestration_event 1 11 ORunning,
      sample_orchestration_event 2 12 OSucceeded])) = 2"
proof -
  let ?es = "[sample_orchestration_event 1 11 ORunning, sample_orchestration_event 1 11 ORunning,
      sample_orchestration_event 2 12 OSucceeded]"
  have clean: "\<not> orchestration_degraded (deliver reduce_orchestration_event (orchestration_pending 1 0) ?es)"
    by code_simp
  have "length (applied reduce_orchestration_event ODuplicate (orchestration_pending 1 0) ?es) = 2"
    by code_simp
  with orchestration_current_projection_is_complete [OF clean] show ?thesis by simp
qed

text \<open>
  No delivery reopens a finished orchestration: once the status is terminal it stays terminal.
\<close>

theorem orchestration_stays_terminal:
  assumes "orchestration_terminal (os_status s)"
  shows "orchestration_terminal (os_status (deliver reduce_orchestration_event s es))"
  using assms
proof (induction es arbitrary: s)
  case (Cons e es)
  obtain s' r where red: "reduce_orchestration_event s e = (s', r)"
    by (cases "reduce_orchestration_event s e")
  have "orchestration_terminal (os_status s')"
    using reduce_orchestration_outcome [OF red] Cons.prems commit_orchestration_event_facts(7)
    unfolding orchestration_rejects_def by (metis degrade_orchestration_simps(5))
  with Cons.IH red show ?case by simp
qed simp

theorem orchestration_stays_terminal_witness:
  "orchestration_terminal (os_status (deliver reduce_orchestration_event
     ((orchestration_pending 1 0)\<lparr>os_status := OCancelled\<rparr>) [sample_orchestration_event 1 11 ORunning]))"
  by (rule orchestration_stays_terminal) simp

text \<open>
  An event that is refused changes nothing of the projected facts: after an error the state is
  the old one, at most marked as degraded. This holds for both reducers.
\<close>

theorem refused_events_only_degrade:
  "(reduce_agent_event s e = (s', Inl err) \<longrightarrow> s' = s \<or> s' = s\<lparr>st_projection_status := ProjDegraded\<rparr>) \<and>
   (reduce_orchestration_event os oe = (os', Inl oerr) \<longrightarrow>
      os' = os \<or> os' = os\<lparr>os_projection_status := ProjDegraded\<rparr>)"
  using reduce_agent_outcome [of s e s' "Inl err"]
    reduce_orchestration_outcome [of os oe os' "Inl oerr"]
  by (auto simp: agent_rejects_def orchestration_rejects_def degrade_run_def degrade_orchestration_def)

theorem refused_events_only_degrade_witness:
  "\<exists>err s'. reduce_agent_event (run_state_pending sample_request)
       (sample_event 0 11 (AELifecycleChanged ARunning)) = (s', Inl err) \<and>
     (s' = run_state_pending sample_request \<or>
      s' = (run_state_pending sample_request)\<lparr>st_projection_status := ProjDegraded\<rparr>)"
proof -
  let ?r = "reduce_agent_event (run_state_pending sample_request) (sample_event 0 11 (AELifecycleChanged ARunning))"
  have "snd ?r = Inl RInvalidStreamPosition" by code_simp
  then have "?r = (fst ?r, Inl RInvalidStreamPosition)" by (metis prod.collapse)
  with refused_events_only_degrade [of "run_state_pending sample_request"
      "sample_event 0 11 (AELifecycleChanged ARunning)" "fst ?r" RInvalidStreamPosition]
  show ?thesis by blast
qed

end
