(* ===== verification/Tables.thy ===== *)
theory Tables
  imports Reducers "HOL-Library.Product_Lexorder"
begin

text \<open>
  The tables of the orchestration store: the row types of \<open>crates/db/src/models/orchestration.rs\<close>, the columns
  of the agent tables it reads (\<open>crates/db/src/models/agent_runtime.rs\<close>), and the constraints that
  \<open>crates/db/migrations/20260811000000_agent_runtime_v1.sql\<close> puts on them.

  A table is the list of its rows in scan order, so a query without \<open>ORDER BY\<close> (and a tie in one) sees
  the first row of the list. A time column is a text column, as in the schema, and is compared as text. A
  column of type \<open>Json\<close> holds the value itself: serialization of the derived types is
  taken to succeed and to be read back unchanged. \<open>DbError\<close> has the constraint violations, the missing row of a
  \<open>fetch_one\<close> and the null in a column read as not null; failures of the disk are outside the model.
\<close>

section \<open>SQL vocabulary\<close>

type_synonym sql_text = string

datatype DbError = DbUnique string | DbForeignKey string | DbCheck string | DbRowNotFound | DbDecode

text \<open>A \<open>DateTime<Utc>\<close> counts nanoseconds.\<close>

definition duration_seconds :: "int \<Rightarrow> datetime" where
  "duration_seconds n = n * 10 ^ 9"

text \<open>What the store gets from outside: the encoding of a time as a bound parameter and the text of a UUID.\<close>

record sql_env =
  sql_bind :: "datetime \<Rightarrow> sql_text"
  uuid_text :: "uuid \<Rightarrow> string"

definition update_where :: "('r \<Rightarrow> bool) \<Rightarrow> ('r \<Rightarrow> 'r) \<Rightarrow> 'r list \<Rightarrow> 'r list" where
  "update_where P f rows = map (\<lambda>r. if P r then f r else r) rows"

definition rows_affected :: "('r \<Rightarrow> bool) \<Rightarrow> 'r list \<Rightarrow> nat" where
  "rows_affected P rows = length (filter P rows)"

definition first_by :: "('r \<Rightarrow> 'k::linorder) \<Rightarrow> 'r list \<Rightarrow> 'r option" where
  "first_by k rows = (case sort_key k rows of [] \<Rightarrow> None | r # _ \<Rightarrow> Some r)"

text \<open>\<open>length(trim(s)) = 0\<close>: SQLite trims spaces and counts up to the first NUL.\<close>

definition sql_blank :: "sql_text \<Rightarrow> bool" where
  "sql_blank s = (case dropWhile (\<lambda>c. c = CHR '' '') s of [] \<Rightarrow> True | c # _ \<Rightarrow> c = CHR 0x00)"

text \<open>A transaction that ends with an error is rolled back.\<close>

definition transaction :: "('d \<Rightarrow> 'e + ('a \<times> 'd)) \<Rightarrow> 'd \<Rightarrow> ('e + 'a) \<times> 'd" where
  "transaction f d = (case f d of Inl e \<Rightarrow> (Inl e, d) | Inr (x, d') \<Rightarrow> (Inr x, d'))"

definition i64_of_u64 :: "u64 \<Rightarrow> i64 option" where
  "i64_of_u64 n = (if uint n < 2 ^ 63 then Some (uint n) else None)"

definition u64_of_i64 :: "i64 \<Rightarrow> u64 option" where
  "u64_of_i64 n = (if 0 \<le> n then Some (of_int n) else None)"

section \<open>Rows\<close>

record 'v OrchestrationRunRecord =
  or_id :: uuid
  or_request_id :: uuid
  or_idempotency_key :: string
  or_correlation_id :: uuid
  or_product_kind :: string
  or_source_definition_id :: uuid
  or_source_definition_version :: string
  or_plan_schema_version :: i64
  or_plan_snapshot :: "'v OrchestrationPlanSnapshot"
  or_status :: OrchestrationRunStatus
  or_projection_status :: ProjectionStatus
  or_created_at :: sql_text
  or_updated_at :: sql_text

record OrchestrationNodeExecutionRecord =
  on_id :: uuid
  on_orchestration_run_id :: uuid
  on_node_key :: string
  on_iteration :: i64
  on_stable_order :: i64
  on_status :: OrchestrationNodeStatus
  on_created_at :: sql_text
  on_updated_at :: sql_text

record OrchestrationAgentRunLinkRecord =
  ol_id :: uuid
  ol_orchestration_run_id :: uuid
  ol_node_execution_id :: uuid
  ol_agent_run_id :: uuid
  ol_dispatch_idempotency_key :: string
  ol_created_at :: sql_text

record 'v OrchestrationEventRecord =
  oev_event_id :: uuid
  oev_orchestration_run_id :: uuid
  oev_sequence :: i64
  oev_correlation_id :: uuid
  oev_schema_version :: i64
  oev_payload_version :: i64
  oev_event_envelope :: "'v OrchestrationEventEnvelope"
  oev_created_at :: sql_text

record OrchestrationStateRecord =
  ost_orchestration_run_id :: uuid
  ost_state_schema_version :: i64
  ost_reducer_version :: i64
  ost_last_event_sequence :: i64
  ost_last_event_id :: "uuid option"
  ost_status :: OrchestrationRunStatus
  ost_projection_status :: ProjectionStatus
  ost_state_json :: OrchestrationState
  ost_updated_at :: sql_text

text \<open>The status columns are text with a \<open>CHECK\<close> that admits exactly these values.\<close>

datatype delivery_status = DPending | DDelivering | DDelivered | DFailed

datatype consumption_status = CPending | CProcessing | CConsumed

record 'v OrchestrationOutboxRecord =
  ob_id :: uuid
  ob_orchestration_run_id :: uuid
  ob_node_execution_id :: "uuid option"
  ob_command_id :: uuid
  ob_idempotency_key :: string
  ob_command_schema_version :: i64
  ob_command_envelope :: "'v AgentRunPortCommandEnvelope"
  ob_delivery_status :: delivery_status
  ob_delivery_attempts :: i64
  ob_available_at :: sql_text
  ob_delivered_at :: "sql_text option"
  ob_last_error :: "string option"
  ob_created_at :: sql_text
  ob_updated_at :: sql_text

record 'v OrchestrationInboxRecord =
  ib_id :: uuid
  ib_orchestration_run_id :: uuid
  ib_source_event_id :: uuid
  ib_source_agent_run_id :: uuid
  ib_source_sequence :: i64
  ib_event_envelope :: "'v AgentEventEnvelope"
  ib_consumption_status :: consumption_status
  ib_received_at :: sql_text
  ib_consumed_at :: "sql_text option"

record OrchestrationConsumptionRecord =
  oc_id :: uuid
  oc_orchestration_run_id :: uuid
  oc_join_node_execution_id :: uuid
  oc_source_node_execution_id :: uuid
  oc_source_agent_run_id :: uuid
  oc_source_event_id :: uuid
  oc_target_node_execution_id :: "uuid option"
  oc_consumed_at :: sql_text

record SerialEachQueueItem =
  sq_consumption_id :: uuid
  sq_source_event_id :: uuid
  sq_source_sequence :: u64
  sq_target_node_execution_id :: uuid
  sq_target_status :: OrchestrationNodeStatus

record OrchestrationLeaseRecord =
  le_resource_kind :: string
  le_resource_id :: uuid
  le_owner_id :: string
  le_fencing_token :: i64
  le_acquired_at :: sql_text
  le_expires_at :: sql_text
  le_updated_at :: sql_text

text \<open>Of the agent tables, the columns that the orchestration store reads.\<close>

record AgentTurnRecord =
  at_id :: uuid
  at_agent_run_id :: uuid
  at_turn_number :: i64
  at_input_message :: CanonicalMessage
  at_created_at :: sql_text

record 'v AgentEventRecord =
  aev_event_id :: uuid
  aev_agent_run_id :: uuid
  aev_event_envelope :: "'v AgentEventEnvelope"

record 'v AgentRunStateRecord =
  ars_agent_run_id :: uuid
  ars_status :: AgentRunStatus
  ars_state_json :: "'v RunState"

record 'v db =
  db_runs :: "'v OrchestrationRunRecord list"
  db_nodes :: "OrchestrationNodeExecutionRecord list"
  db_links :: "OrchestrationAgentRunLinkRecord list"
  db_events :: "'v OrchestrationEventRecord list"
  db_states :: "OrchestrationStateRecord list"
  db_outbox :: "'v OrchestrationOutboxRecord list"
  db_inbox :: "'v OrchestrationInboxRecord list"
  db_consumption :: "OrchestrationConsumptionRecord list"
  db_leases :: "OrchestrationLeaseRecord list"
  db_agent_runs :: "uuid list"
  db_agent_turns :: "AgentTurnRecord list"
  db_agent_events :: "'v AgentEventRecord list"
  db_agent_states :: "'v AgentRunStateRecord list"

text \<open>The empty database, and an environment for examples: times as unary numbers.\<close>

definition unary_env :: sql_env where
  "unary_env = \<lparr>sql_bind = (\<lambda>t. replicate (nat t) (CHR ''1'')), uuid_text = (\<lambda>u. dec_of_nat (unat u))\<rparr>"

definition empty_db :: "'v db" where
  "empty_db = \<lparr>db_runs = [], db_nodes = [], db_links = [], db_events = [], db_states = [], db_outbox = [],
     db_inbox = [], db_consumption = [], db_leases = [], db_agent_runs = [], db_agent_turns = [],
     db_agent_events = [], db_agent_states = []\<rparr>"

section \<open>Facts about the vocabulary\<close>

lemma update_where_Nil [simp]: "update_where P f [] = []"
  by (simp add: update_where_def)

lemma set_update_where: "set (update_where P f rows) = (\<lambda>r. if P r then f r else r) ` set rows"
  by (auto simp: update_where_def)

lemma length_update_where [simp]: "length (update_where P f rows) = length rows"
  by (simp add: update_where_def)

lemma map_update_where:
  "(\<And>r. P r \<Longrightarrow> g (f r) = g r) \<Longrightarrow> map g (update_where P f rows) = map g rows"
  by (auto simp: update_where_def)

lemma update_where_none: "(\<And>r. r \<in> set rows \<Longrightarrow> \<not> P r) \<Longrightarrow> update_where P f rows = rows"
  by (auto simp: update_where_def intro: map_idI)

lemma rows_affected_0_iff: "rows_affected P rows = 0 \<longleftrightarrow> (\<forall>r \<in> set rows. \<not> P r)"
  by (auto simp: rows_affected_def filter_empty_conv)

lemma rows_affected_one:
  "distinct (map k rows) \<Longrightarrow> rows_affected (\<lambda>r. k r = x \<and> P r) rows =
     (if \<exists>r \<in> set rows. k r = x \<and> P r then 1 else 0)"
proof (induction rows)
  case (Cons a rows)
  show ?case
  proof (cases "k a = x \<and> P a")
    case True
    with Cons.prems have "filter (\<lambda>r. k r = x \<and> P r) rows = []"
      by (auto simp: filter_empty_conv) (metis image_eqI)
    with True show ?thesis by (auto simp: rows_affected_def)
  qed (use Cons in \<open>auto simp: rows_affected_def\<close>)
qed (simp add: rows_affected_def)

lemma first_by_None: "first_by k rows = None \<longleftrightarrow> rows = []"
  by (auto simp: first_by_def split: list.splits dest: arg_cong [where f = set])

lemma first_by_Some:
  assumes "first_by k rows = Some r"
  shows "r \<in> set rows" and "\<And>s. s \<in> set rows \<Longrightarrow> k r \<le> k s"
proof -
  from assms obtain rs where rs: "sort_key k rows = r # rs"
    by (auto simp: first_by_def split: list.splits)
  then show "r \<in> set rows" by (metis list.set_intros(1) set_sort)
  have "sorted (map k (r # rs))" by (metis rs sorted_sort_key)
  moreover have "set (r # rs) = set rows" by (metis rs set_sort)
  ultimately show "\<And>s. s \<in> set rows \<Longrightarrow> k r \<le> k s" by auto
qed

lemma transaction_Inl [simp]: "f d = Inl e \<Longrightarrow> transaction f d = (Inl e, d)"
  by (simp add: transaction_def)

lemma transaction_Inr [simp]: "f d = Inr (x, d') \<Longrightarrow> transaction f d = (Inr x, d')"
  by (simp add: transaction_def)

lemma transaction_ok_iff: "transaction f d = (Inr x, d') \<longleftrightarrow> f d = Inr (x, d')"
  by (auto simp: transaction_def split: sum.splits prod.splits)

lemma transaction_err_iff: "transaction f d = (Inl e, d') \<longleftrightarrow> f d = Inl e \<and> d' = d"
  by (auto simp: transaction_def split: sum.splits prod.splits)

lemma find_distinct:
  "distinct (map k rows) \<Longrightarrow> r \<in> set rows \<Longrightarrow> k r = x \<Longrightarrow> find (\<lambda>r. k r = x) rows = Some r"
  by (induction rows) force+

lemma find_None: "find P xs = None \<longleftrightarrow> (\<forall>x \<in> set xs. \<not> P x)"
  by (auto simp: find_None_iff)

lemma find_append: "find P (xs @ ys) = (case find P xs of None \<Rightarrow> find P ys | Some x \<Rightarrow> Some x)"
  by (induction xs) auto

lemma find_SomeD: "find P xs = Some x \<Longrightarrow> x \<in> set xs \<and> P x"
  by (auto simp: find_Some_iff)

section \<open>How a table changes\<close>

text \<open>Rows are updated in place or appended; \<open>evolves R\<close> says that every old row is related to its new version.\<close>

definition evolves :: "('r \<Rightarrow> 'r \<Rightarrow> bool) \<Rightarrow> 'r list \<Rightarrow> 'r list \<Rightarrow> bool" where
  "evolves R xs ys \<longleftrightarrow> length xs \<le> length ys \<and> (\<forall>i < length xs. R (xs ! i) (ys ! i))"

lemma evolves_refl: "(\<And>r. R r r) \<Longrightarrow> evolves R xs xs"
  by (simp add: evolves_def)

lemma evolves_append: "evolves R xs ys \<Longrightarrow> evolves R xs (ys @ zs)"
  by (auto simp: evolves_def nth_append)

lemma evolves_update:
  "(\<And>r. R r r) \<Longrightarrow> (\<And>r. P r \<Longrightarrow> R r (f r)) \<Longrightarrow> evolves R xs (update_where P f xs)"
  by (simp add: evolves_def update_where_def)

lemma evolves_trans:
  "evolves R xs ys \<Longrightarrow> evolves R ys zs \<Longrightarrow> (\<And>a b c. R a b \<Longrightarrow> R b c \<Longrightarrow> R a c) \<Longrightarrow> evolves R xs zs"
  unfolding evolves_def by (meson le_trans less_le_trans)

lemma evolves_mem: "evolves R xs ys \<Longrightarrow> x \<in> set xs \<Longrightarrow> \<exists>y \<in> set ys. R x y"
  unfolding evolves_def by (metis in_set_conv_nth less_le_trans)

section \<open>Tables with a key\<close>

text \<open>
  The contract of \<open>INSERT ... ON CONFLICT(key) DO NOTHING\<close>: a statement that succeeds keeps the table when the key is
  present and appends the row when it is not.
\<close>

locale keyed_table =
  fixes rows :: "'d \<Rightarrow> 'r list"
    and key :: "'r \<Rightarrow> 'k"
    and ins :: "'r \<Rightarrow> 'd \<Rightarrow> DbError + 'd"
  assumes ins_conflict: "ins r d = Inr d' \<Longrightarrow> x \<in> set (rows d) \<Longrightarrow> key x = key r \<Longrightarrow> d' = d"
    and ins_append: "ins r d = Inr d' \<Longrightarrow> (\<And>x. x \<in> set (rows d) \<Longrightarrow> key x \<noteq> key r) \<Longrightarrow>
      rows d' = rows d @ [r]"
begin

lemma ins_cases:
  assumes "ins r d = Inr d'"
  obtains (present) x where "x \<in> set (rows d)" "key x = key r" "d' = d"
  | (fresh) "key r \<notin> key ` set (rows d)" "rows d' = rows d @ [r]"
  using ins_conflict [OF assms] ins_append [OF assms] by (cases "key r \<in> key ` set (rows d)") auto

lemma distinct_ins:
  "ins r d = Inr d' \<Longrightarrow> distinct (map key (rows d)) \<Longrightarrow> distinct (map key (rows d'))"
  by (erule ins_cases) auto

lemma ins_present: "ins r d = Inr d' \<Longrightarrow> \<exists>x \<in> set (rows d'). key x = key r"
  by (erule ins_cases) auto

lemma ins_keeps: "ins r d = Inr d' \<Longrightarrow> set (rows d) \<subseteq> set (rows d')"
  by (erule ins_cases) auto

lemma ins_again:
  "ins r d = Inr d' \<Longrightarrow> ins r' d' = Inr d'' \<Longrightarrow> key r' = key r \<Longrightarrow> d'' = d'"
  using ins_conflict ins_present by metis

lemma ins_find:
  "ins r d = Inr d' \<Longrightarrow> \<exists>x. find (\<lambda>x. key x = key r) (rows d') = Some x \<and> x \<in> set (rows d') \<and> key x = key r"
  by (metis (mono_tags, lifting) find_None_iff find_SomeD ins_present not_None_eq)

end

end
