(* ===== verification/Event_Store.thy ===== *)
theory Event_Store
  imports Tables
begin

text \<open>
  The durable orchestration store, \<open>crates/db/src/models/orchestration.rs\<close>, first part: runs and their event log,
  node identities and links to agent runs. The other parts are in \<open>Leases\<close>, \<open>Outbox\<close> and \<open>Inbox\<close>.

  An operation maps a database to a result and a database. The body of a transaction is a function
  whose error case carries no database; \<open>transaction\<close> turns it into an operation that is rolled back on an
  error. The argument \<open>clock\<close> is the text of \<open>datetime('now', 'subsec')\<close> at the statement, which the schema uses
  as the default of the time columns; \<open>now\<close> arguments stand for \<open>Utc::now()\<close> and ids for \<open>Uuid::new_v4()\<close>.
\<close>

section \<open>Errors\<close>

datatype OrchestrationPersistenceError =
  PDatabase DbError
| PSerialization
| PInvalidVersion ContractVersionError
| PInvalidCommand OrchestrationCommandValidationError
| PInvalidEnumEncoding string
| PMissingNodeIdentity
| PIdempotencyConflict string string
| PReducer OrchestrationReducerError
| PMissingState uuid
| PInboxRunMismatch uuid
| PUnmanagedInboxSource uuid uuid
| PMissingInboxSourceEvent uuid
| PInboxNodeMismatch uuid
| PInvalidInboxSequence uuid
| PNonConsumableHandoff uuid
| PEffectRunMismatch
| PCommandAgentRunMismatch

section \<open>Runs\<close>

text \<open>\<open>enum_string\<close> on the product kind: the derived snake-case name, never an error for an enum without fields.\<close>

fun product_kind_string :: "OrchestrationProductKind \<Rightarrow> string" where
  "product_kind_string ProductWorkflow = ''workflow''"
| "product_kind_string ProductArena = ''arena''"

definition insert_run :: "'v OrchestrationRunRecord \<Rightarrow> 'v db \<Rightarrow> DbError + 'v db" where
  "insert_run r d =
     (if sql_blank (or_idempotency_key r) \<or> or_plan_schema_version r \<le> 0 then Inl (DbCheck ''orchestration_runs'')
      else if list_ex (\<lambda>x. or_id x = or_id r \<or> or_request_id x = or_request_id r \<or>
                           or_idempotency_key x = or_idempotency_key r) (db_runs d)
      then Inl (DbUnique ''orchestration_runs'')
      else Inr (d\<lparr>db_runs := db_runs d @ [r]\<rparr>))"

definition insert_state :: "OrchestrationStateRecord \<Rightarrow> 'v db \<Rightarrow> DbError + 'v db" where
  "insert_state r d =
     (if list_ex (\<lambda>x. ost_orchestration_run_id x = ost_orchestration_run_id r) (db_states d)
      then Inl (DbUnique ''orchestration_state'')
      else Inr (d\<lparr>db_states := db_states d @ [r]\<rparr>))"

definition new_run_row ::
  "uuid \<Rightarrow> uuid \<Rightarrow> string \<Rightarrow> uuid \<Rightarrow> 'v OrchestrationPlanSnapshot \<Rightarrow> sql_text \<Rightarrow> 'v OrchestrationRunRecord" where
  "new_run_row i request_id key correlation_id plan clock = \<lparr>
     or_id = i, or_request_id = request_id, or_idempotency_key = key, or_correlation_id = correlation_id,
     or_product_kind = product_kind_string (pl_product_kind plan),
     or_source_definition_id = pl_source_definition_id plan,
     or_source_definition_version = pl_source_definition_version plan,
     or_plan_schema_version = int (unat (pl_schema_version plan)), or_plan_snapshot = plan,
     or_status = OPending, or_projection_status = ProjCurrent, or_created_at = clock, or_updated_at = clock\<rparr>"

definition new_state_row :: "OrchestrationState \<Rightarrow> sql_text \<Rightarrow> OrchestrationStateRecord" where
  "new_state_row s clock = \<lparr>
     ost_orchestration_run_id = os_orchestration_run_id s,
     ost_state_schema_version = int (unat (os_state_schema_version s)),
     ost_reducer_version = int (unat (os_reducer_version s)), ost_last_event_sequence = 0,
     ost_last_event_id = None, ost_status = os_status s, ost_projection_status = os_projection_status s,
     ost_state_json = s, ost_updated_at = clock\<rparr>"

definition persist_before_dispatch ::
  "uuid \<Rightarrow> uuid \<Rightarrow> string \<Rightarrow> uuid \<Rightarrow> 'v OrchestrationPlanSnapshot \<Rightarrow> sql_text \<Rightarrow> 'v db \<Rightarrow>
   (OrchestrationPersistenceError + uuid) \<times> 'v db" where
  "persist_before_dispatch i request_id key correlation_id plan clock d =
     (case validate_plan_current plan of
        Inl e \<Rightarrow> (Inl (PInvalidVersion e), d)
      | Inr _ \<Rightarrow> transaction (\<lambda>d.
          case find (\<lambda>r. or_idempotency_key r = key) (db_runs d) of
            Some existing \<Rightarrow>
              if or_id existing \<noteq> i \<or> or_request_id existing \<noteq> request_id \<or>
                 or_correlation_id existing \<noteq> correlation_id \<or> or_plan_snapshot existing \<noteq> plan
              then Inl (PIdempotencyConflict ''orchestration run'' key)
              else Inr (or_id existing, d)
          | None \<Rightarrow>
              and_then (map_err PDatabase (insert_run (new_run_row i request_id key correlation_id plan clock) d))
                (\<lambda>d1. and_then (map_err PDatabase (insert_state
                    (new_state_row (orchestration_pending i (pl_created_at plan)) clock) d1))
                  (\<lambda>d2. Inr (i, d2)))) d)"

section \<open>The event log\<close>

definition insert_event :: "'v OrchestrationEventRecord \<Rightarrow> 'v db \<Rightarrow> DbError + 'v db" where
  "insert_event r d =
     (if oev_sequence r \<le> 0 \<or> oev_schema_version r \<le> 0 \<or> oev_payload_version r \<le> 0
      then Inl (DbCheck ''orchestration_events'')
      else if list_ex (\<lambda>x. oev_event_id x = oev_event_id r \<or>
                 (oev_orchestration_run_id x = oev_orchestration_run_id r \<and> oev_sequence x = oev_sequence r))
                (db_events d)
      then Inl (DbUnique ''orchestration_events'')
      else if \<not> list_ex (\<lambda>x. or_id x = oev_orchestration_run_id r) (db_runs d)
      then Inl (DbForeignKey ''orchestration_events'')
      else Inr (d\<lparr>db_events := db_events d @ [r]\<rparr>))"

definition event_row ::
  "i64 \<Rightarrow> 'v OrchestrationEventEnvelope \<Rightarrow> sql_text \<Rightarrow> 'v OrchestrationEventRecord" where
  "event_row sequence e clock = \<lparr>
     oev_event_id = oe_event_id e, oev_orchestration_run_id = oe_orchestration_run_id e,
     oev_sequence = sequence, oev_correlation_id = oe_correlation_id e,
     oev_schema_version = int (unat (oe_schema_version e)),
     oev_payload_version = int (unat (oe_payload_version e)), oev_event_envelope = e, oev_created_at = clock\<rparr>"

text \<open>The two updates that store a projected state. The foreign key of \<open>last_event_id\<close> holds: a reducer that accepts
  the event leaves its id, which was inserted just before, in the state.\<close>

definition store_projection ::
  "sql_env \<Rightarrow> uuid \<Rightarrow> i64 \<Rightarrow> OrchestrationState \<Rightarrow> 'v db \<Rightarrow> 'v db" where
  "store_projection env run_id sequence s d = d\<lparr>
     db_states := update_where (\<lambda>r. ost_orchestration_run_id r = run_id)
       (\<lambda>r. r\<lparr>ost_last_event_sequence := sequence, ost_last_event_id := os_last_event_id s,
              ost_status := os_status s, ost_projection_status := os_projection_status s,
              ost_state_json := s, ost_updated_at := sql_bind env (os_updated_at s)\<rparr>) (db_states d),
     db_runs := update_where (\<lambda>r. or_id r = run_id)
       (\<lambda>r. r\<lparr>or_status := os_status s, or_projection_status := os_projection_status s,
              or_updated_at := sql_bind env (os_updated_at s)\<rparr>) (db_runs d)\<rparr>"

definition append_and_project_in_transaction ::
  "sql_env \<Rightarrow> sql_text \<Rightarrow> 'v OrchestrationEventEnvelope \<Rightarrow> 'v db \<Rightarrow>
   OrchestrationPersistenceError + (OrchestrationReducerApply \<times> 'v db)" where
  "append_and_project_in_transaction env clock e d =
     and_then (map_err PInvalidVersion (orchestration_validate_for_projection e)) (\<lambda>_.
     and_then (ok_or (i64_of_u64 (oe_sequence e)) PSerialization) (\<lambda>sequence.
     case find (\<lambda>r. oev_event_id r = oe_event_id e) (db_events d) of
       Some existing \<Rightarrow>
         if oev_event_envelope existing = e then Inr (ODuplicate, d)
         else Inl (PIdempotencyConflict ''orchestration event'' (uuid_text env (oe_event_id e)))
     | None \<Rightarrow>
     (case find (\<lambda>r. oev_orchestration_run_id r = oe_orchestration_run_id e \<and> oev_sequence r = sequence)
             (db_events d) of
       Some existing \<Rightarrow>
         if oev_event_envelope existing = e then Inr (ODuplicate, d)
         else Inl (PIdempotencyConflict ''orchestration event sequence''
                (uuid_text env (oe_orchestration_run_id e) @ '':'' @ dec_of_nat (nat sequence)))
     | None \<Rightarrow>
     (case find (\<lambda>r. ost_orchestration_run_id r = oe_orchestration_run_id e) (db_states d) of
       None \<Rightarrow> Inl (PMissingState (oe_orchestration_run_id e))
     | Some row \<Rightarrow>
     (case reduce_orchestration_event (ost_state_json row) e of
       (_, Inl err) \<Rightarrow> Inl (PReducer err)
     | (s, Inr outcome) \<Rightarrow>
         and_then (map_err PDatabase (insert_event (event_row sequence e clock) d)) (\<lambda>d1.
           Inr (outcome, store_projection env (oe_orchestration_run_id e) sequence s d1)))))))"

definition append_and_project ::
  "sql_env \<Rightarrow> sql_text \<Rightarrow> 'v OrchestrationEventEnvelope \<Rightarrow> 'v db \<Rightarrow>
   (OrchestrationPersistenceError + OrchestrationReducerApply) \<times> 'v db" where
  "append_and_project env clock e = transaction (append_and_project_in_transaction env clock e)"

section \<open>Node identities and links\<close>

text \<open>\<open>INSERT ... ON CONFLICT(k) DO NOTHING\<close>: the constraint of the conflict target is tested first.\<close>

definition insert_node :: "OrchestrationNodeExecutionRecord \<Rightarrow> 'v db \<Rightarrow> DbError + 'v db" where
  "insert_node r d =
     (if list_ex (\<lambda>x. on_orchestration_run_id x = on_orchestration_run_id r \<and>
                      on_node_key x = on_node_key r \<and> on_iteration x = on_iteration r) (db_nodes d)
      then Inr d
      else if list_ex (\<lambda>x. on_id x = on_id r) (db_nodes d)
      then Inl (DbUnique ''orchestration_node_executions'')
      else if \<not> list_ex (\<lambda>x. or_id x = on_orchestration_run_id r) (db_runs d)
      then Inl (DbForeignKey ''orchestration_node_executions'')
      else Inr (d\<lparr>db_nodes := db_nodes d @ [r]\<rparr>))"

definition node_row :: "uuid \<Rightarrow> uuid \<Rightarrow> string \<Rightarrow> u32 \<Rightarrow> u32 \<Rightarrow> sql_text \<Rightarrow> OrchestrationNodeExecutionRecord" where
  "node_row i run_id key iteration stable_order clock = \<lparr>
     on_id = i, on_orchestration_run_id = run_id, on_node_key = key, on_iteration = int (unat iteration),
     on_stable_order = int (unat stable_order), on_status = ONPending, on_created_at = clock,
     on_updated_at = clock\<rparr>"

definition persist_identity_before_dispatch ::
  "sql_env \<Rightarrow> uuid \<Rightarrow> uuid \<Rightarrow> string \<Rightarrow> u32 \<Rightarrow> u32 \<Rightarrow> sql_text \<Rightarrow> 'v db \<Rightarrow>
   (OrchestrationPersistenceError + uuid) \<times> 'v db" where
  "persist_identity_before_dispatch env i run_id key iteration stable_order clock d =
     (case insert_node (node_row i run_id key iteration stable_order clock) d of
        Inl e \<Rightarrow> (Inl (PDatabase e), d)
      | Inr d1 \<Rightarrow>
          (case find (\<lambda>r. on_orchestration_run_id r = run_id \<and> on_node_key r = key \<and>
                          on_iteration r = int (unat iteration)) (db_nodes d1) of
             None \<Rightarrow> (Inl PMissingNodeIdentity, d1)
           | Some existing \<Rightarrow>
               if on_id existing \<noteq> i \<or> on_stable_order existing \<noteq> int (unat stable_order)
               then (Inl (PIdempotencyConflict ''orchestration node execution''
                       (uuid_text env run_id @ '':'' @ key @ '':'' @ dec_of_nat (unat iteration))), d1)
               else (Inr (on_id existing), d1)))"

definition insert_link :: "OrchestrationAgentRunLinkRecord \<Rightarrow> 'v db \<Rightarrow> DbError + 'v db" where
  "insert_link r d =
     (if sql_blank (ol_dispatch_idempotency_key r) then Inl (DbCheck ''orchestration_agent_run_links'')
      else if list_ex (\<lambda>x. ol_dispatch_idempotency_key x = ol_dispatch_idempotency_key r) (db_links d) then Inr d
      else if list_ex (\<lambda>x. ol_id x = ol_id r \<or>
                 (ol_node_execution_id x = ol_node_execution_id r \<and> ol_agent_run_id x = ol_agent_run_id r) \<or>
                 (ol_orchestration_run_id x = ol_orchestration_run_id r \<and> ol_agent_run_id x = ol_agent_run_id r))
                (db_links d)
      then Inl (DbUnique ''orchestration_agent_run_links'')
      else if \<not> list_ex (\<lambda>x. or_id x = ol_orchestration_run_id r) (db_runs d) \<or>
              \<not> list_ex (\<lambda>x. on_id x = ol_node_execution_id r \<and>
                   on_orchestration_run_id x = ol_orchestration_run_id r) (db_nodes d) \<or>
              ol_agent_run_id r \<notin> set (db_agent_runs d)
      then Inl (DbForeignKey ''orchestration_agent_run_links'')
      else Inr (d\<lparr>db_links := db_links d @ [r]\<rparr>))"

definition persist_link ::
  "uuid \<Rightarrow> uuid \<Rightarrow> uuid \<Rightarrow> uuid \<Rightarrow> string \<Rightarrow> sql_text \<Rightarrow> 'v db \<Rightarrow>
   (OrchestrationPersistenceError + uuid) \<times> 'v db" where
  "persist_link i run_id node_execution_id agent_run_id key clock d =
     (case insert_link \<lparr>ol_id = i, ol_orchestration_run_id = run_id, ol_node_execution_id = node_execution_id,
             ol_agent_run_id = agent_run_id, ol_dispatch_idempotency_key = key, ol_created_at = clock\<rparr> d of
        Inl e \<Rightarrow> (Inl (PDatabase e), d)
      | Inr d1 \<Rightarrow>
          (case find (\<lambda>r. ol_dispatch_idempotency_key r = key) (db_links d1) of
             None \<Rightarrow> (Inl (PDatabase DbRowNotFound), d1)
           | Some existing \<Rightarrow>
               if ol_orchestration_run_id existing \<noteq> run_id \<or> ol_node_execution_id existing \<noteq> node_execution_id \<or>
                  ol_agent_run_id existing \<noteq> agent_run_id \<or> ol_id existing \<noteq> i
               then (Inl (PIdempotencyConflict ''orchestration agent run link'' key), d1)
               else (Inr (ol_id existing), d1)))"

section \<open>The log and its projection\<close>

definition run_log :: "uuid \<Rightarrow> 'v db \<Rightarrow> 'v OrchestrationEventEnvelope list" where
  "run_log run_id d = map oev_event_envelope (filter (\<lambda>r. oev_orchestration_run_id r = run_id) (db_events d))"

definition initial_state :: "'v OrchestrationRunRecord \<Rightarrow> OrchestrationState" where
  "initial_state run = orchestration_pending (or_id run) (pl_created_at (or_plan_snapshot run))"

text \<open>A run row and its state row are the projection of the log of the run, and the reducer has applied
  every event of the log.\<close>

definition projected ::
  "'v OrchestrationRunRecord \<Rightarrow> OrchestrationStateRecord \<Rightarrow> 'v OrchestrationEventEnvelope list \<Rightarrow> bool" where
  "projected run st es \<longleftrightarrow>
     ost_orchestration_run_id st = or_id run \<and>
     ost_state_json st = deliver reduce_orchestration_event (initial_state run) es \<and>
     applied reduce_orchestration_event ODuplicate (initial_state run) es = es \<and>
     ost_status st = os_status (ost_state_json st) \<and> or_status run = os_status (ost_state_json st) \<and>
     ost_projection_status st = os_projection_status (ost_state_json st) \<and>
     or_projection_status run = os_projection_status (ost_state_json st) \<and>
     ost_last_event_sequence st = int (unat (os_last_event_sequence (ost_state_json st))) \<and>
     ost_last_event_id st = os_last_event_id (ost_state_json st)"

definition event_row_ok :: "'v OrchestrationEventRecord \<Rightarrow> bool" where
  "event_row_ok r \<longleftrightarrow>
     oev_event_id r = oe_event_id (oev_event_envelope r) \<and>
     oev_orchestration_run_id r = oe_orchestration_run_id (oev_event_envelope r) \<and>
     oev_sequence r = int (unat (oe_sequence (oev_event_envelope r)))"

definition log_ok :: "'v db \<Rightarrow> bool" where
  "log_ok d \<longleftrightarrow>
     distinct (map or_id (db_runs d)) \<and> distinct (map or_idempotency_key (db_runs d)) \<and>
     distinct (map oev_event_id (db_events d)) \<and> list_all event_row_ok (db_events d) \<and>
     oev_orchestration_run_id ` set (db_events d) \<subseteq> or_id ` set (db_runs d) \<and>
     list_all2 (\<lambda>run st. projected run st (run_log (or_id run) d)) (db_runs d) (db_states d)"

lemma projected_empty: "projected (new_run_row i rid key cor plan clock)
    (new_state_row (orchestration_pending i (pl_created_at plan)) clock) []"
  by (simp add: projected_def new_run_row_def new_state_row_def initial_state_def orchestration_pending_def)

lemma log_ok_states: "log_ok d \<Longrightarrow> map ost_orchestration_run_id (db_states d) = map or_id (db_runs d)"
proof -
  have "list_all2 (\<lambda>run st. projected run st (run_log (or_id run) d)) rs ss \<Longrightarrow>
      map ost_orchestration_run_id ss = map or_id rs" for rs ss
    by (induction rule: list_all2_induct) (auto simp: projected_def)
  then show "log_ok d \<Longrightarrow> ?thesis" by (auto simp: log_ok_def)
qed

lemma log_ok_distinct_states: "log_ok d \<Longrightarrow> distinct (map ost_orchestration_run_id (db_states d))"
  using log_ok_states by (force simp: log_ok_def)

lemma log_ok_run:
  assumes "log_ok d" "run \<in> set (db_runs d)"
  obtains st where "st \<in> set (db_states d)" "projected run st (run_log (or_id run) d)"
  using assms by (auto simp: log_ok_def list_all2_conv_all_nth in_set_conv_nth) metis

lemma log_ok_cong:
  "db_runs d' = db_runs d \<Longrightarrow> db_events d' = db_events d \<Longrightarrow> db_states d' = db_states d \<Longrightarrow>
     log_ok d' = log_ok d"
  by (simp add: log_ok_def run_log_def)

lemma deliver_snoc: "deliver reduce s (xs @ [x]) = fst (reduce (deliver reduce s xs) x)"
  by (simp add: deliver_append)

lemma applied_append:
  "applied reduce dup s (xs @ ys) = applied reduce dup s xs @ applied reduce dup (deliver reduce s xs) ys"
  by (induction xs arbitrary: s) (auto split: prod.splits)

lemma length_applied: "length (applied reduce dup s xs) \<le> length xs"
  by (induction xs arbitrary: s) (auto simp: le_SucI split: prod.splits sum.splits)

lemma applied_all_snoc:
  assumes "applied reduce dup s (xs @ [x]) = xs @ [x]"
  shows "applied reduce dup s xs = xs" "applied reduce dup (deliver reduce s xs) [x] = [x]"
proof -
  let ?a = "applied reduce dup s xs" and ?b = "applied reduce dup (deliver reduce s xs) [x]"
  have ab: "?a @ ?b = xs @ [x]" using assms by (simp add: applied_append)
  moreover from ab have "length ?a + length ?b = Suc (length xs)" by (metis length_append length_append_singleton)
  ultimately have "length ?a = length xs"
    using length_applied [of reduce dup s xs] length_applied [of reduce dup "deliver reduce s xs" "[x]"] by simp
  with ab show "?a = xs" "?b = [x]" by (auto simp del: applied.simps)
qed

text \<open>The state of a log that was applied in full names the last event of the log.\<close>

lemma log_last_event:
  assumes "applied reduce_orchestration_event ODuplicate s es = es" "es \<noteq> []"
  shows "os_last_event_id (deliver reduce_orchestration_event s es) = Some (oe_event_id (last es))"
proof -
  from assms(2) obtain xs e where es: "es = xs @ [e]" by (metis rev_exhaust)
  let ?s = "deliver reduce_orchestration_event s xs"
  obtain s' r where red: "reduce_orchestration_event ?s e = (s', r)" by (cases "reduce_orchestration_event ?s e")
  with applied_all_snoc(2) [of reduce_orchestration_event ODuplicate s xs e] assms(1)
  obtain a where "r = Inr a" "a \<noteq> ODuplicate" by (auto simp: es split: sum.splits if_splits)
  with reduce_orchestration_outcome [OF red] have "commit_orchestration_event ?s e = (s', a)" by auto
  from commit_orchestration_event_facts(5) [OF this] red show ?thesis by (simp add: es deliver_append)
qed

lemma insert_run_ok:
  "insert_run r d = Inr d' \<longleftrightarrow>
     \<not> sql_blank (or_idempotency_key r) \<and> 0 < or_plan_schema_version r \<and>
     (\<forall>x \<in> set (db_runs d). or_id x \<noteq> or_id r \<and> or_request_id x \<noteq> or_request_id r \<and>
        or_idempotency_key x \<noteq> or_idempotency_key r) \<and>
     d' = d\<lparr>db_runs := db_runs d @ [r]\<rparr>"
  by (auto simp: insert_run_def list_ex_iff)

lemma insert_state_ok:
  "insert_state r d = Inr d' \<longleftrightarrow>
     (\<forall>x \<in> set (db_states d). ost_orchestration_run_id x \<noteq> ost_orchestration_run_id r) \<and>
     d' = d\<lparr>db_states := db_states d @ [r]\<rparr>"
  by (auto simp: insert_state_def list_ex_iff)

lemma insert_event_ok:
  "insert_event r d = Inr d' \<Longrightarrow>
     oev_event_id r \<notin> oev_event_id ` set (db_events d) \<and>
     oev_orchestration_run_id r \<in> or_id ` set (db_runs d) \<and> 0 < oev_sequence r \<and>
     d' = d\<lparr>db_events := db_events d @ [r]\<rparr>"
  by (auto simp: insert_event_def list_ex_iff image_iff split: if_splits) metis

lemma persist_before_dispatch_cases:
  assumes "persist_before_dispatch i rid key cor plan clock d = (res, d')"
  shows "d' = d \<or> (res = Inr i \<and> (\<forall>x \<in> set (db_runs d). or_id x \<noteq> i \<and> or_idempotency_key x \<noteq> key) \<and>
    d' = d\<lparr>db_runs := db_runs d @ [new_run_row i rid key cor plan clock],
      db_states := db_states d @ [new_state_row (orchestration_pending i (pl_created_at plan)) clock]\<rparr>)"
  using assms
  by (auto simp: persist_before_dispatch_def transaction_def result_simps insert_run_ok insert_state_ok
      new_run_row_def split: sum.splits option.splits if_splits)

lemma log_ok_persist_before_dispatch:
  assumes "log_ok d" "persist_before_dispatch i rid key cor plan clock d = (res, d')"
  shows "log_ok d'"
  using persist_before_dispatch_cases [OF assms(2)]
proof (elim disjE conjE)
  assume fresh: "\<forall>x \<in> set (db_runs d). or_id x \<noteq> i \<and> or_idempotency_key x \<noteq> key"
    and d': "d' = d\<lparr>db_runs := db_runs d @ [new_run_row i rid key cor plan clock],
      db_states := db_states d @ [new_state_row (orchestration_pending i (pl_created_at plan)) clock]\<rparr>"
  from assms(1) fresh have "run_log i d = []"
    by (force simp: log_ok_def run_log_def filter_empty_conv)
  moreover have "run_log j d' = run_log j d" for j by (simp add: d' run_log_def)
  moreover have row: "or_id (new_run_row i rid key cor plan clock) = i"
      "or_idempotency_key (new_run_row i rid key cor plan clock) = key"
    by (simp_all add: new_run_row_def)
  ultimately have "list_all2 (\<lambda>run st. projected run st (run_log (or_id run) d')) (db_runs d') (db_states d')"
    using assms(1) projected_empty [of i rid key cor plan clock]
    by (auto simp: d' log_ok_def intro!: list_all2_appendI)
  then show ?thesis using assms(1) fresh row by (auto simp: log_ok_def d')
qed (use assms(1) in simp)

lemma append_cases:
  assumes "append_and_project_in_transaction env clock e d = Inr (a, d')"
  shows "(a = ODuplicate \<and> d' = d \<and> (\<exists>r \<in> set (db_events d). oev_event_envelope r = e)) \<or>
    (\<exists>row s. oe_event_id e \<notin> oev_event_id ` set (db_events d) \<and>
       oe_orchestration_run_id e \<in> or_id ` set (db_runs d) \<and>
       find (\<lambda>r. ost_orchestration_run_id r = oe_orchestration_run_id e) (db_states d) = Some row \<and>
       reduce_orchestration_event (ost_state_json row) e = (s, Inr a) \<and>
       d' = store_projection env (oe_orchestration_run_id e) (int (unat (oe_sequence e))) s
         (d\<lparr>db_events := db_events d @ [event_row (int (unat (oe_sequence e))) e clock]\<rparr>))"
proof -
  from assms obtain n where n: "i64_of_u64 (oe_sequence e) = Some n"
    by (auto simp: append_and_project_in_transaction_def result_simps)
  then have n_eq: "n = int (unat (oe_sequence e))" by (auto simp: i64_of_u64_def split: if_splits)
  let ?by_id = "find (\<lambda>r. oev_event_id r = oe_event_id e) (db_events d)"
  let ?by_seq = "find (\<lambda>r. oev_orchestration_run_id r = oe_orchestration_run_id e \<and> oev_sequence r = n) (db_events d)"
  have known: ?thesis if "?by_id = Some r \<or> (?by_id = None \<and> ?by_seq = Some r)" for r
  proof -
    from that assms n have "a = ODuplicate" "d' = d" "oev_event_envelope r = e"
      by (auto simp: append_and_project_in_transaction_def result_simps split: if_splits)
    with that find_SomeD [of _ "db_events d" r] show ?thesis by blast
  qed
  show ?thesis
  proof (cases "?by_id = None \<and> ?by_seq = None")
    case True
    with assms n obtain row s d1 where
      row: "find (\<lambda>r. ost_orchestration_run_id r = oe_orchestration_run_id e) (db_states d) = Some row"
      and red: "reduce_orchestration_event (ost_state_json row) e = (s, Inr a)"
      and ins: "insert_event (event_row n e clock) d = Inr d1"
      and d': "d' = store_projection env (oe_orchestration_run_id e) n s d1"
      by (auto simp: append_and_project_in_transaction_def result_simps
          split: option.splits if_splits prod.splits sum.splits)
    from insert_event_ok [OF ins] row red d' show ?thesis
      by (intro disjI2 exI [of _ row] exI [of _ s]) (simp add: n_eq event_row_def)
  next
    case False
    with known show ?thesis by (cases ?by_id; cases ?by_seq) auto
  qed
qed

lemma projected_step:
  assumes "projected run st es" "reduce_orchestration_event (ost_state_json st) e = (s, Inr a)" "a \<noteq> ODuplicate"
    and "ost_orchestration_run_id st' = ost_orchestration_run_id st" "ost_state_json st' = s"
    and "ost_status st' = os_status s" "ost_projection_status st' = os_projection_status s"
    and "ost_last_event_sequence st' = int (unat (oe_sequence e))" "ost_last_event_id st' = os_last_event_id s"
    and "or_id run' = or_id run" "or_plan_snapshot run' = or_plan_snapshot run"
    and "or_status run' = os_status s" "or_projection_status run' = os_projection_status s"
  shows "projected run' st' (es @ [e])"
proof -
  from reduce_orchestration_outcome [OF assms(2)] assms(3)
  have "commit_orchestration_event (ost_state_json st) e = (s, a)" by auto
  from commit_orchestration_event_facts(4) [OF this] have "os_last_event_sequence s = oe_sequence e" .
  with assms show ?thesis
    by (simp add: projected_def initial_state_def deliver_append applied_append)
qed

lemma log_ok_not_duplicate:
  assumes "log_ok d" "run \<in> set (db_runs d)" "projected run st (run_log (or_id run) d)"
    and "oe_event_id e \<notin> oev_event_id ` set (db_events d)"
    and "reduce_orchestration_event (ost_state_json st) e = (s, Inr a)"
  shows "a \<noteq> ODuplicate"
proof
  assume "a = ODuplicate"
  have "snd (commit_orchestration_event (ost_state_json st) e) \<noteq> ODuplicate"
    by (rule commit_orchestration_event_facts(3) [OF surjective_pairing])
  moreover have "orchestration_admitted (ost_state_json st) e"
    using reduce_orchestration_not_admitted assms(5) by fastforce
  ultimately have "os_last_event_id (ost_state_json st) = Some (oe_event_id e)"
    using assms(5) \<open>a = ODuplicate\<close> by (auto simp: reduce_orchestration_admitted split: if_splits)
  moreover from assms(3) have proj: "ost_state_json st = deliver reduce_orchestration_event (initial_state run) (run_log (or_id run) d)"
      "applied reduce_orchestration_event ODuplicate (initial_state run) (run_log (or_id run) d) = run_log (or_id run) d"
    by (simp_all add: projected_def)
  ultimately have "run_log (or_id run) d \<noteq> []" by (auto simp: initial_state_def orchestration_pending_def)
  with log_last_event [OF proj(2)] proj(1) \<open>os_last_event_id _ = _\<close>
  have "oe_event_id e = oe_event_id (last (run_log (or_id run) d))" "last (run_log (or_id run) d) \<in> set (run_log (or_id run) d)"
    by auto
  moreover have "oe_event_id ` set (run_log (or_id run) d) \<subseteq> oev_event_id ` set (db_events d)"
    using assms(1) by (auto simp: log_ok_def run_log_def event_row_ok_def list_all_iff)
  ultimately show False using assms(4) by auto
qed

lemma log_ok_append:
  assumes "log_ok d" "append_and_project_in_transaction env clock e d = Inr (a, d')"
  shows "log_ok d'"
  using append_cases [OF assms(2)]
proof (elim disjE exE conjE)
  fix row s
  let ?run = "oe_orchestration_run_id e" and ?n = "int (unat (oe_sequence e))"
  assume fresh: "oe_event_id e \<notin> oev_event_id ` set (db_events d)" and run: "?run \<in> or_id ` set (db_runs d)"
    and row: "find (\<lambda>r. ost_orchestration_run_id r = ?run) (db_states d) = Some row"
    and red: "reduce_orchestration_event (ost_state_json row) e = (s, Inr a)"
    and d': "d' = store_projection env ?run ?n s (d\<lparr>db_events := db_events d @ [event_row ?n e clock]\<rparr>)"
  have logs: "run_log j d' = (if j = ?run then run_log j d @ [e] else run_log j d)" for j
    by (simp add: d' store_projection_def run_log_def event_row_def)
  define f where "f = (\<lambda>x :: 'a OrchestrationRunRecord. if or_id x = ?run then x\<lparr>or_status := os_status s,
      or_projection_status := os_projection_status s, or_updated_at := sql_bind env (os_updated_at s)\<rparr> else x)"
  define g where "g = (\<lambda>y :: OrchestrationStateRecord. if ost_orchestration_run_id y = ?run then y\<lparr>ost_last_event_sequence := ?n,
      ost_last_event_id := os_last_event_id s, ost_status := os_status s,
      ost_projection_status := os_projection_status s, ost_state_json := s,
      ost_updated_at := sql_bind env (os_updated_at s)\<rparr> else y)"
  have rows: "db_runs d' = map f (db_runs d)" "db_states d' = map g (db_states d)"
    by (simp_all add: d' store_projection_def update_where_def f_def g_def)
  have step: "projected (f x) (g y) (run_log (or_id (f x)) d')"
    if "x \<in> set (db_runs d)" "y \<in> set (db_states d)" "projected x y (run_log (or_id x) d)" for x y
  proof (cases "or_id x = ?run")
    case True
    with that(3) have y: "ost_orchestration_run_id y = ?run" by (simp add: projected_def)
    with find_distinct [OF log_ok_distinct_states [OF assms(1)] that(2) y] row have "y = row" by simp
    with red have red': "reduce_orchestration_event (ost_state_json y) e = (s, Inr a)" by simp
    have "projected (f x) (g y) (run_log (or_id x) d @ [e])"
      by (rule projected_step [OF that(3) red' log_ok_not_duplicate [OF assms(1) that(1,3) fresh red']])
         (simp_all add: f_def g_def True y)
    with True show ?thesis by (simp add: logs f_def)
  next
    case False
    with that(3) have "ost_orchestration_run_id y \<noteq> ?run" by (simp add: projected_def)
    with False that(3) show ?thesis by (simp add: logs f_def g_def)
  qed
  have "list_all2 (\<lambda>run st. projected run st (run_log (or_id run) d')) (db_runs d') (db_states d')"
    unfolding rows list_all2_map1 list_all2_map2
    using assms(1) step by (auto simp: log_ok_def elim!: list.rel_mono_strong)
  moreover have "map or_id (db_runs d') = map or_id (db_runs d)"
      "map or_idempotency_key (db_runs d') = map or_idempotency_key (db_runs d)"
    by (simp_all add: d' store_projection_def map_update_where)
  moreover from this(1) have "or_id ` set (db_runs d') = or_id ` set (db_runs d)" by (metis set_map)
  ultimately show ?thesis using assms(1) fresh run
    by (auto simp: log_ok_def d' store_projection_def event_row_def event_row_ok_def)
qed (use assms(1) in simp)

section \<open>An example database\<close>

text \<open>A run with an execution of node \<open>a\<close>, linked to an agent run, and three executions of node \<open>b\<close>, which consumes \<open>a\<close>
  as a serial \<open>each\<close> join.\<close>

definition sample_plan_node :: "string \<Rightarrow> string list \<Rightarrow> json_lit OrchestrationPlanNode" where
  "sample_plan_node key deps = \<lparr>pn_node_key = key, pn_stable_order = 0, pn_dependencies = deps, pn_join = JoinEach,
     pn_failure_policy = FailFast, pn_remaining_upstreams = ContinueRemaining,
     pn_each_downstream_execution = EachSerial, pn_retry = default_retry_policy,
     pn_runtime_profile_id = None, pn_provider_id = None, pn_provider_config = None\<rparr>"

definition sample_plan :: "json_lit OrchestrationPlanSnapshot" where
  "sample_plan = \<lparr>pl_schema_version = 1, pl_plan_id = 50, pl_source_definition_id = 51,
     pl_source_definition_version = ''1'', pl_product_kind = ProductWorkflow,
     pl_workspace_mode = SharedWorkspace,
     pl_nodes = [sample_plan_node ''a'' [], sample_plan_node ''b'' [''a'']], pl_created_at = 0\<rparr>"

definition sample_agent_event :: "json_lit AgentEventEnvelope" where
  "sample_agent_event = (sample_event 1 9 (AELifecycleChanged ASucceeded))\<lparr>
     ae_orchestration_run_id := Some 1, ae_orchestration_node_execution_id := Some 10\<rparr>"

definition sample_db :: "json_lit db" where
  "sample_db =
     snd (persist_link 40 1 10 3 ''dispatch'' ''1''
     (snd (persist_identity_before_dispatch unary_env 31 1 ''b'' 2 1 ''1''
     (snd (persist_identity_before_dispatch unary_env 30 1 ''b'' 1 1 ''1''
     (snd (persist_identity_before_dispatch unary_env 20 1 ''b'' 0 1 ''1''
     (snd (persist_identity_before_dispatch unary_env 10 1 ''a'' 0 0 ''1''
     (snd (persist_before_dispatch 1 2 ''start'' 5 sample_plan ''1''
       (empty_db\<lparr>db_agent_runs := [3], db_agent_turns := [],
         db_agent_events := [\<lparr>aev_event_id = 9, aev_agent_run_id = 3, aev_event_envelope = sample_agent_event\<rparr>],
         db_agent_states := []\<rparr>))))))))))))"

definition sample_command :: "string \<Rightarrow> uuid \<Rightarrow> json_lit AgentRunPortCommandEnvelope" where
  "sample_command key i = \<lparr>ce_schema_version = 1, ce_command_id = i, ce_idempotency_key = key, ce_agent_run_id = 3,
     ce_orchestration_run_id = Some 1, ce_orchestration_node_execution_id = Some 10, ce_correlation_id = 5,
     ce_created_at = 0, ce_command = CmdCancel ''stop''\<rparr>"

end
