(* ===== verification/Leases.thy ===== *)
theory Leases
  imports Event_Store
begin

text \<open>
  The leases of \<open>crates/db/src/models/orchestration.rs\<close>: one row per resource, with an owner, an expiry and a fencing
  token. Expiry is compared as text, as the statement does.
\<close>

section \<open>Leases\<close>

definition lease_reconcile_startup :: "'v db \<Rightarrow> nat \<times> 'v db" where
  "lease_reconcile_startup d = (length (db_leases d), d\<lparr>db_leases := []\<rparr>)"

definition lease_of :: "string \<Rightarrow> uuid \<Rightarrow> OrchestrationLeaseRecord \<Rightarrow> bool" where
  "lease_of kind i r \<longleftrightarrow> le_resource_kind r = kind \<and> le_resource_id r = i"

definition LEASE_KINDS :: "string list" where
  "LEASE_KINDS = [''dispatcher'', ''inbox_consumer'', ''reconciler'', ''each_queue'']"

text \<open>The upsert of \<open>acquire\<close> with its bound parameters; the result is \<open>rows_affected() == 1\<close>.\<close>

definition upsert_lease ::
  "string \<Rightarrow> uuid \<Rightarrow> string \<Rightarrow> sql_text \<Rightarrow> sql_text \<Rightarrow> 'v db \<Rightarrow> bool \<times> 'v db" where
  "upsert_lease kind i owner now_text expires d =
     (let available = (\<lambda>r. lease_of kind i r \<and> (le_expires_at r \<le> now_text \<or> le_owner_id r = owner))
      in if list_ex (lease_of kind i) (db_leases d)
         then (rows_affected available (db_leases d) = 1,
               d\<lparr>db_leases := update_where available
                 (\<lambda>r. r\<lparr>le_owner_id := owner, le_fencing_token := le_fencing_token r + 1, le_expires_at := expires,
                        le_updated_at := now_text\<rparr>) (db_leases d)\<rparr>)
         else (True, d\<lparr>db_leases := db_leases d @ [\<lparr>le_resource_kind = kind, le_resource_id = i,
                 le_owner_id = owner, le_fencing_token = 1, le_acquired_at = now_text, le_expires_at = expires,
                 le_updated_at = now_text\<rparr>]\<rparr>))"

definition acquire ::
  "sql_env \<Rightarrow> string \<Rightarrow> uuid \<Rightarrow> string \<Rightarrow> datetime \<Rightarrow> datetime \<Rightarrow> 'v db \<Rightarrow>
   (OrchestrationPersistenceError + bool) \<times> 'v db" where
  "acquire env kind i owner now ttl d =
     (if kind \<notin> set LEASE_KINDS then (Inl (PDatabase (DbCheck ''orchestration_leases'')), d)
      else case upsert_lease kind i owner (sql_bind env now) (sql_bind env (now + ttl)) d of
             (b, d') \<Rightarrow> (Inr b, d'))"

definition release :: "string \<Rightarrow> uuid \<Rightarrow> string \<Rightarrow> 'v db \<Rightarrow> bool \<times> 'v db" where
  "release kind i owner d =
     (let held = (\<lambda>r. lease_of kind i r \<and> le_owner_id r = owner)
      in (rows_affected held (db_leases d) = 1, d\<lparr>db_leases := filter (\<lambda>r. \<not> held r) (db_leases d)\<rparr>))"

section \<open>The contract of a lease\<close>

text \<open>A sequence of lease calls by any owners, on any resources.\<close>

datatype ('k, 'o, 't) lease_op = OpAcquire 'k 'o 't 't | OpRelease 'k 'o

fun op_resource :: "('k, 'o, 't) lease_op \<Rightarrow> 'k" where
  "op_resource (OpAcquire k _ _ _) = k"
| "op_resource (OpRelease k _) = k"

fun op_owner :: "('k, 'o, 't) lease_op \<Rightarrow> 'o" where
  "op_owner (OpAcquire _ ow _ _) = ow"
| "op_owner (OpRelease _ ow) = ow"

fun op_before :: "'t::linorder \<Rightarrow> ('k, 'o, 't) lease_op \<Rightarrow> bool" where
  "op_before x (OpAcquire _ _ now _) = (now < x)"
| "op_before x (OpRelease _ _) = True"

fun run_lease_ops ::
  "('k \<Rightarrow> 'o \<Rightarrow> 't \<Rightarrow> 't \<Rightarrow> 'd \<Rightarrow> bool \<times> 'd) \<Rightarrow> ('k \<Rightarrow> 'o \<Rightarrow> 'd \<Rightarrow> bool \<times> 'd) \<Rightarrow> ('k, 'o, 't) lease_op list \<Rightarrow>
   'd \<Rightarrow> bool list \<times> 'd" where
  "run_lease_ops acq rel [] d = ([], d)"
| "run_lease_ops acq rel (p # ps) d =
     (let (b, d1) = (case p of OpAcquire k ow now t \<Rightarrow> acq k ow now t d | OpRelease k ow \<Rightarrow> rel k ow d);
          (bs, d2) = run_lease_ops acq rel ps d1
      in (b # bs, d2))"

locale lease_contract =
  fixes ok :: "'d \<Rightarrow> bool"
    and holder :: "'d \<Rightarrow> 'k \<Rightarrow> ('o \<times> 't::linorder) option"
    and acq :: "'k \<Rightarrow> 'o \<Rightarrow> 't \<Rightarrow> 't \<Rightarrow> 'd \<Rightarrow> bool \<times> 'd"
    and rel :: "'k \<Rightarrow> 'o \<Rightarrow> 'd \<Rightarrow> bool \<times> 'd"
  assumes acq_ok: "ok d \<Longrightarrow> ok (snd (acq k ow now t d))"
    and rel_ok: "ok d \<Longrightarrow> ok (snd (rel k ow d))"
    and acq_granted: "ok d \<Longrightarrow> acq k ow now t d = (True, d') \<Longrightarrow> holder d' k = Some (ow, t)"
    and acq_refused: "ok d \<Longrightarrow> holder d k = Some (ow', x) \<Longrightarrow> ow' \<noteq> ow \<Longrightarrow> now < x \<Longrightarrow> acq k ow now t d = (False, d)"
    and rel_refused: "ok d \<Longrightarrow> holder d k = Some (ow', x) \<Longrightarrow> ow' \<noteq> ow \<Longrightarrow> rel k ow d = (False, d)"
    and acq_frame: "ok d \<Longrightarrow> k' \<noteq> k \<Longrightarrow> holder (snd (acq k ow now t d)) k' = holder d k'"
    and rel_frame: "ok d \<Longrightarrow> k' \<noteq> k \<Longrightarrow> holder (snd (rel k ow d)) k' = holder d k'"
begin

lemma held_until_expiry:
  assumes "ok d" "holder d k = Some (ow, x)"
    and "\<And>p. p \<in> set ps \<Longrightarrow> op_resource p = k \<Longrightarrow> op_owner p \<noteq> ow \<and> op_before x p"
    and "run_lease_ops acq rel ps d = (bs, d')"
  shows "holder d' k = Some (ow, x) \<and> (\<forall>(p, b) \<in> set (zip ps bs). op_resource p = k \<longrightarrow> \<not> b)"
  using assms
proof (induction ps arbitrary: d bs)
  case (Cons p ps)
  obtain b d1 where step: "(case p of OpAcquire k ow now t \<Rightarrow> acq k ow now t d | OpRelease k ow \<Rightarrow> rel k ow d) = (b, d1)"
    by fastforce
  obtain cs where cs: "run_lease_ops acq rel ps d1 = (cs, d')" and bs: "bs = b # cs"
    using Cons.prems(4) step by (cases "run_lease_ops acq rel ps d1") auto
  have here: "ok d1 \<and> holder d1 k = Some (ow, x) \<and> (op_resource p = k \<longrightarrow> \<not> b)"
  proof (cases p)
    case (OpAcquire k' ow' now t)
    with step have acq: "acq k' ow' now t d = (b, d1)" by simp
    show ?thesis
    proof (cases "k' = k")
      case True
      with Cons.prems(3) [of p] OpAcquire have "ow' \<noteq> ow" "now < x" by auto
      with acq_refused [OF Cons.prems(1,2)] acq True Cons.prems show ?thesis by auto
    next
      case False
      with acq acq_ok [OF Cons.prems(1), of k' ow' now t] acq_frame [OF Cons.prems(1), of k k' ow' now t] Cons.prems(2) OpAcquire
      show ?thesis by auto
    qed
  next
    case (OpRelease k' ow')
    with step have rel: "rel k' ow' d = (b, d1)" by simp
    show ?thesis
    proof (cases "k' = k")
      case True
      with Cons.prems(3) [of p] OpRelease have "ow' \<noteq> ow" by auto
      with rel_refused [OF Cons.prems(1,2)] rel True Cons.prems show ?thesis by auto
    next
      case False
      with rel rel_ok [OF Cons.prems(1), of k' ow'] rel_frame [OF Cons.prems(1), of k k' ow'] Cons.prems(2) OpRelease
      show ?thesis by auto
    qed
  qed
  with Cons.IH [of d1 cs] Cons.prems(3) cs have "holder d' k = Some (ow, x) \<and>
      (\<forall>(p, b) \<in> set (zip ps cs). op_resource p = k \<longrightarrow> \<not> b)" by simp
  with here show ?case by (auto simp: bs)
qed simp

end

section \<open>The lease table keeps the contract\<close>

definition lease_key :: "OrchestrationLeaseRecord \<Rightarrow> string \<times> uuid" where
  "lease_key r = (le_resource_kind r, le_resource_id r)"

definition lease_ok :: "'v db \<Rightarrow> bool" where
  "lease_ok d \<longleftrightarrow> distinct (map lease_key (db_leases d))"

definition lease_holder :: "'v db \<Rightarrow> string \<times> uuid \<Rightarrow> (string \<times> sql_text) option" where
  "lease_holder d k = map_option (\<lambda>r. (le_owner_id r, le_expires_at r)) (find (\<lambda>r. lease_key r = k) (db_leases d))"

lemma lease_of_key: "lease_of kind i = (\<lambda>r. lease_key r = (kind, i))"
  by (auto simp: lease_of_def lease_key_def)

lemma find_update_where:
  "(\<And>r. P r \<Longrightarrow> k (f r) = k r) \<Longrightarrow>
     find (\<lambda>r. k r = x) (update_where P f rows) = map_option (\<lambda>r. if P r then f r else r) (find (\<lambda>r. k r = x) rows)"
  by (induction rows) (auto simp: update_where_def)

lemma find_filter_other:
  "(\<And>r. r \<in> set rows \<Longrightarrow> Q r \<Longrightarrow> P r) \<Longrightarrow> find Q (filter P rows) = find Q rows"
  by (induction rows) auto

abbreviation renewed :: "string \<Rightarrow> sql_text \<Rightarrow> sql_text \<Rightarrow> OrchestrationLeaseRecord \<Rightarrow> OrchestrationLeaseRecord" where
  "renewed ow now t r \<equiv> r\<lparr>le_owner_id := ow, le_fencing_token := le_fencing_token r + 1, le_expires_at := t,
     le_updated_at := now\<rparr>"

lemma lease_key_renewed [simp]: "lease_key (renewed ow now t r) = lease_key r"
  by (simp add: lease_key_def)

lemma upsert_lease_free:
  assumes "lease_holder d (kind, i) = None"
  shows "upsert_lease kind i ow now t d = (True, d\<lparr>db_leases := db_leases d @ [\<lparr>le_resource_kind = kind,
    le_resource_id = i, le_owner_id = ow, le_fencing_token = 1, le_acquired_at = now, le_expires_at = t,
    le_updated_at = now\<rparr>]\<rparr>)"
  using assms by (auto simp: lease_holder_def find_None upsert_lease_def Let_def lease_of_key list_ex_iff)

lemma upsert_lease_held:
  assumes "lease_ok d" "lease_holder d (kind, i) = Some (ow', x)"
  shows "upsert_lease kind i ow now t d =
    (if x \<le> now \<or> ow' = ow
     then (True, d\<lparr>db_leases := update_where (\<lambda>r. lease_key r = (kind, i)) (renewed ow now t) (db_leases d)\<rparr>)
     else (False, d))"
proof -
  from assms(2) obtain r where r: "find (\<lambda>r. lease_key r = (kind, i)) (db_leases d) = Some r"
    "le_owner_id r = ow'" "le_expires_at r = x" by (auto simp: lease_holder_def)
  from find_SomeD [OF r(1)] have mem: "r \<in> set (db_leases d)" "lease_key r = (kind, i)" by auto
  have only: "s = r" if "s \<in> set (db_leases d)" "lease_key s = (kind, i)" for s
    using find_distinct [of lease_key "db_leases d" s "(kind, i)"] assms(1) that r(1) by (simp add: lease_ok_def)
  let ?P = "\<lambda>s. le_expires_at s \<le> now \<or> le_owner_id s = ow"
  have "list_ex (lease_of kind i) (db_leases d)" using mem by (auto simp: list_ex_iff lease_of_key)
  moreover have "rows_affected (\<lambda>s. lease_key s = (kind, i) \<and> ?P s) (db_leases d) = (if ?P r then 1 else 0)"
  proof -
    have "rows_affected (\<lambda>s. lease_key s = (kind, i) \<and> ?P s) (db_leases d) =
        (if \<exists>s \<in> set (db_leases d). lease_key s = (kind, i) \<and> ?P s then 1 else 0)"
      using assms(1) unfolding lease_ok_def by (rule rows_affected_one)
    moreover have "(\<exists>s \<in> set (db_leases d). lease_key s = (kind, i) \<and> ?P s) = ?P r" using mem only by blast
    ultimately show ?thesis by simp
  qed
  moreover have "update_where (\<lambda>s. lease_key s = (kind, i) \<and> ?P s) (renewed ow now t) (db_leases d) =
      (if ?P r then update_where (\<lambda>s. lease_key s = (kind, i)) (renewed ow now t) (db_leases d) else db_leases d)"
  proof (cases "?P r")
    case True
    with only have "\<And>s. s \<in> set (db_leases d) \<Longrightarrow> (lease_key s = (kind, i) \<and> ?P s) = (lease_key s = (kind, i))" by blast
    with True show ?thesis by (simp add: update_where_def)
  next
    case False
    with only have "\<And>s. s \<in> set (db_leases d) \<Longrightarrow> \<not> (lease_key s = (kind, i) \<and> ?P s)" by blast
    from update_where_none [OF this] False show ?thesis by simp
  qed
  ultimately show ?thesis by (simp add: upsert_lease_def Let_def lease_of_key r)
qed

lemma lease_ok_upsert:
  assumes "lease_ok d"
  shows "lease_ok (snd (upsert_lease kind i ow now t d))"
proof (cases "lease_holder d (kind, i)")
  case None
  then have "\<forall>r \<in> set (db_leases d). lease_key r \<noteq> (kind, i)" by (simp add: lease_holder_def find_None)
  with assms show ?thesis by (auto simp: upsert_lease_free [OF None] lease_ok_def lease_key_def)
next
  case (Some p)
  obtain ow' x where "p = (ow', x)" by (cases p)
  with Some have "lease_holder d (kind, i) = Some (ow', x)" by simp
  from upsert_lease_held [OF assms this] assms show ?thesis by (simp add: lease_ok_def map_update_where)
qed

lemma lease_holder_update:
  "(\<And>r. lease_key (f r) = lease_key r) \<Longrightarrow>
     lease_holder (d\<lparr>db_leases := update_where (\<lambda>r. lease_key r = k) f (db_leases d)\<rparr>) k' =
     (if k' = k then map_option (\<lambda>r. (le_owner_id (f r), le_expires_at (f r))) (find (\<lambda>r. lease_key r = k) (db_leases d))
      else lease_holder d k')"
  by (auto simp: lease_holder_def find_update_where option.map_comp comp_def find_Some_iff intro!: option.map_cong0)

lemma lease_holder_upsert:
  assumes "lease_ok d"
  shows "lease_holder (snd (upsert_lease kind i ow now t d)) k =
    (if k = (kind, i) \<and> fst (upsert_lease kind i ow now t d) then Some (ow, t) else lease_holder d k)"
proof (cases "lease_holder d (kind, i)")
  case None
  then have none: "find (\<lambda>r. lease_key r = (kind, i)) (db_leases d) = None" by (simp add: lease_holder_def)
  show ?thesis
    using none
    by (cases "k = (kind, i)") (auto simp: upsert_lease_free [OF None] lease_holder_def find_append lease_key_def
        split: option.splits)
next
  case (Some p)
  obtain ow' x where p: "p = (ow', x)" by (cases p)
  with Some have held: "lease_holder d (kind, i) = Some (ow', x)" by simp
  then obtain r where "find (\<lambda>r. lease_key r = (kind, i)) (db_leases d) = Some r" by (auto simp: lease_holder_def)
  with upsert_lease_held [OF assms held, of ow now t] show ?thesis
    by (auto simp: lease_holder_update simp del: find_None)
qed

interpretation lease_rows: lease_contract lease_ok lease_holder
  "\<lambda>(kind, i) ow now t d. upsert_lease kind i ow now t d" "\<lambda>(kind, i) ow d. release kind i ow d"
proof
  fix d :: "'a db" and k k' :: "string \<times> uuid" and ow ow' :: string and now t x d'
  obtain kind i where k: "k = (kind, i)" by (cases k)
  assume ok: "lease_ok d"
  then show "lease_ok (snd ((case k of (kind, i) \<Rightarrow> \<lambda>ow now t d. upsert_lease kind i ow now t d) ow now t d))"
    by (simp add: k lease_ok_upsert)
  show "lease_ok (snd ((case k of (kind, i) \<Rightarrow> \<lambda>ow d. release kind i ow d) ow d))"
    using ok by (simp add: k release_def Let_def lease_ok_def distinct_map_filter)
  show "lease_holder d' k = Some (ow, t)"
    if "(case k of (kind, i) \<Rightarrow> \<lambda>ow now t d. upsert_lease kind i ow now t d) ow now t d = (True, d')"
    using lease_holder_upsert [OF ok, of kind i ow now t k] that by (simp add: k)
  show "lease_holder (snd ((case k of (kind, i) \<Rightarrow> \<lambda>ow now t d. upsert_lease kind i ow now t d) ow now t d)) k' = lease_holder d k'"
    if "k' \<noteq> k"
    using lease_holder_upsert [OF ok, of kind i ow now t k'] that by (simp add: k)
  show "lease_holder (snd ((case k of (kind, i) \<Rightarrow> \<lambda>ow d. release kind i ow d) ow d)) k' = lease_holder d k'"
    if "k' \<noteq> k"
  proof -
    have "find (\<lambda>r. lease_key r = k') (filter (\<lambda>r. \<not> (lease_of kind i r \<and> le_owner_id r = ow)) (db_leases d)) =
        find (\<lambda>r. lease_key r = k') (db_leases d)"
      using that by (intro find_filter_other) (simp add: k lease_of_key)
    then show ?thesis by (simp add: k release_def Let_def lease_holder_def)
  qed
  assume held: "lease_holder d k = Some (ow', x)" and other: "ow' \<noteq> ow"
  show "(case k of (kind, i) \<Rightarrow> \<lambda>ow now t d. upsert_lease kind i ow now t d) ow now t d = (False, d)" if "now < x"
    using upsert_lease_held [OF ok held [unfolded k], of ow now t] other that leD by (auto simp: k)
  have "\<not> (lease_key r = k \<and> le_owner_id r = ow)" if "r \<in> set (db_leases d)" for r
    using find_distinct [of lease_key "db_leases d" r k] held other ok that by (auto simp: lease_holder_def lease_ok_def)
  then have "rows_affected (\<lambda>r. lease_of kind i r \<and> le_owner_id r = ow) (db_leases d) = 0"
      "filter (\<lambda>r. \<not> (lease_of kind i r \<and> le_owner_id r = ow)) (db_leases d) = db_leases d"
    by (auto simp: rows_affected_0_iff lease_of_key k)
  then show "(case k of (kind, i) \<Rightarrow> \<lambda>ow d. release kind i ow d) ow d = (False, d)"
    by (simp add: k release_def Let_def)
qed

section \<open>Properties\<close>

text \<open>A lease call as the statements see it, with the bound parameters as texts.\<close>

definition run_leases ::
  "(string \<times> uuid, string, sql_text) lease_op list \<Rightarrow> 'v db \<Rightarrow> bool list \<times> 'v db" where
  "run_leases = run_lease_ops (\<lambda>(kind, i) ow now t d. upsert_lease kind i ow now t d)
     (\<lambda>(kind, i) ow d. release kind i ow d)"

text \<open>
  C26: a lease excludes everybody else until it expires. After a successful \<open>acquire\<close>, let calls of \<open>acquire\<close> and
  \<open>release\<close> follow, on any resources and in any order, of which those on this resource are made by other owners and at times before the
  expiry. Then the calls on this resource all fail, and the owner and the expiry stay as they were. Calls of the owner itself, calls
  after the expiry, and \<open>reconcile_startup\<close>, which clears the table, are not among them.
\<close>

theorem lease_excludes_others:
  assumes "lease_ok d" "acquire env kind i owner now ttl d = (Inr True, d1)"
    and "\<forall>p \<in> set ps. op_resource p = (kind, i) \<longrightarrow> op_owner p \<noteq> owner \<and> op_before (sql_bind env (now + ttl)) p"
    and "run_leases ps d1 = (bs, d2)"
  shows "lease_holder d2 (kind, i) = Some (owner, sql_bind env (now + ttl)) \<and>
    (\<forall>(p, b) \<in> set (zip ps bs). op_resource p = (kind, i) \<longrightarrow> \<not> b)"
proof -
  from assms(2) have up: "upsert_lease kind i owner (sql_bind env now) (sql_bind env (now + ttl)) d = (True, d1)"
    by (auto simp: acquire_def split: if_splits prod.splits)
  show ?thesis
  proof (rule lease_rows.held_until_expiry)
    show "lease_ok d1" using lease_ok_upsert [OF assms(1)] up by (metis snd_conv)
    show "lease_holder d1 (kind, i) = Some (owner, sql_bind env (now + ttl))"
      using lease_rows.acq_granted [OF assms(1), of "(kind, i)"] up by simp
  qed (use assms(3,4) in \<open>auto simp: run_leases_def\<close>)
qed

theorem lease_excludes_others_witness:
  "let calls = [OpAcquire (''dispatcher'', 7) ''b'' ''11'' ''1111'', OpRelease (''dispatcher'', 7) ''b'',
         OpAcquire (''dispatcher'', 8) ''b'' ''11'' ''1111''];
       (r, d1) = acquire unary_env ''dispatcher'' 7 ''a'' 1 2 (empty_db :: unit db);
       (bs, d2) = run_leases calls d1
   in r = Inr True \<and> bs = [False, False, True] \<and> lease_holder d2 (''dispatcher'', 7) = Some (''a'', ''111'')"
proof -
  let ?calls = "[OpAcquire (''dispatcher'', 7) ''b'' ''11'' ''1111'', OpRelease (''dispatcher'', 7) ''b'',
         OpAcquire (''dispatcher'', 8) ''b'' ''11'' ''1111''] :: (string \<times> uuid, string, sql_text) lease_op list"
  obtain r d1 where a: "acquire unary_env ''dispatcher'' 7 ''a'' 1 2 (empty_db :: unit db) = (r, d1)" by fastforce
  obtain bs d2 where b: "run_leases ?calls d1 = (bs, d2)" by fastforce
  have "fst (acquire unary_env ''dispatcher'' 7 ''a'' 1 2 (empty_db :: unit db)) = Inr True \<and>
      fst (run_leases ?calls (snd (acquire unary_env ''dispatcher'' 7 ''a'' 1 2 (empty_db :: unit db)))) = [False, False, True]"
    by code_simp
  with a b have res: "r = Inr True" "bs = [False, False, True]" by auto
  have "lease_ok (empty_db :: unit db)" by code_simp
  moreover have "\<forall>p \<in> set ?calls. op_resource p = (''dispatcher'', 7) \<longrightarrow>
      op_owner p \<noteq> ''a'' \<and> op_before (sql_bind unary_env (1 + 2)) p"
    by code_simp
  ultimately have "lease_holder d2 (''dispatcher'', 7) = Some (''a'', sql_bind unary_env (1 + 2))"
    using lease_excludes_others [of empty_db unary_env "''dispatcher''" 7 "''a''" 1 2 d1 ?calls bs d2] a b res(1) by blast
  moreover have "sql_bind unary_env (1 + 2) = ''111''" by code_simp
  ultimately show ?thesis using a b res by simp
qed

end
