(* ===== verification/Outbox.thy ===== *)
theory Outbox
  imports Event_Store
begin

text \<open>
  The outbox of \<open>crates/db/src/models/orchestration.rs\<close>: commands for agent runs are stored under an idempotency key,
  claimed by a dispatcher, and marked delivered or failed. A claim that is older than the redelivery
  time is offered again.
\<close>

section \<open>The outbox\<close>

definition DEFAULT_OUTBOX_REDELIVERY_AFTER :: datetime where
  "DEFAULT_OUTBOX_REDELIVERY_AFTER = duration_seconds 30"

definition insert_outbox :: "'v OrchestrationOutboxRecord \<Rightarrow> 'v db \<Rightarrow> DbError + ('v db \<times> nat)" where
  "insert_outbox r d =
     (if sql_blank (ob_idempotency_key r) \<or> ob_command_schema_version r \<le> 0
      then Inl (DbCheck ''orchestration_outbox'')
      else if list_ex (\<lambda>x. ob_idempotency_key x = ob_idempotency_key r) (db_outbox d) then Inr (d, 0)
      else if list_ex (\<lambda>x. ob_id x = ob_id r \<or> ob_command_id x = ob_command_id r) (db_outbox d)
      then Inl (DbUnique ''orchestration_outbox'')
      else if \<not> list_ex (\<lambda>x. or_id x = ob_orchestration_run_id r) (db_runs d)
      then Inl (DbForeignKey ''orchestration_outbox'')
      else Inr (d\<lparr>db_outbox := db_outbox d @ [r]\<rparr>, 1))"

definition outbox_row ::
  "uuid \<Rightarrow> uuid \<Rightarrow> uuid \<Rightarrow> 'v AgentRunPortCommandEnvelope \<Rightarrow> sql_text \<Rightarrow> 'v OrchestrationOutboxRecord" where
  "outbox_row i run_id node_id c clock = \<lparr>
     ob_id = i, ob_orchestration_run_id = run_id, ob_node_execution_id = Some node_id,
     ob_command_id = ce_command_id c, ob_idempotency_key = ce_idempotency_key c,
     ob_command_schema_version = int (unat (ce_schema_version c)), ob_command_envelope = c,
     ob_delivery_status = DPending, ob_delivery_attempts = 0, ob_available_at = clock,
     ob_delivered_at = None, ob_last_error = None, ob_created_at = clock, ob_updated_at = clock\<rparr>"

fun is_create :: "'v AgentRunPortCommand \<Rightarrow> bool" where
  "is_create (CmdCreate _ _) = True"
| "is_create _ = False"

text \<open>The foreign key of the node execution is what \<open>target_exists\<close> has just tested.\<close>

definition enqueue_outbox_in_transaction ::
  "uuid \<Rightarrow> 'v AgentRunPortCommandEnvelope \<Rightarrow> sql_text \<Rightarrow> 'v db \<Rightarrow>
   OrchestrationPersistenceError + ((uuid \<times> bool) \<times> 'v db)" where
  "enqueue_outbox_in_transaction i c clock d =
     and_then (map_err PInvalidCommand (validate_command c)) (\<lambda>_.
     and_then (ok_or (ce_orchestration_run_id c) PMissingNodeIdentity) (\<lambda>run_id.
     and_then (ok_or (ce_orchestration_node_execution_id c) PMissingNodeIdentity) (\<lambda>node_id.
     if \<not> list_ex (\<lambda>r. on_id r = node_id \<and> on_orchestration_run_id r = run_id) (db_nodes d)
     then Inl PMissingNodeIdentity
     else
       let linked = map_option ol_agent_run_id
             (find (\<lambda>r. ol_orchestration_run_id r = run_id \<and> ol_node_execution_id r = node_id) (db_links d))
       in if (case linked of Some l \<Rightarrow> l \<noteq> ce_agent_run_id c | None \<Rightarrow> False) \<or>
             (\<not> is_create (ce_command c) \<and> linked \<noteq> Some (ce_agent_run_id c))
          then Inl PCommandAgentRunMismatch
          else and_then (map_err PDatabase (insert_outbox (outbox_row i run_id node_id c clock) d)) (\<lambda>(d1, inserted).
            case find (\<lambda>r. ob_idempotency_key r = ce_idempotency_key c) (db_outbox d1) of
              None \<Rightarrow> Inl (PDatabase DbRowNotFound)
            | Some existing \<Rightarrow>
                if ob_command_envelope existing \<noteq> c
                then Inl (PIdempotencyConflict ''orchestration outbox command'' (ce_idempotency_key c))
                else Inr ((ob_id existing, inserted = 1), d1)))))"

definition enqueue_with_outcome ::
  "uuid \<Rightarrow> 'v AgentRunPortCommandEnvelope \<Rightarrow> sql_text \<Rightarrow> 'v db \<Rightarrow>
   (OrchestrationPersistenceError + (uuid \<times> bool)) \<times> 'v db" where
  "enqueue_with_outcome i c clock = transaction (enqueue_outbox_in_transaction i c clock)"

definition enqueue ::
  "uuid \<Rightarrow> 'v AgentRunPortCommandEnvelope \<Rightarrow> sql_text \<Rightarrow> 'v db \<Rightarrow>
   (OrchestrationPersistenceError + uuid) \<times> 'v db" where
  "enqueue i c clock d =
     (case enqueue_with_outcome i c clock d of
        (Inl e, d1) \<Rightarrow> (Inl e, d1)
      | (Inr (k, _), d1) \<Rightarrow> (Inr k, d1))"

text \<open>The redelivery of stale claims, shared by \<open>claim_next_with_redelivery\<close> and \<open>reconcile_inflight\<close>.\<close>

definition stale_delivery :: "sql_env \<Rightarrow> datetime \<Rightarrow> 'v OrchestrationOutboxRecord \<Rightarrow> bool" where
  "stale_delivery env stale_before r \<longleftrightarrow>
     ob_delivery_status r = DDelivering \<and> ob_updated_at r \<le> sql_bind env stale_before"

definition redeliver_stale :: "sql_env \<Rightarrow> datetime \<Rightarrow> datetime \<Rightarrow> 'v db \<Rightarrow> 'v db" where
  "redeliver_stale env now stale_before d = d\<lparr>db_outbox := update_where (stale_delivery env stale_before)
     (\<lambda>r. r\<lparr>ob_delivery_status := DPending, ob_updated_at := sql_bind env now\<rparr>) (db_outbox d)\<rparr>"

definition claimable :: "sql_env \<Rightarrow> datetime \<Rightarrow> 'v OrchestrationOutboxRecord \<Rightarrow> bool" where
  "claimable env now r \<longleftrightarrow>
     ob_delivery_status r \<in> {DPending, DFailed} \<and> ob_available_at r \<le> sql_bind env now"

definition outbox_claim_body ::
  "sql_env \<Rightarrow> datetime \<Rightarrow> datetime \<Rightarrow> 'v db \<Rightarrow>
   OrchestrationPersistenceError + ('v OrchestrationOutboxRecord option \<times> 'v db)" where
  "outbox_claim_body env now redelivery_after d =
     (let d1 = redeliver_stale env now (now - redelivery_after) d
      in case first_by (\<lambda>r. (ob_available_at r, ob_created_at r)) (filter (claimable env now) (db_outbox d1)) of
           None \<Rightarrow> Inr (None, d1)
         | Some candidate \<Rightarrow>
             let matches = (\<lambda>r. ob_id r = ob_id candidate \<and> ob_delivery_status r \<in> {DPending, DFailed});
                 d2 = d1\<lparr>db_outbox := update_where matches
                   (\<lambda>r. r\<lparr>ob_delivery_status := DDelivering, ob_delivery_attempts := ob_delivery_attempts r + 1,
                          ob_updated_at := sql_bind env now\<rparr>) (db_outbox d1)\<rparr>
             in if rows_affected matches (db_outbox d1) = 0 then Inr (None, d2)
                else case find (\<lambda>r. ob_id r = ob_id candidate) (db_outbox d2) of
                       None \<Rightarrow> Inl (PDatabase DbRowNotFound)
                     | Some r \<Rightarrow> Inr (Some r, d2))"

definition claim_next_with_redelivery ::
  "sql_env \<Rightarrow> datetime \<Rightarrow> datetime \<Rightarrow> 'v db \<Rightarrow>
   (OrchestrationPersistenceError + 'v OrchestrationOutboxRecord option) \<times> 'v db" where
  "claim_next_with_redelivery env now redelivery_after = transaction (outbox_claim_body env now redelivery_after)"

definition outbox_claim_next ::
  "sql_env \<Rightarrow> datetime \<Rightarrow> 'v db \<Rightarrow>
   (OrchestrationPersistenceError + 'v OrchestrationOutboxRecord option) \<times> 'v db" where
  "outbox_claim_next env now = claim_next_with_redelivery env now DEFAULT_OUTBOX_REDELIVERY_AFTER"

definition reconcile_inflight :: "sql_env \<Rightarrow> datetime \<Rightarrow> datetime \<Rightarrow> 'v db \<Rightarrow> nat \<times> 'v db" where
  "reconcile_inflight env now redelivery_after d =
     (rows_affected (stale_delivery env (now - redelivery_after)) (db_outbox d),
      redeliver_stale env now (now - redelivery_after) d)"

definition pending_count :: "'v db \<Rightarrow> nat" where
  "pending_count d = rows_affected (\<lambda>r. ob_delivery_status r \<in> {DPending, DFailed, DDelivering}) (db_outbox d)"

definition mark_delivered :: "sql_env \<Rightarrow> uuid \<Rightarrow> datetime \<Rightarrow> 'v db \<Rightarrow> bool \<times> 'v db" where
  "mark_delivered env i delivered_at d =
     (let matches = (\<lambda>r. ob_id r = i \<and> ob_delivery_status r = DDelivering)
      in (rows_affected matches (db_outbox d) = 1,
          d\<lparr>db_outbox := update_where matches
            (\<lambda>r. r\<lparr>ob_delivery_status := DDelivered, ob_delivered_at := Some (sql_bind env delivered_at),
                   ob_updated_at := sql_bind env delivered_at\<rparr>) (db_outbox d)\<rparr>))"

definition mark_failed :: "sql_env \<Rightarrow> uuid \<Rightarrow> string \<Rightarrow> datetime \<Rightarrow> datetime \<Rightarrow> 'v db \<Rightarrow> bool \<times> 'v db" where
  "mark_failed env i err available_at now d =
     (let matches = (\<lambda>r. ob_id r = i \<and> ob_delivery_status r = DDelivering)
      in (rows_affected matches (db_outbox d) = 1,
          d\<lparr>db_outbox := update_where matches
            (\<lambda>r. r\<lparr>ob_delivery_status := DFailed, ob_last_error := Some err,
                   ob_available_at := sql_bind env available_at, ob_updated_at := sql_bind env now\<rparr>)
            (db_outbox d)\<rparr>))"

section \<open>Keys and delivery states\<close>

definition outbox_ok :: "'v db \<Rightarrow> bool" where
  "outbox_ok d \<longleftrightarrow> distinct (map ob_id (db_outbox d)) \<and> distinct (map ob_idempotency_key (db_outbox d))"

interpretation outbox_rows: keyed_table db_outbox ob_idempotency_key "\<lambda>r d. map_sum id fst (insert_outbox r d)"
  by unfold_locales (auto simp: insert_outbox_def list_ex_iff split: if_splits)

text \<open>The row of a command keeps its identity, its attempts only grow, and once it is delivered it no longer changes.\<close>

definition delivery_step :: "'v OrchestrationOutboxRecord \<Rightarrow> 'v OrchestrationOutboxRecord \<Rightarrow> bool" where
  "delivery_step r r' \<longleftrightarrow>
     ob_id r' = ob_id r \<and> ob_idempotency_key r' = ob_idempotency_key r \<and>
     ob_command_envelope r' = ob_command_envelope r \<and> ob_delivery_attempts r \<le> ob_delivery_attempts r' \<and>
     (ob_delivery_status r = DDelivered \<longrightarrow> r' = r)"

lemma delivery_step_refl [simp]: "delivery_step r r"
  by (simp add: delivery_step_def)

lemma delivery_step_trans: "delivery_step a b \<Longrightarrow> delivery_step b c \<Longrightarrow> delivery_step a c"
  by (auto simp: delivery_step_def)

lemmas outbox_evolves_trans = evolves_trans [where R = delivery_step, OF _ _ delivery_step_trans]
lemmas outbox_evolves_update = evolves_update [where R = delivery_step, OF delivery_step_refl]
lemmas outbox_evolves_refl = evolves_refl [where R = delivery_step, OF delivery_step_refl]

lemma map_of_evolving:
  "list_all2 R xs ys \<Longrightarrow> (\<And>a b. R a b \<Longrightarrow> k b = k a) \<Longrightarrow> map k ys = map k xs"
  by (induction rule: list_all2_induct) auto

lemma redeliver_stale_evolves: "evolves delivery_step (db_outbox d) (db_outbox (redeliver_stale env now t d))"
  by (auto simp: redeliver_stale_def stale_delivery_def delivery_step_def intro!: outbox_evolves_update)

lemma redeliver_stale_keys:
  "map ob_id (db_outbox (redeliver_stale env now t d)) = map ob_id (db_outbox d)"
  "map ob_idempotency_key (db_outbox (redeliver_stale env now t d)) = map ob_idempotency_key (db_outbox d)"
  by (simp_all add: redeliver_stale_def map_update_where)

text \<open>What a claim does: it takes an eligible row, first in the order of availability and creation.\<close>

lemma outbox_claim_cases:
  assumes "outbox_claim_body env now after d = Inr (res, d')"
  defines "d1 \<equiv> redeliver_stale env now (now - after) d"
  shows "(res = None \<and> d' = d1 \<and> (\<forall>r \<in> set (db_outbox d1). \<not> claimable env now r)) \<or>
    (\<exists>c. c \<in> set (db_outbox d1) \<and> claimable env now c \<and>
       (\<forall>r \<in> set (db_outbox d1). claimable env now r \<longrightarrow>
          (ob_available_at c, ob_created_at c) \<le> (ob_available_at r, ob_created_at r)) \<and>
       d' = d1\<lparr>db_outbox := update_where (\<lambda>r. ob_id r = ob_id c \<and> ob_delivery_status r \<in> {DPending, DFailed})
         (\<lambda>r. r\<lparr>ob_delivery_status := DDelivering, ob_delivery_attempts := ob_delivery_attempts r + 1,
                ob_updated_at := sql_bind env now\<rparr>) (db_outbox d1)\<rparr> \<and>
       res = find (\<lambda>r. ob_id r = ob_id c) (db_outbox d') \<and> res \<noteq> None)"
proof -
  let ?m = "\<lambda>c r. ob_id r = ob_id c \<and> ob_delivery_status r \<in> {DPending, DFailed}"
  let ?up = "\<lambda>c. d1\<lparr>db_outbox := update_where (?m c)
    (\<lambda>r. r\<lparr>ob_delivery_status := DDelivering, ob_delivery_attempts := ob_delivery_attempts r + 1,
           ob_updated_at := sql_bind env now\<rparr>) (db_outbox d1)\<rparr>"
  let ?first = "first_by (\<lambda>r. (ob_available_at r, ob_created_at r)) (filter (claimable env now) (db_outbox d1))"
  have body: "(case ?first of None \<Rightarrow> Inr (None, d1)
      | Some c \<Rightarrow> if rows_affected (?m c) (db_outbox d1) = 0 then Inr (None, ?up c)
          else case find (\<lambda>r. ob_id r = ob_id c) (db_outbox (?up c)) of
            None \<Rightarrow> Inl (PDatabase DbRowNotFound) | Some r \<Rightarrow> Inr (Some r, ?up c)) = Inr (res, d')"
    using assms(1) unfolding outbox_claim_body_def Let_def d1_def .
  show ?thesis
  proof (cases ?first)
    case None
    then have "\<forall>r \<in> set (db_outbox d1). \<not> claimable env now r" by (simp add: first_by_None filter_empty_conv)
    with body None show ?thesis by simp
  next
    case (Some c)
    note c = first_by_Some [OF Some]
    from c(1) have mem: "c \<in> set (db_outbox d1)" "claimable env now c" by auto
    then have "rows_affected (?m c) (db_outbox d1) \<noteq> 0"
      unfolding rows_affected_0_iff by (auto simp: claimable_def)
    with body Some obtain r where r: "find (\<lambda>r. ob_id r = ob_id c) (db_outbox (?up c)) = Some r" "d' = ?up c" "res = Some r"
      by (cases "find (\<lambda>r. ob_id r = ob_id c) (db_outbox (?up c))") simp_all
    from c(2) have "\<forall>r \<in> set (db_outbox d1). claimable env now r \<longrightarrow>
        (ob_available_at c, ob_created_at c) \<le> (ob_available_at r, ob_created_at r)" by auto
    with mem r show ?thesis by (intro disjI2 exI [of _ c] conjI) (simp_all only: option.distinct not_False_eq_True)
  qed
qed

text \<open>One lemma per operation: it keeps the keys distinct, and rows only move along \<open>delivery_step\<close>.\<close>

definition outbox_moves :: "'v db \<Rightarrow> 'v db \<Rightarrow> bool" where
  "outbox_moves d d' \<longleftrightarrow> (outbox_ok d \<longrightarrow> outbox_ok d') \<and> evolves delivery_step (db_outbox d) (db_outbox d')"

lemma outbox_moves_refl [simp]: "db_outbox d' = db_outbox d \<Longrightarrow> outbox_moves d d'"
  by (simp add: outbox_moves_def outbox_ok_def outbox_evolves_refl)

lemma outbox_moves_trans: "outbox_moves a b \<Longrightarrow> outbox_moves b c \<Longrightarrow> outbox_moves a c"
  by (auto simp: outbox_moves_def intro: outbox_evolves_trans)

lemma outbox_moves_update:
  assumes "\<And>r. P r \<Longrightarrow> delivery_step r (f r)"
  shows "outbox_moves d (d\<lparr>db_outbox := update_where P f (db_outbox d)\<rparr>)"
proof -
  have "map ob_id (update_where P f (db_outbox d)) = map ob_id (db_outbox d)"
      "map ob_idempotency_key (update_where P f (db_outbox d)) = map ob_idempotency_key (db_outbox d)"
    using assms by (simp_all add: map_update_where delivery_step_def)
  with outbox_evolves_update [of P f "db_outbox d"] assms show ?thesis
    by (simp add: outbox_moves_def outbox_ok_def)
qed

lemma enqueue_cases:
  assumes "enqueue_outbox_in_transaction i c clock d = Inr ((k, b), d')"
  obtains (old) x where "x \<in> set (db_outbox d)" "ob_idempotency_key x = ce_idempotency_key c" "\<not> b" "d' = d"
  | (new) run_id node_id where "b" "k = i" "ob_id ` set (db_outbox d) \<inter> {i} = {}"
      "ce_idempotency_key c \<notin> ob_idempotency_key ` set (db_outbox d)"
      "d' = d\<lparr>db_outbox := db_outbox d @ [outbox_row i run_id node_id c clock]\<rparr>"
proof -
  from assms obtain run_id node_id n where
    ins: "insert_outbox (outbox_row i run_id node_id c clock) d = Inr (d', n)" and b: "b \<longleftrightarrow> n = 1"
    and found: "\<exists>x. find (\<lambda>r. ob_idempotency_key r = ce_idempotency_key c) (db_outbox d') = Some x \<and> k = ob_id x"
    by (auto simp: enqueue_outbox_in_transaction_def result_simps Let_def split: if_splits option.splits)
  show thesis
  proof (cases "\<exists>x \<in> set (db_outbox d). ob_idempotency_key x = ce_idempotency_key c")
    case True
    then obtain x where x: "x \<in> set (db_outbox d)" "ob_idempotency_key x = ce_idempotency_key c" by blast
    then have "list_ex (\<lambda>x. ob_idempotency_key x = ce_idempotency_key c) (db_outbox d)" by (auto simp: list_ex_iff)
    with ins have "d' = d" "n = 0" by (auto simp: insert_outbox_def outbox_row_def split: if_splits)
    with x b show thesis by (intro old [of x]) auto
  next
    case False
    with ins have d': "d' = d\<lparr>db_outbox := db_outbox d @ [outbox_row i run_id node_id c clock]\<rparr>" "n = 1"
        "\<forall>x \<in> set (db_outbox d). ob_id x \<noteq> i"
      by (auto simp: insert_outbox_def outbox_row_def list_ex_iff split: if_splits)
    have "find (\<lambda>r. ob_idempotency_key r = ce_idempotency_key c) (db_outbox d') = Some (outbox_row i run_id node_id c clock)"
      using False by (auto simp: d' find_append find_None [THEN iffD2] outbox_row_def)
    with found have "k = i" by (simp add: outbox_row_def)
    with d' False b show thesis by (intro new [of run_id node_id]) auto
  qed
qed

lemma outbox_moves_enqueue:
  assumes "enqueue_outbox_in_transaction i c clock d = Inr (kb, d')"
  shows "outbox_moves d d'"
proof -
  obtain k b where "kb = (k, b)" by (cases kb)
  with assms have "enqueue_outbox_in_transaction i c clock d = Inr ((k, b), d')" by simp
  then show ?thesis
  proof (cases rule: enqueue_cases)
    case (new run_id node_id)
    then show ?thesis
      by (auto simp: outbox_moves_def outbox_ok_def outbox_row_def intro!: evolves_append outbox_evolves_refl)
  qed simp
qed

lemma outbox_moves_redeliver: "outbox_moves d (redeliver_stale env now t d)"
  unfolding redeliver_stale_def
  by (rule outbox_moves_update) (auto simp: stale_delivery_def delivery_step_def)

lemma outbox_moves_claim:
  assumes "outbox_claim_body env now after d = Inr (res, d')"
  shows "outbox_moves d d'"
proof -
  have "outbox_moves (redeliver_stale env now (now - after) d) d'"
    using outbox_claim_cases [OF assms]
  proof (elim disjE exE conjE)
    fix c assume "d' = (redeliver_stale env now (now - after) d)\<lparr>db_outbox := update_where
        (\<lambda>r. ob_id r = ob_id c \<and> ob_delivery_status r \<in> {DPending, DFailed})
        (\<lambda>r. r\<lparr>ob_delivery_status := DDelivering, ob_delivery_attempts := ob_delivery_attempts r + 1,
               ob_updated_at := sql_bind env now\<rparr>) (db_outbox (redeliver_stale env now (now - after) d))\<rparr>"
    then show ?thesis by (simp only:) (rule outbox_moves_update, auto simp: delivery_step_def)
  qed simp
  with outbox_moves_redeliver show ?thesis by (rule outbox_moves_trans)
qed

lemma outbox_moves_delivered: "outbox_moves d (snd (mark_delivered env i t d))"
  unfolding mark_delivered_def Let_def snd_conv by (rule outbox_moves_update) (auto simp: delivery_step_def)

lemma outbox_moves_failed: "outbox_moves d (snd (mark_failed env i msg t now d))"
  unfolding mark_failed_def Let_def snd_conv by (rule outbox_moves_update) (auto simp: delivery_step_def)

lemma outbox_claim_row:
  assumes "outbox_ok d" "outbox_claim_body env now after d = Inr (Some r, d')"
  shows "r \<in> set (db_outbox d')" "ob_delivery_status r = DDelivering" "ob_updated_at r = sql_bind env now"
    and "\<exists>c \<in> set (db_outbox (redeliver_stale env now (now - after) d)).
           claimable env now c \<and> ob_id r = ob_id c \<and> ob_delivery_attempts r = ob_delivery_attempts c + 1"
proof -
  let ?d1 = "redeliver_stale env now (now - after) d"
  from outbox_claim_cases [OF assms(2)] obtain c where c: "c \<in> set (db_outbox ?d1)" "claimable env now c"
    and d': "d' = ?d1\<lparr>db_outbox := update_where (\<lambda>r. ob_id r = ob_id c \<and> ob_delivery_status r \<in> {DPending, DFailed})
         (\<lambda>r. r\<lparr>ob_delivery_status := DDelivering, ob_delivery_attempts := ob_delivery_attempts r + 1,
                ob_updated_at := sql_bind env now\<rparr>) (db_outbox ?d1)\<rparr>"
    and r: "find (\<lambda>r. ob_id r = ob_id c) (db_outbox d') = Some r"
    by auto
  let ?c = "c\<lparr>ob_delivery_status := DDelivering, ob_delivery_attempts := ob_delivery_attempts c + 1,
    ob_updated_at := sql_bind env now\<rparr>"
  have "?c \<in> set (db_outbox d')"
    using c by (auto simp: d' set_update_where claimable_def intro!: image_eqI [of _ _ c])
  moreover have "distinct (map ob_id (db_outbox d'))"
    using assms(1) outbox_moves_claim [OF assms(2)] by (simp add: outbox_moves_def outbox_ok_def)
  ultimately have "r = ?c" using find_distinct [of ob_id "db_outbox d'" ?c "ob_id c"] r by simp
  with \<open>?c \<in> _\<close> c show "r \<in> set (db_outbox d')" "ob_delivery_status r = DDelivering"
      "ob_updated_at r = sql_bind env now"
      "\<exists>c \<in> set (db_outbox ?d1). claimable env now c \<and> ob_id r = ob_id c \<and>
         ob_delivery_attempts r = ob_delivery_attempts c + 1"
    by auto
qed

section \<open>Properties\<close>

text \<open>
  The operations of the outbox that can follow a claim of row \<open>i\<close> made at time \<open>t\<close>, as long as the dispatcher that holds
  it reports nothing about it and its claim is younger than every redelivery limit; and any change that leaves the outbox alone.
\<close>

inductive held_step :: "sql_env \<Rightarrow> sql_text \<Rightarrow> uuid \<Rightarrow> 'v db \<Rightarrow> 'v db \<Rightarrow> bool" for env t i where
  enqueued: "held_step env t i d (snd (enqueue_with_outcome k c clock d))"
| claimed: "sql_bind env (now - after) < t \<Longrightarrow> held_step env t i d (snd (claim_next_with_redelivery env now after d))"
| reconciled: "sql_bind env (now - after) < t \<Longrightarrow> held_step env t i d (snd (reconcile_inflight env now after d))"
| delivered: "j \<noteq> i \<Longrightarrow> held_step env t i d (snd (mark_delivered env j now d))"
| failed: "j \<noteq> i \<Longrightarrow> held_step env t i d (snd (mark_failed env j err available now d))"
| elsewhere: "db_outbox d' = db_outbox d \<Longrightarrow> held_step env t i d d'"

definition holds_row :: "'v OrchestrationOutboxRecord \<Rightarrow> 'v db \<Rightarrow> bool" where
  "holds_row r d \<longleftrightarrow> outbox_ok d \<and> r \<in> set (db_outbox d) \<and> ob_delivery_status r = DDelivering"

lemma holds_row_redeliver:
  "holds_row r d \<Longrightarrow> sql_bind env t < ob_updated_at r \<Longrightarrow> holds_row r (redeliver_stale env now t d)"
  using outbox_moves_redeliver [of d env now t]
  by (force simp: holds_row_def outbox_moves_def redeliver_stale_def set_update_where stale_delivery_def)

text \<open>A claim whose redelivery limit is before the claim of \<open>r\<close> takes another row.\<close>

lemma holds_row_claim:
  assumes "holds_row r d" "sql_bind env (now - after) < ob_updated_at r" "outbox_claim_body env now after d = Inr (res, d')"
  shows "holds_row r d' \<and> (\<forall>r'. res = Some r' \<longrightarrow> ob_id r' \<noteq> ob_id r)"
proof -
  let ?d = "redeliver_stale env now (now - after) d"
  have r: "holds_row r ?d" using assms(1,2) by (rule holds_row_redeliver)
  have ok: "outbox_ok d" "outbox_ok d'"
    using assms(1) outbox_moves_claim [OF assms(3)] by (simp_all add: holds_row_def outbox_moves_def)
  from outbox_claim_cases [OF assms(3)] show ?thesis
  proof (elim disjE exE conjE)
    assume "res = None" "d' = ?d"
    with r show ?thesis by simp
  next
    fix c
    assume c: "c \<in> set (db_outbox ?d)" "claimable env now c" and res: "res = find (\<lambda>r. ob_id r = ob_id c) (db_outbox d')"
      and d': "d' = ?d\<lparr>db_outbox := update_where (\<lambda>r. ob_id r = ob_id c \<and> ob_delivery_status r \<in> {DPending, DFailed})
         (\<lambda>r. r\<lparr>ob_delivery_status := DDelivering, ob_delivery_attempts := ob_delivery_attempts r + 1,
                ob_updated_at := sql_bind env now\<rparr>) (db_outbox ?d)\<rparr>"
    have "ob_id c \<noteq> ob_id r"
    proof
      assume "ob_id c = ob_id r"
      with r c(1) have "c = r" unfolding holds_row_def outbox_ok_def by (metis find_distinct option.inject)
      with c(2) r show False by (simp add: claimable_def holds_row_def)
    qed
    moreover from this r have "r \<in> set (db_outbox d')" by (force simp: d' holds_row_def set_update_where)
    ultimately show ?thesis using r ok(2) by (auto simp: holds_row_def res dest!: find_SomeD)
  qed
qed

lemma holds_row_step:
  assumes "held_step env (ob_updated_at r) (ob_id r) d d'" "holds_row r d"
  shows "holds_row r d'"
  using assms
proof (induction rule: held_step.induct)
  case (enqueued d k c clock)
  show ?case
  proof (cases "enqueue_outbox_in_transaction k c clock d")
    case (Inr x)
    obtain kb b d' where x: "x = ((kb, b), d')" by (metis prod.collapse)
    have "outbox_ok d'" using outbox_moves_enqueue [OF Inr [unfolded x]] enqueued by (simp add: outbox_moves_def holds_row_def)
    moreover have "r \<in> set (db_outbox d')"
      using Inr [unfolded x] enqueued by (cases rule: enqueue_cases) (auto simp: holds_row_def)
    ultimately show ?thesis using enqueued Inr x by (simp add: enqueue_with_outcome_def holds_row_def)
  qed (simp add: enqueue_with_outcome_def enqueued)
next
  case (claimed now after d)
  show ?case
  proof (cases "outbox_claim_body env now after d")
    case (Inr x)
    with holds_row_claim [OF claimed(2,1), of "fst x" "snd x"] show ?thesis
      by (cases x) (simp add: claim_next_with_redelivery_def)
  qed (simp add: claim_next_with_redelivery_def claimed)
next
  case (reconciled now after d)
  then show ?case by (simp add: reconcile_inflight_def holds_row_redeliver)
next
  case (delivered j d now)
  with outbox_moves_delivered [of d env j now] show ?case
    by (force simp: holds_row_def outbox_moves_def mark_delivered_def Let_def set_update_where)
next
  case (failed j d err available now)
  with outbox_moves_failed [of d env j err available now] show ?case
    by (force simp: holds_row_def outbox_moves_def mark_failed_def Let_def set_update_where)
next
  case (elsewhere d' d)
  then show ?case by (simp add: holds_row_def outbox_ok_def)
qed

text \<open>
  C25: a claimed command is held exclusively. After a claim, whatever operations of the outbox follow in any order (queueing, claims,
  reconciliation, reports on other commands) and whatever happens elsewhere in the database, as long as the holder itself has
  reported nothing and the claim is younger than the redelivery limit of every claim and reconciliation: the claimed row
  stays as the claim left it, and a further such claim gets another command.
\<close>

theorem claimed_command_is_exclusive:
  assumes "outbox_ok d" "claim_next_with_redelivery env now after d = (Inr (Some r), d1)"
    and "(held_step env (sql_bind env now) (ob_id r))\<^sup>*\<^sup>* d1 d2"
  shows "r \<in> set (db_outbox d2) \<and>
    (\<forall>now' after' r' d3. sql_bind env (now' - after') < sql_bind env now \<longrightarrow>
       claim_next_with_redelivery env now' after' d2 = (Inr (Some r'), d3) \<longrightarrow> ob_id r' \<noteq> ob_id r)"
proof -
  from assms(2) have claim: "outbox_claim_body env now after d = Inr (Some r, d1)"
    by (simp add: claim_next_with_redelivery_def transaction_ok_iff)
  note r = outbox_claim_row [OF assms(1) claim]
  have "outbox_ok d1" using assms(1) outbox_moves_claim [OF claim] by (simp add: outbox_moves_def)
  with r have "holds_row r d1" by (simp add: holds_row_def)
  with assms(3) have held: "holds_row r d2"
    by (induction rule: rtranclp_induct) (auto intro: holds_row_step simp: r(3))
  have "ob_id r' \<noteq> ob_id r"
    if "sql_bind env (now' - after') < sql_bind env now" "claim_next_with_redelivery env now' after' d2 = (Inr (Some r'), d3)" for now' after' r' d3
    using holds_row_claim [OF held, of env now' after' "Some r'" d3] that
    by (simp add: r(3) claim_next_with_redelivery_def transaction_ok_iff)
  with held show ?thesis by (auto simp: holds_row_def)
qed

text \<open>
  Queueing a command is idempotent. Once a command is in the outbox, queueing it again under any row id and at any
  time returns the same row, reports that nothing was inserted, and leaves the database as it is.
\<close>

theorem enqueue_is_idempotent:
  assumes "enqueue_with_outcome i c clock d = (Inr (k, b), d1)"
  shows "enqueue_with_outcome i' c clock' d1 = (Inr (k, False), d1)"
proof -
  from assms have body: "enqueue_outbox_in_transaction i c clock d = Inr ((k, b), d1)"
    by (simp add: enqueue_with_outcome_def transaction_ok_iff)
  have same: "db_nodes d1 = db_nodes d \<and> db_links d1 = db_links d \<and> db_runs d1 = db_runs d"
    using body by (cases rule: enqueue_cases) auto
  from body obtain run_id node_id n x where checks: "validate_command c = Inr ()"
      "ce_orchestration_run_id c = Some run_id" "ce_orchestration_node_execution_id c = Some node_id"
      "list_ex (\<lambda>r. on_id r = node_id \<and> on_orchestration_run_id r = run_id) (db_nodes d)"
    and ins: "insert_outbox (outbox_row i run_id node_id c clock) d = Inr (d1, n)"
    and x: "find (\<lambda>r. ob_idempotency_key r = ce_idempotency_key c) (db_outbox d1) = Some x"
      "ob_command_envelope x = c" "k = ob_id x"
    by (auto simp: enqueue_outbox_in_transaction_def result_simps Let_def split: if_splits option.splits)
  have "insert_outbox (outbox_row i' run_id node_id c clock') d1 = Inr (d1, 0)"
    using ins find_SomeD [OF x(1)] by (auto simp: insert_outbox_def outbox_row_def list_ex_iff split: if_splits)
  with body checks x same have "enqueue_outbox_in_transaction i' c clock' d1 = Inr ((k, False), d1)"
    by (auto simp: enqueue_outbox_in_transaction_def result_simps Let_def split: if_splits option.splits)
  then show ?thesis by (simp add: enqueue_with_outcome_def)
qed

theorem enqueue_is_idempotent_witness:
  "let d1 = snd (enqueue_with_outcome 60 (sample_command ''stop'' 61) ''1'' sample_db)
   in length (db_outbox d1) = 1 \<and> enqueue_with_outcome 70 (sample_command ''stop'' 61) ''11'' d1 = (Inr (60, False), d1)"
proof -
  let ?r = "enqueue_with_outcome 60 (sample_command ''stop'' 61) ''1'' sample_db"
  have "fst ?r = Inr (60, True)" "length (db_outbox (snd ?r)) = 1" by code_simp+
  then have r: "?r = (Inr (60, True), snd ?r)" by (metis prod.collapse)
  from enqueue_is_idempotent [OF r, of 70 "''11''"] \<open>length (db_outbox (snd ?r)) = 1\<close> show ?thesis by simp
qed

theorem claimed_command_is_exclusive_witness:
  "let d = snd (enqueue_with_outcome 62 (sample_command ''again'' 63) ''11''
         (snd (enqueue_with_outcome 60 (sample_command ''stop'' 61) ''1'' sample_db)));
       (a, d1) = claim_next_with_redelivery unary_env 5 3 d;
       (b, d2) = claim_next_with_redelivery unary_env 7 3 d1
   in map_sum id (map_option ob_id) a = Inr (Some 60) \<and> map_sum id (map_option ob_id) b = Inr (Some 62) \<and>
      (\<exists>r \<in> set (db_outbox d2). ob_id r = 60 \<and> a = Inr (Some r))"
proof -
  let ?d = "snd (enqueue_with_outcome 62 (sample_command ''again'' 63) ''11''
         (snd (enqueue_with_outcome 60 (sample_command ''stop'' 61) ''1'' sample_db)))"
  obtain a d1 where a: "claim_next_with_redelivery unary_env 5 3 ?d = (a, d1)" by (rule prod.exhaust)
  obtain b d2 where b: "claim_next_with_redelivery unary_env 7 3 d1 = (b, d2)" by (rule prod.exhaust)
  have "map_sum id (map_option ob_id) (fst (claim_next_with_redelivery unary_env 5 3 ?d)) = Inr (Some 60)"
    "map_sum id (map_option ob_id) (fst (claim_next_with_redelivery unary_env 7 3
       (snd (claim_next_with_redelivery unary_env 5 3 ?d)))) = Inr (Some 62)"
    "outbox_ok ?d" "sql_bind unary_env (7 - 3) < sql_bind unary_env 5"
    by code_simp+
  note facts = this [unfolded a snd_conv fst_conv b]
  then obtain r r' where r: "a = Inr (Some r)" "b = Inr (Some r')" "ob_id r = 60" "ob_id r' = 62"
    by (cases a; cases b) auto
  have "held_step unary_env (sql_bind unary_env 5) (ob_id r) d1 d2"
    using held_step.claimed [of unary_env 7 3 "sql_bind unary_env 5" "ob_id r" d1] facts(4) b by simp
  with claimed_command_is_exclusive [OF facts(3), of unary_env 5 3 r d1 d2] a r(1)
  have "r \<in> set (db_outbox d2)" by blast
  with a b r show ?thesis by auto
qed

end
