(* ===== verification/Inbox.thy ===== *)
theory Inbox
  imports Outbox
begin

text \<open>
  The inbox of \<open>crates/db/src/models/orchestration.rs\<close>: events of linked agent runs are stored once, claimed, and
  consumed by joins; a consumption is recorded under the pair of join and source, together with the
  decision event and the follow-up command. Serial joins release their targets one at a time.
\<close>

section \<open>The inbox\<close>

definition insert_inbox :: "'v OrchestrationInboxRecord \<Rightarrow> 'v db \<Rightarrow> DbError + 'v db" where
  "insert_inbox r d =
     (if ib_source_sequence r \<le> 0 then Inl (DbCheck ''orchestration_inbox'')
      else if list_ex (\<lambda>x. ib_source_event_id x = ib_source_event_id r) (db_inbox d) then Inr d
      else if list_ex (\<lambda>x. ib_id x = ib_id r) (db_inbox d) then Inl (DbUnique ''orchestration_inbox'')
      else if \<not> list_ex (\<lambda>x. or_id x = ib_orchestration_run_id r) (db_runs d) \<or>
              \<not> list_ex (\<lambda>x. aev_event_id x = ib_source_event_id r \<and>
                   aev_agent_run_id x = ib_source_agent_run_id r) (db_agent_events d) \<or>
              \<not> list_ex (\<lambda>x. ol_orchestration_run_id x = ib_orchestration_run_id r \<and>
                   ol_agent_run_id x = ib_source_agent_run_id r) (db_links d)
      then Inl (DbForeignKey ''orchestration_inbox'')
      else Inr (d\<lparr>db_inbox := db_inbox d @ [r]\<rparr>))"

definition inbox_row ::
  "uuid \<Rightarrow> uuid \<Rightarrow> i64 \<Rightarrow> 'v AgentEventEnvelope \<Rightarrow> sql_text \<Rightarrow> 'v OrchestrationInboxRecord" where
  "inbox_row i run_id sequence e clock = \<lparr>
     ib_id = i, ib_orchestration_run_id = run_id, ib_source_event_id = ae_event_id e,
     ib_source_agent_run_id = ae_agent_run_id e, ib_source_sequence = sequence, ib_event_envelope = e,
     ib_consumption_status = CPending, ib_received_at = clock, ib_consumed_at = None\<rparr>"

definition ingest ::
  "sql_env \<Rightarrow> uuid \<Rightarrow> uuid \<Rightarrow> 'v AgentEventEnvelope \<Rightarrow> sql_text \<Rightarrow> 'v db \<Rightarrow>
   (OrchestrationPersistenceError + uuid) \<times> 'v db" where
  "ingest env i run_id e clock d =
     (case agent_validate_for_projection e of
        Inl err \<Rightarrow> (Inl (PInvalidVersion err), d)
      | Inr _ \<Rightarrow>
     if ae_orchestration_run_id e \<noteq> Some run_id then (Inl (PInboxRunMismatch (ae_event_id e)), d)
     else case find (\<lambda>r. ol_orchestration_run_id r = run_id \<and> ol_agent_run_id r = ae_agent_run_id e) (db_links d) of
       None \<Rightarrow> (Inl (PUnmanagedInboxSource (ae_event_id e) (ae_agent_run_id e)), d)
     | Some link \<Rightarrow>
     if ae_orchestration_node_execution_id e \<noteq> Some (ol_node_execution_id link)
     then (Inl (PInboxNodeMismatch (ae_event_id e)), d)
     else case find (\<lambda>r. aev_event_id r = ae_event_id e \<and> aev_agent_run_id r = ae_agent_run_id e) (db_agent_events d) of
       None \<Rightarrow> (Inl (PMissingInboxSourceEvent (ae_event_id e)), d)
     | Some source_event \<Rightarrow>
     if aev_event_envelope source_event \<noteq> e
     then (Inl (PIdempotencyConflict ''orchestration inbox source event'' (uuid_text env (ae_event_id e))), d)
     else case i64_of_u64 (ae_sequence e) of
       None \<Rightarrow> (Inl (PInvalidInboxSequence (ae_event_id e)), d)
     | Some sequence \<Rightarrow>
     if sequence \<le> 0 then (Inl (PInvalidInboxSequence (ae_event_id e)), d)
     else case insert_inbox (inbox_row i run_id sequence e clock) d of
       Inl err \<Rightarrow> (Inl (PDatabase err), d)
     | Inr d1 \<Rightarrow>
     (case find (\<lambda>r. ib_source_event_id r = ae_event_id e) (db_inbox d1) of
        None \<Rightarrow> (Inl (PDatabase DbRowNotFound), d1)
      | Some existing \<Rightarrow>
          if ib_orchestration_run_id existing \<noteq> run_id \<or> ib_source_agent_run_id existing \<noteq> ae_agent_run_id e \<or>
             ib_event_envelope existing \<noteq> e
          then (Inl (PIdempotencyConflict ''orchestration inbox event'' (uuid_text env (ae_event_id e))), d1)
          else (Inr (ib_id existing), d1)))"

definition inbox_claim_body ::
  "uuid \<Rightarrow> 'v db \<Rightarrow> OrchestrationPersistenceError + ('v OrchestrationInboxRecord option \<times> 'v db)" where
  "inbox_claim_body run_id d =
     (case first_by (\<lambda>r. (ib_received_at r, ib_id r))
             (filter (\<lambda>r. ib_orchestration_run_id r = run_id \<and> ib_consumption_status r = CPending) (db_inbox d)) of
        None \<Rightarrow> Inr (None, d)
      | Some candidate \<Rightarrow>
          let matches = (\<lambda>r. ib_id r = ib_id candidate \<and> ib_consumption_status r = CPending);
              d1 = d\<lparr>db_inbox := update_where matches (\<lambda>r. r\<lparr>ib_consumption_status := CProcessing\<rparr>) (db_inbox d)\<rparr>
          in if rows_affected matches (db_inbox d) = 0 then Inr (None, d1)
             else case find (\<lambda>r. ib_id r = ib_id candidate) (db_inbox d1) of
                    None \<Rightarrow> Inl (PDatabase DbRowNotFound)
                  | Some r \<Rightarrow> Inr (Some r, d1))"

definition inbox_claim_next ::
  "uuid \<Rightarrow> 'v db \<Rightarrow> (OrchestrationPersistenceError + 'v OrchestrationInboxRecord option) \<times> 'v db" where
  "inbox_claim_next run_id = transaction (inbox_claim_body run_id)"

definition reconcile_processing :: "uuid option \<Rightarrow> 'v db \<Rightarrow> nat \<times> 'v db" where
  "reconcile_processing run d =
     (let matches = (\<lambda>r. (case run of Some run_id \<Rightarrow> ib_orchestration_run_id r = run_id | None \<Rightarrow> True) \<and>
                         ib_consumption_status r = CProcessing)
      in (rows_affected matches (db_inbox d),
          d\<lparr>db_inbox := update_where matches (\<lambda>r. r\<lparr>ib_consumption_status := CPending\<rparr>) (db_inbox d)\<rparr>))"

definition open_inbox :: "uuid \<Rightarrow> 'v OrchestrationInboxRecord \<Rightarrow> bool" where
  "open_inbox i r \<longleftrightarrow> ib_id r = i \<and> ib_consumption_status r \<in> {CPending, CProcessing}"

definition set_consumed :: "sql_env \<Rightarrow> uuid \<Rightarrow> datetime \<Rightarrow> 'v db \<Rightarrow> 'v db" where
  "set_consumed env i consumed_at d = d\<lparr>db_inbox := update_where (open_inbox i)
     (\<lambda>r. r\<lparr>ib_consumption_status := CConsumed, ib_consumed_at := Some (sql_bind env consumed_at)\<rparr>) (db_inbox d)\<rparr>"

definition mark_consumed :: "sql_env \<Rightarrow> uuid \<Rightarrow> datetime \<Rightarrow> 'v db \<Rightarrow> bool \<times> 'v db" where
  "mark_consumed env i consumed_at d =
     (rows_affected (open_inbox i) (db_inbox d) = 1, set_consumed env i consumed_at d)"

definition release_claim :: "uuid \<Rightarrow> 'v db \<Rightarrow> bool \<times> 'v db" where
  "release_claim i d =
     (let matches = (\<lambda>r. ib_id r = i \<and> ib_consumption_status r = CProcessing)
      in (rows_affected matches (db_inbox d) = 1,
          d\<lparr>db_inbox := update_where matches (\<lambda>r. r\<lparr>ib_consumption_status := CPending\<rparr>) (db_inbox d)\<rparr>))"

definition insert_consumption :: "OrchestrationConsumptionRecord \<Rightarrow> 'v db \<Rightarrow> DbError + ('v db \<times> nat)" where
  "insert_consumption r d =
     (let node_in_run = (\<lambda>i. list_ex (\<lambda>x. on_id x = i \<and>
            on_orchestration_run_id x = oc_orchestration_run_id r) (db_nodes d))
      in if list_ex (\<lambda>x. oc_join_node_execution_id x = oc_join_node_execution_id r \<and>
               oc_source_node_execution_id x = oc_source_node_execution_id r) (db_consumption d)
         then Inr (d, 0)
         else if list_ex (\<lambda>x. oc_id x = oc_id r) (db_consumption d) then Inl (DbUnique ''orchestration_consumption'')
         else if \<not> list_ex (\<lambda>x. or_id x = oc_orchestration_run_id r) (db_runs d) \<or>
                 \<not> node_in_run (oc_join_node_execution_id r) \<or> \<not> node_in_run (oc_source_node_execution_id r) \<or>
                 \<not> list_ex (\<lambda>x. ol_orchestration_run_id x = oc_orchestration_run_id r \<and>
                      ol_node_execution_id x = oc_source_node_execution_id r \<and>
                      ol_agent_run_id x = oc_source_agent_run_id r) (db_links d) \<or>
                 \<not> list_ex (\<lambda>x. aev_event_id x = oc_source_event_id r \<and>
                      aev_agent_run_id x = oc_source_agent_run_id r) (db_agent_events d) \<or>
                 \<not> (case oc_target_node_execution_id r of None \<Rightarrow> True | Some t \<Rightarrow> node_in_run t)
         then Inl (DbForeignKey ''orchestration_consumption'')
         else Inr (d\<lparr>db_consumption := db_consumption d @ [r]\<rparr>, 1))"

definition record_consumption_in_transaction ::
  "sql_env \<Rightarrow> uuid \<Rightarrow> uuid \<Rightarrow> uuid \<Rightarrow> uuid \<Rightarrow> uuid option \<Rightarrow> datetime \<Rightarrow> 'v db \<Rightarrow>
   OrchestrationPersistenceError + (bool \<times> 'v db)" where
  "record_consumption_in_transaction env fresh inbox_id join_id source_id target consumed_at d =
     (case find (\<lambda>r. ib_id r = inbox_id) (db_inbox d) of
        None \<Rightarrow> Inl PMissingNodeIdentity
      | Some inbox \<Rightarrow>
          if ae_orchestration_run_id (ib_event_envelope inbox) \<noteq> Some (ib_orchestration_run_id inbox) \<or>
             ae_orchestration_node_execution_id (ib_event_envelope inbox) \<noteq> Some source_id
          then Inl (PInboxNodeMismatch (ib_source_event_id inbox))
          else and_then (map_err PDatabase (insert_consumption \<lparr>oc_id = fresh,
                   oc_orchestration_run_id = ib_orchestration_run_id inbox, oc_join_node_execution_id = join_id,
                   oc_source_node_execution_id = source_id, oc_source_agent_run_id = ib_source_agent_run_id inbox,
                   oc_source_event_id = ib_source_event_id inbox, oc_target_node_execution_id = target,
                   oc_consumed_at = sql_bind env consumed_at\<rparr> d)) (\<lambda>(d1, inserted).
            case find (\<lambda>r. oc_join_node_execution_id r = join_id \<and> oc_source_node_execution_id r = source_id)
                   (db_consumption d1) of
              None \<Rightarrow> Inl (PDatabase DbRowNotFound)
            | Some existing \<Rightarrow>
                if oc_orchestration_run_id existing \<noteq> ib_orchestration_run_id inbox \<or>
                   oc_source_agent_run_id existing \<noteq> ib_source_agent_run_id inbox \<or>
                   oc_source_event_id existing \<noteq> ib_source_event_id inbox \<or>
                   oc_target_node_execution_id existing \<noteq> target
                then Inl (PIdempotencyConflict ''orchestration source consumption''
                       (uuid_text env join_id @ '':'' @ uuid_text env source_id))
                else Inr (inserted = 1, set_consumed env inbox_id consumed_at d1)))"

definition consume ::
  "sql_env \<Rightarrow> uuid \<Rightarrow> uuid \<Rightarrow> uuid \<Rightarrow> uuid \<Rightarrow> uuid option \<Rightarrow> datetime \<Rightarrow> 'v db \<Rightarrow>
   (OrchestrationPersistenceError + bool) \<times> 'v db" where
  "consume env fresh inbox_id join_id source_id target consumed_at =
     transaction (record_consumption_in_transaction env fresh inbox_id join_id source_id target consumed_at)"

text \<open>A serial \<open>each\<close> join, read from the frozen plan of the run.\<close>

definition plan_serial_each :: "'v OrchestrationPlanSnapshot \<Rightarrow> string \<Rightarrow> bool" where
  "plan_serial_each plan key \<longleftrightarrow>
     list_ex (\<lambda>n. pn_node_key n = key \<and> pn_join n = JoinEach \<and> pn_each_downstream_execution n = EachSerial)
       (pl_nodes plan)"

definition SERIAL_HOLD :: sql_text where
  "SERIAL_HOLD = ''9999-12-31T23:59:59Z''"

definition hold_follow_up :: "uuid \<Rightarrow> 'v db \<Rightarrow> 'v db" where
  "hold_follow_up outbox_id d = d\<lparr>db_outbox := update_where
     (\<lambda>r. ob_id r = outbox_id \<and> ob_delivery_status r = DPending) (\<lambda>r. r\<lparr>ob_available_at := SERIAL_HOLD\<rparr>)
     (db_outbox d)\<rparr>"

definition enqueue_follow_up ::
  "uuid \<Rightarrow> uuid \<Rightarrow> uuid option \<Rightarrow> uuid \<Rightarrow> 'v AgentRunPortCommandEnvelope \<Rightarrow> sql_text \<Rightarrow> 'v db \<Rightarrow>
   OrchestrationPersistenceError + 'v db" where
  "enqueue_follow_up run_id join_id target outbox_id c clock d =
     and_then (enqueue_outbox_in_transaction outbox_id c clock d) (\<lambda>(_, d1).
     case (find (\<lambda>r. or_id r = run_id) (db_runs d1),
           find (\<lambda>r. on_id r = join_id \<and> on_orchestration_run_id r = run_id) (db_nodes d1)) of
       (Some run, Some join_node) \<Rightarrow>
         let target_status = Option.bind target (\<lambda>t. map_option on_status (find (\<lambda>r. on_id r = t) (db_nodes d1)))
         in Inr (if plan_serial_each (or_plan_snapshot run) (on_node_key join_node) \<and> target_status = Some ONPending
                 then hold_follow_up outbox_id d1 else d1)
     | _ \<Rightarrow> Inl (PDatabase DbRowNotFound))"

definition consume_with_effects_body ::
  "sql_env \<Rightarrow> uuid \<Rightarrow> uuid \<Rightarrow> uuid \<Rightarrow> uuid \<Rightarrow> uuid option \<Rightarrow> 'v OrchestrationEventEnvelope \<Rightarrow>
   (uuid \<times> 'v AgentRunPortCommandEnvelope) option \<Rightarrow> datetime \<Rightarrow> sql_text \<Rightarrow> 'v db \<Rightarrow>
   OrchestrationPersistenceError + (bool \<times> 'v db)" where
  "consume_with_effects_body env fresh inbox_id join_id source_id target e follow_up consumed_at clock d =
     (case find (\<lambda>r. ib_id r = inbox_id) (db_inbox d) of
        None \<Rightarrow> Inl PMissingNodeIdentity
      | Some inbox \<Rightarrow>
          let run_id = ib_orchestration_run_id inbox in
          if oe_orchestration_run_id e \<noteq> run_id then Inl PEffectRunMismatch
          else if (case follow_up of None \<Rightarrow> False | Some (_, c) \<Rightarrow>
                     ce_orchestration_run_id c \<noteq> Some run_id \<or> ce_orchestration_node_execution_id c \<noteq> target)
          then Inl PEffectRunMismatch
          else and_then (record_consumption_in_transaction env fresh inbox_id join_id source_id target consumed_at d)
            (\<lambda>(inserted, d1).
              if \<not> inserted then Inr (False, d1)
              else and_then (append_and_project_in_transaction env clock e d1) (\<lambda>(_, d2).
                case follow_up of
                  None \<Rightarrow> Inr (True, d2)
                | Some (outbox_id, c) \<Rightarrow>
                    and_then (enqueue_follow_up run_id join_id target outbox_id c clock d2) (\<lambda>d3.
                      Inr (True, d3)))))"

definition consume_with_effects ::
  "sql_env \<Rightarrow> uuid \<Rightarrow> uuid \<Rightarrow> uuid \<Rightarrow> uuid \<Rightarrow> uuid option \<Rightarrow> 'v OrchestrationEventEnvelope \<Rightarrow>
   (uuid \<times> 'v AgentRunPortCommandEnvelope) option \<Rightarrow> datetime \<Rightarrow> sql_text \<Rightarrow> 'v db \<Rightarrow>
   (OrchestrationPersistenceError + bool) \<times> 'v db" where
  "consume_with_effects env fresh inbox_id join_id source_id target e follow_up consumed_at clock =
     transaction (consume_with_effects_body env fresh inbox_id join_id source_id target e follow_up consumed_at clock)"

definition inbox_source_cursor :: "uuid \<Rightarrow> uuid \<Rightarrow> 'v db \<Rightarrow> u64" where
  "inbox_source_cursor run_id agent_run_id d =
     (case map ib_source_sequence (filter (\<lambda>r. ib_orchestration_run_id r = run_id \<and>
             ib_source_agent_run_id r = agent_run_id \<and> ib_consumption_status r = CConsumed) (db_inbox d)) of
        [] \<Rightarrow> 0
      | n # ns \<Rightarrow> (case u64_of_i64 (fold max ns n) of Some k \<Rightarrow> k | None \<Rightarrow> 0))"

definition consumption_source_cursor :: "uuid \<Rightarrow> uuid \<Rightarrow> 'v db \<Rightarrow> u64" where
  "consumption_source_cursor = inbox_source_cursor"

section \<open>Handoffs and the serial queue\<close>

definition handoff_rows ::
  "uuid \<Rightarrow> uuid \<Rightarrow> 'v db \<Rightarrow>
   (OrchestrationConsumptionRecord \<times> AgentTurnRecord \<times> 'v AgentRunStateRecord) list" where
  "handoff_rows join_id source_id d =
     [(c, t, s). c \<leftarrow> db_consumption d, oc_join_node_execution_id c = join_id \<and>
        oc_source_node_execution_id c = source_id,
      t \<leftarrow> db_agent_turns d, at_agent_run_id t = oc_source_agent_run_id c,
      s \<leftarrow> db_agent_states d, ars_agent_run_id s = oc_source_agent_run_id c]"

definition upstream_handoff ::
  "uuid \<Rightarrow> uuid \<Rightarrow> 'v db \<Rightarrow> OrchestrationPersistenceError + UpstreamHandoff" where
  "upstream_handoff join_id source_id d =
     (case first_by (\<lambda>(c, t, s). (at_turn_number t, at_created_at t, at_id t)) (handoff_rows join_id source_id d) of
        None \<Rightarrow> Inl PMissingNodeIdentity
      | Some (c, t, s) \<Rightarrow>
          (case find (\<lambda>n. on_id n = oc_source_node_execution_id c \<and>
                  on_orchestration_run_id n = oc_orchestration_run_id c) (db_nodes d) of
             None \<Rightarrow> Inl (PDatabase DbDecode)
           | Some n \<Rightarrow>
               if on_status n \<noteq> ONSucceeded \<or> st_status (ars_state_json s) \<noteq> ASucceeded
               then Inl (PNonConsumableHandoff source_id)
               else Inr \<lparr>uh_source_ref = \<lparr>us_orchestration_run_id = oc_orchestration_run_id c,
                      us_node_execution_id = oc_source_node_execution_id c,
                      us_agent_run_id = oc_source_agent_run_id c\<rparr>,
                    uh_initiating_input = at_input_message t,
                    uh_terminal_output = (case st_terminal_output (ars_state_json s) of
                        Some m \<Rightarrow> if cm_role m = RoleAssistant then Some m else None
                      | None \<Rightarrow> None)\<rparr>))"

definition active_target :: "OrchestrationNodeStatus \<Rightarrow> bool" where
  "active_target s \<longleftrightarrow> s \<in> {ONReady, ONRunning, ONAwaitingInput, ONAwaitingApproval, ONCancelling}"

definition serial_targets ::
  "uuid \<Rightarrow> 'v db \<Rightarrow> (OrchestrationConsumptionRecord \<times> OrchestrationNodeExecutionRecord) list" where
  "serial_targets join_id d =
     [(c, t). c \<leftarrow> db_consumption d, oc_join_node_execution_id c = join_id,
      t \<leftarrow> db_nodes d, oc_target_node_execution_id c = Some (on_id t) \<and>
        on_orchestration_run_id t = oc_orchestration_run_id c]"

definition serial_queue ::
  "uuid \<Rightarrow> 'v db \<Rightarrow>
   (OrchestrationConsumptionRecord \<times> OrchestrationNodeExecutionRecord \<times> 'v OrchestrationInboxRecord) list" where
  "serial_queue join_id d =
     [(c, t, b). (c, t) \<leftarrow> serial_targets join_id d, on_status t = ONPending,
      b \<leftarrow> db_inbox d, ib_source_event_id b = oc_source_event_id c \<and>
        ib_orchestration_run_id b = oc_orchestration_run_id c]"

definition serial_key ::
  "'v db \<Rightarrow> OrchestrationConsumptionRecord \<times> OrchestrationNodeExecutionRecord \<times> 'v OrchestrationInboxRecord \<Rightarrow>
   i64 \<times> i64 \<times> i64 \<times> uuid" where
  "serial_key d = (\<lambda>(c, t, b).
     case find (\<lambda>n. on_id n = oc_source_node_execution_id c \<and>
            on_orchestration_run_id n = oc_orchestration_run_id c) (db_nodes d) of
       Some n \<Rightarrow> (on_stable_order n, on_iteration n, ib_source_sequence b, oc_source_event_id c)
     | None \<Rightarrow> (9223372036854775807, 9223372036854775807, ib_source_sequence b, oc_source_event_id c))"

text \<open>The transaction of \<open>promote_next_serial\<close>; the join makes the target of a queue row present.\<close>

definition promote_body ::
  "sql_env \<Rightarrow> uuid \<Rightarrow> datetime \<Rightarrow> 'v db \<Rightarrow>
   OrchestrationPersistenceError +
   ((OrchestrationConsumptionRecord \<times> OrchestrationNodeExecutionRecord \<times> 'v OrchestrationInboxRecord) option \<times> 'v db)" where
  "promote_body env join_id now d =
     (case Option.bind (find (\<lambda>r. on_id r = join_id) (db_nodes d))
             (\<lambda>n. find (\<lambda>r. or_id r = on_orchestration_run_id n) (db_runs d)) of
        None \<Rightarrow> Inl PMissingNodeIdentity
      | Some run \<Rightarrow>
          if or_status run = OCancelling \<or> orchestration_terminal (or_status run) then Inr (None, d)
          else if list_ex (\<lambda>(c, t). active_target (on_status t)) (serial_targets join_id d) then Inr (None, d)
          else case first_by (serial_key d) (serial_queue join_id d) of
                 None \<Rightarrow> Inr (None, d)
               | Some (c, t, b) \<Rightarrow>
                   let promoted = (\<lambda>r. on_id r = on_id t \<and> on_status r = ONPending);
                       d1 = d\<lparr>db_nodes := update_where promoted
                         (\<lambda>r. r\<lparr>on_status := ONReady, on_updated_at := sql_bind env now\<rparr>) (db_nodes d)\<rparr>
                   in if rows_affected promoted (db_nodes d) = 0 then Inr (None, d1)
                      else Inr (Some (c, t, b), d1\<lparr>db_outbox := update_where
                        (\<lambda>r. ob_node_execution_id r = Some (on_id t) \<and> ob_delivery_status r \<in> {DPending, DFailed})
                        (\<lambda>r. r\<lparr>ob_available_at := sql_bind env now\<rparr>) (db_outbox d1)\<rparr>))"

definition promote_next_serial ::
  "sql_env \<Rightarrow> uuid \<Rightarrow> datetime \<Rightarrow> 'v db \<Rightarrow>
   (OrchestrationPersistenceError + SerialEachQueueItem option) \<times> 'v db" where
  "promote_next_serial env join_id now d =
     (case transaction (promote_body env join_id now) d of
        (Inl e, d1) \<Rightarrow> (Inl e, d1)
      | (Inr None, d1) \<Rightarrow> (Inr None, d1)
      | (Inr (Some (c, t, b)), d1) \<Rightarrow>
          (case u64_of_i64 (ib_source_sequence b) of
             None \<Rightarrow> (Inl (PInvalidInboxSequence (oc_source_event_id c)), d1)
           | Some sequence \<Rightarrow> (Inr (Some \<lparr>sq_consumption_id = oc_id c, sq_source_event_id = oc_source_event_id c,
               sq_source_sequence = sequence, sq_target_node_execution_id = on_id t,
               sq_target_status = on_status t\<rparr>), d1)))"

section \<open>Keys and consumption states\<close>

definition consumption_key :: "OrchestrationConsumptionRecord \<Rightarrow> uuid \<times> uuid" where
  "consumption_key r = (oc_join_node_execution_id r, oc_source_node_execution_id r)"

interpretation inbox_rows: keyed_table db_inbox ib_source_event_id insert_inbox
  by unfold_locales (auto simp: insert_inbox_def list_ex_iff split: if_splits)

interpretation consumption_rows: keyed_table db_consumption consumption_key "\<lambda>r d. map_sum id fst (insert_consumption r d)"
  by unfold_locales (auto simp: insert_consumption_def consumption_key_def list_ex_iff Let_def split: if_splits)

text \<open>An inbox row keeps its event, and once it is consumed it no longer changes.\<close>

definition consumption_step :: "'v OrchestrationInboxRecord \<Rightarrow> 'v OrchestrationInboxRecord \<Rightarrow> bool" where
  "consumption_step r r' \<longleftrightarrow>
     ib_id r' = ib_id r \<and> ib_source_event_id r' = ib_source_event_id r \<and>
     ib_event_envelope r' = ib_event_envelope r \<and> (ib_consumption_status r = CConsumed \<longrightarrow> r' = r)"

lemma consumption_step_refl [simp]: "consumption_step r r"
  by (simp add: consumption_step_def)

lemma consumption_step_trans: "consumption_step a b \<Longrightarrow> consumption_step b c \<Longrightarrow> consumption_step a c"
  by (auto simp: consumption_step_def)

definition inbox_ok :: "'v db \<Rightarrow> bool" where
  "inbox_ok d \<longleftrightarrow> distinct (map ib_id (db_inbox d)) \<and> distinct (map ib_source_event_id (db_inbox d)) \<and>
     distinct (map consumption_key (db_consumption d))"

definition inbox_moves :: "'v db \<Rightarrow> 'v db \<Rightarrow> bool" where
  "inbox_moves d d' \<longleftrightarrow> (inbox_ok d \<longrightarrow> inbox_ok d') \<and> evolves consumption_step (db_inbox d) (db_inbox d') \<and>
     (\<exists>new. db_consumption d' = db_consumption d @ new)"

lemma inbox_moves_refl [simp]:
  "db_inbox d' = db_inbox d \<Longrightarrow> db_consumption d' = db_consumption d \<Longrightarrow> inbox_moves d d'"
  by (simp add: inbox_moves_def inbox_ok_def evolves_refl)

lemma inbox_moves_trans: "inbox_moves a b \<Longrightarrow> inbox_moves b c \<Longrightarrow> inbox_moves a c"
  by (auto simp: inbox_moves_def intro: evolves_trans consumption_step_trans)

lemma inbox_moves_update:
  assumes "\<And>r. P r \<Longrightarrow> consumption_step r (f r)"
  shows "inbox_moves d (d\<lparr>db_inbox := update_where P f (db_inbox d)\<rparr>)"
proof -
  have "map ib_id (update_where P f (db_inbox d)) = map ib_id (db_inbox d)"
      "map ib_source_event_id (update_where P f (db_inbox d)) = map ib_source_event_id (db_inbox d)"
    using assms by (simp_all add: map_update_where consumption_step_def)
  with evolves_update [of consumption_step P f "db_inbox d"] assms show ?thesis
    by (simp add: inbox_moves_def inbox_ok_def)
qed

lemma inbox_moves_set_consumed: "inbox_moves d (set_consumed env i t d)"
  unfolding set_consumed_def
  by (rule inbox_moves_update) (auto simp: open_inbox_def consumption_step_def)

lemma inbox_moves_release_claim: "inbox_moves d (snd (release_claim i d))"
  unfolding release_claim_def Let_def snd_conv by (rule inbox_moves_update) (auto simp: consumption_step_def)

lemma inbox_moves_reconcile: "inbox_moves d (snd (reconcile_processing run d))"
  unfolding reconcile_processing_def Let_def snd_conv by (rule inbox_moves_update) (auto simp: consumption_step_def)

lemma inbox_moves_claim:
  assumes "inbox_claim_body run d = Inr (res, d')"
  shows "inbox_moves d d'"
proof (cases "d' = d")
  case False
  let ?up = "\<lambda>i. d\<lparr>db_inbox := update_where (\<lambda>r. ib_id r = i \<and> ib_consumption_status r = CPending)
      (\<lambda>r. r\<lparr>ib_consumption_status := CProcessing\<rparr>) (db_inbox d)\<rparr>"
  have "\<exists>i. d' = ?up i"
  proof (cases "first_by (\<lambda>r. (ib_received_at r, ib_id r))
      (filter (\<lambda>r. ib_orchestration_run_id r = run \<and> ib_consumption_status r = CPending) (db_inbox d))")
    case (Some c)
    with assms have "d' = ?up (ib_id c)"
      by (cases "find (\<lambda>r. ib_id r = ib_id c) (db_inbox (?up (ib_id c)))")
         (auto simp: inbox_claim_body_def Let_def split: if_splits)
    then show ?thesis by blast
  qed (use assms False in \<open>simp add: inbox_claim_body_def\<close>)
  then obtain i where "d' = ?up i" by blast
  then show ?thesis by (simp only:) (rule inbox_moves_update, auto simp: consumption_step_def)
qed simp

lemma insert_inbox_ok:
  "insert_inbox r d = Inr d' \<Longrightarrow> d' = d \<or> (ib_id r \<notin> ib_id ` set (db_inbox d) \<and>
     ib_source_event_id r \<notin> ib_source_event_id ` set (db_inbox d) \<and> d' = d\<lparr>db_inbox := db_inbox d @ [r]\<rparr>)"
  by (auto simp: insert_inbox_def list_ex_iff split: if_splits)

lemma ingest_cases:
  assumes "ingest env i run e clock d = (res, d')"
  shows "d' = d \<or> (\<exists>r. insert_inbox r d = Inr d')"
  using assms by (auto simp: ingest_def split: sum.splits if_splits option.splits)

lemma inbox_moves_ingest:
  assumes "ingest env i run e clock d = (res, d')"
  shows "inbox_moves d d'"
proof -
  from ingest_cases [OF assms] insert_inbox_ok [of _ d d'] obtain r where
    "d' = d \<or> (ib_id r \<notin> ib_id ` set (db_inbox d) \<and>
       ib_source_event_id r \<notin> ib_source_event_id ` set (db_inbox d) \<and> d' = d\<lparr>db_inbox := db_inbox d @ [r]\<rparr>)"
    by blast
  then show ?thesis by (auto simp: inbox_moves_def inbox_ok_def intro!: evolves_append evolves_refl)
qed

lemma record_consumption_cases:
  assumes "record_consumption_in_transaction env fresh i j s t now d = Inr (b, d')"
  shows "(\<not> b \<and> (j, s) \<in> consumption_key ` set (db_consumption d) \<and> d' = set_consumed env i now d) \<or>
    (\<exists>r. b \<and> consumption_key r = (j, s) \<and> (j, s) \<notin> consumption_key ` set (db_consumption d) \<and>
       d' = set_consumed env i now (d\<lparr>db_consumption := db_consumption d @ [r]\<rparr>))"
proof -
  from assms obtain r d1 n where ins: "insert_consumption r d = Inr (d1, n)" and key: "consumption_key r = (j, s)"
    and d': "d' = set_consumed env i now d1" "b \<longleftrightarrow> n = 1"
    by (auto simp: record_consumption_in_transaction_def result_simps consumption_key_def
        split: option.splits if_splits)
  from ins key have "(n = 0 \<and> (j, s) \<in> consumption_key ` set (db_consumption d) \<and> d1 = d) \<or>
      (n = 1 \<and> (j, s) \<notin> consumption_key ` set (db_consumption d) \<and> d1 = d\<lparr>db_consumption := db_consumption d @ [r]\<rparr>)"
    by (auto simp: insert_consumption_def consumption_key_def Let_def list_ex_iff image_iff split: if_splits) metis
  with key d' show ?thesis by auto
qed

lemma inbox_moves_record_consumption:
  assumes "record_consumption_in_transaction env fresh i j s t now d = Inr (b, d')"
  shows "inbox_moves d d'"
  using record_consumption_cases [OF assms]
proof (elim disjE exE conjE)
  fix r assume "consumption_key r = (j, s)" "(j, s) \<notin> consumption_key ` set (db_consumption d)"
    and d': "d' = set_consumed env i now (d\<lparr>db_consumption := db_consumption d @ [r]\<rparr>)"
  then have "inbox_moves d (d\<lparr>db_consumption := db_consumption d @ [r]\<rparr>)"
    by (auto simp: inbox_moves_def inbox_ok_def evolves_refl)
  from inbox_moves_trans [OF this inbox_moves_set_consumed] show ?thesis by (simp add: d')
qed (simp add: inbox_moves_set_consumed)

lemma enqueue_follow_up_cases:
  assumes "enqueue_follow_up run j t k c clock d = Inr d'"
  obtains kb d1 where "enqueue_outbox_in_transaction k c clock d = Inr (kb, d1)" "d' = d1 \<or> d' = hold_follow_up k d1"
proof -
  from assms obtain kb d1 where enq: "enqueue_outbox_in_transaction k c clock d = Inr (kb, d1)"
    and rest: "(case (find (\<lambda>r. or_id r = run) (db_runs d1),
         find (\<lambda>r. on_id r = j \<and> on_orchestration_run_id r = run) (db_nodes d1)) of
       (Some rn, Some jn) \<Rightarrow>
         Inr (if plan_serial_each (or_plan_snapshot rn) (on_node_key jn) \<and>
                 Option.bind t (\<lambda>t. map_option on_status (find (\<lambda>r. on_id r = t) (db_nodes d1))) = Some ONPending
              then hold_follow_up k d1 else d1)
     | _ \<Rightarrow> Inl (PDatabase DbRowNotFound)) = Inr d'"
    unfolding enqueue_follow_up_def and_then_eq_Inr Let_def by auto
  from rest have "d' = d1 \<or> d' = hold_follow_up k d1" by (auto split: option.splits if_splits)
  with enq that show thesis by blast
qed

lemma consume_with_effects_cases:
  assumes "consume_with_effects_body env fresh i j s t e follow_up now clock d = Inr (b, d')"
  obtains (again) "\<not> b" "record_consumption_in_transaction env fresh i j s t now d = Inr (False, d')"
  | (first) d1 a d2 where "b" "record_consumption_in_transaction env fresh i j s t now d = Inr (True, d1)"
      "append_and_project_in_transaction env clock e d1 = Inr (a, d2)"
      "case follow_up of None \<Rightarrow> d' = d2
       | Some (k, c) \<Rightarrow> enqueue_follow_up (oe_orchestration_run_id e) j t k c clock d2 = Inr d'"
proof -
  from assms obtain b1 d1 where rec: "record_consumption_in_transaction env fresh i j s t now d = Inr (b1, d1)"
    and rest: "(if \<not> b1 then Inr (False, d1)
      else and_then (append_and_project_in_transaction env clock e d1) (\<lambda>(_, d2).
        case follow_up of None \<Rightarrow> Inr (True, d2)
        | Some (k, c) \<Rightarrow> and_then (enqueue_follow_up (oe_orchestration_run_id e) j t k c clock d2) (\<lambda>d3. Inr (True, d3)))) =
      Inr (b, d')"
    by (auto simp: consume_with_effects_body_def Let_def and_then_eq_Inr split: option.splits if_splits)
  show thesis
  proof (cases b1)
    case False
    with rest rec again show thesis by simp
  next
    case True
    with rest obtain a d2 where app: "append_and_project_in_transaction env clock e d1 = Inr (a, d2)"
      and fu: "(case follow_up of None \<Rightarrow> Inr (True, d2)
        | Some (k, c) \<Rightarrow> and_then (enqueue_follow_up (oe_orchestration_run_id e) j t k c clock d2) (\<lambda>d3. Inr (True, d3))) = Inr (b, d')"
      by (auto simp: and_then_eq_Inr)
    from fu have "b \<and> (case follow_up of None \<Rightarrow> d' = d2
        | Some (k, c) \<Rightarrow> enqueue_follow_up (oe_orchestration_run_id e) j t k c clock d2 = Inr d')"
      by (auto simp: and_then_eq_Inr split: option.splits)
    with True rec app show thesis by (intro first [of d1 a d2]) simp_all
  qed
qed

text \<open>The parts of the database that the parts of a consumption leave alone.\<close>

lemma set_consumed_frame [simp]:
  "db_runs (set_consumed env i now d) = db_runs d" "db_states (set_consumed env i now d) = db_states d"
  "db_events (set_consumed env i now d) = db_events d" "db_outbox (set_consumed env i now d) = db_outbox d"
  "db_nodes (set_consumed env i now d) = db_nodes d" "db_links (set_consumed env i now d) = db_links d"
  "db_consumption (set_consumed env i now d) = db_consumption d" "db_leases (set_consumed env i now d) = db_leases d"
  by (simp_all add: set_consumed_def)

lemma record_consumption_frame:
  assumes "record_consumption_in_transaction env fresh i j s t now d = Inr (b, d')"
  shows "db_runs d' = db_runs d \<and> db_states d' = db_states d \<and> db_events d' = db_events d \<and>
    db_outbox d' = db_outbox d \<and> db_nodes d' = db_nodes d \<and> db_links d' = db_links d \<and> db_leases d' = db_leases d"
  using record_consumption_cases [OF assms] by auto

lemma append_frame:
  assumes "append_and_project_in_transaction env clock e d = Inr (a, d')"
  shows "db_nodes d' = db_nodes d \<and> db_links d' = db_links d \<and> db_outbox d' = db_outbox d \<and>
    db_inbox d' = db_inbox d \<and> db_consumption d' = db_consumption d \<and> db_leases d' = db_leases d"
  using append_cases [OF assms] by (auto simp: store_projection_def)

lemma enqueue_frame:
  assumes "enqueue_outbox_in_transaction k c clock d = Inr (kb, d')"
  shows "db_runs d' = db_runs d \<and> db_states d' = db_states d \<and> db_events d' = db_events d \<and>
    db_nodes d' = db_nodes d \<and> db_links d' = db_links d \<and> db_inbox d' = db_inbox d \<and>
    db_consumption d' = db_consumption d \<and> db_leases d' = db_leases d"
proof -
  obtain k' b where "kb = (k', b)" by (cases kb)
  with assms have "enqueue_outbox_in_transaction k c clock d = Inr ((k', b), d')" by simp
  then show ?thesis by (cases rule: enqueue_cases) auto
qed

lemma hold_follow_up_frame [simp]:
  "db_runs (hold_follow_up k d) = db_runs d" "db_states (hold_follow_up k d) = db_states d"
  "db_events (hold_follow_up k d) = db_events d" "db_nodes (hold_follow_up k d) = db_nodes d"
  "db_links (hold_follow_up k d) = db_links d" "db_inbox (hold_follow_up k d) = db_inbox d"
  "db_consumption (hold_follow_up k d) = db_consumption d" "db_leases (hold_follow_up k d) = db_leases d"
  by (simp_all add: hold_follow_up_def)

lemma outbox_moves_hold: "outbox_moves d (hold_follow_up k d)"
  unfolding hold_follow_up_def by (rule outbox_moves_update) (auto simp: delivery_step_def)

section \<open>The serial queue\<close>

lemma serial_targets_iff:
  "(c, t) \<in> set (serial_targets j d) \<longleftrightarrow>
     c \<in> set (db_consumption d) \<and> oc_join_node_execution_id c = j \<and> t \<in> set (db_nodes d) \<and>
     oc_target_node_execution_id c = Some (on_id t) \<and> on_orchestration_run_id t = oc_orchestration_run_id c"
  by (auto simp: serial_targets_def)

lemma serial_targets_image:
  assumes "set (db_nodes d') = f ` set (db_nodes d)" "db_consumption d' = db_consumption d"
    and keys: "\<And>v. on_id (f v) = on_id v" "\<And>v. on_orchestration_run_id (f v) = on_orchestration_run_id v"
  shows "(c, u) \<in> set (serial_targets j d') \<longleftrightarrow> (\<exists>v. u = f v \<and> (c, v) \<in> set (serial_targets j d))"
proof
  assume "(c, u) \<in> set (serial_targets j d')"
  then have u: "c \<in> set (db_consumption d)" "oc_join_node_execution_id c = j" "u \<in> f ` set (db_nodes d)"
      "oc_target_node_execution_id c = Some (on_id u)" "on_orchestration_run_id u = oc_orchestration_run_id c"
    by (simp_all only: serial_targets_iff assms(1,2))
  from u(3) obtain v where "u = f v" "v \<in> set (db_nodes d)" by (rule imageE)
  with u show "\<exists>v. u = f v \<and> (c, v) \<in> set (serial_targets j d)"
    by (intro exI [of _ v]) (simp add: serial_targets_iff keys)
next
  assume "\<exists>v. u = f v \<and> (c, v) \<in> set (serial_targets j d)"
  then show "(c, u) \<in> set (serial_targets j d')" by (auto simp: serial_targets_iff assms)
qed

lemma serial_queue_iff:
  "(c, t, b) \<in> set (serial_queue j d) \<longleftrightarrow>
     (c, t) \<in> set (serial_targets j d) \<and> on_status t = ONPending \<and> b \<in> set (db_inbox d) \<and>
     ib_source_event_id b = oc_source_event_id c \<and> ib_orchestration_run_id b = oc_orchestration_run_id c"
  by (force simp: serial_queue_def)

definition promoted :: "sql_env \<Rightarrow> uuid \<Rightarrow> datetime \<Rightarrow> 'v db \<Rightarrow> 'v db" where
  "promoted env i now d = d\<lparr>
     db_nodes := update_where (\<lambda>r. on_id r = i \<and> on_status r = ONPending)
       (\<lambda>r. r\<lparr>on_status := ONReady, on_updated_at := sql_bind env now\<rparr>) (db_nodes d),
     db_outbox := update_where (\<lambda>r. ob_node_execution_id r = Some i \<and> ob_delivery_status r \<in> {DPending, DFailed})
       (\<lambda>r. r\<lparr>ob_available_at := sql_bind env now\<rparr>) (db_outbox d)\<rparr>"

lemma promote_cases:
  assumes "promote_body env j now d = Inr (res, d')"
  obtains (no_one) "res = None" "d' = d"
  | (next_one) c t b where "res = Some (c, t, b)" "d' = promoted env (on_id t) now d"
      "first_by (serial_key d) (serial_queue j d) = Some (c, t, b)"
      "\<forall>p \<in> set (serial_targets j d). \<not> active_target (on_status (snd p))"
proof -
  let ?active = "list_ex (\<lambda>(c, t). active_target (on_status t)) (serial_targets j d)"
  show thesis
  proof (cases "d' = d \<and> res = None")
    case False
    with assms obtain run where run: "Option.bind (find (\<lambda>r. on_id r = j) (db_nodes d))
          (\<lambda>n. find (\<lambda>r. or_id r = on_orchestration_run_id n) (db_runs d)) = Some run"
        "\<not> (or_status run = OCancelling \<or> orchestration_terminal (or_status run))" "\<not> ?active"
      by (auto simp: promote_body_def split: option.splits if_splits)
    show thesis
    proof (cases "first_by (serial_key d) (serial_queue j d)")
      case None
      with assms run False show thesis by (simp add: promote_body_def)
    next
      case (Some p)
      obtain c t b where p: "p = (c, t, b)" by (cases p)
      with first_by_Some(1) [OF Some] have "t \<in> set (db_nodes d)" "on_status t = ONPending"
        by (auto simp: serial_queue_iff serial_targets_iff)
      then have "rows_affected (\<lambda>r. on_id r = on_id t \<and> on_status r = ONPending) (db_nodes d) \<noteq> 0"
        unfolding rows_affected_0_iff by blast
      with assms run Some p have "res = Some (c, t, b)" "d' = promoted env (on_id t) now d"
        by (auto simp: promote_body_def promoted_def Let_def)
      moreover from run(3) have "\<forall>p \<in> set (serial_targets j d). \<not> active_target (on_status (snd p))"
        by (auto simp: list_ex_iff)
      ultimately show thesis using Some p next_one by blast
    qed
  next
    case True
    with no_one show thesis by blast
  qed
qed

lemma outbox_moves_promoted: "outbox_moves d (promoted env i now d)"
proof -
  have "outbox_moves d (d\<lparr>db_outbox := update_where
      (\<lambda>r. ob_node_execution_id r = Some i \<and> ob_delivery_status r \<in> {DPending, DFailed})
      (\<lambda>r. r\<lparr>ob_available_at := sql_bind env now\<rparr>) (db_outbox d)\<rparr>)"
    by (rule outbox_moves_update) (auto simp: delivery_step_def)
  then show ?thesis by (simp add: outbox_moves_def outbox_ok_def promoted_def)
qed

lemma serial_targets_promoted:
  assumes t: "(c, t) \<in> set (serial_targets j d)" "on_status t = ONPending"
    and idle: "\<forall>p \<in> set (serial_targets j d). \<not> active_target (on_status (snd p))"
  shows "{on_id u |c u. (c, u) \<in> set (serial_targets j (promoted env (on_id t) now d)) \<and> active_target (on_status u)} = {on_id t}"
    (is "?active = _")
    and "\<forall>(c, u) \<in> set (serial_targets j (promoted env (on_id t) now d)). active_target (on_status u) \<longrightarrow> on_status u = ONReady"
proof -
  define f :: "OrchestrationNodeExecutionRecord \<Rightarrow> OrchestrationNodeExecutionRecord" where
    "f r = (if on_id r = on_id t \<and> on_status r = ONPending
       then r\<lparr>on_status := ONReady, on_updated_at := sql_bind env now\<rparr> else r)" for r
  have targets: "(c', u) \<in> set (serial_targets j (promoted env (on_id t) now d)) \<longleftrightarrow>
      (\<exists>v. u = f v \<and> (c', v) \<in> set (serial_targets j d))" for c' u
  proof -
    have "set (db_nodes (promoted env (on_id t) now d)) = f ` set (db_nodes d)"
      "db_consumption (promoted env (on_id t) now d) = db_consumption d"
      by (simp_all add: promoted_def set_update_where f_def [abs_def])
    moreover have "on_id (f v) = on_id v" "on_orchestration_run_id (f v) = on_orchestration_run_id v" for v
      by (simp_all add: f_def)
    ultimately show ?thesis by (rule serial_targets_image)
  qed
  have only: "on_id u = on_id t \<and> on_status u = ONReady" if u: "(c', u) \<in> set (serial_targets j (promoted env (on_id t) now d))" "active_target (on_status u)" for c' u
  proof -
    from u(1) obtain v where v: "u = f v" "(c', v) \<in> set (serial_targets j d)" unfolding targets by blast
    from idle v(2) have "\<not> active_target (on_status v)" by force
    with u(2) v(1) show ?thesis by (simp add: f_def split: if_splits)
  qed
  have "(c, f t) \<in> set (serial_targets j (promoted env (on_id t) now d))"
    using t(1) unfolding targets by blast
  moreover have "active_target (on_status (f t))" "on_id (f t) = on_id t"
    using t(2) by (simp_all add: f_def active_target_def)
  ultimately have "on_id t \<in> ?active" by (intro CollectI exI [of _ c] exI [of _ "f t"]) simp
  moreover from only have "?active \<subseteq> {on_id t}" by blast
  ultimately show "?active = {on_id t}" by blast
  show "\<forall>(c, u) \<in> set (serial_targets j (promoted env (on_id t) now d)). active_target (on_status u) \<longrightarrow> on_status u = ONReady"
    using only by blast
qed

text \<open>
  C27: serial joins run one target at a time. When a target is promoted, no target of the join was active; afterwards exactly the
  promoted one is, with status ready, and its pending commands become deliverable; and it was the first of the queue in the order of source node, iteration,
  source sequence and event id.
\<close>

theorem serial_join_promotes_one:
  assumes "promote_next_serial env j now d = (Inr (Some item), d')"
  shows "(\<forall>p \<in> set (serial_targets j d). \<not> active_target (on_status (snd p))) \<and>
    {on_id u |c u. (c, u) \<in> set (serial_targets j d') \<and> active_target (on_status u)} = {sq_target_node_execution_id item} \<and>
    (\<forall>(c, u) \<in> set (serial_targets j d'). active_target (on_status u) \<longrightarrow> on_status u = ONReady) \<and>
    (\<forall>r \<in> set (db_outbox d'). ob_node_execution_id r = Some (sq_target_node_execution_id item) \<and>
       ob_delivery_status r \<in> {DPending, DFailed} \<longrightarrow> ob_available_at r = sql_bind env now) \<and>
    (\<exists>p \<in> set (serial_queue j d). sq_target_node_execution_id item = on_id (fst (snd p)) \<and>
       (\<forall>q \<in> set (serial_queue j d). serial_key d p \<le> serial_key d q))"
proof -
  from assms obtain c t b where body: "promote_body env j now d = Inr (Some (c, t, b), d')"
    and item: "sq_target_node_execution_id item = on_id t"
    by (auto simp: promote_next_serial_def transaction_def split: sum.splits prod.splits option.splits)
  then have d': "d' = promoted env (on_id t) now d" and first: "first_by (serial_key d) (serial_queue j d) = Some (c, t, b)"
    and idle: "\<forall>p \<in> set (serial_targets j d). \<not> active_target (on_status (snd p))"
    by (cases rule: promote_cases; simp)+
  note head = first_by_Some [OF first]
  from head(1) have t: "(c, t) \<in> set (serial_targets j d)" "on_status t = ONPending"
    by (simp_all add: serial_queue_iff)
  have "\<forall>r \<in> set (db_outbox d'). ob_node_execution_id r = Some (on_id t) \<and>
      ob_delivery_status r \<in> {DPending, DFailed} \<longrightarrow> ob_available_at r = sql_bind env now"
    by (auto simp: d' promoted_def set_update_where split: if_splits)
  moreover have "\<exists>p \<in> set (serial_queue j d). on_id t = on_id (fst (snd p)) \<and>
      (\<forall>q \<in> set (serial_queue j d). serial_key d p \<le> serial_key d q)"
    using head by (intro bexI [of _ "(c, t, b)"]) auto
  ultimately show ?thesis
    using idle serial_targets_promoted [OF t idle] by (simp add: item d')
qed

definition sample_inbox_db :: "json_lit db" where
  "sample_inbox_db = sample_db\<lparr>db_inbox := [(inbox_row 70 1 1 sample_agent_event ''11'')\<lparr>ib_consumption_status := CProcessing\<rparr>]\<rparr>"

definition sample_consumed_db :: "json_lit db" where
  "sample_consumed_db = snd (consume unary_env 80 70 20 10 (Some 30) 3 sample_inbox_db)"

theorem serial_join_promotes_one_witness:
  "\<exists>item d'. promote_next_serial unary_env 20 5 sample_consumed_db = (Inr (Some item), d') \<and>
     {on_id u |c u. (c, u) \<in> set (serial_targets 20 d') \<and> active_target (on_status u)} = {30}"
proof -
  let ?r = "promote_next_serial unary_env 20 5 sample_consumed_db"
  have "map_sum id (map_option sq_target_node_execution_id) (fst ?r) = Inr (Some 30)" by code_simp
  then obtain item where item: "fst ?r = Inr (Some item)" "sq_target_node_execution_id item = 30"
    by (cases "fst ?r") auto
  then have r: "?r = (Inr (Some item), snd ?r)" by (metis prod.collapse)
  note active = serial_join_promotes_one [OF r, THEN conjunct2, THEN conjunct1, unfolded item(2)]
  show ?thesis by (rule exI [of _ item], rule exI [of _ "snd ?r"], rule conjI [OF r active])
qed

end
