(* ===== verification/Store.thy ===== *)
theory Store
  imports Leases Inbox
begin

text \<open>
  The orchestration store as a whole: a step relation with one rule per operation of
  \<open>crates/db/src/models/orchestration.rs\<close>, and what holds of every database that can be reached by any interleaving of
  them. Two more rules stand for the other writers of the same database: the agent store, which owns
  the agent tables, and the orchestration service, which moves the status of node executions.
\<close>

section \<open>Keys of nodes and links\<close>

definition node_key :: "OrchestrationNodeExecutionRecord \<Rightarrow> uuid \<times> string \<times> i64" where
  "node_key r = (on_orchestration_run_id r, on_node_key r, on_iteration r)"

interpretation node_rows: keyed_table db_nodes node_key insert_node
  by unfold_locales (auto simp: insert_node_def node_key_def list_ex_iff split: if_splits)

interpretation link_rows: keyed_table db_links ol_dispatch_idempotency_key insert_link
  by unfold_locales (auto simp: insert_link_def list_ex_iff split: if_splits)

definition node_ok :: "'v db \<Rightarrow> bool" where
  "node_ok d \<longleftrightarrow> distinct (map node_key (db_nodes d)) \<and> distinct (map on_id (db_nodes d)) \<and>
     distinct (map ol_dispatch_idempotency_key (db_links d))"

section \<open>Steps\<close>

definition set_node_status ::
  "(OrchestrationNodeExecutionRecord \<Rightarrow> bool) \<Rightarrow> OrchestrationNodeStatus \<Rightarrow> sql_text \<Rightarrow> 'v db \<Rightarrow> 'v db" where
  "set_node_status P s clock d = d\<lparr>db_nodes := update_where P
     (\<lambda>r. r\<lparr>on_status := s, on_updated_at := clock\<rparr>) (db_nodes d)\<rparr>"

inductive store_step :: "sql_env \<Rightarrow> 'v db \<Rightarrow> 'v db \<Rightarrow> bool" for env where
  start_run: "store_step env d (snd (persist_before_dispatch i request_id key correlation_id plan clock d))"
| append: "store_step env d (snd (append_and_project env clock e d))"
| node: "store_step env d (snd (persist_identity_before_dispatch env i run_id key iteration order clock d))"
| link: "store_step env d (snd (persist_link i run_id node_id agent_run_id key clock d))"
| enqueue: "store_step env d (snd (enqueue_with_outcome i c clock d))"
| claim_outbox: "store_step env d (snd (claim_next_with_redelivery env now after d))"
| inflight: "store_step env d (snd (reconcile_inflight env now after d))"
| delivered: "store_step env d (snd (mark_delivered env i now d))"
| failed: "store_step env d (snd (mark_failed env i err available now d))"
| ingest: "store_step env d (snd (ingest env i run_id event clock d))"
| claim_inbox: "store_step env d (snd (inbox_claim_next run_id d))"
| processing: "store_step env d (snd (reconcile_processing run d))"
| consumed: "store_step env d (snd (mark_consumed env i now d))"
| release_inbox: "store_step env d (snd (release_claim i d))"
| consume: "store_step env d (snd (consume env fresh i join_id source_id target now d))"
| consume_effects: "store_step env d
    (snd (consume_with_effects env fresh i join_id source_id target e follow_up now clock d))"
| promote: "store_step env d (snd (promote_next_serial env join_id now d))"
| acquire_lease: "store_step env d (snd (acquire env kind i owner now ttl d))"
| release_lease: "store_step env d (snd (release kind i owner d))"
| lease_startup: "store_step env d (snd (lease_reconcile_startup d))"
| node_status: "store_step env d (set_node_status P s clock d)"
| agent_store: "store_step env d (d\<lparr>db_agent_runs := runs, db_agent_turns := turns, db_agent_events := events,
    db_agent_states := states\<rparr>)"

abbreviation store_steps :: "sql_env \<Rightarrow> 'v db \<Rightarrow> 'v db \<Rightarrow> bool" where
  "store_steps env \<equiv> (store_step env)\<^sup>*\<^sup>*"

lemma store_steps_step: "store_steps env a b \<Longrightarrow> store_step env b c \<Longrightarrow> store_steps env a c"
  by (rule rtranclp.rtrancl_into_rtrancl)

section \<open>What every step keeps\<close>

definition store_moves :: "'v db \<Rightarrow> 'v db \<Rightarrow> bool" where
  "store_moves d d' \<longleftrightarrow> (log_ok d \<longrightarrow> log_ok d') \<and> (\<exists>new. db_events d' = db_events d @ new) \<and>
     outbox_moves d d' \<and> inbox_moves d d' \<and> (lease_ok d \<longrightarrow> lease_ok d') \<and> (node_ok d \<longrightarrow> node_ok d')"

lemma store_moves_trans: "store_moves a b \<Longrightarrow> store_moves b c \<Longrightarrow> store_moves a c"
  unfolding store_moves_def using outbox_moves_trans inbox_moves_trans by (metis append.assoc)

text \<open>The tables of the log, the leases and the nodes, for operations that leave them alone.\<close>

definition same_log :: "'v db \<Rightarrow> 'v db \<Rightarrow> bool" where
  "same_log d d' \<longleftrightarrow> db_runs d' = db_runs d \<and> db_events d' = db_events d \<and> db_states d' = db_states d"

definition same_nodes :: "'v db \<Rightarrow> 'v db \<Rightarrow> bool" where
  "same_nodes d d' \<longleftrightarrow> map node_key (db_nodes d') = map node_key (db_nodes d) \<and>
     map on_id (db_nodes d') = map on_id (db_nodes d) \<and> db_links d' = db_links d"

lemma store_movesI:
  assumes "same_log d d'" "same_nodes d d'" "lease_ok d \<Longrightarrow> lease_ok d'" "outbox_moves d d'" "inbox_moves d d'"
  shows "store_moves d d'"
  using assms log_ok_cong [of d' d]
  by (simp add: store_moves_def same_log_def same_nodes_def node_ok_def)

lemma store_moves_refl [simp]: "store_moves d d"
  by (rule store_movesI) (simp_all add: same_log_def same_nodes_def)

lemma moves_transaction:
  "(\<And>x d'. f d = Inr (x, d') \<Longrightarrow> store_moves d d') \<Longrightarrow> store_moves d (snd (transaction f d))"
  by (auto simp: transaction_def split: sum.splits prod.splits)

lemma moves_persist_before_dispatch:
  "store_moves d (snd (persist_before_dispatch i rid key cor plan clock d))"
proof -
  obtain res d' where p: "persist_before_dispatch i rid key cor plan clock d = (res, d')" by (rule prod.exhaust)
  from persist_before_dispatch_cases [OF p] log_ok_persist_before_dispatch [OF _ p] p show ?thesis
    by (auto simp: store_moves_def lease_ok_def node_ok_def)
qed

lemma moves_append_in_transaction:
  assumes "append_and_project_in_transaction env clock e d = Inr (a, d')"
  shows "store_moves d d'"
proof -
  have "\<exists>new. db_events d' = db_events d @ new"
    using append_cases [OF assms] by (auto simp: store_projection_def)
  with log_ok_append [OF _ assms] append_frame [OF assms] show ?thesis
    by (auto simp: store_moves_def lease_ok_def node_ok_def)
qed

lemma insert_node_ok:
  "insert_node r d = Inr d' \<Longrightarrow> d' = d \<or> (node_key r \<notin> node_key ` set (db_nodes d) \<and>
     on_id r \<notin> on_id ` set (db_nodes d) \<and> d' = d\<lparr>db_nodes := db_nodes d @ [r]\<rparr>)"
  by (auto simp: insert_node_def node_key_def list_ex_iff split: if_splits)

lemma insert_link_ok:
  "insert_link r d = Inr d' \<Longrightarrow> d' = d \<or>
     (ol_dispatch_idempotency_key r \<notin> ol_dispatch_idempotency_key ` set (db_links d) \<and>
      d' = d\<lparr>db_links := db_links d @ [r]\<rparr>)"
  by (auto simp: insert_link_def list_ex_iff split: if_splits)

lemma moves_persist_identity:
  "store_moves d (snd (persist_identity_before_dispatch env i run key it so clock d))"
proof (cases "insert_node (node_row i run key it so clock) d")
  case (Inr d')
  have "snd (persist_identity_before_dispatch env i run key it so clock d) = d'"
    by (auto simp: persist_identity_before_dispatch_def Inr split: option.splits)
  with insert_node_ok [OF Inr] log_ok_cong [of d' d] show ?thesis
    by (auto simp: store_moves_def lease_ok_def node_ok_def)
qed (simp add: persist_identity_before_dispatch_def)

lemma moves_persist_link: "store_moves d (snd (persist_link i run n a key clock d))"
proof -
  let ?r = "\<lparr>ol_id = i, ol_orchestration_run_id = run, ol_node_execution_id = n, ol_agent_run_id = a,
    ol_dispatch_idempotency_key = key, ol_created_at = clock\<rparr>"
  show ?thesis
  proof (cases "insert_link ?r d")
    case (Inr d')
    have "snd (persist_link i run n a key clock d) = d'"
      by (auto simp: persist_link_def Inr split: option.splits)
    with insert_link_ok [OF Inr] log_ok_cong [of d' d] show ?thesis
      by (auto simp: store_moves_def lease_ok_def node_ok_def)
  qed (simp add: persist_link_def)
qed

text \<open>Operations on the outbox alone, and on the inbox alone.\<close>

lemma moves_outbox:
  assumes "outbox_moves d (d\<lparr>db_outbox := rows\<rparr>)"
  shows "store_moves d (d\<lparr>db_outbox := rows\<rparr>)"
  using assms by (intro store_movesI) (simp_all add: same_log_def same_nodes_def lease_ok_def)

lemma moves_inbox:
  assumes "inbox_moves d (d\<lparr>db_inbox := rows, db_consumption := cs\<rparr>)"
  shows "store_moves d (d\<lparr>db_inbox := rows, db_consumption := cs\<rparr>)"
  using assms by (intro store_movesI) (simp_all add: same_log_def same_nodes_def lease_ok_def)

definition only_outbox :: "'v db \<Rightarrow> 'v db \<Rightarrow> bool" where
  "only_outbox d d' \<longleftrightarrow> d' = d\<lparr>db_outbox := db_outbox d'\<rparr>"

definition only_inbox :: "'v db \<Rightarrow> 'v db \<Rightarrow> bool" where
  "only_inbox d d' \<longleftrightarrow> d' = d\<lparr>db_inbox := db_inbox d', db_consumption := db_consumption d'\<rparr>"

lemma only_outbox_moves: "only_outbox d d' \<Longrightarrow> outbox_moves d d' \<Longrightarrow> store_moves d d'"
  unfolding only_outbox_def using moves_outbox by metis

lemma only_inbox_moves: "only_inbox d d' \<Longrightarrow> inbox_moves d d' \<Longrightarrow> store_moves d d'"
  unfolding only_inbox_def using moves_inbox by metis

lemma moves_enqueue:
  assumes "enqueue_outbox_in_transaction i c clock d = Inr (kb, d')"
  shows "store_moves d d'"
proof -
  obtain k b where kb: "kb = (k, b)" by (cases kb)
  have "only_outbox d d'"
    using assms unfolding kb by (cases rule: enqueue_cases) (auto simp: only_outbox_def)
  then show ?thesis by (rule only_outbox_moves) (rule outbox_moves_enqueue [OF assms])
qed

lemma only_outbox_redeliver: "only_outbox d (redeliver_stale env now t d)"
  by (simp add: only_outbox_def redeliver_stale_def)

lemma moves_outbox_claim:
  assumes "outbox_claim_body env now after d = Inr (res, d')"
  shows "store_moves d d'"
proof -
  let ?d1 = "redeliver_stale env now (now - after) d"
  have "d' = ?d1 \<or> (\<exists>rows. d' = ?d1\<lparr>db_outbox := rows\<rparr>)" using outbox_claim_cases [OF assms] by blast
  then have "only_outbox d d'" by (auto simp: only_outbox_def redeliver_stale_def)
  then show ?thesis by (rule only_outbox_moves) (rule outbox_moves_claim [OF assms])
qed

lemma moves_outbox_ops:
  "store_moves d (snd (reconcile_inflight env now after d))"
  "store_moves d (snd (mark_delivered env i now d))"
  "store_moves d (snd (mark_failed env i err available now d))"
proof -
  show "store_moves d (snd (reconcile_inflight env now after d))"
    unfolding reconcile_inflight_def snd_conv
    by (rule only_outbox_moves [OF only_outbox_redeliver outbox_moves_redeliver])
  show "store_moves d (snd (mark_delivered env i now d))"
    by (rule only_outbox_moves [OF _ outbox_moves_delivered]) (simp add: only_outbox_def mark_delivered_def Let_def)
  show "store_moves d (snd (mark_failed env i err available now d))"
    by (rule only_outbox_moves [OF _ outbox_moves_failed]) (simp add: only_outbox_def mark_failed_def Let_def)
qed

lemma moves_ingest: "store_moves d (snd (ingest env i run e clock d))"
proof -
  obtain res d' where p: "ingest env i run e clock d = (res, d')" by (rule prod.exhaust)
  have "d' = d \<or> (\<exists>r. d' = d\<lparr>db_inbox := db_inbox d @ [r]\<rparr>)"
    using ingest_cases [OF p] insert_inbox_ok [of _ d d'] by blast
  then have "only_inbox d d'" by (auto simp: only_inbox_def)
  from only_inbox_moves [OF this inbox_moves_ingest [OF p]] p show ?thesis by simp
qed

lemma only_inbox_claim:
  assumes "inbox_claim_body run d = Inr (res, d')"
  shows "only_inbox d d'"
  using assms
  by (auto simp: only_inbox_def inbox_claim_body_def Let_def split: option.splits if_splits)

lemma moves_inbox_ops:
  "store_moves d (snd (inbox_claim_next run_id d))"
  "store_moves d (snd (reconcile_processing run d))"
  "store_moves d (snd (mark_consumed env i now d))"
  "store_moves d (snd (release_claim i d))"
proof -
  show "store_moves d (snd (inbox_claim_next run_id d))"
    unfolding inbox_claim_next_def
    by (intro moves_transaction only_inbox_moves only_inbox_claim inbox_moves_claim)
  show "store_moves d (snd (reconcile_processing run d))"
    by (rule only_inbox_moves [OF _ inbox_moves_reconcile]) (simp add: only_inbox_def reconcile_processing_def Let_def)
  show "store_moves d (snd (mark_consumed env i now d))"
    unfolding mark_consumed_def snd_conv
    by (rule only_inbox_moves [OF _ inbox_moves_set_consumed]) (simp add: only_inbox_def set_consumed_def)
  show "store_moves d (snd (release_claim i d))"
    by (rule only_inbox_moves [OF _ inbox_moves_release_claim]) (simp add: only_inbox_def release_claim_def Let_def)
qed

lemma moves_record_consumption:
  assumes "record_consumption_in_transaction env fresh i j s t now d = Inr (b, d')"
  shows "store_moves d d'"
proof (rule only_inbox_moves [OF _ inbox_moves_record_consumption [OF assms]])
  show "only_inbox d d'"
    using record_consumption_cases [OF assms] by (auto simp: only_inbox_def set_consumed_def)
qed

lemma moves_follow_up:
  assumes "enqueue_follow_up run j t k c clock d = Inr d'"
  shows "store_moves d d'"
  using assms
proof (cases rule: enqueue_follow_up_cases)
  case (1 kb d1)
  have "store_moves d1 (hold_follow_up k d1)"
    by (rule only_outbox_moves [OF _ outbox_moves_hold]) (simp add: only_outbox_def hold_follow_up_def)
  with 1 moves_enqueue [OF 1(1)] show ?thesis by (auto intro: store_moves_trans)
qed

lemma moves_consume_with_effects:
  assumes "consume_with_effects_body env fresh i j s t e follow_up now clock d = Inr (b, d')"
  shows "store_moves d d'"
  using assms
proof (cases rule: consume_with_effects_cases)
  case again
  from again(2) show ?thesis by (rule moves_record_consumption)
next
  case (first d1 a d2)
  from first(4) moves_follow_up have "store_moves d2 d'" by (auto split: option.splits)
  with moves_record_consumption [OF first(2)] moves_append_in_transaction [OF first(3)] show ?thesis
    by (blast intro: store_moves_trans)
qed

lemma same_nodes_status:
  "(\<And>r. on_id (f r) = on_id r \<and> node_key (f r) = node_key r) \<Longrightarrow>
     same_nodes d (d\<lparr>db_nodes := update_where P f (db_nodes d)\<rparr>)"
  by (simp add: same_nodes_def map_update_where)

lemma moves_promote:
  assumes "promote_body env j now d = Inr (res, d')"
  shows "store_moves d d'"
  using assms
proof (cases rule: promote_cases)
  case (next_one c t b)
  have "store_moves d (promoted env (on_id t) now d)"
  proof (rule store_movesI [OF _ _ _ outbox_moves_promoted])
    show "same_nodes d (promoted env (on_id t) now d)"
      by (simp add: same_nodes_def promoted_def map_update_where node_key_def)
  qed (simp_all add: promoted_def same_log_def lease_ok_def)
  with next_one show ?thesis by simp
qed simp

lemma snd_promote: "snd (promote_next_serial env j now d) = snd (transaction (promote_body env j now) d)"
  by (auto simp: promote_next_serial_def split: prod.splits sum.splits option.splits)

lemma moves_leases:
  assumes "lease_ok d \<Longrightarrow> lease_ok (d\<lparr>db_leases := rows\<rparr>)"
  shows "store_moves d (d\<lparr>db_leases := rows\<rparr>)"
  using assms by (intro store_movesI) (simp_all add: same_log_def same_nodes_def)

lemma moves_lease_ops:
  "store_moves d (snd (acquire env kind i owner now ttl d))"
  "store_moves d (snd (release kind i owner d))"
  "store_moves d (snd (lease_reconcile_startup d))"
proof -
  let ?up = "snd (upsert_lease kind i owner (sql_bind env now) (sql_bind env (now + ttl)) d)"
  have "?up = d\<lparr>db_leases := db_leases ?up\<rparr>" by (simp add: upsert_lease_def Let_def)
  with lease_ok_upsert [of d kind i owner] have "store_moves d ?up" by (metis moves_leases)
  then show "store_moves d (snd (acquire env kind i owner now ttl d))"
    by (simp add: acquire_def split_beta)
  show "store_moves d (snd (release kind i owner d))"
    unfolding release_def Let_def snd_conv by (rule moves_leases) (simp add: lease_ok_def distinct_map_filter)
  show "store_moves d (snd (lease_reconcile_startup d))"
    unfolding lease_reconcile_startup_def snd_conv by (rule moves_leases) (simp add: lease_ok_def)
qed

lemma moves_others:
  "store_moves d (set_node_status P s clock d)"
  "store_moves d (d\<lparr>db_agent_runs := runs, db_agent_turns := turns, db_agent_events := events, db_agent_states := states\<rparr>)"
  by (rule store_movesI;
      simp add: same_log_def same_nodes_def lease_ok_def set_node_status_def map_update_where node_key_def)+

lemmas step_moves = moves_persist_before_dispatch moves_persist_identity moves_persist_link moves_outbox_ops moves_ingest
  moves_inbox_ops moves_lease_ops moves_others

lemma store_step_moves: "store_step env d d' \<Longrightarrow> store_moves d d'"
  by (cases rule: store_step.cases)
     (auto simp: append_and_project_def enqueue_with_outcome_def claim_next_with_redelivery_def consume_def
        consume_with_effects_def snd_promote
        intro!: step_moves moves_transaction
        intro: moves_append_in_transaction moves_enqueue moves_outbox_claim moves_record_consumption
          moves_consume_with_effects moves_promote)

lemma store_steps_moves: "store_steps env d d' \<Longrightarrow> store_moves d d'"
  by (induction rule: rtranclp_induct) (auto intro: store_moves_trans store_step_moves)

definition db_ok :: "'v db \<Rightarrow> bool" where
  "db_ok d \<longleftrightarrow> log_ok d \<and> outbox_ok d \<and> inbox_ok d \<and> lease_ok d \<and> node_ok d"

lemma db_ok_empty [simp]: "db_ok empty_db"
  by (simp add: db_ok_def empty_db_def log_ok_def outbox_ok_def inbox_ok_def lease_ok_def node_ok_def)

lemma db_ok_steps: "store_steps env d d' \<Longrightarrow> db_ok d \<Longrightarrow> db_ok d'"
  using store_steps_moves [of env d d'] by (auto simp: db_ok_def store_moves_def outbox_moves_def inbox_moves_def)

lemma enqueued_command:
  assumes "enqueue_outbox_in_transaction k c clock d = Inr (kb, d')"
  shows "\<exists>r \<in> set (db_outbox d'). ob_command_envelope r = c"
  using assms
  by (auto simp: enqueue_outbox_in_transaction_def result_simps Let_def dest: find_SomeD split: if_splits option.splits)

lemma followed_up_command:
  assumes "enqueue_follow_up run j t k c clock d = Inr d'"
  shows "\<exists>r \<in> set (db_outbox d'). ob_command_envelope r = c"
  using assms
proof (cases rule: enqueue_follow_up_cases)
  case (1 kb d1)
  from enqueued_command [OF 1(1)] obtain r where "r \<in> set (db_outbox d1)" "ob_command_envelope r = c" by blast
  moreover have "evolves delivery_step (db_outbox d1) (db_outbox d')"
    using 1(2) outbox_moves_hold [of d1 k] by (auto simp: outbox_moves_def outbox_evolves_refl)
  ultimately show ?thesis using evolves_mem by (fastforce simp: delivery_step_def)
qed

text \<open>The event of a successful append is in the log of its run, whether it was appended now or before.\<close>

lemma appended_event:
  assumes "log_ok d" "append_and_project_in_transaction env clock e d = Inr (a, d')"
  shows "e \<in> set (run_log (oe_orchestration_run_id e) d')"
proof -
  have "\<exists>r \<in> set (db_events d'). oev_event_envelope r = e"
    using append_cases [OF assms(2)] by (auto simp: store_projection_def event_row_def)
  then obtain r where r: "r \<in> set (db_events d')" "oev_event_envelope r = e" by blast
  then have "event_row_ok r"
    using log_ok_append [OF assms] by (auto simp: log_ok_def list_all_iff)
  with r show ?thesis by (auto simp: run_log_def event_row_ok_def)
qed

section \<open>Properties\<close>

text \<open>
  C8: the stored projection is the replay of the log. In every database that any interleaving of store operations can
  reach, each run has a state row that is what the reducer makes of the events of the run in the order of the table,
  the status columns of the run agree with it, and when the projection is current, the events of the run are
  numbered 1, 2, ... without a gap up to the cursor of the state.
\<close>

theorem stored_state_replays_log:
  assumes "store_steps env empty_db d" "run \<in> set (db_runs d)"
  shows "\<exists>st \<in> set (db_states d). ost_orchestration_run_id st = or_id run \<and>
    ost_state_json st = deliver reduce_orchestration_event
      (orchestration_pending (or_id run) (pl_created_at (or_plan_snapshot run))) (run_log (or_id run) d) \<and>
    or_status run = os_status (ost_state_json st) \<and>
    or_projection_status run = os_projection_status (ost_state_json st) \<and>
    (or_projection_status run = ProjCurrent \<longrightarrow>
       map (\<lambda>e. unat (oe_sequence e)) (run_log (or_id run) d) = [1 ..< Suc (length (run_log (or_id run) d))] \<and>
       ost_last_event_sequence st = int (length (run_log (or_id run) d)))"
proof -
  let ?es = "run_log (or_id run) d" and ?s = "initial_state run"
  from db_ok_steps [OF assms(1) db_ok_empty] have "log_ok d" by (simp add: db_ok_def)
  from log_ok_run [OF this assms(2)] obtain st where st: "st \<in> set (db_states d)" "projected run st ?es" by blast
  have numbered: "map (\<lambda>e. unat (oe_sequence e)) ?es = [1 ..< Suc (length ?es)] \<and> ost_last_event_sequence st = int (length ?es)"
    if current: "or_projection_status run = ProjCurrent"
  proof -
    from st(2) current have clean: "\<not> orchestration_degraded (deliver reduce_orchestration_event ?s ?es)"
      and all: "applied reduce_orchestration_event ODuplicate ?s ?es = ?es"
      and cursor: "ost_last_event_sequence st = int (unat (os_last_event_sequence (deliver reduce_orchestration_event ?s ?es)))"
      by (auto simp: projected_def orchestration_degraded_def)
    have zero: "os_last_event_sequence ?s = 0" by (simp add: initial_state_def orchestration_pending_def)
    have "chain (\<lambda>p q. q = p + 1) 0 (map oe_sequence ?es)"
        "os_last_event_sequence (deliver reduce_orchestration_event ?s ?es) = last (0 # map oe_sequence ?es)"
      using orchestration.not_degraded_chain [OF TrueI clean] zero by (simp_all add: all)
    moreover have "sorted_wrt (<) (0 # map oe_sequence ?es)"
      using orchestration.applied_ascending [OF TrueI, of ?s ?es] zero by (simp add: all)
    ultimately show ?thesis using chain_numbers [of "map oe_sequence ?es"] cursor by (simp add: o_def)
  qed
  from st numbered show ?thesis by (intro bexI [of _ st]) (auto simp: projected_def initial_state_def)
qed

lemma sample_db_ok: "db_ok sample_db"
proof -
  have "store_steps unary_env empty_db sample_db"
    unfolding sample_db_def
    by (rule store_steps_step [OF _ link], rule store_steps_step [OF _ node],
        rule store_steps_step [OF _ node], rule store_steps_step [OF _ node],
        rule store_steps_step [OF _ node], rule store_steps_step [OF _ start_run],
        rule r_into_rtranclp, rule agent_store)
  then show ?thesis by (rule db_ok_steps) simp
qed

definition sample_log_db :: "json_lit db" where
  "sample_log_db = snd (append_and_project unary_env ''1'' (sample_orchestration_event 1 11 ORunning)
     (snd (persist_before_dispatch 1 2 ''start'' 5 sample_plan ''1'' empty_db)))"

theorem stored_state_replays_log_witness:
  "\<exists>run \<in> set (db_runs sample_log_db). or_status run = ORunning \<and>
     map (\<lambda>e. unat (oe_sequence e)) (run_log (or_id run) sample_log_db) = [1 ..< Suc (length (run_log (or_id run) sample_log_db))]"
proof -
  let ?run = "hd (db_runs sample_log_db)"
  have "store_steps unary_env empty_db sample_log_db"
    unfolding sample_log_db_def
    by (rule store_steps_step [OF _ append], rule r_into_rtranclp, rule start_run)
  moreover have "db_runs sample_log_db \<noteq> []" "or_status ?run = ORunning" "or_projection_status ?run = ProjCurrent"
    by code_simp+
  ultimately show ?thesis using stored_state_replays_log [of unary_env sample_log_db ?run] by (intro bexI [of _ ?run]) auto
qed

text \<open>
  C10: what is settled stays settled. Whatever operations follow, the event log and the consumptions only grow at the end, a
  delivered command and a consumed inbox row never change again, every command keeps its envelope and its
  count of attempts never falls, and every inbox row keeps its event.
\<close>

theorem settled_rows_stay:
  assumes "store_steps env d d'"
  shows "(\<exists>new. db_events d' = db_events d @ new) \<and> (\<exists>new. db_consumption d' = db_consumption d @ new) \<and>
    (\<forall>r \<in> set (db_outbox d). \<exists>r' \<in> set (db_outbox d'). ob_id r' = ob_id r \<and>
       ob_command_envelope r' = ob_command_envelope r \<and> ob_delivery_attempts r \<le> ob_delivery_attempts r' \<and>
       (ob_delivery_status r = DDelivered \<longrightarrow> r' = r)) \<and>
    (\<forall>r \<in> set (db_inbox d). \<exists>r' \<in> set (db_inbox d'). ib_id r' = ib_id r \<and>
       ib_event_envelope r' = ib_event_envelope r \<and> (ib_consumption_status r = CConsumed \<longrightarrow> r' = r))"
proof -
  note moves = store_steps_moves [OF assms]
  then have out: "evolves delivery_step (db_outbox d) (db_outbox d')"
    and inb: "evolves consumption_step (db_inbox d) (db_inbox d')"
    by (auto simp: store_moves_def outbox_moves_def inbox_moves_def)
  have "\<forall>r \<in> set (db_outbox d). \<exists>r' \<in> set (db_outbox d'). ob_id r' = ob_id r \<and>
       ob_command_envelope r' = ob_command_envelope r \<and> ob_delivery_attempts r \<le> ob_delivery_attempts r' \<and>
       (ob_delivery_status r = DDelivered \<longrightarrow> r' = r)"
    using evolves_mem [OF out] unfolding delivery_step_def by meson
  moreover have "\<forall>r \<in> set (db_inbox d). \<exists>r' \<in> set (db_inbox d'). ib_id r' = ib_id r \<and>
       ib_event_envelope r' = ib_event_envelope r \<and> (ib_consumption_status r = CConsumed \<longrightarrow> r' = r)"
    using evolves_mem [OF inb] unfolding consumption_step_def by meson
  ultimately show ?thesis using moves by (simp add: store_moves_def inbox_moves_def)
qed

definition sample_delivered_db :: "json_lit db" where
  "sample_delivered_db = snd (mark_delivered unary_env 60 6 (snd (claim_next_with_redelivery unary_env 5 3
     (snd (enqueue_with_outcome 60 (sample_command ''stop'' 61) ''1'' sample_db)))))"

theorem settled_rows_stay_witness:
  "\<exists>r. db_outbox sample_delivered_db = [r] \<and> ob_delivery_status r = DDelivered \<and>
     r \<in> set (db_outbox (snd (claim_next_with_redelivery unary_env 99 3 sample_delivered_db)))"
proof -
  have "map ob_delivery_status (db_outbox sample_delivered_db) = [DDelivered]" by code_simp
  then obtain r where r: "db_outbox sample_delivered_db = [r]" "ob_delivery_status r = DDelivered" by auto
  have "store_steps unary_env sample_delivered_db (snd (claim_next_with_redelivery unary_env 99 3 sample_delivered_db))"
    by (intro r_into_rtranclp claim_outbox)
  from settled_rows_stay [OF this, THEN conjunct2, THEN conjunct2, THEN conjunct1] r
  have "r \<in> set (db_outbox (snd (claim_next_with_redelivery unary_env 99 3 sample_delivered_db)))" by simp
  with r show ?thesis by simp
qed

text \<open>
  C9: the effects of a consumption happen once and together. When \<open>consume_with_effects\<close> reports a new consumption of a
  source by a join, the decision event is in the log and the follow-up command is in the outbox. After any further
  operations, a second consumption of the same source by the same join, with whatever event and command, is refused or
  reports false, and adds no event, command or consumption.
\<close>

theorem consumption_effects_happen_once:
  assumes "log_ok d" "consume_with_effects env fresh i j s t e follow_up now clock d = (Inr True, d1)"
    and "store_steps env d1 d2"
    and "consume_with_effects env fresh' i' j s t' e' follow_up' now' clock' d2 = (r, d3)"
  shows "e \<in> set (run_log (oe_orchestration_run_id e) d1) \<and>
    (\<forall>k c. follow_up = Some (k, c) \<longrightarrow> (\<exists>x \<in> set (db_outbox d1). ob_command_envelope x = c)) \<and>
    r \<noteq> Inr True \<and> db_events d3 = db_events d2 \<and> db_states d3 = db_states d2 \<and> db_outbox d3 = db_outbox d2 \<and>
    db_consumption d3 = db_consumption d2"
proof -
  from assms(2) have "consume_with_effects_body env fresh i j s t e follow_up now clock d = Inr (True, d1)"
    by (simp add: consume_with_effects_def transaction_ok_iff)
  then obtain da a db where rec: "record_consumption_in_transaction env fresh i j s t now d = Inr (True, da)"
    and app: "append_and_project_in_transaction env clock e da = Inr (a, db)"
    and fu: "case follow_up of None \<Rightarrow> d1 = db
       | Some (k, c) \<Rightarrow> enqueue_follow_up (oe_orchestration_run_id e) j t k c clock db = Inr d1"
    by (cases rule: consume_with_effects_cases) auto
  have last_move: "store_moves db d1" using fu moves_follow_up by (auto split: option.splits)
  have "log_ok da" using assms(1) moves_record_consumption [OF rec] by (simp add: store_moves_def)
  from appended_event [OF this app] have logged: "e \<in> set (run_log (oe_orchestration_run_id e) d1)"
    using last_move by (auto simp: store_moves_def run_log_def)
  have command: "\<forall>k c. follow_up = Some (k, c) \<longrightarrow> (\<exists>x \<in> set (db_outbox d1). ob_command_envelope x = c)"
    using fu followed_up_command by auto
  have "(j, s) \<in> consumption_key ` set (db_consumption da)" using record_consumption_cases [OF rec] by auto
  moreover have "store_moves da d2"
    using moves_append_in_transaction [OF app] last_move store_steps_moves [OF assms(3)] store_moves_trans by blast
  ultimately have key: "(j, s) \<in> consumption_key ` set (db_consumption d2)"
    by (auto simp: store_moves_def inbox_moves_def)
  have "r \<noteq> Inr True \<and> db_events d3 = db_events d2 \<and> db_states d3 = db_states d2 \<and> db_outbox d3 = db_outbox d2 \<and>
    db_consumption d3 = db_consumption d2"
  proof (cases r)
    case (Inl x)
    with assms(4) show ?thesis by (auto simp: consume_with_effects_def transaction_err_iff)
  next
    case (Inr b)
    with assms(4) have "consume_with_effects_body env fresh' i' j s t' e' follow_up' now' clock' d2 = Inr (b, d3)"
      by (simp add: consume_with_effects_def transaction_ok_iff)
    then show ?thesis
    proof (cases rule: consume_with_effects_cases)
      case again
      with record_consumption_cases [OF again(2)] Inr show ?thesis by auto
    next
      case (first da a db)
      with record_consumption_cases [OF first(2)] key show ?thesis by auto
    qed
  qed
  with logged command show ?thesis by blast
qed

theorem consumption_effects_happen_once_witness:
  "let a = consume_with_effects unary_env 80 70 20 10 (Some 10) (sample_orchestration_event 1 11 ORunning)
         (Some (90, sample_command ''follow'' 91)) 3 ''111'' sample_inbox_db;
       b = consume_with_effects unary_env 81 70 20 10 (Some 10) (sample_orchestration_event 2 12 ORunning)
         (Some (92, sample_command ''other'' 93)) 4 ''1111'' (snd a)
   in fst a = Inr True \<and> sample_orchestration_event 1 11 ORunning \<in> set (run_log 1 (snd a)) \<and>
      fst b \<noteq> Inr True \<and> db_outbox (snd b) = db_outbox (snd a)"
proof -
  let ?e = "sample_orchestration_event 1 11 ORunning"
  let ?a = "consume_with_effects unary_env 80 70 20 10 (Some 10) ?e (Some (90, sample_command ''follow'' 91)) 3 ''111'' sample_inbox_db"
  obtain b d2 where b: "consume_with_effects unary_env 81 70 20 10 (Some 10) (sample_orchestration_event 2 12 ORunning)
      (Some (92, sample_command ''other'' 93)) 4 ''1111'' (snd ?a) = (b, d2)" by (rule prod.exhaust)
  have new: "fst ?a = Inr True" by code_simp
  then have a: "?a = (Inr True, snd ?a)" by (metis prod.collapse)
  from sample_db_ok have "log_ok sample_inbox_db"
    using log_ok_cong [of sample_inbox_db sample_db] by (simp add: db_ok_def sample_inbox_db_def)
  note once = consumption_effects_happen_once [OF this a rtranclp.rtrancl_refl b]
  have "oe_orchestration_run_id ?e = 1" by (simp add: sample_orchestration_event_def)
  with once have "?e \<in> set (run_log 1 (snd ?a))" "b \<noteq> Inr True" "db_outbox d2 = db_outbox (snd ?a)" by simp_all
  with new show ?thesis unfolding Let_def b fst_conv snd_conv by (intro conjI)
qed

end
