(* ===== verification/Decisions.thy ===== *)
theory Decisions
  imports Orchestration
begin

text \<open>
  The pure decisions of the orchestration service, \<open>crates/services/src/services/orchestration.rs\<close>: when
  a join node may start, what the statuses of the nodes mean for the run, and how the
  identifiers are derived that make commands and events idempotent. SHA-256 comes from a crate and is the
  parameter \<open>sha256\<close>, a function on byte strings.
\<close>

section \<open>Definitions\<close>

datatype JoinDecision = JWaiting | JReady | JReadyAndCancelRemaining | JFailed

fun is_terminal_node :: "OrchestrationNodeStatus \<Rightarrow> bool" where
  "is_terminal_node s \<longleftrightarrow> s \<in> {ONSucceeded, ONFailed, ONCancelled}"

fun node_status_from_agent :: "AgentRunStatus \<Rightarrow> OrchestrationNodeStatus" where
  "node_status_from_agent APending = ONRunning"
| "node_status_from_agent AStarting = ONRunning"
| "node_status_from_agent ARunning = ONRunning"
| "node_status_from_agent AAwaitingInput = ONAwaitingInput"
| "node_status_from_agent AAwaitingApproval = ONAwaitingApproval"
| "node_status_from_agent ACancelling = ONCancelling"
| "node_status_from_agent ASucceeded = ONSucceeded"
| "node_status_from_agent ACancelled = ONCancelled"
| "node_status_from_agent AFailed = ONFailed"
| "node_status_from_agent ACrashed = ONFailed"
| "node_status_from_agent AAuditFailed = ONFailed"

definition project_run_status ::
  "OrchestrationRunStatus \<Rightarrow> (OrchestrationNodeStatus \<times> OrchestrationFailurePolicy) list \<Rightarrow>
   OrchestrationRunStatus"
where
  "project_run_status current facts =
     (if facts = [] then current
      else if orchestration_terminal current then current
      else
        let all_terminal = list_all (\<lambda>(status, _). is_terminal_node status) facts
        in if current = OCancelling then (if all_terminal then OCancelled else OCancelling)
        else if all_terminal
        then (if list_ex (\<lambda>(status, policy). status \<in> {ONFailed, ONCancelled} \<and> policy = FailFast) facts
              then OFailed
              else if list_ex (\<lambda>(status, _). status = ONSucceeded) facts then OSucceeded
              else OFailed)
        else if list_ex (\<lambda>(status, _). status \<in> {ONReady, ONRunning}) facts then ORunning
        else if list_ex (\<lambda>(status, _). status = ONAwaitingApproval) facts then OWaitingForApproval
        else if list_ex (\<lambda>(status, _). status = ONAwaitingInput) facts then OWaitingForInput
        else ORunning)"

definition evaluate_join ::
  "OrchestrationJoinPolicy \<Rightarrow> OrchestrationFailurePolicy \<Rightarrow> RemainingUpstreamsPolicy \<Rightarrow>
   OrchestrationNodeStatus list \<Rightarrow> JoinDecision"
where
  "evaluate_join policy failure_policy remaining statuses =
     (if statuses = [] then JWaiting
      else
        let successful = length (filter (\<lambda>s. s = ONSucceeded) statuses);
            terminal = list_all (\<lambda>s. s \<in> {ONSucceeded, ONFailed, ONCancelled}) statuses;
            has_failure = list_ex (\<lambda>s. s \<in> {ONFailed, ONCancelled}) statuses
        in case policy of
             JoinAll \<Rightarrow>
               if failure_policy = FailFast \<and> has_failure then JFailed
               else if \<not> terminal then JWaiting
               else if successful = length statuses then JReady
               else if failure_policy = AllowPartial \<and> successful > 0 then JReady
               else JFailed
           | JoinAny \<Rightarrow>
               if successful > 0
               then (if remaining = CancelRemaining then JReadyAndCancelRemaining else JReady)
               else if terminal then JFailed
               else JWaiting
           | JoinEach \<Rightarrow>
               if failure_policy = FailFast \<and> has_failure then JFailed
               else if successful > 0 then JReady
               else if terminal then JFailed
               else JWaiting)"

type_synonym bytes = "8 word list"

text \<open>\<open>Uuid::as_bytes\<close> and \<open>Uuid::from_bytes\<close> (big-endian), \<open>u32::to_le_bytes\<close>, and the UTF-8 bytes of a string
  over the alphabet U+0000 to U+00FF.\<close>

definition uuid_as_bytes :: "uuid \<Rightarrow> bytes" where
  "uuid_as_bytes u = map (\<lambda>i. ucast (drop_bit (8 * (15 - i)) u)) [0 ..< 16]"

definition uuid_from_bytes :: "bytes \<Rightarrow> uuid" where
  "uuid_from_bytes bs = fold (\<lambda>b acc. push_bit 8 acc + ucast b) bs 0"

definition to_le_bytes :: "u32 \<Rightarrow> bytes" where
  "to_le_bytes n = map (\<lambda>i. ucast (drop_bit (8 * i) n)) [0 ..< 4]"

definition utf8_char :: "char \<Rightarrow> bytes" where
  "utf8_char c =
     (let n = char_code c
      in if n < 128 then [of_nat n] else [of_nat (192 + n div 64), of_nat (128 + n mod 64)])"

definition str_as_bytes :: "string \<Rightarrow> bytes" where
  "str_as_bytes s = concat (map utf8_char s)"

definition digest_uuid :: "(bytes \<Rightarrow> bytes) \<Rightarrow> bytes \<Rightarrow> uuid" where
  "digest_uuid sha256 input = uuid_from_bytes (take 16 (sha256 input))"

definition stable_node_execution_id :: "(bytes \<Rightarrow> bytes) \<Rightarrow> uuid \<Rightarrow> string \<Rightarrow> u32 \<Rightarrow> uuid" where
  "stable_node_execution_id sha256 run_id node_key iteration =
     digest_uuid sha256 (uuid_as_bytes run_id @ str_as_bytes node_key @ to_le_bytes iteration)"

definition stable_operation_id :: "(bytes \<Rightarrow> bytes) \<Rightarrow> uuid \<Rightarrow> uuid \<Rightarrow> string \<Rightarrow> uuid" where
  "stable_operation_id sha256 run_id node_execution_id operation =
     digest_uuid sha256 (uuid_as_bytes run_id @ uuid_as_bytes node_execution_id @ str_as_bytes operation)"

definition stable_join_operation_id ::
  "(bytes \<Rightarrow> bytes) \<Rightarrow> uuid \<Rightarrow> uuid \<Rightarrow> uuid \<Rightarrow> string \<Rightarrow> uuid" where
  "stable_join_operation_id sha256 run_id join_node_execution_id node_execution_id operation =
     digest_uuid sha256 (uuid_as_bytes run_id @ uuid_as_bytes join_node_execution_id @
       uuid_as_bytes node_execution_id @ str_as_bytes operation)"

definition stable_join_event_id :: "(bytes \<Rightarrow> bytes) \<Rightarrow> uuid \<Rightarrow> uuid \<Rightarrow> uuid \<Rightarrow> uuid" where
  "stable_join_event_id sha256 run_id join_node_execution_id source_node_execution_id =
     digest_uuid sha256 (uuid_as_bytes run_id @ uuid_as_bytes join_node_execution_id @
       uuid_as_bytes source_node_execution_id @ str_as_bytes ''join-decision'')"

section \<open>Joins\<close>

text \<open>Upstream progress: a terminal node keeps its status, any other node may take any status.\<close>

definition upstreams_progress :: "OrchestrationNodeStatus list \<Rightarrow> OrchestrationNodeStatus list \<Rightarrow> bool" where
  "upstreams_progress xs ys \<longleftrightarrow> list_all2 (\<lambda>x y. is_terminal_node x \<longrightarrow> y = x) xs ys"

lemma upstreams_progress_mem:
  assumes "upstreams_progress xs ys" "x \<in> set xs" "is_terminal_node x"
  shows "x \<in> set ys"
  using assms by (force simp: upstreams_progress_def list_all2_conv_all_nth in_set_conv_nth)

lemma upstreams_progress_done:
  assumes "upstreams_progress xs ys" "list_all is_terminal_node xs"
  shows "ys = xs"
  using assms unfolding upstreams_progress_def by (induction rule: list_all2_induct) auto

lemma count_success_pos: "0 < length (filter (\<lambda>s. s = ONSucceeded) xs) \<longleftrightarrow> ONSucceeded \<in> set xs"
  by (induction xs) auto

lemma count_success_all: "length (filter (\<lambda>s. s = ONSucceeded) xs) = length xs \<longleftrightarrow> set xs \<subseteq> {ONSucceeded}"
proof (induction xs)
  case (Cons x xs)
  have "length (filter (\<lambda>s. s = ONSucceeded) xs) \<noteq> Suc (length xs)"
    by (metis Suc_n_not_le_n length_filter_le)
  with Cons show ?case by auto
qed simp

lemma terminal_list: "list_all (\<lambda>s. s \<in> {ONSucceeded, ONFailed, ONCancelled}) xs \<longleftrightarrow> list_all is_terminal_node xs"
  by (simp add: list_all_iff)

text \<open>The decision written over the set of upstream statuses.\<close>

lemma evaluate_join_set:
  "evaluate_join policy failure_policy remaining statuses =
     (let ss = set statuses; failed = ONFailed \<in> ss \<or> ONCancelled \<in> ss;
          settled = list_all is_terminal_node statuses
      in if ss = {} then JWaiting
         else case policy of
           JoinAll \<Rightarrow>
             if failure_policy = FailFast \<and> failed then JFailed
             else if \<not> settled then JWaiting
             else if ss \<subseteq> {ONSucceeded} \<or> (failure_policy = AllowPartial \<and> ONSucceeded \<in> ss) then JReady
             else JFailed
         | JoinAny \<Rightarrow>
             if ONSucceeded \<in> ss
             then (if remaining = CancelRemaining then JReadyAndCancelRemaining else JReady)
             else if settled then JFailed else JWaiting
         | JoinEach \<Rightarrow>
             if failure_policy = FailFast \<and> failed then JFailed
             else if ONSucceeded \<in> ss then JReady
             else if settled then JFailed else JWaiting)"
proof -
  have failed: "list_ex (\<lambda>s. s \<in> {ONFailed, ONCancelled}) statuses \<longleftrightarrow>
      ONFailed \<in> set statuses \<or> ONCancelled \<in> set statuses"
    by (auto simp: list_ex_iff)
  show ?thesis
    unfolding evaluate_join_def Let_def failed terminal_list count_success_pos count_success_all
    by (cases policy) auto
qed

section \<open>Identifiers\<close>

lemma nth_uuid_as_bytes:
  assumes "i < 16" "k < 8"
  shows "bit (uuid_as_bytes u ! i) k \<longleftrightarrow> bit u (8 * (15 - i) + k)"
  using assms by (simp add: uuid_as_bytes_def bit_ucast_iff bit_drop_bit_eq)

lemma uuid_as_bytes_inj: "uuid_as_bytes u = uuid_as_bytes v \<longleftrightarrow> u = v"
proof
  assume eq: "uuid_as_bytes u = uuid_as_bytes v"
  show "u = v"
  proof (rule bit_word_eqI)
    fix n :: nat
    assume "n < LENGTH(128)"
    then have n: "n < 128" by simp
    then have "15 - n div 8 < 16" "n mod 8 < 8" "8 * (15 - (15 - n div 8)) + n mod 8 = n" by auto
    with eq show "bit u n \<longleftrightarrow> bit v n"
      using nth_uuid_as_bytes [of "15 - n div 8" "n mod 8" u] nth_uuid_as_bytes [of "15 - n div 8" "n mod 8" v]
      by simp
  qed
qed simp

lemma to_le_bytes_inj: "to_le_bytes m = to_le_bytes n \<longleftrightarrow> m = n"
proof
  assume eq: "to_le_bytes m = to_le_bytes n"
  have nth: "bit (to_le_bytes w ! i) k \<longleftrightarrow> bit w (8 * i + k)" if "i < 4" "k < 8" for w i k
    using that by (simp add: to_le_bytes_def bit_ucast_iff bit_drop_bit_eq)
  show "m = n"
  proof (rule bit_word_eqI)
    fix j :: nat
    assume "j < LENGTH(32)"
    then have "j div 8 < 4" "j mod 8 < 8" "8 * (j div 8) + j mod 8 = j" by auto
    with eq show "bit m j \<longleftrightarrow> bit n j" using nth [of "j div 8" "j mod 8"] by metis
  qed
qed simp

lemma length_uuid_as_bytes [simp]: "length (uuid_as_bytes u) = 16"
  by (simp add: uuid_as_bytes_def)

lemma length_to_le_bytes [simp]: "length (to_le_bytes n) = 4"
  by (simp add: to_le_bytes_def)

lemma byte_eq_iff: "m < 256 \<Longrightarrow> n < 256 \<Longrightarrow> (of_nat m :: 8 word) = of_nat n \<longleftrightarrow> m = n"
  by (simp add: word_of_nat_eq_iff take_bit_eq_mod)

lemma char_code_less: "char_code c < 256"
  by (simp add: char_code_def)

lemma char_code_inj: "char_code c = char_code d \<longleftrightarrow> c = d"
  by (simp add: char_code_def)

lemma utf8_char_prefix: "utf8_char c @ xs = utf8_char d @ ys \<longleftrightarrow> c = d \<and> xs = ys"
proof -
  have low: "(of_nat m :: 8 word) \<noteq> of_nat (192 + n div 64)" if "m < 128" "n < 256" for m n
    using that byte_eq_iff [of m "192 + n div 64"] by auto
  have two: "m = n" if "(of_nat (192 + m div 64) :: 8 word) = of_nat (192 + n div 64)"
      "(of_nat (128 + m mod 64) :: 8 word) = of_nat (128 + n mod 64)" "m < 256" "n < 256" for m n
  proof -
    from that have "m div 64 = n div 64" "m mod 64 = n mod 64"
      using byte_eq_iff [of "192 + m div 64" "192 + n div 64"] byte_eq_iff [of "128 + m mod 64" "128 + n mod 64"]
      by auto
    then show ?thesis by (metis mult_div_mod_eq)
  qed
  show ?thesis
    using low [of "char_code c" "char_code d"] low [of "char_code d" "char_code c"]
      two [of "char_code c" "char_code d"] char_code_less [of c] char_code_less [of d]
      byte_eq_iff [of "char_code c" "char_code d"] char_code_inj [of c d]
    by (auto simp: utf8_char_def Let_def)
qed

lemma utf8_char_not_Nil: "utf8_char c \<noteq> []"
  by (simp add: utf8_char_def Let_def)

lemma str_as_bytes_inj: "str_as_bytes s = str_as_bytes t \<longleftrightarrow> s = t"
proof (induction s arbitrary: t)
  case Nil
  show ?case by (cases t) (auto simp: str_as_bytes_def utf8_char_not_Nil)
next
  case (Cons c s)
  show ?case
  proof (cases t)
    case Nil
    then show ?thesis by (simp add: str_as_bytes_def utf8_char_not_Nil)
  next
    case (Cons d t')
    then show ?thesis using Cons.IH [of t'] by (simp add: str_as_bytes_def utf8_char_prefix)
  qed
qed

lemma node_execution_input_inj:
  "uuid_as_bytes r @ str_as_bytes k @ to_le_bytes n = uuid_as_bytes r' @ str_as_bytes k' @ to_le_bytes n' \<longleftrightarrow>
     r = r' \<and> k = k' \<and> n = n'"
  by (auto simp: append_eq_append_conv uuid_as_bytes_inj to_le_bytes_inj str_as_bytes_inj
      simp flip: append_assoc)

section \<open>Properties\<close>

text \<open>
  C34: a join decision is final. While the upstream nodes progress (a terminal node keeps its
  status), a decision other than waiting does not change, except that a fail-fast \<open>each\<close> join which is
  ready can still fail through a later failure.
\<close>

theorem join_decision_is_final:
  assumes "upstreams_progress xs ys" "evaluate_join policy failure_policy remaining xs = d" "d \<noteq> JWaiting"
    and "\<not> (policy = JoinEach \<and> failure_policy = FailFast \<and> d = JReady)"
  shows "evaluate_join policy failure_policy remaining ys = d"
proof -
  have keep: "s \<in> set ys" if "s \<in> set xs" "is_terminal_node s" for s
    using upstreams_progress_mem [OF assms(1) that] .
  show ?thesis
  proof (cases "list_all is_terminal_node xs")
    case True
    with upstreams_progress_done [OF assms(1)] assms(2) show ?thesis by simp
  next
    case False
    have "set xs = {} \<longleftrightarrow> set ys = {}"
      using assms(1) by (auto simp: upstreams_progress_def)
    with False assms(2-4) keep [of ONSucceeded] keep [of ONFailed] keep [of ONCancelled] show ?thesis
      unfolding evaluate_join_set Let_def
      by (cases policy; cases failure_policy) (auto split: if_splits)
  qed
qed

theorem join_decision_is_final_witness:
  "evaluate_join JoinAll FailFast ContinueRemaining [ONFailed, ONSucceeded] = JFailed"
proof -
  have "upstreams_progress [ONFailed, ONRunning] [ONFailed, ONSucceeded]"
    by (simp add: upstreams_progress_def)
  from join_decision_is_final [OF this, of JoinAll FailFast ContinueRemaining JFailed]
  show ?thesis by (simp add: evaluate_join_def)
qed

text \<open>
  C35: a join becomes ready only on a success (under \<open>all\<close> with fail-fast only when every upstream
  succeeded), cancels the others only under \<open>any\<close>, and never waits once its upstreams, of which
  there is at least one, have all reached a terminal status.
\<close>

theorem join_sound_and_live:
  "(evaluate_join policy failure_policy remaining ss \<in> {JReady, JReadyAndCancelRemaining} \<longrightarrow>
      ONSucceeded \<in> set ss \<and>
      (policy = JoinAll \<and> failure_policy = FailFast \<longrightarrow> set ss = {ONSucceeded}) \<and>
      (evaluate_join policy failure_policy remaining ss = JReadyAndCancelRemaining \<longleftrightarrow>
         policy = JoinAny \<and> remaining = CancelRemaining)) \<and>
   (ss \<noteq> [] \<and> list_all is_terminal_node ss \<longrightarrow>
      evaluate_join policy failure_policy remaining ss \<noteq> JWaiting)"
proof -
  have "set ss = {ONSucceeded}"
    if "ONFailed \<notin> set ss" "ONCancelled \<notin> set ss" "list_all is_terminal_node ss" "ss \<noteq> []"
    using that by (cases ss) (auto simp: list_all_iff)
  then show ?thesis
    unfolding evaluate_join_set Let_def
    by (cases policy; cases failure_policy; cases remaining) (auto split: if_splits)
qed

theorem join_sound_and_live_witness:
  "evaluate_join JoinAll FailFast ContinueRemaining [ONSucceeded, ONSucceeded] = JReady \<and>
   set [ONSucceeded, ONSucceeded] = {ONSucceeded} \<and>
   evaluate_join JoinAny AllowPartial ContinueRemaining [ONFailed] \<noteq> JWaiting"
proof -
  have ready: "evaluate_join JoinAll FailFast ContinueRemaining [ONSucceeded, ONSucceeded] = JReady"
    by code_simp
  with join_sound_and_live [of JoinAll FailFast ContinueRemaining "[ONSucceeded, ONSucceeded]"]
    join_sound_and_live [of JoinAny AllowPartial ContinueRemaining "[ONFailed]"]
  show ?thesis by simp
qed

text \<open>
  The status of a run as a function of its nodes. A terminal run keeps its status; an
  unfinished run becomes terminal exactly when all its nodes are; it succeeds exactly when, not being
  cancelled, all nodes are terminal, some node succeeded and no fail-fast node failed; and it ends
  cancelled exactly when it was being cancelled.
\<close>

theorem run_status_projection:
  assumes "facts \<noteq> []"
  shows "(orchestration_terminal current \<longrightarrow> project_run_status current facts = current) \<and>
    (\<not> orchestration_terminal current \<longrightarrow>
      (orchestration_terminal (project_run_status current facts) \<longleftrightarrow>
         (\<forall>f \<in> set facts. is_terminal_node (fst f))) \<and>
      (project_run_status current facts = OSucceeded \<longleftrightarrow>
         current \<noteq> OCancelling \<and> (\<forall>f \<in> set facts. is_terminal_node (fst f)) \<and>
         ONSucceeded \<in> fst ` set facts \<and> (ONFailed, FailFast) \<notin> set facts \<and> (ONCancelled, FailFast) \<notin> set facts) \<and>
      (project_run_status current facts = OCancelled \<longleftrightarrow>
         current = OCancelling \<and> (\<forall>f \<in> set facts. is_terminal_node (fst f))))"
proof -
  have succ: "list_ex (\<lambda>(status, _). status = ONSucceeded) facts \<longleftrightarrow> ONSucceeded \<in> fst ` set facts"
    by (force simp: list_ex_iff)
  have ff: "list_ex (\<lambda>(status, policy). status \<in> {ONFailed, ONCancelled} \<and> policy = FailFast) facts \<longleftrightarrow>
      (ONFailed, FailFast) \<in> set facts \<or> (ONCancelled, FailFast) \<in> set facts"
    by (auto simp: list_ex_iff)
  have all: "list_all (\<lambda>(status, _). is_terminal_node status) facts \<longleftrightarrow> (\<forall>f \<in> set facts. is_terminal_node (fst f))"
    by (simp add: list_all_iff split_def)
  show ?thesis
    using assms unfolding project_run_status_def Let_def succ ff all by auto
qed

theorem run_status_projection_witness:
  "project_run_status ORunning [(ONSucceeded, FailFast), (ONFailed, AllowPartial)] = OSucceeded"
  using run_status_projection [of "[(ONSucceeded, FailFast), (ONFailed, AllowPartial)]" ORunning] by simp

text \<open>
  As far as SHA-256 does not collide on the two inputs, node executions get the same identifier
  only for the same run, node key and iteration: the bytes that are hashed determine all three.
\<close>

theorem node_execution_ids_distinct:
  assumes "\<And>x y. x = uuid_as_bytes r @ str_as_bytes k @ to_le_bytes n \<Longrightarrow>
      y = uuid_as_bytes r' @ str_as_bytes k' @ to_le_bytes n' \<Longrightarrow>
      digest_uuid sha256 x = digest_uuid sha256 y \<Longrightarrow> x = y"
  shows "stable_node_execution_id sha256 r k n = stable_node_execution_id sha256 r' k' n' \<longleftrightarrow>
    r = r' \<and> k = k' \<and> n = n'"
  using assms [OF refl refl] unfolding stable_node_execution_id_def node_execution_input_inj by auto

theorem node_execution_ids_distinct_witness:
  "stable_node_execution_id (drop 4) 1 ''a'' 1 \<noteq> stable_node_execution_id (drop 4) 1 ''a'' 2"
proof -
  have "digest_uuid (drop 4) (uuid_as_bytes 1 @ str_as_bytes ''a'' @ to_le_bytes 1) \<noteq>
      digest_uuid (drop 4) (uuid_as_bytes 1 @ str_as_bytes ''a'' @ to_le_bytes 2)"
    by code_simp
  then show ?thesis
    using node_execution_ids_distinct [of 1 "''a''" 1 1 "''a''" 2 "drop 4"] by auto
qed

end
