(* ===== verification/Actions.thy ===== *)
theory Actions
  imports Prelude
begin

text \<open>
  Fallible operations on a state, for code that threads a database through many calls: an action takes a state to a
  result and the state it leaves, and keeps what it did before it failed. \<open>bind_action\<close> is the \<open>?\<close> of the
  source after an \<open>await\<close>, \<open>attempt\<close> a call whose \<open>Result\<close> is inspected, \<open>each\<close> and \<open>fold_action\<close> are its \<open>for\<close> loops. The locale
  \<open>step_relation\<close> has one composition rule per combinator: whatever every step
  preserves, the whole action preserves.
\<close>

section \<open>Combinators\<close>

type_synonym ('s, 'e, 'a) action = "'s \<Rightarrow> ('e + 'a) \<times> 's"

definition ret :: "'a \<Rightarrow> ('s, 'e, 'a) action" where
  "ret x s = (Inr x, s)"

definition raise :: "'e \<Rightarrow> ('s, 'e, 'a) action" where
  "raise e s = (Inl e, s)"

definition bind_action :: "('s, 'e, 'a) action \<Rightarrow> ('a \<Rightarrow> ('s, 'e, 'b) action) \<Rightarrow> ('s, 'e, 'b) action" where
  "bind_action m f s = (case m s of (Inl e, s') \<Rightarrow> (Inl e, s') | (Inr x, s') \<Rightarrow> f x s')"

definition attempt :: "('s, 'e, 'a) action \<Rightarrow> ('s, 'f, 'e + 'a) action" where
  "attempt m s = (case m s of (r, s') \<Rightarrow> (Inr r, s'))"

definition of_result :: "'e + 'a \<Rightarrow> ('s, 'e, 'a) action" where
  "of_result r s = (r, s)"

primrec each :: "('x \<Rightarrow> ('s, 'e, unit) action) \<Rightarrow> 'x list \<Rightarrow> ('s, 'e, unit) action" where
  "each f [] = ret ()"
| "each f (x # xs) = bind_action (f x) (\<lambda>_. each f xs)"

primrec fold_action :: "('b \<Rightarrow> 'x \<Rightarrow> ('s, 'e, 'b) action) \<Rightarrow> 'b \<Rightarrow> 'x list \<Rightarrow> ('s, 'e, 'b) action" where
  "fold_action f b [] = ret b"
| "fold_action f b (x # xs) = bind_action (f b x) (\<lambda>b. fold_action f b xs)"

section \<open>Laws\<close>

named_theorems action_simps \<open>the results of the combinators\<close>

lemma ret_simps [action_simps, simp]: "ret x s = (Inr y, s') \<longleftrightarrow> x = y \<and> s' = s" "ret x s \<noteq> (Inl e, s')"
  by (auto simp: ret_def)

lemma raise_simps [action_simps, simp]: "raise e s = (Inl e', s') \<longleftrightarrow> e = e' \<and> s' = s" "raise e s \<noteq> (Inr y, s')"
  by (auto simp: raise_def)

lemma bind_ok_iff [action_simps]:
  "bind_action m f s = (Inr y, s') \<longleftrightarrow> (\<exists>x s1. m s = (Inr x, s1) \<and> f x s1 = (Inr y, s'))"
  by (auto simp: bind_action_def split: prod.splits sum.splits)

lemma bind_err_iff:
  "bind_action m f s = (Inl e, s') \<longleftrightarrow>
     m s = (Inl e, s') \<or> (\<exists>x s1. m s = (Inr x, s1) \<and> f x s1 = (Inl e, s'))"
  by (auto simp: bind_action_def split: prod.splits sum.splits)

lemma bind_ret [simp]: "bind_action (ret x) f = f x"
  by (simp add: fun_eq_iff bind_action_def ret_def)

lemma bind_raise [simp]: "bind_action (raise e) f = raise e"
  by (simp add: fun_eq_iff bind_action_def raise_def)

lemma bind_assoc: "bind_action (bind_action m f) g = bind_action m (\<lambda>x. bind_action (f x) g)"
  by (simp add: fun_eq_iff bind_action_def split: prod.splits sum.splits)

lemma bind_cong [fundef_cong]:
  assumes "m = m'" "s = s'" "\<And>x s1. m' s' = (Inr x, s1) \<Longrightarrow> f x s1 = f' x s1"
  shows "bind_action m f s = bind_action m' f' s'"
  using assms by (auto simp: bind_action_def split: prod.splits sum.splits)

lemma attempt_iff [action_simps]: "attempt m s = (Inr r, s') \<longleftrightarrow> m s = (r, s')" "attempt m s \<noteq> (Inl e, s')"
  by (auto simp: attempt_def split: prod.splits)

lemma of_result_iff [action_simps]: "of_result r s = (r', s') \<longleftrightarrow> r' = r \<and> s' = s"
  by (auto simp: of_result_def)

lemma each_append: "each f (xs @ ys) = bind_action (each f xs) (\<lambda>_. each f ys)"
  by (induction xs) (auto simp: bind_assoc)

section \<open>What an action preserves\<close>

definition acts :: "('s \<Rightarrow> 's \<Rightarrow> bool) \<Rightarrow> ('s, 'e, 'a) action \<Rightarrow> bool" where
  "acts R m \<longleftrightarrow> (\<forall>s. R s (snd (m s)))"

lemma actsD: "acts R m \<Longrightarrow> m s = (r, s') \<Longrightarrow> R s s'"
  by (metis acts_def snd_conv)

locale step_relation =
  fixes R :: "'s \<Rightarrow> 's \<Rightarrow> bool"
  assumes step_refl: "R s s"
    and step_trans: "R s s' \<Longrightarrow> R s' s'' \<Longrightarrow> R s s''"
begin

lemma acts_ret: "acts R (ret x)"
  by (simp add: acts_def ret_def step_refl)

lemma acts_raise: "acts R (raise e)"
  by (simp add: acts_def raise_def step_refl)

lemma acts_of_result: "acts R (of_result r)"
  by (simp add: acts_def of_result_def step_refl)

lemma acts_attempt: "acts R m \<Longrightarrow> acts R (attempt m)"
  by (simp add: acts_def attempt_def split_beta)

lemma acts_bind:
  assumes "acts R m" "\<And>x. acts R (f x)"
  shows "acts R (bind_action m f)"
  unfolding acts_def
proof
  fix s
  obtain r s1 where m: "m s = (r, s1)" by (rule prod.exhaust)
  with assms(1) have "R s s1" by (rule actsD)
  then show "R s (snd (bind_action m f s))"
    using assms(2) by (cases r) (auto simp: m bind_action_def acts_def intro: step_trans)
qed

lemma acts_each: "(\<And>x. acts R (f x)) \<Longrightarrow> acts R (each f xs)"
  by (induction xs) (simp_all add: acts_ret acts_bind)

lemma acts_fold: "(\<And>b x. acts R (f b x)) \<Longrightarrow> acts R (fold_action f b xs)"
  by (induction xs arbitrary: b) (simp_all add: acts_ret acts_bind)

lemma acts_if: "(b \<Longrightarrow> acts R m) \<Longrightarrow> (\<not> b \<Longrightarrow> acts R n) \<Longrightarrow> acts R (if b then m else n)"
  by simp

lemma acts_option:
  "(x = None \<Longrightarrow> acts R m) \<Longrightarrow> (\<And>y. acts R (f y)) \<Longrightarrow> acts R (case x of None \<Rightarrow> m | Some y \<Rightarrow> f y)"
  by (cases x) simp_all

lemma acts_sum:
  "(\<And>e. acts R (f e)) \<Longrightarrow> (\<And>y. acts R (g y)) \<Longrightarrow> acts R (case x of Inl e \<Rightarrow> f e | Inr y \<Rightarrow> g y)"
  by (cases x) simp_all

lemma acts_prod: "(\<And>a b. acts R (f a b)) \<Longrightarrow> acts R (case p of (a, b) \<Rightarrow> f a b)"
  by (cases p) simp

lemmas acts_rules = acts_ret acts_raise acts_of_result acts_attempt acts_bind acts_each acts_fold acts_if acts_option
  acts_sum acts_prod

end

end
