(* ===== verification/Service.thy ===== *)
theory Service
  imports Store Decisions Actions
begin

text \<open>
  The orchestration service, \<open>crates/services/src/services/orchestration.rs\<close>: the methods of \<open>OrchestrationService\<close> as actions on
  the database and the world behind the port. A method is one sequence of store operations;
  other writers of the database are the business of \<open>Store\<close>.

  The environment has what comes from outside: the clock, fresh ids, SHA-256, the text of errors, and the port to
  agent runs, whose calls may change the world and the database. The \<open>n\<close>-th reading of the clock or
  the id generator is a function of \<open>n\<close>.
\<close>

section \<open>State and environment\<close>

datatype OrchestrationServiceError =
  SDatabase DbError
| SPersistence OrchestrationPersistenceError
| SPort AgentRunPortError
| SMissingState uuid
| SDispatchStopped uuid
| SMissingCommandOrigin

record StartupReconciliationReport =
  sr_recovered_outbox_deliveries :: nat
  sr_recovered_inbox_claims :: nat
  sr_recovered_leases :: nat
  sr_reconciled_runs :: nat
  sr_unreachable_agent_runs :: nat
  sr_delivery_failures :: nat

record InboxDrainReport =
  dr_claimed :: nat
  dr_consumed :: nat
  dr_join_decisions :: nat
  dr_cancel_commands_queued :: nat

definition default_drain_report :: InboxDrainReport where
  "default_drain_report = \<lparr>dr_claimed = 0, dr_consumed = 0, dr_join_decisions = 0, dr_cancel_commands_queued = 0\<rparr>"

record ('v, 'w) service =
  sv_db :: "'v db"
  sv_world :: 'w
  sv_tick :: nat

record ('v, 'w) service_env =
  se_sql :: sql_env
  se_now :: "nat \<Rightarrow> datetime"
  se_clock :: "nat \<Rightarrow> sql_text"
  se_fresh :: "nat \<Rightarrow> uuid"
  se_sha256 :: "bytes \<Rightarrow> bytes"
  se_error_text :: "OrchestrationPersistenceError \<Rightarrow> string"
  se_owner_id :: string
  port_create :: "AgentRunRequestEnvelope \<Rightarrow> 'v RunAttemptRequest \<Rightarrow> 'w \<times> 'v db \<Rightarrow> (AgentRunPortError + uuid) \<times> 'w \<times> 'v db"
  port_control :: "'v AgentRunPortCommandEnvelope \<Rightarrow> 'w \<times> 'v db \<Rightarrow> (AgentRunPortError + unit) \<times> 'w \<times> 'v db"
  port_query :: "uuid \<Rightarrow> 'w \<times> 'v db \<Rightarrow> (AgentRunPortError + 'v AgentRunPortSnapshot) \<times> 'w \<times> 'v db"

type_synonym ('v, 'w, 'a) service_action = "(('v, 'w) service, OrchestrationServiceError, 'a) action"

fun port_error_to_string :: "('v, 'w) service_env \<Rightarrow> AgentRunPortError \<Rightarrow> string" where
  "port_error_to_string env (PortNotFound i) = ''agent run '' @ uuid_text (se_sql env) i @ '' was not found''"
| "port_error_to_string env (PortUnavailable e) = ''agent run port is unavailable: '' @ e"
| "port_error_to_string env (PortRejected e) = ''agent run command was rejected: '' @ e"

section \<open>Access to the state\<close>

definition tick :: "(nat \<Rightarrow> 'a) \<Rightarrow> ('v, 'w, 'a) service_action" where
  "tick f s = (Inr (f (sv_tick s)), s\<lparr>sv_tick := Suc (sv_tick s)\<rparr>)"

definition query :: "('v db \<Rightarrow> OrchestrationServiceError + 'a) \<Rightarrow> ('v, 'w, 'a) service_action" where
  "query q s = (q (sv_db s), s)"

definition update_db :: "('v db \<Rightarrow> 'a \<times> 'v db) \<Rightarrow> ('v, 'w, 'a) service_action" where
  "update_db f s = (case f (sv_db s) of (x, d) \<Rightarrow> (Inr x, s\<lparr>sv_db := d\<rparr>))"

definition store :: "('v db \<Rightarrow> (OrchestrationPersistenceError + 'a) \<times> 'v db) \<Rightarrow> ('v, 'w, 'a) service_action" where
  "store f s = (case f (sv_db s) of (r, d) \<Rightarrow> (map_sum SPersistence id r, s\<lparr>sv_db := d\<rparr>))"

definition call_port ::
  "('w \<times> 'v db \<Rightarrow> (AgentRunPortError + 'a) \<times> 'w \<times> 'v db) \<Rightarrow> ('v, 'w, AgentRunPortError + 'a) service_action" where
  "call_port f s = (case f (sv_world s, sv_db s) of (r, w, d) \<Rightarrow> (Inr r, s\<lparr>sv_world := w, sv_db := d\<rparr>))"

text \<open>\<open>fetch_one\<close>: a missing row is an error of the database.\<close>

definition fetch_one :: "'a option \<Rightarrow> OrchestrationServiceError + 'a" where
  "fetch_one x = (case x of None \<Rightarrow> Inl (SDatabase DbRowNotFound) | Some y \<Rightarrow> Inr y)"

definition run_row :: "uuid \<Rightarrow> ('v, 'w, 'v OrchestrationRunRecord) service_action" where
  "run_row run_id = query (\<lambda>d. fetch_one (find (\<lambda>r. or_id r = run_id) (db_runs d)))"

section \<open>Events and commands\<close>

text \<open>\<open>last_event_sequence + 1\<close> in SQL: at the end of the range the sum is no integer and does not decode.\<close>

definition next_sequence :: "i64 \<Rightarrow> OrchestrationServiceError + i64" where
  "next_sequence n = (if n + 1 < 2 ^ 63 then Inr (n + 1) else Inl (SDatabase DbDecode))"

definition sequence_u64 :: "i64 \<Rightarrow> u64" where
  "sequence_u64 n = (case u64_of_i64 n of Some k \<Rightarrow> k | None \<Rightarrow> - 1)"

definition with_dispatcher_lease ::
  "('v, 'w) service_env \<Rightarrow> uuid \<Rightarrow> datetime \<Rightarrow> ('v, 'w, 'a) service_action \<Rightarrow> ('v, 'w, 'a) service_action" where
  "with_dispatcher_lease env run_id now body =
     bind_action (store (acquire (se_sql env) ''dispatcher'' run_id (se_owner_id env) now (duration_seconds 30))) (\<lambda>acquired.
     if \<not> acquired
     then raise (SPersistence (PIdempotencyConflict ''orchestration lease'' (uuid_text (se_sql env) run_id)))
     else body)"

definition release_dispatcher_lease ::
  "('v, 'w) service_env \<Rightarrow> uuid \<Rightarrow> OrchestrationServiceError + 'a \<Rightarrow> ('v, 'w, 'a) service_action" where
  "release_dispatcher_lease env run_id result =
     bind_action (update_db (release ''dispatcher'' run_id (se_owner_id env))) (\<lambda>_. of_result result)"

definition append_event ::
  "('v, 'w) service_env \<Rightarrow> uuid \<Rightarrow> uuid \<Rightarrow> 'v OrchestrationEventPayload \<Rightarrow> ('v, 'w, OrchestrationReducerApply) service_action" where
  "append_event env run_id correlation_id payload =
     bind_action (tick (se_now env)) (\<lambda>now.
     with_dispatcher_lease env run_id now (
       bind_action (query (\<lambda>d. case find (\<lambda>r. ost_orchestration_run_id r = run_id) (db_states d) of
           None \<Rightarrow> Inl (SMissingState run_id)
         | Some row \<Rightarrow> next_sequence (ost_last_event_sequence row))) (\<lambda>sequence.
       bind_action (tick (se_fresh env)) (\<lambda>event_id.
       bind_action (tick (se_clock env)) (\<lambda>clock.
       bind_action (attempt (store (append_and_project (se_sql env) clock \<lparr>
           oe_schema_version = ORCHESTRATION_EVENT_SCHEMA_VERSION,
           oe_payload_version = ORCHESTRATION_EVENT_PAYLOAD_VERSION, oe_event_id = event_id,
           oe_orchestration_run_id = run_id, oe_sequence = sequence_u64 sequence,
           oe_correlation_id = correlation_id, oe_timestamp = now, oe_payload = payload\<rparr>))) (\<lambda>result.
       release_dispatcher_lease env run_id result))))))"

definition start_run ::
  "('v, 'w) service_env \<Rightarrow> uuid \<Rightarrow> uuid \<Rightarrow> string \<Rightarrow> uuid \<Rightarrow> 'v OrchestrationPlanSnapshot \<Rightarrow> ('v, 'w, uuid) service_action" where
  "start_run env run_id request_id key correlation_id plan =
     bind_action (tick (se_clock env)) (\<lambda>clock.
     bind_action (store (persist_before_dispatch run_id request_id key correlation_id plan clock)) (\<lambda>run_id.
     bind_action (each (\<lambda>node.
         bind_action (tick (se_clock env)) (\<lambda>clock.
         bind_action (store (persist_identity_before_dispatch (se_sql env)
           (stable_node_execution_id (se_sha256 env) run_id (pn_node_key node) 0) run_id (pn_node_key node) 0
           (pn_stable_order node) clock)) (\<lambda>_. ret ()))) (pl_nodes plan)) (\<lambda>_.
     bind_action (run_row run_id) (\<lambda>run.
     if or_status run = OPending
     then bind_action (append_event env run_id correlation_id (OELifecycleChanged ORunning)) (\<lambda>_. ret run_id)
     else ret run_id))))"

fun starts_agent :: "'v AgentRunPortCommand \<Rightarrow> bool" where
  "starts_agent (CmdCreate _ _) = True"
| "starts_agent (CmdRetry _ _) = True"
| "starts_agent _ = False"

definition dispatch_stopped :: "OrchestrationRunStatus \<Rightarrow> bool" where
  "dispatch_stopped st \<longleftrightarrow> st = OCancelling \<or> orchestration_terminal st"

definition enqueue_command ::
  "('v, 'w) service_env \<Rightarrow> 'v AgentRunPortCommandEnvelope \<Rightarrow> ('v, 'w, uuid) service_action" where
  "enqueue_command env command =
     bind_action (of_result (ok_or (ce_orchestration_run_id command) SMissingCommandOrigin)) (\<lambda>run_id.
     bind_action (of_result (ok_or (ce_orchestration_node_execution_id command) SMissingCommandOrigin)) (\<lambda>_.
     bind_action (if starts_agent (ce_command command)
       then bind_action (run_row run_id) (\<lambda>run.
         if dispatch_stopped (or_status run) then raise (SDispatchStopped run_id) else ret ())
       else ret ()) (\<lambda>_.
     bind_action (tick (se_fresh env)) (\<lambda>fresh.
     bind_action (tick (se_clock env)) (\<lambda>clock.
     bind_action (store (enqueue_with_outcome fresh command clock)) (\<lambda>(outbox_id, inserted).
     if inserted
     then bind_action (append_event env run_id (ce_correlation_id command)
         (OECommandQueued (ce_command_id command) (ce_idempotency_key command))) (\<lambda>_. ret outbox_id)
     else ret outbox_id))))))"

section \<open>Delivery\<close>

definition deliver_create ::
  "('v, 'w) service_env \<Rightarrow> 'v AgentRunPortCommandEnvelope \<Rightarrow> uuid \<Rightarrow> uuid \<Rightarrow> AgentRunRequestEnvelope \<Rightarrow>
   'v RunAttemptRequest \<Rightarrow> ('v, 'w, AgentRunPortError + unit) service_action" where
  "deliver_create env command run_id node_id request attempt_request =
     bind_action (call_port (port_create env request attempt_request)) (\<lambda>created. case created of
         Inl e \<Rightarrow> ret (Inl e)
       | Inr agent_run_id \<Rightarrow>
           if agent_run_id \<noteq> rq_agent_run_id request
           then ret (Inl (PortRejected ''AgentRunPort returned a different run identity''))
           else bind_action (tick (se_clock env)) (\<lambda>clock.
             bind_action (update_db (persist_link (stable_operation_id (se_sha256 env) run_id node_id ''agent-link'')
               run_id node_id agent_run_id (ce_idempotency_key command) clock)) (\<lambda>linked.
             ret (map_sum (\<lambda>e. PortRejected (se_error_text env e)) (\<lambda>_. ()) linked))))"

definition send_command ::
  "('v, 'w) service_env \<Rightarrow> 'v AgentRunPortCommandEnvelope \<Rightarrow> uuid \<Rightarrow> uuid \<Rightarrow> ('v, 'w, AgentRunPortError + unit) service_action" where
  "send_command env command run_id node_id =
     (case ce_command command of
        CmdCreate request attempt_request \<Rightarrow> deliver_create env command run_id node_id request attempt_request
      | _ \<Rightarrow> call_port (port_control env command))"

definition settle_delivery ::
  "('v, 'w) service_env \<Rightarrow> uuid \<Rightarrow> AgentRunPortError + unit \<Rightarrow> ('v, 'w, bool) service_action" where
  "settle_delivery env outbox_id result =
     (case result of
        Inr _ \<Rightarrow> bind_action (tick (se_now env)) (\<lambda>now.
          bind_action (update_db (mark_delivered (se_sql env) outbox_id now)) (\<lambda>_. ret True))
      | Inl e \<Rightarrow> bind_action (tick (se_now env)) (\<lambda>now. bind_action (tick (se_now env)) (\<lambda>now'.
          bind_action (update_db (mark_failed (se_sql env) outbox_id (port_error_to_string env e)
            (now + duration_seconds 1) now')) (\<lambda>_. raise (SPort e)))))"

definition deliver_next :: "('v, 'w) service_env \<Rightarrow> ('v, 'w, bool) service_action" where
  "deliver_next env =
     bind_action (tick (se_now env)) (\<lambda>now.
     bind_action (store (outbox_claim_next (se_sql env) now)) (\<lambda>claimed. case claimed of
         None \<Rightarrow> ret False
       | Some outbox \<Rightarrow>
           let command = ob_command_envelope outbox in
           bind_action (of_result (ok_or (ce_orchestration_run_id command) SMissingCommandOrigin)) (\<lambda>run_id.
           bind_action (of_result (ok_or (ce_orchestration_node_execution_id command) SMissingCommandOrigin)) (\<lambda>node_id.
           bind_action (if starts_agent (ce_command command)
             then bind_action (run_row run_id) (\<lambda>run. ret (dispatch_stopped (or_status run)))
             else ret False) (\<lambda>stopped.
           if stopped
           then bind_action (tick (se_now env)) (\<lambda>now.
             bind_action (update_db (mark_delivered (se_sql env) (ob_id outbox) now)) (\<lambda>_. ret True))
           else bind_action (send_command env command run_id node_id) (settle_delivery env (ob_id outbox)))))))"

section \<open>Node statuses\<close>

text \<open>\<open>UPDATE ... SET status = ?, updated_at = ? WHERE ... RETURNING id\<close>: the ids of the changed rows.\<close>

definition update_node_status ::
  "sql_env \<Rightarrow> ('v db \<Rightarrow> OrchestrationNodeExecutionRecord \<Rightarrow> bool) \<Rightarrow> OrchestrationNodeStatus \<Rightarrow> datetime \<Rightarrow> 'v db \<Rightarrow>
   uuid list \<times> 'v db" where
  "update_node_status env P status now d =
     (map on_id (filter (P d) (db_nodes d)), set_node_status (P d) status (sql_bind env now) d)"

definition linked :: "'v db \<Rightarrow> OrchestrationNodeExecutionRecord \<Rightarrow> bool" where
  "linked d r \<longleftrightarrow> list_ex (\<lambda>l. ol_node_execution_id l = on_id r) (db_links d)"

definition undispatched_of :: "uuid \<Rightarrow> 'v db \<Rightarrow> OrchestrationNodeExecutionRecord \<Rightarrow> bool" where
  "undispatched_of run_id d r \<longleftrightarrow>
     on_orchestration_run_id r = run_id \<and> on_status r \<in> {ONPending, ONReady} \<and> \<not> linked d r"

definition linked_active_of :: "uuid \<Rightarrow> 'v db \<Rightarrow> OrchestrationNodeExecutionRecord \<Rightarrow> bool" where
  "linked_active_of run_id d r \<longleftrightarrow>
     on_orchestration_run_id r = run_id \<and> on_status r \<notin> {ONSucceeded, ONFailed, ONCancelled, ONCancelling} \<and> linked d r"

definition node_event ::
  "('v, 'w) service_env \<Rightarrow> uuid \<Rightarrow> uuid \<Rightarrow> OrchestrationNodeStatus \<Rightarrow> uuid \<Rightarrow> ('v, 'w, unit) service_action" where
  "node_event env run_id correlation_id status node_id =
     bind_action (append_event env run_id correlation_id (OENodeStatusChanged node_id status)) (\<lambda>_. ret ())"

text \<open>The children of a run that still run, with their links.\<close>

definition active_children :: "uuid \<Rightarrow> 'v db \<Rightarrow> (OrchestrationAgentRunLinkRecord \<times> OrchestrationNodeExecutionRecord) list" where
  "active_children run_id d = sort_key (\<lambda>(l, n). (on_stable_order n, on_iteration n))
     [(l, n). l \<leftarrow> db_links d, ol_orchestration_run_id l = run_id, n \<leftarrow> db_nodes d,
        on_id n = ol_node_execution_id l \<and> on_status n \<notin> {ONSucceeded, ONFailed, ONCancelled}]"

definition cancel_key :: "('v, 'w) service_env \<Rightarrow> uuid \<Rightarrow> uuid \<Rightarrow> string" where
  "cancel_key env run_id node_id =
     ''orchestration:'' @ uuid_text (se_sql env) run_id @ '':node:'' @ uuid_text (se_sql env) node_id @ '':cancel''"

definition cancel_command ::
  "uuid \<Rightarrow> string \<Rightarrow> uuid \<Rightarrow> uuid \<Rightarrow> uuid \<Rightarrow> uuid \<Rightarrow> datetime \<Rightarrow> string \<Rightarrow> 'v AgentRunPortCommandEnvelope" where
  "cancel_command command_id key agent_run_id run_id node_id correlation_id now reason = \<lparr>
     ce_schema_version = ORCHESTRATION_COMMAND_SCHEMA_VERSION, ce_command_id = command_id,
     ce_idempotency_key = key, ce_agent_run_id = agent_run_id, ce_orchestration_run_id = Some run_id,
     ce_orchestration_node_execution_id = Some node_id, ce_correlation_id = correlation_id, ce_created_at = now,
     ce_command = CmdCancel reason\<rparr>"

section \<open>Projection of the run status\<close>

definition apply_fail_fast_cancellation :: "('v, 'w) service_env \<Rightarrow> uuid \<Rightarrow> uuid \<Rightarrow> ('v, 'w, unit) service_action" where
  "apply_fail_fast_cancellation env run_id correlation_id =
     bind_action (tick (se_now env)) (\<lambda>now.
     bind_action (update_db (update_node_status (se_sql env) (undispatched_of run_id) ONCancelled now)) (\<lambda>undispatched.
     bind_action (each (node_event env run_id correlation_id ONCancelled) undispatched) (\<lambda>_.
     bind_action (update_db (\<lambda>d. case update_node_status (se_sql env) (linked_active_of run_id) ONCancelling now d of (ids, d') \<Rightarrow>
         (map (\<lambda>i. (i, map_option ol_agent_run_id (find (\<lambda>l. ol_node_execution_id l = i) (db_links d)))) ids, d'))) (\<lambda>active.
     each (\<lambda>(node_id, agent). case agent of
         None \<Rightarrow> raise (SDatabase DbDecode)
       | Some agent_run_id \<Rightarrow>
           bind_action (node_event env run_id correlation_id ONCancelling node_id) (\<lambda>_.
           bind_action (enqueue_command env (cancel_command (stable_operation_id (se_sha256 env) run_id node_id ''cancel'')
             (cancel_key env run_id node_id) agent_run_id run_id node_id correlation_id now
             ''fail_fast sibling cancellation'')) (\<lambda>_. ret ()))) active))))"

definition run_nodes :: "uuid \<Rightarrow> 'v db \<Rightarrow> OrchestrationNodeExecutionRecord list" where
  "run_nodes run_id d = sort_key (\<lambda>n. (on_stable_order n, on_iteration n))
     (filter (\<lambda>n. on_orchestration_run_id n = run_id) (db_nodes d))"

definition fail_fast_failed :: "'v OrchestrationPlanSnapshot \<Rightarrow> OrchestrationNodeExecutionRecord list \<Rightarrow> bool" where
  "fail_fast_failed plan nodes \<longleftrightarrow> list_ex (\<lambda>n. on_status n = ONFailed \<and>
     list_ex (\<lambda>p. pn_node_key p = on_node_key n \<and> pn_failure_policy p = FailFast) (pl_nodes plan)) nodes"

definition node_facts ::
  "'v OrchestrationPlanSnapshot \<Rightarrow> OrchestrationNodeExecutionRecord list \<Rightarrow>
   (OrchestrationNodeStatus \<times> OrchestrationFailurePolicy) list" where
  "node_facts plan nodes = map (\<lambda>n. (on_status n,
     case find (\<lambda>p. pn_node_key p = on_node_key n) (pl_nodes plan) of
       Some p \<Rightarrow> pn_failure_policy p
     | None \<Rightarrow> FailFast)) nodes"

definition refresh_run_projection ::
  "('v, 'w) service_env \<Rightarrow> uuid \<Rightarrow> uuid \<Rightarrow> ('v, 'w, OrchestrationRunStatus) service_action" where
  "refresh_run_projection env run_id correlation_id =
     bind_action (run_row run_id) (\<lambda>run. let current = or_status run in
     if orchestration_terminal current then ret current
     else bind_action (query (\<lambda>d. Inr (run_nodes run_id d))) (\<lambda>nodes.
     bind_action (run_row run_id) (\<lambda>run. let plan = or_plan_snapshot run in
     if current \<noteq> OCancelling \<and> fail_fast_failed plan nodes
     then bind_action (apply_fail_fast_cancellation env run_id correlation_id) (\<lambda>_.
       bind_action (append_event env run_id correlation_id (OELifecycleChanged OFailed)) (\<lambda>apply.
       ret (if apply \<in> {OApplied, OAppliedDegraded, OIgnoredTerminalRegression} then OFailed else current)))
     else let projected = project_run_status current (node_facts plan nodes) in
       if projected \<noteq> current
       then bind_action (append_event env run_id correlation_id (OELifecycleChanged projected)) (\<lambda>_. ret projected)
       else ret projected)))"

section \<open>Cancellation\<close>

text \<open>The loop body of \<open>cancel\<close>: a cancel command for a child unless one is in the outbox already.\<close>

definition cancel_child ::
  "('v, 'w) service_env \<Rightarrow> uuid \<Rightarrow> uuid \<Rightarrow> OrchestrationAgentRunLinkRecord \<times> OrchestrationNodeExecutionRecord \<Rightarrow>
   ('v, 'w, unit) service_action" where
  "cancel_child env run_id correlation_id = (\<lambda>(l, n).
     bind_action (query (\<lambda>d. Inr (list_ex (\<lambda>r. ob_idempotency_key r = cancel_key env run_id (ol_node_execution_id l))
       (db_outbox d)))) (\<lambda>exists.
     if exists then ret ()
     else bind_action (tick (se_now env)) (\<lambda>now.
       bind_action (enqueue_command env (cancel_command
         (stable_operation_id (se_sha256 env) run_id (ol_node_execution_id l) ''cancel'')
         (cancel_key env run_id (ol_node_execution_id l)) (ol_agent_run_id l) run_id (ol_node_execution_id l)
         correlation_id now ''parent orchestration cancelled'')) (\<lambda>_. ret ()))))"

definition cancel :: "('v, 'w) service_env \<Rightarrow> uuid \<Rightarrow> uuid \<Rightarrow> ('v, 'w, OrchestrationReducerApply) service_action" where
  "cancel env run_id correlation_id =
     bind_action (run_row run_id) (\<lambda>run.
     if orchestration_terminal (or_status run) then ret ODuplicate
     else
       bind_action (if or_status run = OCancelling then ret ODuplicate
         else append_event env run_id correlation_id (OELifecycleChanged OCancelling)) (\<lambda>apply.
       bind_action (tick (se_now env)) (\<lambda>now.
       bind_action (update_db (update_node_status (se_sql env) (undispatched_of run_id) ONCancelled now)) (\<lambda>undispatched.
       bind_action (each (node_event env run_id correlation_id ONCancelled) undispatched) (\<lambda>_.
       bind_action (tick (se_now env)) (\<lambda>now.
       bind_action (update_db (update_node_status (se_sql env) (linked_active_of run_id) ONCancelling now)) (\<lambda>to_cancel.
       bind_action (each (node_event env run_id correlation_id ONCancelling) to_cancel) (\<lambda>_.
       bind_action (query (\<lambda>d. Inr (active_children run_id d))) (\<lambda>children.
       bind_action (each (cancel_child env run_id correlation_id) children) (\<lambda>_.
       bind_action (refresh_run_projection env run_id correlation_id) (\<lambda>_. ret apply)))))))))))"

section \<open>Joins\<close>

definition join_dependency_statuses :: "uuid \<Rightarrow> 'v OrchestrationPlanNode \<Rightarrow> 'v db \<Rightarrow> OrchestrationNodeStatus list" where
  "join_dependency_statuses run_id target d = concat (map (\<lambda>dependency.
     if pn_join target = JoinEach
     then let statuses = map on_status (sort_key on_iteration (filter (\<lambda>n.
            on_orchestration_run_id n = run_id \<and> on_node_key n = dependency) (db_nodes d)))
          in if statuses = [] then [ONPending] else statuses
     else case find (\<lambda>n. on_orchestration_run_id n = run_id \<and> on_node_key n = dependency \<and> on_iteration n = 0) (db_nodes d) of
            None \<Rightarrow> [ONPending]
          | Some n \<Rightarrow> [on_status n]) (pn_dependencies target))"

text \<open>The rank of a source among the executions of the dependencies that are in the table.\<close>

definition each_target_iteration ::
  "uuid \<Rightarrow> 'v OrchestrationPlanNode \<Rightarrow> uuid \<Rightarrow> 'v db \<Rightarrow> OrchestrationServiceError + u32" where
  "each_target_iteration run_id target source_id d =
     (case find (\<lambda>n. on_id n = source_id \<and> on_orchestration_run_id n = run_id) (db_nodes d) of
        None \<Rightarrow> Inl (SPersistence PMissingNodeIdentity)
      | Some source \<Rightarrow>
          let rank = length (filter (\<lambda>n. on_orchestration_run_id n = run_id \<and> on_node_key n \<in> set (pn_dependencies target) \<and>
            (on_stable_order n < on_stable_order source \<or>
             on_stable_order n = on_stable_order source \<and> on_iteration n < on_iteration source)) (db_nodes d))
          in if int rank < 2 ^ 32 then Inr (of_nat rank) else Inl (SPersistence PMissingNodeIdentity))"

definition ensure_join_target_execution ::
  "('v, 'w) service_env \<Rightarrow> uuid \<Rightarrow> 'v OrchestrationPlanNode \<Rightarrow> uuid \<Rightarrow> ('v, 'w, uuid \<times> uuid) service_action" where
  "ensure_join_target_execution env run_id target source_id =
     (let join_id = stable_node_execution_id (se_sha256 env) run_id (pn_node_key target) 0 in
     bind_action (query (\<lambda>d. Inr (find (\<lambda>c. oc_orchestration_run_id c = run_id \<and> oc_join_node_execution_id c = join_id \<and>
         oc_source_node_execution_id c = source_id) (db_consumption d)))) (\<lambda>existing.
     case Option.bind existing oc_target_node_execution_id of
       Some target_id \<Rightarrow> ret (join_id, target_id)
     | None \<Rightarrow>
         bind_action (if pn_join target = JoinEach then query (each_target_iteration run_id target source_id) else ret 0) (\<lambda>iteration.
         let target_id = (if pn_join target = JoinEach
           then stable_node_execution_id (se_sha256 env) run_id (pn_node_key target) iteration else join_id) in
         bind_action (tick (se_clock env)) (\<lambda>clock.
         bind_action (store (persist_identity_before_dispatch (se_sql env) target_id run_id (pn_node_key target) iteration
           (pn_stable_order target) clock)) (\<lambda>target_id. ret (join_id, target_id))))))"

definition node_with_link ::
  "uuid \<Rightarrow> string \<Rightarrow> 'v db \<Rightarrow> (OrchestrationNodeExecutionRecord \<times> uuid option) option" where
  "node_with_link run_id dependency d =
     map_option (\<lambda>n. (n, map_option ol_agent_run_id (find (\<lambda>l. ol_node_execution_id l = on_id n \<and>
         ol_orchestration_run_id l = on_orchestration_run_id n) (db_links d))))
       (find (\<lambda>n. on_orchestration_run_id n = run_id \<and> on_node_key n = dependency \<and> on_iteration n = 0) (db_nodes d))"

definition remaining_key :: "('v, 'w) service_env \<Rightarrow> uuid \<Rightarrow> uuid \<Rightarrow> uuid \<Rightarrow> string" where
  "remaining_key env run_id join_id node_id =
     ''orchestration:'' @ uuid_text (se_sql env) run_id @ '':join:'' @ uuid_text (se_sql env) join_id @ '':node:'' @
     uuid_text (se_sql env) node_id @ '':cancel_remaining''"

definition cancel_remaining_source ::
  "('v, 'w) service_env \<Rightarrow> uuid \<Rightarrow> uuid \<Rightarrow> uuid \<Rightarrow> uuid \<Rightarrow> nat \<Rightarrow> string \<Rightarrow> ('v, 'w, nat) service_action" where
  "cancel_remaining_source env run_id join_id source_id correlation_id queued dependency =
     bind_action (query (\<lambda>d. Inr (node_with_link run_id dependency d))) (\<lambda>found. case found of
         None \<Rightarrow> ret queued
       | Some (n, agent) \<Rightarrow>
           if on_id n = source_id then ret queued
           else if agent = None \<and> on_status n \<in> {ONPending, ONReady}
           then bind_action (tick (se_now env)) (\<lambda>now.
             bind_action (update_db (update_node_status (se_sql env)
               (\<lambda>d r. on_id r = on_id n \<and> on_status r \<in> {ONPending, ONReady}) ONCancelled now)) (\<lambda>ids.
             if length ids = 1
             then bind_action (node_event env run_id correlation_id ONCancelled (on_id n)) (\<lambda>_. ret queued)
             else ret queued))
           else (case agent of
               None \<Rightarrow> ret queued
             | Some agent_run_id \<Rightarrow>
                 if on_status n \<notin> {ONRunning, ONAwaitingInput, ONAwaitingApproval} then ret queued
                 else bind_action (tick (se_now env)) (\<lambda>now.
                   bind_action (update_db (update_node_status (se_sql env) (\<lambda>d r. on_id r = on_id n \<and>
                     on_status r \<notin> {ONSucceeded, ONFailed, ONCancelled, ONCancelling}) ONCancelling now)) (\<lambda>ids.
                   if length ids \<noteq> 1 then ret queued
                   else bind_action (node_event env run_id correlation_id ONCancelling (on_id n)) (\<lambda>_.
                     bind_action (query (\<lambda>d. Inr (list_ex (\<lambda>r. ob_idempotency_key r =
                       remaining_key env run_id join_id (on_id n)) (db_outbox d)))) (\<lambda>before.
                     if before then ret queued
                     else bind_action (tick (se_now env)) (\<lambda>now.
                       bind_action (enqueue_command env (cancel_command
                         (stable_join_operation_id (se_sha256 env) run_id join_id (on_id n) ''cancel_remaining'')
                         (remaining_key env run_id join_id (on_id n)) agent_run_id run_id (on_id n) correlation_id now
                         ''any join cancel_remaining'')) (\<lambda>_. ret (Suc queued)))))))))"

definition cancel_remaining_join_sources ::
  "('v, 'w) service_env \<Rightarrow> uuid \<Rightarrow> uuid \<Rightarrow> uuid \<Rightarrow> uuid \<Rightarrow> 'v OrchestrationPlanNode \<Rightarrow> ('v, 'w, nat) service_action" where
  "cancel_remaining_join_sources env run_id join_id source_id correlation_id target =
     fold_action (cancel_remaining_source env run_id join_id source_id correlation_id) 0 (pn_dependencies target)"

section \<open>Consumption\<close>

text \<open>The row that a consumption reads: the inbox row, its run, the state of the run and the join node.\<close>

definition join_context ::
  "uuid \<Rightarrow> uuid \<Rightarrow> 'v db \<Rightarrow>
   OrchestrationServiceError + ('v OrchestrationRunRecord \<times> i64 \<times> string)" where
  "join_context inbox_id join_id d =
     and_then (fetch_one (find (\<lambda>b. ib_id b = inbox_id) (db_inbox d))) (\<lambda>inbox.
     and_then (fetch_one (find (\<lambda>r. or_id r = ib_orchestration_run_id inbox) (db_runs d))) (\<lambda>run.
     and_then (fetch_one (find (\<lambda>st. ost_orchestration_run_id st = or_id run) (db_states d))) (\<lambda>state.
     and_then (fetch_one (find (\<lambda>n. on_id n = join_id \<and> on_orchestration_run_id n = or_id run) (db_nodes d))) (\<lambda>join_node.
     and_then (next_sequence (ost_last_event_sequence state)) (\<lambda>sequence.
       Inr (run, sequence, on_node_key join_node))))))"

definition consume_source_event_with_effects ::
  "('v, 'w) service_env \<Rightarrow> uuid \<Rightarrow> uuid \<Rightarrow> uuid \<Rightarrow> uuid option \<Rightarrow> 'v AgentRunPortCommandEnvelope option \<Rightarrow>
   ('v, 'w, bool) service_action" where
  "consume_source_event_with_effects env inbox_id join_id source_id target command =
     bind_action (query (join_context inbox_id join_id)) (\<lambda>(run, sequence, join_key).
     case find (\<lambda>n. pn_node_key n = join_key) (pl_nodes (or_plan_snapshot run)) of
       None \<Rightarrow> raise (SPersistence PMissingNodeIdentity)
     | Some join_node \<Rightarrow>
     let run_id = or_id run in
     bind_action (tick (se_now env)) (\<lambda>now.
     with_dispatcher_lease env run_id now (
       bind_action (tick (se_now env)) (\<lambda>timestamp.
       bind_action (case command of None \<Rightarrow> ret None
         | Some c \<Rightarrow> bind_action (tick (se_fresh env)) (\<lambda>outbox_id. ret (Some (outbox_id, c)))) (\<lambda>follow_up.
       bind_action (tick (se_fresh env)) (\<lambda>consumption_id.
       bind_action (tick (se_now env)) (\<lambda>consumed_at.
       bind_action (tick (se_clock env)) (\<lambda>clock.
       bind_action (attempt (store (consume_with_effects (se_sql env) consumption_id inbox_id join_id source_id target
         \<lparr>oe_schema_version = ORCHESTRATION_EVENT_SCHEMA_VERSION,
          oe_payload_version = ORCHESTRATION_EVENT_PAYLOAD_VERSION,
          oe_event_id = stable_join_event_id (se_sha256 env) run_id join_id source_id,
          oe_orchestration_run_id = run_id, oe_sequence = sequence_u64 sequence,
          oe_correlation_id = or_correlation_id run, oe_timestamp = timestamp,
          oe_payload = OEJoinDecided join_id (pn_join join_node) [source_id]\<rparr>
         follow_up consumed_at clock))) (\<lambda>result.
       release_dispatcher_lease env run_id result)))))))))"

definition consume_source_event ::
  "('v, 'w) service_env \<Rightarrow> uuid \<Rightarrow> uuid \<Rightarrow> uuid \<Rightarrow> uuid option \<Rightarrow> ('v, 'w, bool) service_action" where
  "consume_source_event env inbox_id join_id source_id target =
     consume_source_event_with_effects env inbox_id join_id source_id target None"

definition consume_source_event_and_enqueue ::
  "('v, 'w) service_env \<Rightarrow> uuid \<Rightarrow> uuid \<Rightarrow> uuid \<Rightarrow> uuid \<Rightarrow> 'v AgentRunPortCommandEnvelope \<Rightarrow> ('v, 'w, bool) service_action" where
  "consume_source_event_and_enqueue env inbox_id join_id source_id target command =
     consume_source_event_with_effects env inbox_id join_id source_id (Some target) (Some command)"

definition ingest_agent_event ::
  "('v, 'w) service_env \<Rightarrow> uuid \<Rightarrow> 'v AgentEventEnvelope \<Rightarrow> ('v, 'w, uuid) service_action" where
  "ingest_agent_event env run_id event =
     bind_action (tick (se_fresh env)) (\<lambda>fresh. bind_action (tick (se_clock env)) (\<lambda>clock.
     store (ingest (se_sql env) fresh run_id event clock)))"

definition claim_inbox_event :: "uuid \<Rightarrow> ('v, 'w, 'v OrchestrationInboxRecord option) service_action" where
  "claim_inbox_event run_id = store (inbox_claim_next run_id)"

definition service_upstream_handoff :: "uuid \<Rightarrow> uuid \<Rightarrow> ('v, 'w, UpstreamHandoff) service_action" where
  "service_upstream_handoff join_id source_id = query (\<lambda>d. map_sum SPersistence id (upstream_handoff join_id source_id d))"

definition resume_serial_queue :: "('v, 'w) service_env \<Rightarrow> uuid \<Rightarrow> ('v, 'w, SerialEachQueueItem option) service_action" where
  "resume_serial_queue env join_id =
     bind_action (tick (se_now env)) (\<lambda>now. store (promote_next_serial (se_sql env) join_id now))"

definition resume_serial_queues_for_run :: "('v, 'w) service_env \<Rightarrow> uuid \<Rightarrow> ('v, 'w, SerialEachQueueItem list) service_action" where
  "resume_serial_queues_for_run env run_id =
     bind_action (run_row run_id) (\<lambda>run.
     fold_action (\<lambda>promoted node.
         bind_action (resume_serial_queue env (stable_node_execution_id (se_sha256 env) run_id (pn_node_key node) 0)) (\<lambda>item.
         ret (promoted @ (case item of None \<Rightarrow> [] | Some x \<Rightarrow> [x])))) []
       (filter (\<lambda>node. pn_join node = JoinEach \<and> pn_each_downstream_execution node = EachSerial)
         (pl_nodes (or_plan_snapshot run))))"

section \<open>Relations on the database\<close>

definition on_db :: "('v db \<Rightarrow> 'v db \<Rightarrow> bool) \<Rightarrow> ('v, 'w) service \<Rightarrow> ('v, 'w) service \<Rightarrow> bool" where
  "on_db P s s' \<longleftrightarrow> P (sv_db s) (sv_db s')"

locale db_relation =
  fixes P :: "'v db \<Rightarrow> 'v db \<Rightarrow> bool"
  assumes db_refl: "P d d"
    and db_trans: "P d d' \<Longrightarrow> P d' d'' \<Longrightarrow> P d d''"
begin

lemma step_relation_on_db: "step_relation (on_db P)"
  by unfold_locales (auto simp: on_db_def intro: db_refl db_trans)

lemma acts_tick: "acts (on_db P) (tick f)"
  by (simp add: acts_def tick_def on_db_def db_refl)

lemma acts_query: "acts (on_db P) (query q)"
  by (simp add: acts_def query_def on_db_def db_refl)

lemma acts_run_row: "acts (on_db P) (run_row run_id)"
  by (simp add: run_row_def acts_query)

lemma acts_update_db: "(\<And>d. P d (snd (f d))) \<Longrightarrow> acts (on_db P) (update_db f)"
  by (simp add: acts_def update_db_def on_db_def split_beta)

lemma acts_store: "(\<And>d. P d (snd (f d))) \<Longrightarrow> acts (on_db P) (store f)"
  by (simp add: acts_def store_def on_db_def split_beta)

lemma acts_call_port: "(\<And>w d. P d (snd (snd (f (w, d))))) \<Longrightarrow> acts (on_db P) (call_port f)"
  by (simp add: acts_def call_port_def on_db_def split_beta)

lemmas acts_access = acts_tick acts_query acts_run_row acts_update_db acts_store
  step_relation.acts_rules [OF step_relation_on_db]

end

text \<open>
  What the service relies on, in layers. A relation that the lease and the event log respect is respected by
  \<open>append_event\<close>; with the outbox, by \<open>enqueue_command\<close>; with node statuses and consumptions, by everything that
  draining an inbox does; with the rest of the store and the port, by the whole service.
\<close>

locale log_relation = db_relation P for P :: "'v db \<Rightarrow> 'v db \<Rightarrow> bool" +
  fixes env :: "('v, 'w) service_env"
  assumes P_acquire: "P d (snd (acquire (se_sql env) kind i owner now ttl d))"
    and P_release: "P d (snd (release kind i owner d))"
    and P_append: "P d (snd (append_and_project (se_sql env) clock e d))"
begin

lemma acts_release_lease: "acts (on_db P) (release_dispatcher_lease env run_id result)"
  unfolding release_dispatcher_lease_def by (intro acts_access P_release)

lemma acts_with_lease: "acts (on_db P) body \<Longrightarrow> acts (on_db P) (with_dispatcher_lease env run_id now body)"
  unfolding with_dispatcher_lease_def by (intro acts_access P_acquire)

lemma acts_append_event: "acts (on_db P) (append_event env run_id correlation_id payload)"
  unfolding append_event_def by (intro acts_access acts_with_lease acts_release_lease P_append)

lemma acts_node_event: "acts (on_db P) (node_event env run_id correlation_id status node_id)"
  unfolding node_event_def by (intro acts_access acts_append_event)

end

locale event_relation = log_relation P env for P :: "'v db \<Rightarrow> 'v db \<Rightarrow> bool" and env :: "('v, 'w) service_env" +
  assumes P_enqueue: "P d (snd (enqueue_with_outcome i c clock d))"
begin

lemma acts_enqueue_command: "acts (on_db P) (enqueue_command env command)"
  unfolding enqueue_command_def by (intro acts_access acts_append_event P_enqueue)

lemmas acts_events = acts_with_lease acts_release_lease acts_append_event acts_node_event acts_enqueue_command

end

end
