(* ===== verification/Reconciler.thy ===== *)
theory Reconciler
  imports Service
begin

text \<open>
  The loops of the orchestration service, \<open>crates/services/src/services/orchestration.rs\<close>: draining the inbox of a run
  into the joins of its plan, and reconciliation of runs at startup. Draining ends because every round takes an event out
  of the pending ones. The locale \<open>service_relation\<close> carries a relation on databases from the operations of the
  store to every method of the service.
\<close>

section \<open>Draining the inbox\<close>

definition acknowledge ::
  "('v, 'w) service_env \<Rightarrow> uuid \<Rightarrow> (bool \<Rightarrow> bool) \<Rightarrow> InboxDrainReport \<Rightarrow> ('v, 'w, InboxDrainReport) service_action" where
  "acknowledge env inbox_id counted report =
     bind_action (tick (se_now env)) (\<lambda>now.
     bind_action (update_db (mark_consumed (se_sql env) inbox_id now)) (\<lambda>changed.
     ret (if counted changed then report\<lparr>dr_consumed := Suc (dr_consumed report)\<rparr> else report)))"

fun terminal_lifecycle :: "'v AgentEventPayload \<Rightarrow> AgentRunStatus option" where
  "terminal_lifecycle (AELifecycleChanged st) = (if agent_terminal st then Some st else None)"
| "terminal_lifecycle _ = None"

primrec join_decisions ::
  "uuid \<Rightarrow> uuid \<Rightarrow> 'v OrchestrationPlanNode list \<Rightarrow> ('v, 'w, ('v OrchestrationPlanNode \<times> JoinDecision) list) service_action" where
  "join_decisions run_id inbox_id [] = ret []"
| "join_decisions run_id inbox_id (target # targets) =
     bind_action (query (\<lambda>d. Inr (join_dependency_statuses run_id target d))) (\<lambda>statuses.
     let decision = evaluate_join (pn_join target) (pn_failure_policy target) (pn_remaining_upstreams target) statuses in
     if decision = JWaiting then bind_action (update_db (release_claim inbox_id)) (\<lambda>_. ret [])
     else bind_action (join_decisions run_id inbox_id targets) (\<lambda>rest. ret ((target, decision) # rest)))"

definition apply_decision ::
  "('v, 'w) service_env \<Rightarrow> uuid \<Rightarrow> uuid \<Rightarrow> uuid \<Rightarrow> uuid \<Rightarrow> InboxDrainReport \<Rightarrow> 'v OrchestrationPlanNode \<times> JoinDecision \<Rightarrow>
   ('v, 'w, InboxDrainReport) service_action" where
  "apply_decision env run_id inbox_id source_id correlation_id report = (\<lambda>(target, decision).
     bind_action (ensure_join_target_execution env run_id target source_id) (\<lambda>(join_id, target_id).
     if decision \<in> {JReady, JReadyAndCancelRemaining}
     then bind_action (consume_source_event env inbox_id join_id source_id (Some target_id)) (\<lambda>consumed.
       let report = (if consumed then report\<lparr>dr_join_decisions := Suc (dr_join_decisions report)\<rparr> else report) in
       if decision = JReadyAndCancelRemaining
       then bind_action (cancel_remaining_join_sources env run_id join_id source_id correlation_id target) (\<lambda>queued.
         ret (report\<lparr>dr_cancel_commands_queued := dr_cancel_commands_queued report + queued\<rparr>))
       else ret report)
     else acknowledge env inbox_id (\<lambda>_. False) report))"

text \<open>One round of the loop for a claimed event; the boolean says whether the loop goes on.\<close>

definition drain_claimed ::
  "('v, 'w) service_env \<Rightarrow> uuid \<Rightarrow> 'v OrchestrationPlanSnapshot \<Rightarrow> InboxDrainReport \<Rightarrow> 'v OrchestrationInboxRecord \<Rightarrow>
   ('v, 'w, bool \<times> InboxDrainReport) service_action" where
  "drain_claimed env run_id plan report inbox =
     (let event = ib_event_envelope inbox;
          go_on = (\<lambda>m. bind_action m (\<lambda>report. ret (True, report)));
          stop = (\<lambda>_. bind_action (update_db (release_claim (ib_id inbox))) (\<lambda>_. ret (False, report)))
      in case terminal_lifecycle (ae_payload event) of
        None \<Rightarrow> go_on (acknowledge env (ib_id inbox) (\<lambda>changed. changed) report)
      | Some terminal_status \<Rightarrow>
     (case ae_orchestration_node_execution_id event of
        None \<Rightarrow> go_on (acknowledge env (ib_id inbox) (\<lambda>_. True) report)
      | Some source_id \<Rightarrow>
     bind_action (query (\<lambda>d. Inr (find (\<lambda>n. on_id n = source_id \<and> on_orchestration_run_id n = run_id) (db_nodes d)))) (\<lambda>found.
     case found of
        None \<Rightarrow> go_on (acknowledge env (ib_id inbox) (\<lambda>_. True) report)
      | Some source \<Rightarrow>
     if terminal_status \<noteq> ASucceeded then go_on (acknowledge env (ib_id inbox) (\<lambda>changed. changed) report)
     else
     bind_action (query (\<lambda>d. Inr (map_option ars_status (find (\<lambda>r. ars_agent_run_id r = ae_agent_run_id event) (db_agent_states d))))) (\<lambda>agent_status.
     if on_status source \<noteq> ONSucceeded \<or> agent_status \<noteq> Some ASucceeded then stop ()
     else
       let targets = filter (\<lambda>n. on_node_key source \<in> set (pn_dependencies n)) (pl_nodes plan) in
       if targets = [] then go_on (acknowledge env (ib_id inbox) (\<lambda>_. True) report)
       else bind_action (join_decisions run_id (ib_id inbox) targets) (\<lambda>decisions.
         if length decisions \<noteq> length targets then ret (False, report)
         else go_on (bind_action (fold_action (apply_decision env run_id (ib_id inbox) source_id (ae_correlation_id event)) report
             decisions) (\<lambda>report. ret (report\<lparr>dr_consumed := Suc (dr_consumed report)\<rparr>))))))))"

definition drain_round ::
  "('v, 'w) service_env \<Rightarrow> uuid \<Rightarrow> 'v OrchestrationPlanSnapshot \<Rightarrow> InboxDrainReport \<Rightarrow> ('v, 'w, bool \<times> InboxDrainReport) service_action" where
  "drain_round env run_id plan report =
     bind_action (claim_inbox_event run_id) (\<lambda>claimed. case claimed of
         None \<Rightarrow> ret (False, report)
       | Some inbox \<Rightarrow> drain_claimed env run_id plan (report\<lparr>dr_claimed := Suc (dr_claimed report)\<rparr>) inbox)"

text \<open>The rounds for a run that is terminal: every event is acknowledged.\<close>

definition drain_terminal_round ::
  "('v, 'w) service_env \<Rightarrow> uuid \<Rightarrow> InboxDrainReport \<Rightarrow> ('v, 'w, bool \<times> InboxDrainReport) service_action" where
  "drain_terminal_round env run_id report =
     bind_action (claim_inbox_event run_id) (\<lambda>claimed. case claimed of
         None \<Rightarrow> ret (False, report)
       | Some inbox \<Rightarrow>
           bind_action (acknowledge env (ib_id inbox) (\<lambda>changed. changed)
             (report\<lparr>dr_claimed := Suc (dr_claimed report)\<rparr>)) (\<lambda>report. ret (True, report)))"

section \<open>Relations that draining respects\<close>

locale drain_relation = event_relation P env for P :: "'v db \<Rightarrow> 'v db \<Rightarrow> bool" and env :: "('v, 'w) service_env" +
  assumes P_node_status: "P d (set_node_status Q status clock d)"
    and P_identity: "P d (snd (persist_identity_before_dispatch (se_sql env) i run_id key iteration order clock d))"
    and P_consume: "P d (snd (consume_with_effects (se_sql env) fresh i join_id source_id target e follow_up now clock d))"
    and P_consumed: "P d (snd (mark_consumed (se_sql env) i now d))"
begin

lemma P_update_node_status: "P d (snd (update_node_status (se_sql env) Q status now d))"
  by (simp add: update_node_status_def P_node_status)

lemma acts_fail_fast: "acts (on_db P) (apply_fail_fast_cancellation env run_id correlation_id)"
  unfolding apply_fail_fast_cancellation_def
  by (intro acts_access acts_events P_update_node_status) (simp add: P_node_status update_node_status_def)

lemma acts_refresh: "acts (on_db P) (refresh_run_projection env run_id correlation_id)"
  unfolding refresh_run_projection_def Let_def by (intro acts_access acts_events acts_fail_fast)

lemma acts_cancel: "acts (on_db P) (cancel env run_id correlation_id)"
  unfolding cancel_def cancel_child_def by (intro acts_access acts_events acts_refresh P_update_node_status)

lemma acts_ensure_target: "acts (on_db P) (ensure_join_target_execution env run_id target source_id)"
  unfolding ensure_join_target_execution_def Let_def by (intro acts_access P_identity)

lemma acts_cancel_remaining: "acts (on_db P) (cancel_remaining_join_sources env run_id join_id source_id correlation_id target)"
  unfolding cancel_remaining_join_sources_def cancel_remaining_source_def
  by (intro acts_access acts_events P_update_node_status)

lemma acts_consume_source: "acts (on_db P) (consume_source_event_with_effects env inbox_id join_id source_id target command)"
  unfolding consume_source_event_with_effects_def Let_def by (intro acts_access acts_events P_consume)

lemma acts_acknowledge: "acts (on_db P) (acknowledge env inbox_id counted report)"
  unfolding acknowledge_def by (intro acts_access P_consumed)

lemma acts_apply_decision: "acts (on_db P) (apply_decision env run_id inbox_id source_id correlation_id report decision)"
  unfolding apply_decision_def Let_def consume_source_event_def
  by (intro acts_access acts_ensure_target acts_consume_source acts_cancel_remaining acts_acknowledge)

lemmas acts_drain = acts_fail_fast acts_refresh acts_cancel acts_ensure_target acts_cancel_remaining acts_consume_source
  acts_acknowledge acts_apply_decision

end

section \<open>Rounds come to an end\<close>

definition pending_of :: "uuid \<Rightarrow> 'v db \<Rightarrow> nat" where
  "pending_of run_id d = rows_affected (\<lambda>r. ib_orchestration_run_id r = run_id \<and> ib_consumption_status r = CPending) (db_inbox d)"

definition no_more_pending :: "uuid \<Rightarrow> 'v db \<Rightarrow> 'v db \<Rightarrow> bool" where
  "no_more_pending run_id d d' \<longleftrightarrow> pending_of run_id d' \<le> pending_of run_id d"

lemma no_more_pending_same [simp]: "db_inbox d' = db_inbox d \<Longrightarrow> no_more_pending run_id d d'"
  by (simp add: no_more_pending_def pending_of_def)

lemma rows_affected_update_le:
  "(\<And>r. r \<in> set rows \<Longrightarrow> P r \<Longrightarrow> Q (f r) \<Longrightarrow> Q r) \<Longrightarrow> rows_affected Q (update_where P f rows) \<le> rows_affected Q rows"
  by (induction rows) (auto simp: rows_affected_def update_where_def)

lemma rows_affected_update_less:
  assumes "\<And>r. P r \<Longrightarrow> \<not> Q (f r)" "c \<in> set rows" "P c" "Q c"
  shows "rows_affected Q (update_where P f rows) < rows_affected Q rows"
  using assms(2)
proof (induction rows)
  case (Cons r rows)
  have le: "rows_affected Q (update_where P f rows) \<le> rows_affected Q rows"
    using assms(1) by (intro rows_affected_update_le) blast
  show ?case
  proof (cases "c = r")
    case True
    with assms le show ?thesis by (auto simp: rows_affected_def update_where_def)
  next
    case False
    with Cons have "rows_affected Q (update_where P f rows) < rows_affected Q rows" by simp
    with assms(1) show ?thesis by (auto simp: rows_affected_def update_where_def)
  qed
qed simp

lemma no_more_pending_set_consumed: "no_more_pending run_id d (set_consumed env i now d)"
  by (auto simp: no_more_pending_def pending_of_def set_consumed_def intro!: rows_affected_update_le)

text \<open>The inbox is out of reach of leases, events, commands and node statuses.\<close>

lemma transaction_frame:
  "(\<And>x d'. f d = Inr (x, d') \<Longrightarrow> g d' = g d) \<Longrightarrow> g (snd (transaction f d)) = g d"
  by (auto simp: transaction_def split: sum.splits prod.splits)

lemma lease_frame [simp]:
  "db_inbox (snd (acquire env kind i owner now ttl d)) = db_inbox d"
  "db_nodes (snd (acquire env kind i owner now ttl d)) = db_nodes d"
  "db_links (snd (acquire env kind i owner now ttl d)) = db_links d"
  "db_outbox (snd (acquire env kind i owner now ttl d)) = db_outbox d"
  "db_inbox (snd (release kind i owner d)) = db_inbox d"
  "db_nodes (snd (release kind i owner d)) = db_nodes d"
  "db_links (snd (release kind i owner d)) = db_links d"
  "db_outbox (snd (release kind i owner d)) = db_outbox d"
  by (simp_all add: acquire_def upsert_lease_def release_def Let_def split_beta)

lemma append_and_project_frame [simp]:
  "db_inbox (snd (append_and_project env clock e d)) = db_inbox d"
  "db_nodes (snd (append_and_project env clock e d)) = db_nodes d"
  "db_links (snd (append_and_project env clock e d)) = db_links d"
  "db_outbox (snd (append_and_project env clock e d)) = db_outbox d"
  unfolding append_and_project_def using append_frame by (blast intro: transaction_frame)+

lemma enqueue_outcome_frame [simp]:
  "db_inbox (snd (enqueue_with_outcome i c clock d)) = db_inbox d"
  "db_nodes (snd (enqueue_with_outcome i c clock d)) = db_nodes d"
  "db_links (snd (enqueue_with_outcome i c clock d)) = db_links d"
  unfolding enqueue_with_outcome_def using enqueue_frame by (blast intro: transaction_frame)+

lemma identity_frame: "db_inbox (snd (persist_identity_before_dispatch env i run_id key iteration order clock d)) = db_inbox d"
  by (auto simp: persist_identity_before_dispatch_def dest!: insert_node_ok split: sum.splits option.splits)

lemma no_more_pending_consume:
  "no_more_pending run_id d (snd (consume_with_effects env fresh i j s t e follow_up now clock d))"
proof -
  have "no_more_pending run_id d d'" if "consume_with_effects_body env fresh i j s t e follow_up now clock d = Inr (b, d')" for b d'
  proof -
    have rec: "no_more_pending run_id d d1" if "record_consumption_in_transaction env fresh i j s t now d = Inr (b1, d1)" for b1 d1
    proof -
      from record_consumption_cases [OF that] obtain d0 where "d1 = set_consumed env i now d0" "db_inbox d0 = db_inbox d" by auto
      with no_more_pending_set_consumed [of run_id d0 env i now] show ?thesis by (simp add: no_more_pending_def pending_of_def)
    qed
    from that show ?thesis
    proof (cases rule: consume_with_effects_cases)
      case again
      from again(2) show ?thesis by (rule rec)
    next
      case (first d1 a d2)
      have "db_inbox d' = db_inbox d1"
        using first(4) append_frame [OF first(3)] by (auto elim!: enqueue_follow_up_cases dest!: enqueue_frame split: option.splits)
      with rec [OF first(2)] show ?thesis by (simp add: no_more_pending_def pending_of_def)
    qed
  qed
  then show ?thesis
    by (auto simp: consume_with_effects_def transaction_def split: sum.splits prod.splits)
qed

interpretation draining: drain_relation "no_more_pending run_id" env for run_id :: uuid and env :: "('v, 'w) service_env"
  by unfold_locales
     (auto simp: no_more_pending_def pending_of_def identity_frame set_node_status_def mark_consumed_def
       intro: no_more_pending_consume [unfolded no_more_pending_def pending_of_def]
         no_more_pending_set_consumed [unfolded no_more_pending_def pending_of_def])

lemma store_ok_iff [action_simps]:
  "store f s = (Inr x, s') \<longleftrightarrow> f (sv_db s) = (Inr x, sv_db s') \<and> s' = s\<lparr>sv_db := sv_db s'\<rparr>"
  by (auto simp: store_def map_sum_def split: prod.splits sum.splits)

lemma query_iff [action_simps]: "query q s = (r, s') \<longleftrightarrow> r = q (sv_db s) \<and> s' = s"
  by (auto simp: query_def)

text \<open>A claim takes a row of the run out of the pending ones.\<close>

lemma claim_inbox_event_less:
  assumes "claim_inbox_event run_id s = (Inr (Some inbox), s')"
  shows "pending_of run_id (sv_db s') < pending_of run_id (sv_db s)"
proof -
  from assms have body: "inbox_claim_body run_id (sv_db s) = Inr (Some inbox, sv_db s')"
    by (simp add: claim_inbox_event_def store_ok_iff inbox_claim_next_def transaction_ok_iff)
  let ?rows = "filter (\<lambda>r. ib_orchestration_run_id r = run_id \<and> ib_consumption_status r = CPending) (db_inbox (sv_db s))"
  let ?key = "\<lambda>r. (ib_received_at r, ib_id r)"
  from body obtain c where c: "first_by ?key ?rows = Some c"
    by (cases "first_by ?key ?rows") (auto simp: inbox_claim_body_def)
  then have d': "sv_db s' = sv_db s\<lparr>db_inbox := update_where (\<lambda>r. ib_id r = ib_id c \<and> ib_consumption_status r = CPending)
      (\<lambda>r. r\<lparr>ib_consumption_status := CProcessing\<rparr>) (db_inbox (sv_db s))\<rparr>"
    using body by (auto simp: inbox_claim_body_def Let_def split: if_splits option.splits)
  from first_by_Some(1) [OF c] have "c \<in> set (db_inbox (sv_db s))" "ib_consumption_status c = CPending"
      "ib_orchestration_run_id c = run_id" by auto
  then show ?thesis
    unfolding pending_of_def by (simp only: d' db.select_convs db.update_convs) (auto intro!: rows_affected_update_less [where c = c])
qed

lemma join_decisions_full:
  "join_decisions run_id i targets s = (Inr ds, s') \<Longrightarrow> length ds = length targets \<Longrightarrow> s' = s"
  by (induction targets arbitrary: ds s') (auto simp: Let_def action_simps split: if_splits)

lemma drain_claimed_goes_on:
  assumes "drain_claimed env run_id plan report inbox s = (Inr (True, report'), s')"
  shows "pending_of run_id (sv_db s') \<le> pending_of run_id (sv_db s)"
proof -
  have ack: "acknowledge env i c report s = (Inr r, s') \<Longrightarrow> pending_of run_id (sv_db s') \<le> pending_of run_id (sv_db s)" for i c r
    using actsD [OF draining.acts_acknowledge] by (auto simp: on_db_def no_more_pending_def)
  have fold_acts: "acts (on_db (no_more_pending run_id)) (fold_action (apply_decision env run_id i source cor) report ds)" for i source cor ds
    using draining.step_relation_on_db by (rule step_relation.acts_fold) (rule draining.acts_apply_decision)
  have applied_all: "pending_of run_id (sv_db s') \<le> pending_of run_id (sv_db s)"
    if "fold_action (apply_decision env run_id i source cor) report ds s = (Inr r, s')" for i source cor ds r
    using actsD [OF fold_acts that] by (simp add: on_db_def no_more_pending_def)
  from assms show ?thesis
    by (auto simp: drain_claimed_def Let_def action_simps split: option.splits if_splits
        dest!: ack join_decisions_full dest: applied_all)
qed

lemma drain_round_less:
  assumes "drain_round env run_id plan report s = (Inr (True, report'), s')"
  shows "pending_of run_id (sv_db s') < pending_of run_id (sv_db s)"
  using assms
  by (auto simp: drain_round_def action_simps dest!: claim_inbox_event_less drain_claimed_goes_on split: option.splits)

lemma drain_terminal_round_less:
  assumes "drain_terminal_round env run_id report s = (Inr (True, report'), s')"
  shows "pending_of run_id (sv_db s') < pending_of run_id (sv_db s)"
proof -
  from assms obtain inbox s1 r where claim: "claim_inbox_event run_id s = (Inr (Some inbox), s1)"
    and ack: "acknowledge env (ib_id inbox) (\<lambda>changed. changed) r s1 = (Inr report', s')"
    by (auto simp: drain_terminal_round_def action_simps split: option.splits)
  from actsD [OF draining.acts_acknowledge ack] claim_inbox_event_less [OF claim] show ?thesis
    by (auto simp: on_db_def no_more_pending_def intro: le_less_trans)
qed

text \<open>The loop over rounds, for the rounds of either kind.\<close>

function drain_rounds ::
  "('v, 'w) service_env \<Rightarrow> uuid \<Rightarrow> 'v OrchestrationPlanSnapshot option \<Rightarrow> InboxDrainReport \<Rightarrow> ('v, 'w, InboxDrainReport) service_action" where
  "drain_rounds env run_id plan report s =
     (case (case plan of Some p \<Rightarrow> drain_round env run_id p report s | None \<Rightarrow> drain_terminal_round env run_id report s) of
        (Inl e, s') \<Rightarrow> (Inl e, s')
      | (Inr (False, report'), s') \<Rightarrow> (Inr report', s')
      | (Inr (True, report'), s') \<Rightarrow> drain_rounds env run_id plan report' s')"
  by pat_completeness auto

termination drain_rounds
  by (relation "measure (\<lambda>(env, run_id, plan, report, s). pending_of run_id (sv_db s))")
     (auto dest!: drain_round_less drain_terminal_round_less sym [of _ "drain_round _ _ _ _ _"]
        sym [of _ "drain_terminal_round _ _ _ _"] split: option.splits)

declare drain_rounds.simps [simp del]

definition drain_inbox_for_run :: "('v, 'w) service_env \<Rightarrow> uuid \<Rightarrow> ('v, 'w, InboxDrainReport) service_action" where
  "drain_inbox_for_run env run_id =
     bind_action (run_row run_id) (\<lambda>run.
     bind_action (run_row run_id) (\<lambda>run'.
     drain_rounds env run_id (if orchestration_terminal (or_status run) then None else Some (or_plan_snapshot run'))
       default_drain_report))"

section \<open>Reconciliation\<close>

definition reconcile_child ::
  "('v, 'w) service_env \<Rightarrow> uuid \<Rightarrow> uuid \<Rightarrow> nat \<Rightarrow> OrchestrationAgentRunLinkRecord \<times> OrchestrationNodeExecutionRecord \<Rightarrow>
   ('v, 'w, nat) service_action" where
  "reconcile_child env run_id correlation_id unreachable = (\<lambda>(l, n).
     bind_action (call_port (port_query env (ol_agent_run_id l))) (\<lambda>reply. case reply of
         Inl (PortUnavailable _) \<Rightarrow> ret (Suc unreachable)
       | Inl (PortNotFound _) \<Rightarrow> ret (Suc unreachable)
       | Inl e \<Rightarrow> raise (SPort e)
       | Inr snapshot \<Rightarrow>
           let observed = node_status_from_agent (st_status (snap_state snapshot)) in
           if on_status n = observed \<or> is_terminal_node (on_status n) then ret unreachable
           else bind_action (update_db (update_node_status (se_sql env) (\<lambda>d r. on_id r = ol_node_execution_id l \<and>
                 on_status r \<notin> {ONSucceeded, ONFailed, ONCancelled}) observed (st_updated_at (snap_state snapshot)))) (\<lambda>_.
             bind_action (node_event env run_id correlation_id observed (ol_node_execution_id l)) (\<lambda>_.
             ret unreachable))))"

definition reconcile_run :: "('v, 'w) service_env \<Rightarrow> uuid \<Rightarrow> uuid \<Rightarrow> ('v, 'w, nat) service_action" where
  "reconcile_run env run_id correlation_id =
     bind_action (run_row run_id) (\<lambda>run.
     bind_action (if or_status run = OCancelling
       then bind_action (cancel env run_id correlation_id) (\<lambda>_. ret ()) else ret ()) (\<lambda>_.
     bind_action (query (\<lambda>d. Inr (active_children run_id d))) (\<lambda>children.
     bind_action (fold_action (reconcile_child env run_id correlation_id) 0 children) (\<lambda>unreachable.
     bind_action (resume_serial_queues_for_run env run_id) (\<lambda>_.
     bind_action (refresh_run_projection env run_id correlation_id) (\<lambda>_. ret unreachable))))))"

primrec deliver_budget :: "('v, 'w) service_env \<Rightarrow> nat \<Rightarrow> nat \<Rightarrow> ('v, 'w, nat) service_action" where
  "deliver_budget env 0 failures = ret failures"
| "deliver_budget env (Suc n) failures =
     bind_action (attempt (deliver_next env)) (\<lambda>result. case result of
         Inr delivered \<Rightarrow> if delivered then deliver_budget env n failures else ret failures
       | Inl (SPort _) \<Rightarrow> deliver_budget env n (Suc failures)
       | Inl e \<Rightarrow> raise e)"

definition open_runs :: "'v db \<Rightarrow> (uuid \<times> uuid) list" where
  "open_runs d = map (\<lambda>r. (or_id r, or_correlation_id r)) (sort_key or_created_at
     (filter (\<lambda>r. or_status r \<notin> {OSucceeded, OFailed, OCancelled}) (db_runs d)))"

definition terminal_runs_with_pending_inbox :: "'v db \<Rightarrow> uuid list" where
  "terminal_runs_with_pending_inbox d = remdups (map ib_orchestration_run_id (filter (\<lambda>b. ib_consumption_status b = CPending \<and>
     list_ex (\<lambda>r. or_id r = ib_orchestration_run_id b \<and> or_status r \<in> {OSucceeded, OFailed, OCancelled}) (db_runs d)) (db_inbox d)))"

definition reconcile_startup :: "('v, 'w) service_env \<Rightarrow> ('v, 'w, StartupReconciliationReport) service_action" where
  "reconcile_startup env =
     bind_action (tick (se_now env)) (\<lambda>now.
     bind_action (update_db (reconcile_inflight (se_sql env) now 0)) (\<lambda>deliveries.
     bind_action (update_db (reconcile_processing None)) (\<lambda>claims.
     bind_action (update_db lease_reconcile_startup) (\<lambda>leases.
     bind_action (query (\<lambda>d. Inr (open_runs d))) (\<lambda>runs.
     bind_action (fold_action (\<lambda>acc (run_id, correlation_id).
         bind_action (reconcile_run env run_id correlation_id) (\<lambda>n.
         bind_action (drain_inbox_for_run env run_id) (\<lambda>_. ret (fst acc + n, Suc (snd acc))))) (0, 0) runs) (\<lambda>(unreachable, reconciled).
     bind_action (query (\<lambda>d. Inr (terminal_runs_with_pending_inbox d))) (\<lambda>terminal_runs.
     bind_action (each (\<lambda>run_id. bind_action (drain_inbox_for_run env run_id) (\<lambda>_. ret ())) terminal_runs) (\<lambda>_.
     bind_action (query (\<lambda>d. Inr (pending_count d))) (\<lambda>budget.
     bind_action (deliver_budget env budget 0) (\<lambda>failures.
     ret \<lparr>sr_recovered_outbox_deliveries = deliveries, sr_recovered_inbox_claims = claims, sr_recovered_leases = leases,
       sr_reconciled_runs = reconciled, sr_unreachable_agent_runs = unreachable, sr_delivery_failures = failures\<rparr>))))))))))"

definition query_agent_run :: "('v, 'w) service_env \<Rightarrow> uuid \<Rightarrow> ('v, 'w, 'v RunState) service_action" where
  "query_agent_run env agent_run_id =
     bind_action (call_port (port_query env agent_run_id)) (\<lambda>reply.
     of_result (map_sum SPort snap_state reply))"

section \<open>The service on the store\<close>

text \<open>The port owns processes and the agent tables; what it may do to the database is a parameter.\<close>

definition port_respects :: "('v db \<Rightarrow> 'v db \<Rightarrow> bool) \<Rightarrow> ('v, 'w) service_env \<Rightarrow> bool" where
  "port_respects P env \<longleftrightarrow> (\<forall>w d.
     (\<forall>request attempt_request. P d (snd (snd (port_create env request attempt_request (w, d))))) \<and>
     (\<forall>command. P d (snd (snd (port_control env command (w, d))))) \<and>
     (\<forall>agent_run_id. P d (snd (snd (port_query env agent_run_id (w, d))))))"

locale service_relation = drain_relation P env for P :: "'v db \<Rightarrow> 'v db \<Rightarrow> bool" and env :: "('v, 'w) service_env" +
  assumes P_start: "P d (snd (persist_before_dispatch i request_id key correlation_id plan clock d))"
    and P_link: "P d (snd (persist_link i run_id node_id agent_run_id key clock d))"
    and P_claim_outbox: "P d (snd (claim_next_with_redelivery (se_sql env) now after d))"
    and P_inflight: "P d (snd (reconcile_inflight (se_sql env) now after d))"
    and P_delivered: "P d (snd (mark_delivered (se_sql env) i now d))"
    and P_failed: "P d (snd (mark_failed (se_sql env) i err available now d))"
    and P_ingest: "P d (snd (ingest (se_sql env) i run_id event clock d))"
    and P_claim_inbox: "P d (snd (inbox_claim_next run_id d))"
    and P_processing: "P d (snd (reconcile_processing run d))"
    and P_release_claim: "P d (snd (release_claim i d))"
    and P_promote: "P d (snd (promote_next_serial (se_sql env) join_id now d))"
    and P_lease_startup: "P d (snd (lease_reconcile_startup d))"
begin

lemmas P_rules = P_acquire P_release P_append P_enqueue P_node_status P_update_node_status P_identity P_consume P_consumed P_start P_link
  P_claim_outbox P_inflight P_delivered P_failed P_ingest P_claim_inbox P_processing P_release_claim P_promote
  P_lease_startup

lemmas acts_all = acts_access acts_events acts_drain P_rules

lemma acts_port:
  assumes "port_respects P env"
  shows "acts (on_db P) (call_port (port_create env request attempt_request))" "acts (on_db P) (call_port (port_control env command))"
    "acts (on_db P) (call_port (port_query env agent_run_id))"
  using assms by (auto simp: port_respects_def intro!: acts_call_port)

lemma acts_start_run: "acts (on_db P) (start_run env run_id request_id key correlation_id plan)"
  unfolding start_run_def by (intro acts_all)

lemma acts_send_command:
  assumes "port_respects P env"
  shows "acts (on_db P) (send_command env command run_id node_id)"
  unfolding send_command_def deliver_create_def
  by (cases "ce_command command") (simp_all add: acts_port [OF assms], (intro acts_all acts_port [OF assms])+)

lemma acts_settle: "acts (on_db P) (settle_delivery env i result)"
  unfolding settle_delivery_def by (intro acts_all)

lemma acts_deliver_next: "port_respects P env \<Longrightarrow> acts (on_db P) (deliver_next env)"
  unfolding deliver_next_def outbox_claim_next_def Let_def by (intro acts_all acts_send_command acts_settle)

lemma acts_ingest_event: "acts (on_db P) (ingest_agent_event env run_id event)"
  unfolding ingest_agent_event_def by (intro acts_all)

lemma acts_claim_event: "acts (on_db P) (claim_inbox_event run_id)"
  unfolding claim_inbox_event_def by (intro acts_all)

lemma acts_serial_queues: "acts (on_db P) (resume_serial_queues_for_run env run_id)"
  unfolding resume_serial_queues_for_run_def resume_serial_queue_def by (intro acts_all)

lemma acts_join_decisions: "acts (on_db P) (join_decisions run_id i targets)"
  by (induction targets) (simp_all add: Let_def, (intro acts_all | assumption)+)

lemma acts_drain_claimed: "acts (on_db P) (drain_claimed env run_id plan report inbox)"
  unfolding drain_claimed_def Let_def by (intro acts_all acts_join_decisions)

lemma acts_drain_rounds: "acts (on_db P) (drain_rounds env run_id plan report)"
proof -
  have round: "acts (on_db P) (drain_round env run_id p report)" for p report
    unfolding drain_round_def by (intro acts_all acts_claim_event acts_drain_claimed)
  have terminal_round: "acts (on_db P) (drain_terminal_round env run_id report)" for report
    unfolding drain_terminal_round_def by (intro acts_all acts_claim_event)
  have "on_db P s (snd (drain_rounds env run_id plan report s))" for report s
  proof (induction "pending_of run_id (sv_db s)" arbitrary: report s rule: less_induct)
    case less
    obtain r s1 where m: "(case plan of Some p \<Rightarrow> drain_round env run_id p report s
        | None \<Rightarrow> drain_terminal_round env run_id report s) = (r, s1)" by (rule prod.exhaust)
    have step: "on_db P s s1" using m actsD [OF round] actsD [OF terminal_round] by (cases plan) auto
    show ?case
    proof (cases "\<exists>report'. r = Inr (True, report')")
      case True
      then obtain report' where r: "r = Inr (True, report')" by blast
      have "pending_of run_id (sv_db s1) < pending_of run_id (sv_db s)"
        using m r drain_round_less drain_terminal_round_less by (cases plan) fastforce+
      from step_relation.step_trans [OF step_relation_on_db step less [OF this]] show ?thesis
        by (simp add: drain_rounds.simps [of env run_id plan report s] m r)
    next
      case False
      with step show ?thesis
        by (auto simp: drain_rounds.simps [of env run_id plan report s] m split: sum.splits prod.splits bool.splits)
    qed
  qed
  then show ?thesis by (simp add: acts_def)
qed

lemma acts_drain_inbox: "acts (on_db P) (drain_inbox_for_run env run_id)"
  unfolding drain_inbox_for_run_def by (intro acts_all acts_drain_rounds)

lemma acts_reconcile_child:
  assumes "port_respects P env"
  shows "acts (on_db P) (reconcile_child env run_id correlation_id unreachable child)"
  unfolding reconcile_child_def Let_def AgentRunPortError.case_distrib
  by (intro acts_all acts_port [OF assms]) (auto split: AgentRunPortError.splits intro: acts_all)

lemma acts_reconcile_run: "port_respects P env \<Longrightarrow> acts (on_db P) (reconcile_run env run_id correlation_id)"
  unfolding reconcile_run_def by (intro acts_all acts_reconcile_child acts_serial_queues)

lemma acts_deliver_budget: "port_respects P env \<Longrightarrow> acts (on_db P) (deliver_budget env n failures)"
proof (induction n arbitrary: failures)
  case (Suc n)
  then show ?case
    by (auto intro!: acts_all acts_deliver_next split: OrchestrationServiceError.splits)
qed (simp add: acts_all)

lemma acts_reconcile_startup: "port_respects P env \<Longrightarrow> acts (on_db P) (reconcile_startup env)"
  unfolding reconcile_startup_def
  by (intro acts_all acts_reconcile_run acts_drain_inbox acts_deliver_budget)

end

interpretation serving: service_relation "store_steps (se_sql env)" env for env :: "('v, 'w) service_env"
  by unfold_locales (auto intro: store_step.intros r_into_rtranclp rtranclp_trans)

end
