(* ===== verification/Guarantees.thy ===== *)
theory Guarantees
  imports Reconciler
begin

text \<open>
  What the orchestration service guarantees: it acts on the database through the store alone, so the theorems of \<open>Store\<close>
  hold of its runs; a run that is being cancelled starts no agents and cancellation reaches
  every execution; draining a finished run acknowledges every event; and how executions of \<open>each\<close> joins are numbered.
\<close>

section \<open>An example service\<close>

text \<open>Times up to 99 as unary texts, later ones as a text that sorts after them; a port that records the runs it creates.\<close>

definition sample_sql :: sql_env where
  "sample_sql = \<lparr>sql_bind = (\<lambda>t. if t < 100 then replicate (nat t) (CHR ''1'') else ''9''), uuid_text = (\<lambda>u. dec_of_nat (unat u))\<rparr>"

definition sample_env :: "(json_lit, uuid list) service_env" where
  "sample_env = \<lparr>se_sql = sample_sql, se_now = (\<lambda>n. int n), se_clock = (\<lambda>n. replicate n (CHR ''1'')), se_fresh = (\<lambda>n. 1000 + of_nat n),
     se_sha256 = rev, se_error_text = (\<lambda>_. ''error''), se_owner_id = ''orchestration-1'',
     port_create = (\<lambda>request attempt_request (w, d). (Inr (rq_agent_run_id request), w @ [rq_agent_run_id request],
       d\<lparr>db_agent_runs := db_agent_runs d @ [rq_agent_run_id request]\<rparr>)),
     port_control = (\<lambda>command (w, d). (Inr (), w, d)),
     port_query = (\<lambda>agent_run_id (w, d). (Inl (PortUnavailable ''offline''), w, d))\<rparr>"

lemma dec_of_nat_inject: "dec_of_nat m = dec_of_nat n \<Longrightarrow> m = n"
proof (induction m arbitrary: n rule: dec_of_nat.induct)
  case (1 m)
  have digit: "a = b" if "(char_of (48 + a) :: char) = char_of (48 + b)" "a < 10" "b < 10" for a b :: nat
    using arg_cong [OF that(1), where f = "of_char :: char \<Rightarrow> nat"] that(2,3) by simp
  have some: "dec_of_nat k \<noteq> []" for k by (subst dec_of_nat.simps) simp
  show ?case
  proof (cases "m < 10 \<or> n < 10")
    case True
    with 1(2) some [of "m div 10"] some [of "n div 10"] show ?thesis
      by (simp add: dec_of_nat.simps [of m] dec_of_nat.simps [of n] split: if_splits) (metis append_self_conv2 digit)?
  next
    case False
    with 1(2) have "dec_of_nat (m div 10) = dec_of_nat (n div 10)" "(char_of (48 + m mod 10) :: char) = char_of (48 + n mod 10)"
      by (simp_all add: dec_of_nat.simps [of m] dec_of_nat.simps [of n])
    with 1(1) [of "n div 10"] digit [of "m mod 10" "n mod 10"] False have "m div 10 = n div 10" "m mod 10 = n mod 10" by simp_all
    then show ?thesis by (metis div_mult_mod_eq)
  qed
qed

lemma sample_uuid_text_inj: "inj (uuid_text (se_sql sample_env))"
  by (rule injI) (auto simp: sample_env_def sample_sql_def dest!: dec_of_nat_inject intro: unsigned_word_eqI)

lemma agent_runs_step: "store_step env d (d\<lparr>db_agent_runs := runs\<rparr>)"
  using store_step.agent_store [where env = env and d = d and runs = runs and turns = "db_agent_turns d" and
      events = "db_agent_events d" and states = "db_agent_states d"] by simp

lemma sample_port: "port_respects (store_steps (se_sql sample_env)) sample_env"
  by (auto simp: port_respects_def sample_env_def intro: r_into_rtranclp agent_runs_step)

section \<open>The service as a client of the store\<close>

text \<open>One step of the service: a method that runs to its end, with or without an error, or an operation of another writer.\<close>

inductive service_step :: "('v, 'w) service_env \<Rightarrow> ('v, 'w) service \<Rightarrow> ('v, 'w) service \<Rightarrow> bool" for env where
  start: "service_step env s (snd (start_run env run_id request_id key correlation_id plan s))"
| enqueue: "service_step env s (snd (enqueue_command env command s))"
| deliver: "service_step env s (snd (deliver_next env s))"
| cancel: "service_step env s (snd (cancel env run_id correlation_id s))"
| ingest: "service_step env s (snd (ingest_agent_event env run_id event s))"
| claim: "service_step env s (snd (claim_inbox_event run_id s))"
| drain: "service_step env s (snd (drain_inbox_for_run env run_id s))"
| consume: "service_step env s (snd (consume_source_event env inbox_id join_id source_id target s))"
| consume_enqueue: "service_step env s (snd (consume_source_event_and_enqueue env inbox_id join_id source_id target_id command s))"
| serial: "service_step env s (snd (resume_serial_queue env join_id s))"
| serial_run: "service_step env s (snd (resume_serial_queues_for_run env run_id s))"
| startup: "service_step env s (snd (reconcile_startup env s))"
| reconcile: "service_step env s (snd (reconcile_run env run_id correlation_id s))"
| refresh: "service_step env s (snd (refresh_run_projection env run_id correlation_id s))"
| query_run: "service_step env s (snd (query_agent_run env agent_run_id s))"
| other: "store_step (se_sql env) (sv_db s) d \<Longrightarrow> service_step env s (s\<lparr>sv_db := d\<rparr>)"

lemma acts_on_db: "acts (on_db P) m \<Longrightarrow> P (sv_db s) (sv_db (snd (m s)))"
  by (simp add: acts_def on_db_def)

lemma service_step_refines:
  assumes "port_respects (store_steps (se_sql env)) env" "service_step env s s'"
  shows "store_steps (se_sql env) (sv_db s) (sv_db s')"
proof -
  show ?thesis
    using assms(2)
  proof cases
    case (claim run_id)
    then show ?thesis using serving.acts_claim_event [THEN acts_on_db] by simp
  next
    case (serial join_id)
    have "acts (on_db (store_steps (se_sql env))) (resume_serial_queue env join_id)"
      unfolding resume_serial_queue_def by (intro serving.acts_all)
    from acts_on_db [OF this] serial show ?thesis by simp
  next
    case (query_run agent_run_id)
    have "acts (on_db (store_steps (se_sql env))) (query_agent_run env agent_run_id)"
      unfolding query_agent_run_def by (intro serving.acts_all serving.acts_port assms(1))
    from acts_on_db [OF this] query_run show ?thesis by simp
  qed (auto simp: consume_source_event_def consume_source_event_and_enqueue_def
      intro!: acts_on_db serving.acts_start_run serving.acts_enqueue_command serving.acts_deliver_next serving.acts_cancel
        serving.acts_ingest_event serving.acts_drain_inbox serving.acts_consume_source serving.acts_serial_queues
        serving.acts_reconcile_startup serving.acts_reconcile_run serving.acts_refresh assms(1))
qed

text \<open>Whatever methods the service runs, interleaved with operations of other writers, a sound database stays sound.\<close>

lemma service_keeps_db_ok:
  assumes "port_respects (store_steps (se_sql env)) env" "(service_step env)\<^sup>*\<^sup>* s s'" "db_ok (sv_db s)"
  shows "db_ok (sv_db s')"
  using assms(2,3)
proof (induction rule: rtranclp_induct)
  case (step s' s'')
  from db_ok_steps [OF service_step_refines [OF assms(1) step.hyps(2)] step.IH [OF step.prems]] show ?case .
qed

section \<open>Stopped runs\<close>

lemma tick_iff [action_simps]: "tick f s = (Inr x, s') \<longleftrightarrow> x = f (sv_tick s) \<and> s' = s\<lparr>sv_tick := Suc (sv_tick s)\<rparr>"
  "tick f s \<noteq> (Inl e, s')"
  by (auto simp: tick_def)

lemma update_db_iff [action_simps]:
  "update_db f s = (Inr x, s') \<longleftrightarrow> f (sv_db s) = (x, sv_db s') \<and> s' = s\<lparr>sv_db := sv_db s'\<rparr>"
  "update_db f s \<noteq> (Inl e, s')"
  by (auto simp: update_db_def split: prod.splits)

lemma run_row_iff [action_simps]:
  "run_row run_id s = (Inr run, s') \<longleftrightarrow> find (\<lambda>r. or_id r = run_id) (db_runs (sv_db s)) = Some run \<and> s' = s"
  by (auto simp: run_row_def query_def fetch_one_def split: option.splits)

lemma mark_delivered_row:
  assumes "row \<in> set (db_outbox d)" "ob_delivery_status row = DDelivering"
  shows "\<exists>r \<in> set (db_outbox (snd (mark_delivered env (ob_id row) now d))). ob_id r = ob_id row \<and> ob_delivery_status r = DDelivered"
proof
  let ?r = "row\<lparr>ob_delivery_status := DDelivered, ob_delivered_at := Some (sql_bind env now), ob_updated_at := sql_bind env now\<rparr>"
  show "?r \<in> set (db_outbox (snd (mark_delivered env (ob_id row) now d)))"
    using assms by (auto simp: mark_delivered_def Let_def set_update_where intro!: image_eqI [of _ _ row])
qed simp

text \<open>
  C6: a run that is being cancelled or has ended starts no agents. Every command of the run to create or retry an agent run is
  refused when it is queued, and nothing changes; and when the outbox of a sound database hands out such a command, queued before the
  run was stopped, then \<open>deliver_next\<close> marks it delivered without a call to the port, so the world behind the
  port stays as it is.
\<close>

theorem stopped_runs_start_no_agents:
  assumes "find (\<lambda>r. or_id r = run_id) (db_runs (sv_db s)) = Some run" "dispatch_stopped (or_status run)"
  shows "(\<forall>c node_id. ce_orchestration_run_id c = Some run_id \<longrightarrow> ce_orchestration_node_execution_id c = Some node_id \<longrightarrow>
      starts_agent (ce_command c) \<longrightarrow> enqueue_command env c s = (Inl (SDispatchStopped run_id), s)) \<and>
    (\<forall>row d node_id. db_ok (sv_db s) \<longrightarrow>
      outbox_claim_next (se_sql env) (se_now env (sv_tick s)) (sv_db s) = (Inr (Some row), d) \<longrightarrow>
      ce_orchestration_run_id (ob_command_envelope row) = Some run_id \<longrightarrow>
      ce_orchestration_node_execution_id (ob_command_envelope row) = Some node_id \<longrightarrow>
      starts_agent (ce_command (ob_command_envelope row)) \<longrightarrow>
      (\<exists>s'. deliver_next env s = (Inr True, s') \<and> sv_world s' = sv_world s \<and>
         (\<exists>r \<in> set (db_outbox (sv_db s')). ob_id r = ob_id row \<and> ob_delivery_status r = DDelivered)))"
proof (intro conjI allI impI)
  show "enqueue_command env c s = (Inl (SDispatchStopped run_id), s)"
    if "ce_orchestration_run_id c = Some run_id" "ce_orchestration_node_execution_id c = Some node_id" "starts_agent (ce_command c)"
    for c node_id
    using that assms by (simp add: enqueue_command_def bind_action_def of_result_def ok_or_def run_row_def query_def fetch_one_def raise_def)
next
  fix row :: "'a OrchestrationOutboxRecord" and d :: "'a db" and node_id
  let ?now = "se_now env (sv_tick s)" and ?c = "ob_command_envelope row"
  assume ok: "db_ok (sv_db s)" and next_row: "outbox_claim_next (se_sql env) ?now (sv_db s) = (Inr (Some row), d)"
    and c: "ce_orchestration_run_id ?c = Some run_id" "ce_orchestration_node_execution_id ?c = Some node_id" "starts_agent (ce_command ?c)"
  have claim: "outbox_claim_body (se_sql env) ?now DEFAULT_OUTBOX_REDELIVERY_AFTER (sv_db s) = Inr (Some row, d)"
    using next_row by (simp add: outbox_claim_next_def claim_next_with_redelivery_def transaction_ok_iff)
  have "outbox_ok (sv_db s)" using ok by (simp add: db_ok_def)
  note row = outbox_claim_row [OF this claim]
  have "db_runs d = db_runs (sv_db s)"
    using outbox_claim_cases [OF claim] by (auto simp: redeliver_stale_def)
  then have run: "find (\<lambda>r. or_id r = run_id) (db_runs d) = Some run" using assms(1) by simp
  define s1 where "s1 = s\<lparr>sv_tick := Suc (sv_tick s), sv_db := d\<rparr>"
  define s' where "s' = s1\<lparr>sv_tick := Suc (sv_tick s1),
    sv_db := snd (mark_delivered (se_sql env) (ob_id row) (se_now env (sv_tick s1)) d)\<rparr>"
  have "deliver_next env s = (Inr True, s')"
    using c assms(2) next_row run
    by (simp add: deliver_next_def bind_action_def tick_def store_def of_result_def ok_or_def run_row_def query_def
        fetch_one_def ret_def update_db_def s'_def s1_def split_beta)
  moreover have "sv_world s' = sv_world s" by (simp add: s'_def s1_def)
  moreover have "\<exists>r \<in> set (db_outbox (sv_db s')). ob_id r = ob_id row \<and> ob_delivery_status r = DDelivered"
    using mark_delivered_row [OF row(1,2)] by (simp add: s'_def)
  ultimately show "\<exists>s'. deliver_next env s = (Inr True, s') \<and> sv_world s' = sv_world s \<and>
      (\<exists>r \<in> set (db_outbox (sv_db s')). ob_id r = ob_id row \<and> ob_delivery_status r = DDelivered)" by blast
qed

definition sample_stopped_service :: "(json_lit, uuid list) service" where
  "sample_stopped_service = \<lparr>sv_db = snd (append_and_project sample_sql ''1'' (sample_orchestration_event 1 11 OCancelling)
     (snd (enqueue_with_outcome 60 ((sample_command ''retry'' 61)\<lparr>ce_command := CmdRetry ModeRestart 62\<rparr>) ''1'' sample_db))),
     sv_world = [], sv_tick = 3\<rparr>"

theorem stopped_runs_start_no_agents_witness:
  "(\<exists>s'. deliver_next sample_env sample_stopped_service = (Inr True, s') \<and> sv_world s' = sv_world sample_stopped_service) \<and>
   enqueue_command sample_env ((sample_command ''again'' 63)\<lparr>ce_command := CmdRetry ModeRestart 64\<rparr>) sample_stopped_service =
     (Inl (SDispatchStopped 1), sample_stopped_service)"
proof -
  let ?s = sample_stopped_service and ?c = "(sample_command ''retry'' 61)\<lparr>ce_command := CmdRetry ModeRestart 62\<rparr>"
  let ?claim = "outbox_claim_next (se_sql sample_env) (se_now sample_env (sv_tick ?s)) (sv_db ?s)"
  let ?run = "find (\<lambda>r. or_id r = 1) (db_runs (sv_db ?s))"
  have facts: "map_sum id (map_option ob_command_envelope) (fst ?claim) = Inr (Some ?c)"
    "map_option or_status ?run = Some OCancelling"
    by code_simp+
  then obtain row where row: "fst ?claim = Inr (Some row)" "ob_command_envelope row = ?c" by (cases "fst ?claim") auto
  then have claim: "?claim = (Inr (Some row), snd ?claim)" by (metis prod.collapse)
  from facts(2) obtain run where run: "?run = Some run" "or_status run = OCancelling" by auto
  have "store_steps sample_sql sample_db (sv_db ?s)"
    unfolding sample_stopped_service_def service.select_convs
    by (rule store_steps_step [OF _ store_step.append], rule r_into_rtranclp, rule store_step.enqueue)
  then have ok: "db_ok (sv_db ?s)" using sample_db_ok by (rule db_ok_steps)
  have stopped: "dispatch_stopped (or_status run)" by (simp add: dispatch_stopped_def run(2))
  note stops = stopped_runs_start_no_agents [OF run(1) stopped, of sample_env]
  have "\<exists>s'. deliver_next sample_env ?s = (Inr True, s') \<and> sv_world s' = sv_world ?s"
    using stops [THEN conjunct2, rule_format, OF ok claim] row(2) by (auto simp: sample_command_def)
  moreover have "enqueue_command sample_env ((sample_command ''again'' 63)\<lparr>ce_command := CmdRetry ModeRestart 64\<rparr>) ?s =
      (Inl (SDispatchStopped 1), ?s)"
    by (rule stops [THEN conjunct1, rule_format]) (simp_all add: sample_command_def)
  ultimately show ?thesis by blast
qed

section \<open>Draining a finished run\<close>

lemma rows_affected_update_one:
  assumes "distinct (map k rows)" "c \<in> set rows" "k c = i" "P c" "Q c" "\<And>r. P r \<Longrightarrow> \<not> Q (f r)"
  shows "Suc (rows_affected Q (update_where (\<lambda>r. k r = i \<and> P r) f rows)) = rows_affected Q rows"
  using assms(1,2)
proof (induction rows)
  case (Cons r rows)
  show ?case
  proof (cases "k r = i")
    case True
    have others: "k x \<noteq> i" if "x \<in> set rows" for x
      using Cons.prems(1) True imageI [OF that, of k] by auto
    with Cons.prems(2) assms(3) have "r = c" by auto
    from others have "update_where (\<lambda>r. k r = i \<and> P r) f rows = rows" by (intro update_where_none) blast
    then have "update_where (\<lambda>r. k r = i \<and> P r) f (r # rows) = f c # rows"
      using True \<open>r = c\<close> assms(4) by (simp add: update_where_def)
    with \<open>r = c\<close> assms(4-6) show ?thesis by (simp add: rows_affected_def)
  next
    case False
    with Cons assms(3) have "Suc (rows_affected Q (update_where (\<lambda>r. k r = i \<and> P r) f rows)) = rows_affected Q rows" by auto
    with False show ?thesis by (simp add: rows_affected_def update_where_def)
  qed
qed simp

definition claimed_row :: "uuid \<Rightarrow> 'v db \<Rightarrow> 'v db" where
  "claimed_row i d = d\<lparr>db_inbox := update_where (\<lambda>r. ib_id r = i \<and> ib_consumption_status r = CPending)
     (\<lambda>r. r\<lparr>ib_consumption_status := CProcessing\<rparr>) (db_inbox d)\<rparr>"

text \<open>When an event of the run is pending, the claim gives one, and it is the only row that changes.\<close>

lemma inbox_claim_succeeds:
  assumes "inbox_ok d" "0 < pending_of run_id d"
  obtains c where "inbox_claim_next run_id d = (Inr (Some (c\<lparr>ib_consumption_status := CProcessing\<rparr>)), claimed_row (ib_id c) d)"
    "c\<lparr>ib_consumption_status := CProcessing\<rparr> \<in> set (db_inbox (claimed_row (ib_id c) d))"
    "Suc (pending_of run_id (claimed_row (ib_id c) d)) = pending_of run_id d"
proof -
  let ?rows = "filter (\<lambda>r. ib_orchestration_run_id r = run_id \<and> ib_consumption_status r = CPending) (db_inbox d)"
  let ?key = "\<lambda>r. (ib_received_at r, ib_id r)"
  have "?rows \<noteq> []" using assms(2) by (auto simp: pending_of_def rows_affected_def)
  then have "first_by ?key ?rows \<noteq> None" by (simp only: first_by_None not_False_eq_True)
  then obtain c where first: "first_by ?key ?rows = Some c" by (cases "first_by ?key ?rows") blast+
  from first_by_Some(1) [OF first] have c: "c \<in> set (db_inbox d)" "ib_orchestration_run_id c = run_id" "ib_consumption_status c = CPending"
    by auto
  let ?c = "c\<lparr>ib_consumption_status := CProcessing\<rparr>" and ?d = "claimed_row (ib_id c) d"
  have distinct: "distinct (map ib_id (db_inbox d))" using assms(1) by (simp add: inbox_ok_def)
  have mem: "?c \<in> set (db_inbox ?d)"
    using c by (auto simp: claimed_row_def set_update_where intro!: image_eqI [of _ _ c])
  have "distinct (map ib_id (db_inbox ?d))" using distinct by (simp add: claimed_row_def map_update_where)
  from find_distinct [OF this mem] have found: "find (\<lambda>r. ib_id r = ib_id c) (db_inbox ?d) = Some ?c" by simp
  have "rows_affected (\<lambda>r. ib_id r = ib_id c \<and> ib_consumption_status r = CPending) (db_inbox d) \<noteq> 0"
    unfolding rows_affected_0_iff using c by blast
  with first found have "inbox_claim_next run_id d = (Inr (Some ?c), ?d)"
    by (simp add: inbox_claim_next_def inbox_claim_body_def Let_def claimed_row_def)
  moreover have "Suc (pending_of run_id ?d) = pending_of run_id d"
    using rows_affected_update_one [OF distinct c(1) refl, where P = "\<lambda>r. ib_consumption_status r = CPending" and
        Q = "\<lambda>r. ib_orchestration_run_id r = run_id \<and> ib_consumption_status r = CPending" and
        f = "\<lambda>r. r\<lparr>ib_consumption_status := CProcessing\<rparr>"] c
    by (simp add: pending_of_def claimed_row_def)
  ultimately show thesis using mem that by blast
qed

lemma inbox_claim_none: "pending_of run_id d = 0 \<Longrightarrow> inbox_claim_next run_id d = (Inr None, d)"
proof -
  assume "pending_of run_id d = 0"
  then have "filter (\<lambda>r. ib_orchestration_run_id r = run_id \<and> ib_consumption_status r = CPending) (db_inbox d) = []"
    by (simp add: pending_of_def rows_affected_def)
  then show ?thesis by (simp add: inbox_claim_next_def inbox_claim_body_def first_by_def)
qed

lemma mark_consumed_processing:
  assumes "inbox_ok d" "r \<in> set (db_inbox d)" "ib_consumption_status r = CProcessing"
  shows "mark_consumed env (ib_id r) now d = (True, set_consumed env (ib_id r) now d)"
    and "pending_of run_id (set_consumed env (ib_id r) now d) = pending_of run_id d"
proof -
  have distinct: "distinct (map ib_id (db_inbox d))" using assms(1) by (simp add: inbox_ok_def)
  have "rows_affected (open_inbox (ib_id r)) (db_inbox d) =
      (if \<exists>x \<in> set (db_inbox d). ib_id x = ib_id r \<and> ib_consumption_status x \<in> {CPending, CProcessing} then 1 else 0)"
    unfolding open_inbox_def [abs_def] using distinct by (rule rows_affected_one)
  also have "\<dots> = 1" using assms(2,3) by auto
  finally show "mark_consumed env (ib_id r) now d = (True, set_consumed env (ib_id r) now d)"
    by (simp add: mark_consumed_def)
  have "ib_consumption_status x \<noteq> CPending" if "x \<in> set (db_inbox d)" "ib_id x = ib_id r" for x
    using that assms(2,3) distinct find_distinct by (metis consumption_status.distinct(1) option.inject)
  then show "pending_of run_id (set_consumed env (ib_id r) now d) = pending_of run_id d"
    by (auto simp: pending_of_def set_consumed_def rows_affected_def update_where_def filter_map comp_def open_inbox_def
        intro!: arg_cong [where f = length] filter_cong)
qed

text \<open>One round: the claimed event is acknowledged, and nothing outside the inbox changes.\<close>

definition quiet :: "('v, 'w) service \<Rightarrow> ('v, 'w) service \<Rightarrow> bool" where
  "quiet s s' \<longleftrightarrow> sv_world s' = sv_world s \<and> db_outbox (sv_db s') = db_outbox (sv_db s) \<and> db_events (sv_db s') = db_events (sv_db s) \<and>
     db_nodes (sv_db s') = db_nodes (sv_db s) \<and> db_consumption (sv_db s') = db_consumption (sv_db s)"

lemma drain_terminal_round_cases:
  assumes "inbox_ok (sv_db s)"
  shows "(pending_of run_id (sv_db s) = 0 \<and> drain_terminal_round env run_id report s = (Inr (False, report), s)) \<or>
    (\<exists>s'. drain_terminal_round env run_id report s = (Inr (True, report\<lparr>dr_claimed := Suc (dr_claimed report),
         dr_consumed := Suc (dr_consumed report)\<rparr>), s') \<and>
       Suc (pending_of run_id (sv_db s')) = pending_of run_id (sv_db s) \<and> inbox_ok (sv_db s') \<and> quiet s s')"
proof (cases "pending_of run_id (sv_db s) = 0")
  case True
  then show ?thesis
    by (simp add: drain_terminal_round_def claim_inbox_event_def store_def inbox_claim_none bind_action_def ret_def)
next
  case False
  then obtain c where claim: "inbox_claim_next run_id (sv_db s) =
      (Inr (Some (c\<lparr>ib_consumption_status := CProcessing\<rparr>)), claimed_row (ib_id c) (sv_db s))"
    and mem: "c\<lparr>ib_consumption_status := CProcessing\<rparr> \<in> set (db_inbox (claimed_row (ib_id c) (sv_db s)))"
    and less: "Suc (pending_of run_id (claimed_row (ib_id c) (sv_db s))) = pending_of run_id (sv_db s)"
    using inbox_claim_succeeds [OF assms, of run_id] by auto
  let ?d = "claimed_row (ib_id c) (sv_db s)"
  have ok: "inbox_ok ?d"
    using assms by (simp add: claimed_row_def inbox_ok_def map_update_where)
  note consumed = mark_consumed_processing [OF ok mem, simplified]
  define s' where "s' = s\<lparr>sv_db := set_consumed (se_sql env) (ib_id c) (se_now env (sv_tick s)) ?d, sv_tick := Suc (sv_tick s)\<rparr>"
  have "drain_terminal_round env run_id report s = (Inr (True, report\<lparr>dr_claimed := Suc (dr_claimed report),
         dr_consumed := Suc (dr_consumed report)\<rparr>), s')"
    by (simp add: drain_terminal_round_def claim_inbox_event_def store_def claim acknowledge_def tick_def update_db_def
        consumed(1) bind_action_def ret_def s'_def)
  moreover have "Suc (pending_of run_id (sv_db s')) = pending_of run_id (sv_db s)"
    using less by (simp add: s'_def consumed(2))
  moreover have "inbox_ok (sv_db s')"
    using ok inbox_moves_set_consumed [of ?d] by (auto simp: s'_def inbox_moves_def)
  moreover have "quiet s s'" by (simp add: quiet_def s'_def claimed_row_def)
  ultimately show ?thesis by blast
qed

lemma drain_terminal_rounds:
  assumes "inbox_ok (sv_db s)"
  shows "\<exists>s'. drain_rounds env run_id None report s =
      (Inr (report\<lparr>dr_claimed := dr_claimed report + pending_of run_id (sv_db s),
                   dr_consumed := dr_consumed report + pending_of run_id (sv_db s)\<rparr>), s') \<and>
    pending_of run_id (sv_db s') = 0 \<and> quiet s s'"
  using assms
proof (induction "pending_of run_id (sv_db s)" arbitrary: s report)
  case 0
  then show ?case
    using drain_terminal_round_cases [of s run_id env report] by (simp add: drain_rounds.simps quiet_def)
next
  case (Suc n)
  let ?r = "report\<lparr>dr_claimed := Suc (dr_claimed report), dr_consumed := Suc (dr_consumed report)\<rparr>"
  from Suc.hyps(2) Suc.prems drain_terminal_round_cases [of s run_id env report] obtain s1 where
    round: "drain_terminal_round env run_id report s = (Inr (True, ?r), s1)"
    and s1: "Suc (pending_of run_id (sv_db s1)) = pending_of run_id (sv_db s)" "inbox_ok (sv_db s1)" "quiet s s1"
    by auto
  from Suc.hyps(1) [of s1 ?r] Suc.hyps(2) s1 obtain s' where
    rest: "drain_rounds env run_id None ?r s1 =
      (Inr (?r\<lparr>dr_claimed := dr_claimed ?r + pending_of run_id (sv_db s1),
               dr_consumed := dr_consumed ?r + pending_of run_id (sv_db s1)\<rparr>), s')"
    and s': "pending_of run_id (sv_db s') = 0" "quiet s1 s'" by auto
  have "drain_rounds env run_id None report s = (Inr (report\<lparr>dr_claimed := dr_claimed report + pending_of run_id (sv_db s),
      dr_consumed := dr_consumed report + pending_of run_id (sv_db s)\<rparr>), s')"
    using rest s1(1) by (simp add: drain_rounds.simps [of env run_id None report s] round)
  moreover have "quiet s s'" using s1(3) s'(2) by (simp add: quiet_def)
  ultimately show ?case using s'(1) by blast
qed

text \<open>
  C7: draining a finished run acknowledges everything and starts nothing. For a run that has ended, \<open>drain_inbox_for_run\<close>
  succeeds, reports as many claimed and consumed events as were pending, leaves none pending, and changes no command, event,
  node or consumption, nor anything behind the port.
\<close>

theorem drain_finished_run:
  assumes "inbox_ok (sv_db s)" "find (\<lambda>r. or_id r = run_id) (db_runs (sv_db s)) = Some run" "orchestration_terminal (or_status run)"
  shows "\<exists>s'. drain_inbox_for_run env run_id s = (Inr (default_drain_report\<lparr>dr_claimed := pending_of run_id (sv_db s),
      dr_consumed := pending_of run_id (sv_db s)\<rparr>), s') \<and>
    pending_of run_id (sv_db s') = 0 \<and> sv_world s' = sv_world s \<and> db_outbox (sv_db s') = db_outbox (sv_db s) \<and>
    db_events (sv_db s') = db_events (sv_db s) \<and> db_nodes (sv_db s') = db_nodes (sv_db s) \<and>
    db_consumption (sv_db s') = db_consumption (sv_db s)"
proof -
  have "drain_inbox_for_run env run_id s = drain_rounds env run_id None default_drain_report s"
    using assms(2,3)
    by (simp add: drain_inbox_for_run_def bind_action_def run_row_def query_def fetch_one_def del: orchestration_terminal.simps)
  with drain_terminal_rounds [OF assms(1), of env run_id default_drain_report] show ?thesis
    by (auto simp: default_drain_report_def quiet_def)
qed

definition sample_finished_service :: "(json_lit, uuid list) service" where
  "sample_finished_service = \<lparr>sv_db = snd (append_and_project sample_sql ''1'' (sample_orchestration_event 1 11 OFailed)
     (sample_db\<lparr>db_inbox := [inbox_row 70 1 1 sample_agent_event ''11'']\<rparr>)), sv_world = [], sv_tick = 3\<rparr>"

theorem drain_finished_run_witness:
  "\<exists>s'. drain_inbox_for_run sample_env 1 sample_finished_service =
     (Inr (default_drain_report\<lparr>dr_claimed := 1, dr_consumed := 1\<rparr>), s') \<and> pending_of 1 (sv_db s') = 0"
proof -
  let ?s = sample_finished_service
  let ?run = "find (\<lambda>r. or_id r = 1) (db_runs (sv_db ?s))"
  have facts: "inbox_ok (sv_db ?s)" "map_option or_status ?run = Some OFailed" "pending_of 1 (sv_db ?s) = 1" by code_simp+
  from facts(2) obtain run where run: "?run = Some run" "or_status run = OFailed" by auto
  from drain_finished_run [OF facts(1) run(1), of sample_env] run(2) facts(3) show ?thesis by auto
qed

section \<open>Cancellation\<close>

text \<open>What the later parts of a cancellation may do: links stay, commands are added, and an execution keeps its status, is
  cancelled, or goes from an open status to cancelling.\<close>

definition calmer :: "OrchestrationNodeExecutionRecord \<Rightarrow> OrchestrationNodeExecutionRecord \<Rightarrow> bool" where
  "calmer r r' \<longleftrightarrow> on_id r' = on_id r \<and> on_orchestration_run_id r' = on_orchestration_run_id r \<and>
     (on_status r' = on_status r \<or> on_status r' = ONCancelled \<or> on_status r' = ONCancelling \<and> \<not> is_terminal_node (on_status r))"

definition calms :: "'v db \<Rightarrow> 'v db \<Rightarrow> bool" where
  "calms d d' \<longleftrightarrow> db_links d' = db_links d \<and> set (db_outbox d) \<subseteq> set (db_outbox d') \<and>
     (\<forall>r' \<in> set (db_nodes d'). \<exists>r \<in> set (db_nodes d). calmer r r')"

lemma calmer_refl: "calmer r r"
  by (simp add: calmer_def)

lemma calmer_trans: "calmer a b \<Longrightarrow> calmer b c \<Longrightarrow> calmer a c"
  by (auto simp: calmer_def)

lemma calms_refl: "calms d d"
  using calmer_refl by (auto simp: calms_def)

lemma calms_trans:
  assumes "calms d d'" "calms d' d''"
  shows "calms d d''"
  unfolding calms_def
proof (intro conjI ballI)
  show "db_links d'' = db_links d" using assms by (simp add: calms_def)
  show "set (db_outbox d) \<subseteq> set (db_outbox d'')"
    using assms unfolding calms_def by (meson order_trans)
  fix r'' assume "r'' \<in> set (db_nodes d'')"
  with assms(2) obtain r' where r': "r' \<in> set (db_nodes d')" "calmer r' r''" by (auto simp: calms_def)
  with assms(1) obtain r where "r \<in> set (db_nodes d)" "calmer r r'" by (auto simp: calms_def)
  with r' show "\<exists>r \<in> set (db_nodes d). calmer r r''" by (blast intro: calmer_trans)
qed

lemma calms_same:
  "db_links d' = db_links d \<Longrightarrow> db_nodes d' = db_nodes d \<Longrightarrow>
     set (db_outbox d) \<subseteq> set (db_outbox d') \<Longrightarrow> calms d d'"
  using calmer_refl by (auto simp: calms_def)

lemma enqueue_keeps_rows: "set (db_outbox d) \<subseteq> set (db_outbox (snd (enqueue_with_outcome i c clock d)))"
proof -
  have "set (db_outbox d) \<subseteq> set (db_outbox d')"
    if "enqueue_outbox_in_transaction i c clock d = Inr ((k, b), d')" for k b d'
    using that by (cases rule: enqueue_cases) auto
  then show ?thesis by (auto simp: enqueue_with_outcome_def transaction_def split: sum.splits prod.splits)
qed

interpretation calming: event_relation calms env for env :: "('v, 'w) service_env"
proof
  fix d d' d'' :: "'v db"
  show "calms d d'' " if "calms d d'" "calms d' d''" using that by (rule calms_trans)
qed (simp_all add: calms_refl calms_same enqueue_keeps_rows)

lemma calms_update:
  assumes "\<And>r. r \<in> set (db_nodes d) \<Longrightarrow> P d r \<Longrightarrow> status = ONCancelled \<or> status = ONCancelling \<and> \<not> is_terminal_node (on_status r)"
  shows "calms d (snd (update_node_status env P status now d))"
proof -
  have "\<exists>r \<in> set (db_nodes d). calmer r r'"
    if new: "r' \<in> (\<lambda>r. if P d r then r\<lparr>on_status := status, on_updated_at := sql_bind env now\<rparr> else r) ` set (db_nodes d)" for r'
  proof -
    from new obtain r where r: "r \<in> set (db_nodes d)"
      "r' = (if P d r then r\<lparr>on_status := status, on_updated_at := sql_bind env now\<rparr> else r)" by blast
    with assms [OF r(1)] show ?thesis by (intro bexI [of _ r]) (auto simp: calmer_def)
  qed
  then show ?thesis
    by (simp add: calms_def update_node_status_def set_node_status_def set_update_where)
qed

lemma calms_undispatched: "calms d (snd (update_node_status env (undispatched_of run_id) ONCancelled now d))"
  by (rule calms_update) simp

lemma calms_linked: "calms d (snd (update_node_status env (linked_active_of run_id) ONCancelling now d))"
  by (rule calms_update) (auto simp: linked_active_of_def)

lemma calms_refresh: "acts (on_db calms) (refresh_run_projection env run_id correlation_id)"
proof -
  have "calms d (snd (case update_node_status (se_sql env) (linked_active_of run_id) ONCancelling now d of (ids, d') \<Rightarrow> (f ids, d')))" for d now f
    using calms_linked by (simp add: split_beta)
  then have "acts (on_db calms) (apply_fail_fast_cancellation env run_id correlation_id)"
    unfolding apply_fail_fast_cancellation_def
    by (intro calming.acts_access calming.acts_events calms_undispatched)
  then show ?thesis
    unfolding refresh_run_projection_def Let_def by (intro calming.acts_access calming.acts_events)
qed

lemma each_establishes:
  assumes "each f xs s = (Inr (), s')" "x \<in> set xs"
    and "\<And>s s'. f x s = (Inr (), s') \<Longrightarrow> Q s'" "\<And>y s s'. f y s = (Inr (), s') \<Longrightarrow> Q s \<Longrightarrow> Q s'"
  shows "Q s'"
proof -
  have keep: "each f ys s = (Inr (), s') \<Longrightarrow> Q s \<Longrightarrow> Q s'" for ys s s'
    by (induction ys arbitrary: s) (auto simp: action_simps dest: assms(4))
  from assms(1,2) show ?thesis
    by (induction xs arbitrary: s) (auto simp: action_simps dest: assms(3) keep)
qed

definition all_dispatched :: "uuid \<Rightarrow> 'v db \<Rightarrow> bool" where
  "all_dispatched run_id d \<longleftrightarrow> (\<forall>n \<in> set (db_nodes d). \<not> undispatched_of run_id d n)"

definition all_cancelling :: "uuid \<Rightarrow> 'v db \<Rightarrow> bool" where
  "all_cancelling run_id d \<longleftrightarrow> (\<forall>n \<in> set (db_nodes d). \<not> linked_active_of run_id d n)"

lemma linked_cong: "db_links d' = db_links d \<Longrightarrow> on_id r' = on_id r \<Longrightarrow> linked d' r' = linked d r"
  by (simp add: linked_def)

lemma calms_keeps:
  assumes "calms d d'"
  shows "all_dispatched run_id d \<Longrightarrow> all_dispatched run_id d'" and "all_cancelling run_id d \<Longrightarrow> all_cancelling run_id d'"
proof -
  have origin: "\<exists>r \<in> set (db_nodes d). calmer r r' \<and> linked d' r' = linked d r" if "r' \<in> set (db_nodes d')" for r'
    using assms that linked_cong unfolding calms_def calmer_def by metis
  show "all_dispatched run_id d'" if "all_dispatched run_id d"
    using that origin by (fastforce simp: all_dispatched_def undispatched_of_def calmer_def)
  show "all_cancelling run_id d'" if "all_cancelling run_id d"
    using that origin by (fastforce simp: all_cancelling_def linked_active_of_def calmer_def)
qed

lemma update_settles:
  assumes "\<And>r. \<not> P (snd (update_node_status env P status now d)) (r\<lparr>on_status := status, on_updated_at := sql_bind env now\<rparr>)"
    and "\<And>r. P (snd (update_node_status env P status now d)) r = P d r"
  shows "\<forall>n \<in> set (db_nodes (snd (update_node_status env P status now d))). \<not> P (snd (update_node_status env P status now d)) n"
proof
  fix n assume "n \<in> set (db_nodes (snd (update_node_status env P status now d)))"
  then have "n \<in> (\<lambda>r. if P d r then r\<lparr>on_status := status, on_updated_at := sql_bind env now\<rparr> else r) ` set (db_nodes d)"
    by (simp add: update_node_status_def set_node_status_def set_update_where)
  then obtain r where "n = (if P d r then r\<lparr>on_status := status, on_updated_at := sql_bind env now\<rparr> else r)"
    by (rule imageE)
  with assms show "\<not> P (snd (update_node_status env P status now d)) n" by (cases "P d r") auto
qed

lemma update_dispatches:
  "all_dispatched run_id (snd (update_node_status env (undispatched_of run_id) ONCancelled now d))"
  "all_cancelling run_id (snd (update_node_status env (linked_active_of run_id) ONCancelling now d))"
  unfolding all_dispatched_def all_cancelling_def
  by (rule update_settles;
      simp add: undispatched_of_def linked_active_of_def linked_def update_node_status_def set_node_status_def)+

text \<open>Events of the log leave commands and links alone.\<close>

definition same_commands :: "'v db \<Rightarrow> 'v db \<Rightarrow> bool" where
  "same_commands d d' \<longleftrightarrow> db_outbox d' = db_outbox d \<and> db_links d' = db_links d"

interpretation logging: log_relation same_commands env for env :: "('v, 'w) service_env"
  by unfold_locales (simp_all add: same_commands_def)

lemma same_commands_ok: "acts (on_db same_commands) m \<Longrightarrow> m s = (Inr x, s') \<Longrightarrow> same_commands (sv_db s) (sv_db s')"
  by (drule (1) actsD) (simp add: on_db_def)

text \<open>After a command was queued a row has its key, and a row that was not there before carries the command.\<close>

lemma enqueued_command_rows:
  assumes "enqueue_command env c s = (Inr i, s')"
  shows "ce_idempotency_key c \<in> ob_idempotency_key ` set (db_outbox (sv_db s'))"
    and "r \<in> set (db_outbox (sv_db s')) \<Longrightarrow>
      r \<in> set (db_outbox (sv_db s)) \<or> ob_command_envelope r = c \<and> ob_idempotency_key r = ce_idempotency_key c"
    and "db_links (sv_db s') = db_links (sv_db s)"
proof -
  from assms obtain run_id sa x sb y sc fresh sd clock s1 p s2 where
    before: "of_result (ok_or (ce_orchestration_run_id c) SMissingCommandOrigin) s = (Inr run_id, sa)"
      "of_result (ok_or (ce_orchestration_node_execution_id c) SMissingCommandOrigin) sa = (Inr x, sb)"
      "(if starts_agent (ce_command c) then bind_action (run_row run_id) (\<lambda>run.
         if dispatch_stopped (or_status run) then raise (SDispatchStopped run_id) else ret ()) else ret ()) sb = (Inr y, sc)"
      "tick (se_fresh env) sc = (Inr fresh, sd)" "tick (se_clock env) sd = (Inr clock, s1)"
    and st: "store (enqueue_with_outcome fresh c clock) s1 = (Inr p, s2)"
    and rest: "(case p of (outbox_id, inserted) \<Rightarrow> if inserted
        then bind_action (append_event env run_id (ce_correlation_id c)
          (OECommandQueued (ce_command_id c) (ce_idempotency_key c))) (\<lambda>_. ret outbox_id)
        else ret outbox_id) s2 = (Inr i, s')"
    unfolding enqueue_command_def bind_ok_iff by blast
  from before have s1: "sv_db s1 = sv_db s" by (auto simp: action_simps of_result_def split: if_splits sum.splits)
  obtain b where p: "p = (i, b)" using rest by (cases p) (auto simp: bind_ok_iff split: if_splits)
  have "s' = s2 \<or> (\<exists>payload a. append_event env run_id (ce_correlation_id c) payload s2 = (Inr a, s'))"
    using rest by (auto simp: p bind_ok_iff split: if_splits)
  then have same: "same_commands (sv_db s2) (sv_db s')"
    using same_commands_ok [OF logging.acts_append_event] logging.db_refl by blast
  from st have "enqueue_outbox_in_transaction fresh c clock (sv_db s1) = Inr ((i, b), sv_db s2)"
    by (simp add: store_ok_iff p enqueue_with_outcome_def transaction_ok_iff)
  then have "(ce_idempotency_key c \<in> ob_idempotency_key ` set (db_outbox (sv_db s2))) \<and>
      (\<forall>r \<in> set (db_outbox (sv_db s2)). r \<in> set (db_outbox (sv_db s)) \<or> ob_command_envelope r = c \<and> ob_idempotency_key r = ce_idempotency_key c) \<and>
      db_links (sv_db s2) = db_links (sv_db s)"
    unfolding s1 by (cases rule: enqueue_cases) (auto simp: outbox_row_def intro: image_eqI [OF sym])
  with same show "ce_idempotency_key c \<in> ob_idempotency_key ` set (db_outbox (sv_db s'))"
    and "r \<in> set (db_outbox (sv_db s')) \<Longrightarrow>
      r \<in> set (db_outbox (sv_db s)) \<or> ob_command_envelope r = c \<and> ob_idempotency_key r = ce_idempotency_key c"
    and "db_links (sv_db s') = db_links (sv_db s)"
    by (simp_all add: same_commands_def)
qed

text \<open>A row that asks an agent run of the execution to stop, under the execution's key.\<close>

definition asks_to_stop :: "('v, 'w) service_env \<Rightarrow> uuid \<Rightarrow> OrchestrationAgentRunLinkRecord \<Rightarrow> 'v OrchestrationOutboxRecord \<Rightarrow> bool" where
  "asks_to_stop env run_id l r \<longleftrightarrow> ob_idempotency_key r = cancel_key env run_id (ol_node_execution_id l) \<and>
     (\<exists>reason. ce_command (ob_command_envelope r) = CmdCancel reason) \<and>
     ce_agent_run_id (ob_command_envelope r) = ol_agent_run_id l \<and>
     ce_orchestration_run_id (ob_command_envelope r) = Some run_id \<and>
     ce_orchestration_node_execution_id (ob_command_envelope r) = Some (ol_node_execution_id l)"

definition cancel_rows :: "('v, 'w) service_env \<Rightarrow> uuid \<Rightarrow> 'v OrchestrationOutboxRecord set \<Rightarrow> 'v db \<Rightarrow> bool" where
  "cancel_rows env run_id before d \<longleftrightarrow> (\<forall>r \<in> set (db_outbox d). r \<in> before \<or>
     (\<exists>l \<in> set (db_links d). ol_orchestration_run_id l = run_id \<and> asks_to_stop env run_id l r))"

lemma cancel_rows_same: "same_commands d d' \<Longrightarrow> cancel_rows env run_id before d \<Longrightarrow> cancel_rows env run_id before d'"
  by (simp add: cancel_rows_def same_commands_def)

lemma cancel_child_calms: "acts (on_db calms) (cancel_child env run_id correlation_id child)"
  unfolding cancel_child_def by (intro calming.acts_access calming.acts_events)

lemma cancel_child_queues:
  assumes "cancel_child env run_id correlation_id (l, n) s = (Inr (), s')"
  shows "cancel_key env run_id (ol_node_execution_id l) \<in> ob_idempotency_key ` set (db_outbox (sv_db s'))"
    and "l \<in> set (db_links (sv_db s)) \<Longrightarrow> ol_orchestration_run_id l = run_id \<Longrightarrow>
      cancel_rows env run_id before (sv_db s) \<Longrightarrow> cancel_rows env run_id before (sv_db s')"
    and "db_links (sv_db s') = db_links (sv_db s)"
proof -
  let ?key = "cancel_key env run_id (ol_node_execution_id l)"
  have "?key \<in> ob_idempotency_key ` set (db_outbox (sv_db s')) \<and> db_links (sv_db s') = db_links (sv_db s) \<and>
    (\<forall>r \<in> set (db_outbox (sv_db s')). r \<in> set (db_outbox (sv_db s)) \<or> asks_to_stop env run_id l r)"
  proof (cases "list_ex (\<lambda>r. ob_idempotency_key r = ?key) (db_outbox (sv_db s))")
    case True
    with assms have "s' = s" by (auto simp: cancel_child_def action_simps)
    with True show ?thesis by (auto simp: list_ex_iff intro: image_eqI [OF sym])
  next
    case False
    with assms obtain now i where
      "enqueue_command env (cancel_command (stable_operation_id (se_sha256 env) run_id (ol_node_execution_id l) ''cancel'')
         ?key (ol_agent_run_id l) run_id (ol_node_execution_id l) correlation_id now ''parent orchestration cancelled'') (s\<lparr>sv_tick := Suc (sv_tick s)\<rparr>) = (Inr i, s')"
      by (auto simp: cancel_child_def action_simps)
    note queued = enqueued_command_rows [OF this]
    have "asks_to_stop env run_id l r" if "r \<in> set (db_outbox (sv_db s'))" "r \<notin> set (db_outbox (sv_db s))" for r
      using queued(2) [OF that(1)] that(2) by (simp add: cancel_command_def asks_to_stop_def)
    with queued(1,3) show ?thesis by (auto simp: cancel_command_def)
  qed
  then show "?key \<in> ob_idempotency_key ` set (db_outbox (sv_db s'))" "db_links (sv_db s') = db_links (sv_db s)"
    "l \<in> set (db_links (sv_db s)) \<Longrightarrow> ol_orchestration_run_id l = run_id \<Longrightarrow>
      cancel_rows env run_id before (sv_db s) \<Longrightarrow> cancel_rows env run_id before (sv_db s')"
    unfolding cancel_rows_def by auto
qed

lemma calms_ok: "acts (on_db calms) m \<Longrightarrow> m s = (Inr x, s') \<Longrightarrow> calms (sv_db s) (sv_db s')"
  by (drule (1) actsD) (simp add: on_db_def)

lemma node_events_calm: "each (node_event env run_id correlation_id status) ids s = (Inr x, s') \<Longrightarrow> calms (sv_db s) (sv_db s')"
  by (rule calms_ok [rotated]) (assumption | intro calming.acts_access calming.acts_events)+

lemma node_events_same_commands:
  "each (node_event env run_id correlation_id status) ids s = (Inr x, s') \<Longrightarrow> same_commands (sv_db s) (sv_db s')"
  by (rule same_commands_ok [rotated]) (assumption | intro logging.acts_access logging.acts_node_event)+

lemma cancel_children_queue:
  assumes "each (cancel_child env run_id correlation_id) children s = (Inr (), s')" "(l, n) \<in> set children"
  shows "cancel_key env run_id (ol_node_execution_id l) \<in> ob_idempotency_key ` set (db_outbox (sv_db s'))"
proof (rule each_establishes [OF assms])
  fix s s' assume "cancel_child env run_id correlation_id (l, n) s = (Inr (), s')"
  then show "cancel_key env run_id (ol_node_execution_id l) \<in> ob_idempotency_key ` set (db_outbox (sv_db s'))"
    by (rule cancel_child_queues)
next
  fix child s s' assume "cancel_child env run_id correlation_id child s = (Inr (), s')"
    "cancel_key env run_id (ol_node_execution_id l) \<in> ob_idempotency_key ` set (db_outbox (sv_db s))"
  with calms_ok [OF cancel_child_calms this(1)]
  show "cancel_key env run_id (ol_node_execution_id l) \<in> ob_idempotency_key ` set (db_outbox (sv_db s'))"
    unfolding calms_def by blast
qed

lemma cancel_children_rows:
  assumes "each (cancel_child env run_id correlation_id) children s = (Inr (), s')" "cancel_rows env run_id before (sv_db s)"
    "\<forall>(l, n) \<in> set children. l \<in> set (db_links (sv_db s)) \<and> ol_orchestration_run_id l = run_id"
  shows "cancel_rows env run_id before (sv_db s')"
  using assms
proof (induction children arbitrary: s)
  case (Cons child children)
  obtain l n where child: "child = (l, n)" by (cases child)
  from Cons.prems(1) obtain s1 where s1: "cancel_child env run_id correlation_id (l, n) s = (Inr (), s1)"
    "each (cancel_child env run_id correlation_id) children s1 = (Inr (), s')" by (auto simp: child action_simps)
  with Cons.prems(2,3) cancel_child_queues(2,3) [OF s1(1)] show ?case by (intro Cons.IH [OF s1(2)]) (auto simp: child)
qed (simp add: action_simps)

text \<open>The steps of a successful cancellation of an open run.\<close>

lemma cancel_steps:
  assumes "cancel env run_id correlation_id s = (Inr a, s')" "find (\<lambda>r. or_id r = run_id) (db_runs (sv_db s)) = Some run"
    "\<not> orchestration_terminal (or_status run)"
  obtains s0 now ids1 s1 u s2 now' ids2 s3 v s4 w s5 b where
    "same_commands (sv_db s) (sv_db s0)"
    "update_db (update_node_status (se_sql env) (undispatched_of run_id) ONCancelled now) s0 = (Inr ids1, s1)"
    "each (node_event env run_id correlation_id ONCancelled) ids1 s1 = (Inr u, s2)"
    "update_db (update_node_status (se_sql env) (linked_active_of run_id) ONCancelling now') (s2\<lparr>sv_tick := Suc (sv_tick s2)\<rparr>) = (Inr ids2, s3)"
    "each (node_event env run_id correlation_id ONCancelling) ids2 s3 = (Inr v, s4)"
    "each (cancel_child env run_id correlation_id) (active_children run_id (sv_db s4)) s4 = (Inr w, s5)"
    "refresh_run_projection env run_id correlation_id s5 = (Inr b, s')"
proof -
  from assms(2) have run: "run_row run_id s = (Inr run, s)" by (simp add: run_row_iff)
  have skip: "bind_action (run_row run_id) f s = f run s" for f :: "'a OrchestrationRunRecord \<Rightarrow> ('a, 'b, OrchestrationReducerApply) service_action"
    using run by (simp add: bind_action_def)
  have announced: "same_commands (sv_db s) (sv_db s1)"
    if "(if or_status run = OCancelling then ret ODuplicate
         else append_event env run_id correlation_id (OELifecycleChanged OCancelling)) s = (Inr x, s1)" for x s1
    using that same_commands_ok [OF logging.acts_append_event] logging.db_refl by (auto split: if_splits)
  note opened = assms(1) [unfolded cancel_def, unfolded skip if_not_P [OF assms(3)], unfolded bind_ok_iff tick_iff query_iff sum.inject ret_simps(1)]
  from opened show thesis
    by - (elim exE conjE, hypsubst, rule that; (assumption | simp add: announced))
qed

lemma active_child_link:
  "(l, n) \<in> set (active_children run_id d) \<Longrightarrow> l \<in> set (db_links d) \<and> ol_orchestration_run_id l = run_id"
  by (auto simp: active_children_def split: if_splits)

lemma calms_active_children:
  assumes "calms d d'" "(l, n) \<in> set (active_children run_id d')"
  obtains m where "(l, m) \<in> set (active_children run_id d)"
proof -
  from assms(2) have l: "l \<in> set (db_links d')" "ol_orchestration_run_id l = run_id" and n: "n \<in> set (db_nodes d')"
    "on_id n = ol_node_execution_id l" "\<not> is_terminal_node (on_status n)"
    by (auto simp: active_children_def split: if_splits)
  from assms(1) n obtain m where "m \<in> set (db_nodes d)" "calmer m n" unfolding calms_def by blast
  with l n assms(1) have "(l, m) \<in> set (active_children run_id d)"
    by (auto simp: active_children_def calms_def calmer_def)
  then show thesis by (rule that)
qed

text \<open>
  C5: cancellation reaches every execution. When \<open>cancel\<close> succeeds on a run that has not ended, then in the database it
  leaves no execution of the run that was never dispatched is still pending or ready, every execution with an agent run
  has ended or is cancelling, and for every execution with an agent run that has not ended the outbox holds a row under the
  execution's cancel key. A row that the call added is a cancel command that names the run, the execution and the
  agent run of the execution; the only other row it can be is one that was in the outbox under that key before the call. Different ids
  are taken to have different texts. (The key is the execution's: were two agent runs linked to one execution, the
  command would name one of them.)
\<close>

theorem cancel_reaches_every_execution:
  assumes "cancel env run_id correlation_id s = (Inr a, s')" "find (\<lambda>r. or_id r = run_id) (db_runs (sv_db s)) = Some run"
    "\<not> orchestration_terminal (or_status run)" "inj (uuid_text (se_sql env))"
  shows "(\<forall>n \<in> set (db_nodes (sv_db s')). on_orchestration_run_id n = run_id \<longrightarrow>
      (if linked (sv_db s') n then is_terminal_node (on_status n) \<or> on_status n = ONCancelling
       else on_status n \<notin> {ONPending, ONReady})) \<and>
    (\<forall>(l, n) \<in> set (active_children run_id (sv_db s')).
      \<exists>r \<in> set (db_outbox (sv_db s')). ob_idempotency_key r = cancel_key env run_id (ol_node_execution_id l) \<and>
        (r \<in> set (db_outbox (sv_db s)) \<or>
         (\<exists>l' \<in> set (db_links (sv_db s')). ol_orchestration_run_id l' = run_id \<and> ol_node_execution_id l' = ol_node_execution_id l \<and>
            asks_to_stop env run_id l' r)))"
  using assms(1-3)
proof (rule cancel_steps)
  fix s0 now ids1 s1 u s2 now' ids2 s3 v s4 w s5 b
  assume steps:
    "same_commands (sv_db s) (sv_db s0)"
    "update_db (update_node_status (se_sql env) (undispatched_of run_id) ONCancelled now) s0 = (Inr ids1, s1)"
    "each (node_event env run_id correlation_id ONCancelled) ids1 s1 = (Inr u, s2)"
    "update_db (update_node_status (se_sql env) (linked_active_of run_id) ONCancelling now') (s2\<lparr>sv_tick := Suc (sv_tick s2)\<rparr>) = (Inr ids2, s3)"
    "each (node_event env run_id correlation_id ONCancelling) ids2 s3 = (Inr v, s4)"
    "each (cancel_child env run_id correlation_id) (active_children run_id (sv_db s4)) s4 = (Inr w, s5)"
    "refresh_run_projection env run_id correlation_id s5 = (Inr b, s')"
  have "calms (sv_db s2) (sv_db s3)"
    using steps(4) calms_linked [of "sv_db s2" "se_sql env" run_id now'] by (simp add: update_db_iff)
  then have s1: "calms (sv_db s1) (sv_db s3)" using node_events_calm [OF steps(3)] by (rule calms_trans [rotated])
  have c5: "calms (sv_db s5) (sv_db s')" using calms_ok [OF calms_refresh steps(7)] .
  have "acts (on_db calms) (each (cancel_child env run_id correlation_id) (active_children run_id (sv_db s4)))"
    by (intro calming.acts_access cancel_child_calms)
  from calms_ok [OF this steps(6)] have c45: "calms (sv_db s4) (sv_db s5)" .
  then have c4: "calms (sv_db s4) (sv_db s')" using c5 by (rule calms_trans)
  with node_events_calm [OF steps(5)] have c3: "calms (sv_db s3) (sv_db s')" by (rule calms_trans)
  have after: "sv_db s' = snd (f (sv_db s))" if "update_db f s = (Inr x, s')" for f x and s s' :: "('a, 'b) service"
    using that by (simp add: update_db_iff)
  have "all_dispatched run_id (sv_db s1)" "all_cancelling run_id (sv_db s3)"
    unfolding after [OF steps(2)] after [OF steps(4)] by (rule update_dispatches)+
  with s1 c3 have settled: "all_dispatched run_id (sv_db s')" "all_cancelling run_id (sv_db s')"
    by (blast intro: calms_keeps calms_trans)+
  have "same_commands (sv_db s) (sv_db s4)"
    using steps(1) after [OF steps(2)] node_events_same_commands [OF steps(3)] after [OF steps(4)] node_events_same_commands [OF steps(5)]
    by (simp add: same_commands_def update_node_status_def set_node_status_def)
  then have "cancel_rows env run_id (set (db_outbox (sv_db s))) (sv_db s4)"
    by (simp add: cancel_rows_def same_commands_def)
  then have rows: "cancel_rows env run_id (set (db_outbox (sv_db s))) (sv_db s5)"
    using active_child_link by (intro cancel_children_rows [OF steps(6) [unfolded unit_eq [of w]]]) blast+
  have key: "\<exists>r \<in> set (db_outbox (sv_db s')). ob_idempotency_key r = cancel_key env run_id (ol_node_execution_id l) \<and>
        (r \<in> set (db_outbox (sv_db s)) \<or>
         (\<exists>l' \<in> set (db_links (sv_db s')). ol_orchestration_run_id l' = run_id \<and> ol_node_execution_id l' = ol_node_execution_id l \<and>
            asks_to_stop env run_id l' r))"
    if "(l, n) \<in> set (active_children run_id (sv_db s'))" for l n
  proof -
    from calms_active_children [OF c4 that] obtain m where "(l, m) \<in> set (active_children run_id (sv_db s4))" .
    with steps(6) have "cancel_key env run_id (ol_node_execution_id l) \<in> ob_idempotency_key ` set (db_outbox (sv_db s5))"
      using cancel_children_queue by (metis unit.exhaust)
    then obtain r where r: "r \<in> set (db_outbox (sv_db s5))" "ob_idempotency_key r = cancel_key env run_id (ol_node_execution_id l)"
      by auto
    have same_node: "ol_node_execution_id l' = ol_node_execution_id l" if "asks_to_stop env run_id l' r" for l'
      using that r(2) assms(4) by (auto simp: asks_to_stop_def cancel_key_def dest: injD)
    from c5 r(1) have now: "r \<in> set (db_outbox (sv_db s'))" "db_links (sv_db s') = db_links (sv_db s5)" by (auto simp: calms_def)
    from rows r(1) have "r \<in> set (db_outbox (sv_db s)) \<or>
        (\<exists>l' \<in> set (db_links (sv_db s5)). ol_orchestration_run_id l' = run_id \<and> asks_to_stop env run_id l' r)"
      unfolding cancel_rows_def by blast
    with now r(2) same_node show ?thesis by auto
  qed
  from settled have "\<forall>n \<in> set (db_nodes (sv_db s')). on_orchestration_run_id n = run_id \<longrightarrow>
      (if linked (sv_db s') n then is_terminal_node (on_status n) \<or> on_status n = ONCancelling else on_status n \<notin> {ONPending, ONReady})"
    by (auto simp: all_dispatched_def all_cancelling_def undispatched_of_def linked_active_of_def)
  with key show ?thesis by blast
qed

text \<open>The sample run cancelled: its one execution has an agent run, which is asked to stop.\<close>

definition sample_open_service :: "(json_lit, uuid list) service" where
  "sample_open_service = \<lparr>sv_db = sample_db, sv_world = [], sv_tick = 3\<rparr>"

theorem cancel_reaches_every_execution_witness:
  "\<exists>a s'. cancel sample_env 1 5 sample_open_service = (Inr a, s') \<and>
     map on_status (db_nodes (sv_db s')) = [ONCancelling, ONCancelled, ONCancelled, ONCancelled] \<and>
     (\<exists>r \<in> set (db_outbox (sv_db s')). \<exists>reason. ob_idempotency_key r = cancel_key sample_env 1 10 \<and>
        ce_command (ob_command_envelope r) = CmdCancel reason \<and> ce_agent_run_id (ob_command_envelope r) = 3)"
proof -
  let ?c = "cancel sample_env 1 5 sample_open_service"
  let ?run = "find (\<lambda>r. or_id r = 1) (db_runs (sv_db sample_open_service))"
  let ?d = "sv_db (snd ?c)"
  have facts: "map_option or_status ?run = Some OPending" "\<not> isl (fst ?c)"
    "map on_status (db_nodes ?d) = [ONCancelling, ONCancelled, ONCancelled, ONCancelled]"
    "list_ex (\<lambda>(l, n). ol_node_execution_id l = 10) (active_children 1 ?d)" "length (db_outbox (sv_db sample_open_service)) = 0"
    "list_all (\<lambda>l. ol_agent_run_id l = 3) (db_links ?d)" by code_simp+
  from facts(1) obtain run where run: "?run = Some run" "\<not> orchestration_terminal (or_status run)" by auto
  from facts(2) obtain a where c: "?c = (Inr a, snd ?c)" by (cases "fst ?c") (auto simp: prod_eq_iff)
  from facts(4) obtain l n where "(l, n) \<in> set (active_children 1 ?d)" "ol_node_execution_id l = 10" by (auto simp: list_ex_iff)
  with cancel_reaches_every_execution [OF c run sample_uuid_text_inj, THEN conjunct2] obtain r l' where
    "r \<in> set (db_outbox ?d)" "ob_idempotency_key r = cancel_key sample_env 1 10"
    "r \<in> set (db_outbox (sv_db sample_open_service)) \<or> l' \<in> set (db_links ?d) \<and> asks_to_stop sample_env 1 l' r" by force
  with facts(5,6) have "\<exists>r \<in> set (db_outbox ?d). \<exists>reason. ob_idempotency_key r = cancel_key sample_env 1 10 \<and>
      ce_command (ob_command_envelope r) = CmdCancel reason \<and> ce_agent_run_id (ob_command_envelope r) = 3"
    by (auto simp: asks_to_stop_def list_all_iff intro!: bexI [of _ r])
  with c facts(3) show ?thesis by (intro exI conjI)
qed

end
