(* ===== verification/Agent_Tables.thy ===== *)
theory Agent_Tables
  imports Tables
begin

text \<open>
  The tables of the agent runtime, \<open>crates/db/src/models/agent_runtime.rs\<close> and
  \<open>crates/db/migrations/20260811000000_agent_runtime_v1.sql\<close>, with the conventions of \<open>Tables\<close>. The rows that the orchestration
  store reads extend its records, so that its columns are their truncations (\<open>orchestration_view\<close>).

  Of the tables around, only the ids that foreign keys refer to are kept: sessions, workspaces, execution processes.
\<close>

section \<open>Errors\<close>

datatype AgentRuntimePersistenceError =
  ADatabase DbError
| AInvalidAttempt RunAttemptRequestError
| AInvalidCommand OrchestrationCommandValidationError
| AInvalidVersion ContractVersionError
| AInvalidFirstAttempt
| AIdempotencyConflict string string
| AIdentityConflict string string
| AInvalidEnumEncoding string
| ASerialization
| AReducer ReducerError
| AMissingState uuid
| AMissingLaunchGate uuid
| AInvalidDirectCommand

section \<open>Enums as text\<close>

text \<open>\<open>enum_string\<close>: the derived snake-case names, never an error for an enum without fields.\<close>

fun workspace_mode_string :: "WorkspaceMode \<Rightarrow> string" where
  "workspace_mode_string SharedWorkspace = ''shared_workspace''"
| "workspace_mode_string IsolatedWorktree = ''isolated_worktree''"

fun intent_string :: "AgentRunIntent \<Rightarrow> string" where
  "intent_string IntentInitial = ''initial''"
| "intent_string IntentFollowUp = ''follow_up''"
| "intent_string IntentReview = ''review''"

fun attempt_mode_string :: "RunAttemptMode \<Rightarrow> string" where
  "attempt_mode_string ModeLaunch = ''launch''"
| "attempt_mode_string ModeResume = ''resume''"
| "attempt_mode_string ModeRestart = ''restart''"

fun transport_string :: "AgentTransportKind \<Rightarrow> string" where
  "transport_string StdioCli = ''stdio_cli''"
| "transport_string StdioRpc = ''stdio_rpc''"
| "transport_string Acp = ''acp''"
| "transport_string AppServerJsonrpc = ''app_server_jsonrpc''"
| "transport_string HttpSidecar = ''http_sidecar''"
| "transport_string InProcess = ''in_process''"

section \<open>Rows\<close>

record AgentRunRecord =
  ar_id :: uuid
  ar_session_id :: uuid
  ar_workspace_id :: uuid
  ar_request_id :: uuid
  ar_idempotency_key :: string
  ar_correlation_id :: uuid
  ar_schema_version :: i64
  ar_payload_version :: i64
  ar_runtime_profile_id :: string
  ar_provider_id :: string
  ar_workspace_mode :: string
  ar_workspace_path :: string
  ar_status :: AgentRunStatus
  ar_projection_status :: ProjectionStatus
  ar_request_envelope :: AgentRunRequestEnvelope
  ar_created_at :: sql_text
  ar_updated_at :: sql_text

record AgentTurnRow = AgentTurnRecord +
  atr_request_id :: uuid
  atr_intent :: string
  atr_updated_at :: sql_text

record 'v AgentRunAttemptRecord =
  aa_id :: uuid
  aa_agent_run_id :: uuid
  aa_turn_id :: uuid
  aa_request_id :: uuid
  aa_idempotency_key :: string
  aa_attempt_number :: i64
  aa_mode :: string
  aa_transport :: string
  aa_schema_version :: i64
  aa_payload_version :: i64
  aa_capability_snapshot :: "'v CapabilitySnapshot"
  aa_request_envelope :: "'v RunAttemptRequest"
  aa_status :: AgentRunStatus
  aa_projection_status :: ProjectionStatus
  aa_started_at :: "sql_text option"
  aa_finished_at :: "sql_text option"
  aa_created_at :: sql_text
  aa_updated_at :: sql_text

datatype registry_status = RegReserved | RegSpawned | RegRunning | RegExited | RegUnreachable

record AgentProcessRegistryRecord =
  pr_id :: uuid
  pr_run_attempt_id :: uuid
  pr_registry_status :: registry_status
  pr_host_endpoint :: "string option"
  pr_host_token :: "string option"
  pr_host_instance_id :: "string option"
  pr_host_pid :: "i64 option"
  pr_last_host_event_sequence :: i64
  pr_supervisor_instance_id :: "string option"
  pr_pid :: "i64 option"
  pr_process_group_id :: "i64 option"
  pr_process_started_at :: "sql_text option"
  pr_executable :: "string option"
  pr_command_fingerprint :: "string option"
  pr_exit_code :: "i64 option"
  pr_observed_exited_at :: "sql_text option"
  pr_lease_owner :: "string option"
  pr_lease_expires_at :: "sql_text option"
  pr_created_at :: sql_text
  pr_updated_at :: sql_text

record 'v AgentEventRow = "'v AgentEventRecord" +
  aer_session_id :: uuid
  aer_turn_id :: uuid
  aer_run_attempt_id :: uuid
  aer_run_attempt_number :: i64
  aer_sequence :: i64
  aer_correlation_id :: uuid
  aer_schema_version :: i64
  aer_payload_version :: i64
  aer_created_at :: sql_text

record 'v AgentRunStateRow = "'v AgentRunStateRecord" +
  asr_state_schema_version :: i64
  asr_reducer_version :: i64
  asr_last_run_attempt_id :: "uuid option"
  asr_last_run_attempt_number :: i64
  asr_last_event_sequence :: i64
  asr_last_event_id :: "uuid option"
  asr_projection_status :: ProjectionStatus
  asr_updated_at :: sql_text

record 'v AgentRunCommandRecord =
  ac_command_id :: uuid
  ac_agent_run_id :: uuid
  ac_idempotency_key :: string
  ac_command_schema_version :: i64
  ac_command_envelope :: "'v AgentRunPortCommandEnvelope"
  ac_delivery_status :: delivery_status
  ac_delivery_attempts :: i64
  ac_delivered_at :: "sql_text option"
  ac_last_error :: "string option"
  ac_created_at :: sql_text
  ac_updated_at :: sql_text

datatype AgentRunLaunchGateStatus = GateWaitingSetupStart | GateWaitingSetup | GateSatisfied | GateFailed

text \<open>The setup action is a \<open>Json\<close> column that is only compared as text, and is kept as text.\<close>

record AgentRunLaunchGateRecord =
  ag_agent_run_id :: uuid
  ag_setup_execution_process_id :: "uuid option"
  ag_gate_status :: AgentRunLaunchGateStatus
  ag_setup_action :: string
  ag_failure_message :: "string option"
  ag_created_at :: sql_text
  ag_updated_at :: sql_text

record PersistedAgentRunIdentity =
  pi_agent_run_id :: uuid
  pi_turn_id :: uuid
  pi_run_attempt_id :: uuid
  pi_process_registry_id :: uuid

record 'v agent_db =
  adb_sessions :: "uuid list"
  adb_workspaces :: "uuid list"
  adb_processes :: "uuid list"
  adb_runs :: "AgentRunRecord list"
  adb_turns :: "AgentTurnRow list"
  adb_attempts :: "'v AgentRunAttemptRecord list"
  adb_registry :: "AgentProcessRegistryRecord list"
  adb_events :: "'v AgentEventRow list"
  adb_states :: "'v AgentRunStateRow list"
  adb_seen :: "(uuid \<times> sql_text) list"
  adb_gates :: "AgentRunLaunchGateRecord list"
  adb_commands :: "'v AgentRunCommandRecord list"

text \<open>What the orchestration store sees of these tables.\<close>

definition orchestration_view :: "'v agent_db \<Rightarrow> 'v db \<Rightarrow> 'v db" where
  "orchestration_view a d = d\<lparr>
     db_agent_runs := map ar_id (adb_runs a),
     db_agent_turns := map AgentTurnRecord.truncate (adb_turns a),
     db_agent_events := map AgentEventRecord.truncate (adb_events a),
     db_agent_states := map AgentRunStateRecord.truncate (adb_states a)\<rparr>"

end
