(* ===== verification/Agent_Store.thy ===== *)
theory Agent_Store
  imports Agent_Tables Event_Store
begin

text \<open>
  Agent runs in the database, \<open>crates/db/src/models/agent_runtime.rs\<close>, first part: the identity of a run is persisted before
  anything is launched, a retry adds an attempt to it, and the events of the attempts are appended with their projection. The process
  registry, launch gates and commands are in \<open>Agent_Processes\<close>.
\<close>

section \<open>Identities\<close>

definition insert_agent_run :: "AgentRunRecord \<Rightarrow> 'v agent_db \<Rightarrow> DbError + 'v agent_db" where
  "insert_agent_run r d =
     (if sql_blank (ar_idempotency_key r) \<or> ar_schema_version r \<le> 0 \<or> ar_payload_version r \<le> 0 \<or>
         sql_blank (ar_runtime_profile_id r) \<or> sql_blank (ar_provider_id r) \<or> sql_blank (ar_workspace_path r)
      then Inl (DbCheck ''agent_runs'')
      else if list_ex (\<lambda>x. ar_id x = ar_id r \<or> ar_request_id x = ar_request_id r \<or>
                ar_idempotency_key x = ar_idempotency_key r) (adb_runs d)
      then Inl (DbUnique ''agent_runs'')
      else if ar_session_id r \<notin> set (adb_sessions d) \<or> ar_workspace_id r \<notin> set (adb_workspaces d)
      then Inl (DbForeignKey ''agent_runs'')
      else Inr (d\<lparr>adb_runs := adb_runs d @ [r]\<rparr>))"

definition insert_turn :: "AgentTurnRow \<Rightarrow> 'v agent_db \<Rightarrow> DbError + 'v agent_db" where
  "insert_turn r d =
     (if list_ex (\<lambda>x. at_id x = at_id r \<or> at_agent_run_id x = at_agent_run_id r \<or> atr_request_id x = atr_request_id r)
           (adb_turns d)
      then Inl (DbUnique ''agent_turns'')
      else if \<not> list_ex (\<lambda>x. ar_id x = at_agent_run_id r) (adb_runs d) then Inl (DbForeignKey ''agent_turns'')
      else Inr (d\<lparr>adb_turns := adb_turns d @ [r]\<rparr>))"

definition insert_attempt :: "'v AgentRunAttemptRecord \<Rightarrow> 'v agent_db \<Rightarrow> DbError + 'v agent_db" where
  "insert_attempt r d =
     (if sql_blank (aa_idempotency_key r) \<or> aa_attempt_number r \<le> 0 \<or> aa_schema_version r \<le> 0 \<or> aa_payload_version r \<le> 0
      then Inl (DbCheck ''agent_run_attempts'')
      else if list_ex (\<lambda>x. aa_id x = aa_id r \<or> aa_request_id x = aa_request_id r \<or> aa_idempotency_key x = aa_idempotency_key r \<or>
                aa_agent_run_id x = aa_agent_run_id r \<and> aa_attempt_number x = aa_attempt_number r) (adb_attempts d)
      then Inl (DbUnique ''agent_run_attempts'')
      else if \<not> list_ex (\<lambda>x. ar_id x = aa_agent_run_id r) (adb_runs d) \<or>
              \<not> list_ex (\<lambda>x. at_id x = aa_turn_id r \<and> at_agent_run_id x = aa_agent_run_id r) (adb_turns d)
      then Inl (DbForeignKey ''agent_run_attempts'')
      else Inr (d\<lparr>adb_attempts := adb_attempts d @ [r]\<rparr>))"

definition insert_registry :: "AgentProcessRegistryRecord \<Rightarrow> 'v agent_db \<Rightarrow> DbError + 'v agent_db" where
  "insert_registry r d =
     (if list_ex (\<lambda>x. pr_id x = pr_id r \<or> pr_run_attempt_id x = pr_run_attempt_id r) (adb_registry d)
      then Inl (DbUnique ''agent_process_registry'')
      else if \<not> list_ex (\<lambda>x. aa_id x = pr_run_attempt_id r) (adb_attempts d) then Inl (DbForeignKey ''agent_process_registry'')
      else Inr (d\<lparr>adb_registry := adb_registry d @ [r]\<rparr>))"

definition insert_run_state :: "'v AgentRunStateRow \<Rightarrow> 'v agent_db \<Rightarrow> DbError + 'v agent_db" where
  "insert_run_state r d =
     (if list_ex (\<lambda>x. ars_agent_run_id x = ars_agent_run_id r) (adb_states d) then Inl (DbUnique ''agent_run_state'')
      else if \<not> list_ex (\<lambda>x. ar_id x = ars_agent_run_id r) (adb_runs d) then Inl (DbForeignKey ''agent_run_state'')
      else Inr (d\<lparr>adb_states := adb_states d @ [r]\<rparr>))"

definition run_row_of :: "AgentRunRequestEnvelope \<Rightarrow> sql_text \<Rightarrow> AgentRunRecord" where
  "run_row_of rq clock = \<lparr>ar_id = rq_agent_run_id rq, ar_session_id = rq_session_id rq,
     ar_workspace_id = ws_workspace_id (rq_workspace rq), ar_request_id = rq_request_id rq,
     ar_idempotency_key = rq_idempotency_key rq, ar_correlation_id = rq_correlation_id rq,
     ar_schema_version = int (unat (rq_schema_version rq)), ar_payload_version = int (unat (rq_payload_version rq)),
     ar_runtime_profile_id = rq_runtime_profile_id rq, ar_provider_id = rq_provider_id rq,
     ar_workspace_mode = workspace_mode_string (ws_mode (rq_workspace rq)), ar_workspace_path = ws_path (rq_workspace rq),
     ar_status = APending, ar_projection_status = ProjCurrent, ar_request_envelope = rq,
     ar_created_at = clock, ar_updated_at = clock\<rparr>"

definition turn_row_of :: "AgentRunRequestEnvelope \<Rightarrow> sql_text \<Rightarrow> AgentTurnRow" where
  "turn_row_of rq clock = \<lparr>at_id = rq_turn_id rq, at_agent_run_id = rq_agent_run_id rq, at_turn_number = 1,
     at_input_message = rq_input rq, at_created_at = clock, atr_request_id = rq_request_id rq,
     atr_intent = intent_string (rq_intent rq), atr_updated_at = clock\<rparr>"

definition attempt_row_of :: "AgentRunRequestEnvelope \<Rightarrow> 'v RunAttemptRequest \<Rightarrow> sql_text \<Rightarrow> 'v AgentRunAttemptRecord" where
  "attempt_row_of rq ra clock = \<lparr>aa_id = ra_run_attempt_id ra, aa_agent_run_id = rq_agent_run_id rq, aa_turn_id = rq_turn_id rq,
     aa_request_id = ra_request_id ra, aa_idempotency_key = ra_idempotency_key ra,
     aa_attempt_number = int (unat (ra_attempt_number ra)), aa_mode = attempt_mode_string (ra_mode ra),
     aa_transport = transport_string (ra_transport ra), aa_schema_version = int (unat (ra_schema_version ra)),
     aa_payload_version = int (unat (ra_payload_version ra)), aa_capability_snapshot = ra_capability_snapshot ra,
     aa_request_envelope = ra, aa_status = APending, aa_projection_status = ProjCurrent, aa_started_at = None,
     aa_finished_at = None, aa_created_at = clock, aa_updated_at = clock\<rparr>"

definition registry_row_of :: "uuid \<Rightarrow> uuid \<Rightarrow> sql_text \<Rightarrow> sql_text \<Rightarrow> AgentProcessRegistryRecord" where
  "registry_row_of i attempt_id clock now = \<lparr>pr_id = i, pr_run_attempt_id = attempt_id, pr_registry_status = RegReserved,
     pr_host_endpoint = None, pr_host_token = None, pr_host_instance_id = None, pr_host_pid = None,
     pr_last_host_event_sequence = 0, pr_supervisor_instance_id = None, pr_pid = None, pr_process_group_id = None,
     pr_process_started_at = None, pr_executable = None, pr_command_fingerprint = None, pr_exit_code = None,
     pr_observed_exited_at = None, pr_lease_owner = None, pr_lease_expires_at = None, pr_created_at = clock,
     pr_updated_at = now\<rparr>"

definition state_row_of :: "AgentRunRequestEnvelope \<Rightarrow> sql_text \<Rightarrow> 'v AgentRunStateRow" where
  "state_row_of rq clock = (let s = run_state_pending rq in \<lparr>ars_agent_run_id = rq_agent_run_id rq, ars_status = st_status s,
     ars_state_json = s, asr_state_schema_version = int (unat (st_state_schema_version s)),
     asr_reducer_version = int (unat (st_reducer_version s)), asr_last_run_attempt_id = None, asr_last_run_attempt_number = 0,
     asr_last_event_sequence = 0, asr_last_event_id = None, asr_projection_status = st_projection_status s,
     asr_updated_at = clock\<rparr>)"

text \<open>The join that finds an identity that is already persisted.\<close>

definition identity_rows ::
  "(AgentRunRecord \<Rightarrow> 'v AgentRunAttemptRecord \<Rightarrow> bool) \<Rightarrow> 'v agent_db \<Rightarrow>
   (PersistedAgentRunIdentity \<times> AgentRunRequestEnvelope \<times> 'v RunAttemptRequest) list" where
  "identity_rows P d =
     [(\<lparr>pi_agent_run_id = ar_id r, pi_turn_id = at_id t, pi_run_attempt_id = aa_id a, pi_process_registry_id = pr_id p\<rparr>,
       ar_request_envelope r, aa_request_envelope a).
      r \<leftarrow> adb_runs d, t \<leftarrow> adb_turns d, at_agent_run_id t = ar_id r,
      a \<leftarrow> adb_attempts d, aa_agent_run_id a = ar_id r \<and> P r a,
      p \<leftarrow> adb_registry d, pr_run_attempt_id p = aa_id a]"

definition existing_identity ::
  "(AgentRunRecord \<Rightarrow> 'v AgentRunAttemptRecord \<Rightarrow> bool) \<Rightarrow> 'v agent_db \<Rightarrow>
   (PersistedAgentRunIdentity \<times> AgentRunRequestEnvelope \<times> 'v RunAttemptRequest) option" where
  "existing_identity P d = (case identity_rows P d of [] \<Rightarrow> None | x # _ \<Rightarrow> Some x)"

definition insert_identity ::
  "sql_env \<Rightarrow> uuid \<Rightarrow> AgentRunRequestEnvelope \<Rightarrow> 'v RunAttemptRequest \<Rightarrow> datetime \<Rightarrow> sql_text \<Rightarrow> 'v agent_db \<Rightarrow> DbError + 'v agent_db" where
  "insert_identity env registry_id rq ra now clock d =
     and_then (insert_agent_run (run_row_of rq clock) d) (\<lambda>d.
     and_then (insert_turn (turn_row_of rq clock) d) (\<lambda>d.
     and_then (insert_attempt (attempt_row_of rq ra clock) d) (\<lambda>d.
     and_then (insert_registry (registry_row_of registry_id (ra_run_attempt_id ra) clock (sql_bind env now)) d) (\<lambda>d.
     insert_run_state (state_row_of rq clock) d))))"

definition persist_identity_before_launch ::
  "sql_env \<Rightarrow> uuid \<Rightarrow> AgentRunRequestEnvelope \<Rightarrow> 'v RunAttemptRequest \<Rightarrow> datetime \<Rightarrow> sql_text \<Rightarrow> 'v agent_db \<Rightarrow>
   (AgentRuntimePersistenceError + PersistedAgentRunIdentity) \<times> 'v agent_db" where
  "persist_identity_before_launch env registry_id rq ra now clock d =
     (case validate_for_run ra rq of
        Inl e \<Rightarrow> (Inl (AInvalidAttempt e), d)
      | Inr _ \<Rightarrow>
          if ra_attempt_number ra \<noteq> 1 then (Inl AInvalidFirstAttempt, d)
          else transaction (\<lambda>d.
            case existing_identity (\<lambda>r a. ar_idempotency_key r = rq_idempotency_key rq \<and> aa_attempt_number a = 1) d of
              Some (identity, rq', ra') \<Rightarrow>
                if rq' \<noteq> rq \<or> ra' \<noteq> ra then Inl (AIdempotencyConflict ''agent run'' (rq_idempotency_key rq))
                else Inr (identity, d)
            | None \<Rightarrow>
                and_then (map_err ADatabase (insert_identity env registry_id rq ra now clock d)) (\<lambda>d.
                Inr (\<lparr>pi_agent_run_id = rq_agent_run_id rq, pi_turn_id = rq_turn_id rq,
                  pi_run_attempt_id = ra_run_attempt_id ra, pi_process_registry_id = registry_id\<rparr>, d))) d)"

definition persist_retry_attempt_before_launch ::
  "sql_env \<Rightarrow> uuid \<Rightarrow> AgentRunRequestEnvelope \<Rightarrow> 'v RunAttemptRequest \<Rightarrow> datetime \<Rightarrow> sql_text \<Rightarrow> 'v agent_db \<Rightarrow>
   (AgentRuntimePersistenceError + PersistedAgentRunIdentity) \<times> 'v agent_db" where
  "persist_retry_attempt_before_launch env registry_id rq ra now clock d =
     (case validate_for_run ra rq of
        Inl e \<Rightarrow> (Inl (AInvalidAttempt e), d)
      | Inr _ \<Rightarrow>
          if ra_attempt_number ra \<le> 1 then (Inl AInvalidFirstAttempt, d)
          else transaction (\<lambda>d.
            case existing_identity (\<lambda>r a. aa_idempotency_key a = ra_idempotency_key ra) d of
              Some (identity, rq', ra') \<Rightarrow>
                if rq' \<noteq> rq \<or> ra' \<noteq> ra then Inl (AIdempotencyConflict ''run attempt'' (ra_idempotency_key ra))
                else Inr (identity, d)
            | None \<Rightarrow>
                (case find (\<lambda>r. ar_id r = rq_agent_run_id rq) (adb_runs d) of
                   None \<Rightarrow> Inl (AMissingState (rq_agent_run_id rq))
                 | Some run \<Rightarrow>
                     if ar_request_envelope run \<noteq> rq then Inl (AIdempotencyConflict ''agent run'' (rq_idempotency_key rq))
                     else
                       and_then (map_err ADatabase (insert_attempt (attempt_row_of rq ra clock) d)) (\<lambda>d.
                       and_then (map_err ADatabase (insert_registry (registry_row_of registry_id (ra_run_attempt_id ra) clock (sql_bind env now)) d)) (\<lambda>d.
                       Inr (\<lparr>pi_agent_run_id = rq_agent_run_id rq, pi_turn_id = rq_turn_id rq,
                         pi_run_attempt_id = ra_run_attempt_id ra, pi_process_registry_id = registry_id\<rparr>, d))))) d)"

section \<open>Events\<close>

definition agent_event_row :: "i64 \<Rightarrow> 'v AgentEventEnvelope \<Rightarrow> sql_text \<Rightarrow> 'v AgentEventRow" where
  "agent_event_row sequence e clock = \<lparr>aev_event_id = ae_event_id e, aev_agent_run_id = ae_agent_run_id e, aev_event_envelope = e,
     aer_session_id = ae_session_id e, aer_turn_id = ae_turn_id e, aer_run_attempt_id = ae_run_attempt_id e,
     aer_run_attempt_number = int (unat (ae_run_attempt_number e)), aer_sequence = sequence,
     aer_correlation_id = ae_correlation_id e, aer_schema_version = int (unat (ae_schema_version e)),
     aer_payload_version = int (unat (ae_payload_version e)), aer_created_at = clock\<rparr>"

definition insert_agent_event :: "'v AgentEventRow \<Rightarrow> 'v agent_db \<Rightarrow> DbError + 'v agent_db" where
  "insert_agent_event r d =
     (if aer_run_attempt_number r \<le> 0 \<or> aer_sequence r \<le> 0 \<or> aer_schema_version r \<le> 0 \<or> aer_payload_version r \<le> 0
      then Inl (DbCheck ''agent_events'')
      else if list_ex (\<lambda>x. aev_event_id x = aev_event_id r \<or>
                aer_run_attempt_id x = aer_run_attempt_id r \<and> aer_sequence x = aer_sequence r) (adb_events d)
      then Inl (DbUnique ''agent_events'')
      else if \<not> list_ex (\<lambda>x. ar_id x = aev_agent_run_id r \<and> ar_session_id x = aer_session_id r) (adb_runs d) \<or>
              \<not> list_ex (\<lambda>x. at_id x = aer_turn_id r \<and> at_agent_run_id x = aev_agent_run_id r) (adb_turns d) \<or>
              \<not> list_ex (\<lambda>x. aa_id x = aer_run_attempt_id r \<and> aa_agent_run_id x = aev_agent_run_id r \<and>
                   aa_turn_id x = aer_turn_id r \<and> aa_attempt_number x = aer_run_attempt_number r) (adb_attempts d)
      then Inl (DbForeignKey ''agent_events'')
      else Inr (d\<lparr>adb_events := adb_events d @ [r]\<rparr>))"

text \<open>\<open>append\<close>: the event alone, \<open>ON CONFLICT(event_id) DO NOTHING\<close>.\<close>

definition append_agent_event ::
  "sql_env \<Rightarrow> sql_text \<Rightarrow> 'v AgentEventEnvelope \<Rightarrow> 'v agent_db \<Rightarrow> (AgentRuntimePersistenceError + bool) \<times> 'v agent_db" where
  "append_agent_event env clock e d =
     (case agent_validate_for_projection e of
        Inl _ \<Rightarrow> (Inl ASerialization, d)
      | Inr _ \<Rightarrow>
     (case i64_of_u64 (ae_sequence e) of
        None \<Rightarrow> (Inl ASerialization, d)
      | Some sequence \<Rightarrow>
     let row = agent_event_row sequence e clock in
     (case find (\<lambda>r. aev_event_id r = ae_event_id e) (adb_events d) of
        Some existing \<Rightarrow>
          if aer_run_attempt_number row \<le> 0 \<or> aer_sequence row \<le> 0 \<or> aer_schema_version row \<le> 0 \<or> aer_payload_version row \<le> 0
          then (Inl (ADatabase (DbCheck ''agent_events'')), d)
          else if aev_event_envelope existing = e then (Inr False, d)
          else (Inl (AIdempotencyConflict ''agent event'' (uuid_text env (ae_event_id e))), d)
      | None \<Rightarrow>
          (case insert_agent_event row d of
             Inl err \<Rightarrow> (Inl (ADatabase err), d)
           | Inr d' \<Rightarrow> (Inr True, d')))))"

text \<open>The three updates that store a projected state.\<close>

definition store_run_projection :: "sql_env \<Rightarrow> 'v AgentEventEnvelope \<Rightarrow> i64 \<Rightarrow> 'v RunState \<Rightarrow> 'v agent_db \<Rightarrow> 'v agent_db" where
  "store_run_projection env e sequence s d = (let updated = sql_bind env (st_updated_at s) in d\<lparr>
     adb_states := update_where (\<lambda>r. ars_agent_run_id r = ae_agent_run_id e)
       (\<lambda>r. r\<lparr>asr_last_run_attempt_id := st_last_run_attempt_id s,
              asr_last_run_attempt_number := int (unat (st_last_run_attempt_number s)),
              asr_last_event_sequence := sequence, asr_last_event_id := st_last_event_id s, ars_status := st_status s,
              asr_projection_status := st_projection_status s, ars_state_json := s, asr_updated_at := updated\<rparr>) (adb_states d),
     adb_runs := update_where (\<lambda>r. ar_id r = ae_agent_run_id e)
       (\<lambda>r. r\<lparr>ar_status := st_status s, ar_projection_status := st_projection_status s, ar_updated_at := updated\<rparr>) (adb_runs d),
     adb_attempts := update_where (\<lambda>r. aa_id r = ae_run_attempt_id e)
       (\<lambda>r. r\<lparr>aa_status := st_status s, aa_projection_status := st_projection_status s,
              aa_finished_at := (if agent_terminal (st_status s) \<and> aa_finished_at r = None then Some updated else aa_finished_at r),
              aa_updated_at := updated\<rparr>) (adb_attempts d)\<rparr>)"

definition append_and_project_agent_body ::
  "sql_env \<Rightarrow> sql_text \<Rightarrow> 'v AgentEventEnvelope \<Rightarrow> i64 \<Rightarrow> 'v agent_db \<Rightarrow>
   AgentRuntimePersistenceError + (ReducerApply \<times> 'v agent_db)" where
  "append_and_project_agent_body env clock e sequence d =
     (case find (\<lambda>r. aev_event_id r = ae_event_id e) (adb_events d) of
       Some existing \<Rightarrow>
         if aev_event_envelope existing = e then Inr (RDuplicate, d)
         else Inl (AIdempotencyConflict ''agent event'' (uuid_text env (ae_event_id e)))
     | None \<Rightarrow>
     (case find (\<lambda>r. aer_run_attempt_id r = ae_run_attempt_id e \<and> aer_sequence r = sequence) (adb_events d) of
       Some existing \<Rightarrow>
         if aev_event_envelope existing = e then Inr (RDuplicate, d)
         else Inl (AIdempotencyConflict ''agent event sequence''
                (uuid_text env (ae_run_attempt_id e) @ '':'' @ dec_of_nat (nat sequence)))
     | None \<Rightarrow>
     (case find (\<lambda>r. ars_agent_run_id r = ae_agent_run_id e) (adb_states d) of
       None \<Rightarrow> Inl (AMissingState (ae_agent_run_id e))
     | Some row \<Rightarrow>
     (case reduce_agent_event (ars_state_json row) e of
       (_, Inl err) \<Rightarrow> Inl (AReducer err)
     | (s, Inr outcome) \<Rightarrow>
         and_then (map_err ADatabase (insert_agent_event (agent_event_row sequence e clock) d)) (\<lambda>d1.
           Inr (outcome, store_run_projection env e sequence s d1))))))"

definition append_and_project_agent ::
  "sql_env \<Rightarrow> sql_text \<Rightarrow> 'v AgentEventEnvelope \<Rightarrow> 'v agent_db \<Rightarrow>
   (AgentRuntimePersistenceError + ReducerApply) \<times> 'v agent_db" where
  "append_and_project_agent env clock e d =
     (case agent_validate_for_projection e of
        Inl err \<Rightarrow> (Inl (AInvalidVersion err), d)
      | Inr _ \<Rightarrow>
     (case i64_of_u64 (ae_sequence e) of
        None \<Rightarrow> (Inl ASerialization, d)
      | Some sequence \<Rightarrow> transaction (append_and_project_agent_body env clock e sequence) d))"

text \<open>\<open>mark_projection_degraded\<close>: a read and two updates on the pool, outside a transaction; the state that is written back is
  the one that was read.\<close>

definition read_run_state :: "uuid \<Rightarrow> 'v agent_db \<Rightarrow> AgentRuntimePersistenceError + 'v RunState" where
  "read_run_state run_id d = (case find (\<lambda>r. ars_agent_run_id r = run_id) (adb_states d) of
     None \<Rightarrow> Inl (AMissingState run_id)
   | Some row \<Rightarrow> Inr (ars_state_json row))"

definition write_degraded_state :: "sql_env \<Rightarrow> uuid \<Rightarrow> 'v RunState \<Rightarrow> datetime \<Rightarrow> 'v agent_db \<Rightarrow> 'v agent_db" where
  "write_degraded_state env run_id state now d = d\<lparr>adb_states := update_where (\<lambda>r. ars_agent_run_id r = run_id)
     (\<lambda>r. r\<lparr>asr_projection_status := ProjDegraded, ars_state_json := degrade_run state,
            asr_updated_at := sql_bind env now\<rparr>) (adb_states d)\<rparr>"

definition write_degraded_run :: "sql_env \<Rightarrow> uuid \<Rightarrow> datetime \<Rightarrow> 'v agent_db \<Rightarrow> 'v agent_db" where
  "write_degraded_run env run_id now d = d\<lparr>adb_runs := update_where (\<lambda>r. ar_id r = run_id)
     (\<lambda>r. r\<lparr>ar_projection_status := ProjDegraded, ar_updated_at := sql_bind env now\<rparr>) (adb_runs d)\<rparr>"

definition mark_projection_degraded ::
  "sql_env \<Rightarrow> uuid \<Rightarrow> datetime \<Rightarrow> datetime \<Rightarrow> 'v agent_db \<Rightarrow> (AgentRuntimePersistenceError + unit) \<times> 'v agent_db" where
  "mark_projection_degraded env run_id now now' d =
     (case read_run_state run_id d of
        Inl e \<Rightarrow> (Inl e, d)
      | Inr state \<Rightarrow> (Inr (), write_degraded_run env run_id now' (write_degraded_state env run_id state now d)))"

text \<open>\<open>mark_seen_by_workspace_id\<close>: an upsert for every run of the workspace.\<close>

definition mark_seen_by_workspace_id :: "uuid \<Rightarrow> sql_text \<Rightarrow> 'v agent_db \<Rightarrow> 'v agent_db" where
  "mark_seen_by_workspace_id workspace_id clock d =
     (let ids = map ar_id (filter (\<lambda>r. ar_workspace_id r = workspace_id) (adb_runs d)) in d\<lparr>
        adb_seen := update_where (\<lambda>(i, _). i \<in> set ids) (\<lambda>(i, _). (i, clock)) (adb_seen d) @
          map (\<lambda>i. (i, clock)) (filter (\<lambda>i. i \<notin> fst ` set (adb_seen d)) ids)\<rparr>)"

section \<open>The log and its projection\<close>

definition agent_log :: "uuid \<Rightarrow> 'v agent_db \<Rightarrow> 'v AgentEventEnvelope list" where
  "agent_log run_id d = map aev_event_envelope (filter (\<lambda>r. aev_agent_run_id r = run_id) (adb_events d))"

definition replayed :: "AgentRunRecord \<Rightarrow> 'v AgentEventEnvelope list \<Rightarrow> 'v RunState" where
  "replayed run es = deliver reduce_agent_event (run_state_pending (ar_request_envelope run)) es"

text \<open>A run row and its state row are the projection of the log of the run, which the reducer has applied in full; the
  state may have been marked as degraded. (The run's own \<open>projection_status\<close> column is not part of this: a mark updates it
  after the state.)\<close>

definition agent_projected :: "AgentRunRecord \<Rightarrow> 'v AgentRunStateRow \<Rightarrow> 'v AgentEventEnvelope list \<Rightarrow> bool" where
  "agent_projected run st es \<longleftrightarrow> (let s = ars_state_json st in
     ars_agent_run_id st = ar_id run \<and> (s = replayed run es \<or> s = degrade_run (replayed run es)) \<and>
     applied reduce_agent_event RDuplicate (run_state_pending (ar_request_envelope run)) es = es \<and>
     ars_status st = st_status s \<and> ar_status run = st_status s \<and>
     asr_projection_status st = st_projection_status s \<and>
     asr_last_run_attempt_id st = st_last_run_attempt_id s \<and>
     asr_last_run_attempt_number st = int (unat (st_last_run_attempt_number s)) \<and>
     asr_last_event_sequence st = int (unat (st_last_event_sequence s)) \<and> asr_last_event_id st = st_last_event_id s)"

definition agent_event_row_ok :: "'v AgentEventRow \<Rightarrow> bool" where
  "agent_event_row_ok r \<longleftrightarrow> r = agent_event_row (int (unat (ae_sequence (aev_event_envelope r)))) (aev_event_envelope r) (aer_created_at r)"

definition agent_log_ok :: "'v agent_db \<Rightarrow> bool" where
  "agent_log_ok d \<longleftrightarrow> distinct (map ar_id (adb_runs d)) \<and> distinct (map aev_event_id (adb_events d)) \<and>
     list_all agent_event_row_ok (adb_events d) \<and> aev_agent_run_id ` set (adb_events d) \<subseteq> ar_id ` set (adb_runs d) \<and>
     list_all2 (\<lambda>run st. agent_projected run st (agent_log (ar_id run) d)) (adb_runs d) (adb_states d)"

lemma agent_projected_empty: "agent_projected (run_row_of rq clock) (state_row_of rq clock') []"
  by (simp add: agent_projected_def run_row_of_def state_row_of_def replayed_def run_state_pending_def Let_def)

lemma agent_log_ok_states: "agent_log_ok d \<Longrightarrow> map ars_agent_run_id (adb_states d) = map ar_id (adb_runs d)"
proof -
  have "list_all2 (\<lambda>run st. agent_projected run st (agent_log (ar_id run) d)) rs ss \<Longrightarrow>
      map ars_agent_run_id ss = map ar_id rs" for rs ss
    by (induction rule: list_all2_induct) (auto simp: agent_projected_def Let_def)
  then show "agent_log_ok d \<Longrightarrow> ?thesis" by (auto simp: agent_log_ok_def)
qed

lemma agent_log_ok_distinct_states: "agent_log_ok d \<Longrightarrow> distinct (map ars_agent_run_id (adb_states d))"
  using agent_log_ok_states by (force simp: agent_log_ok_def)

lemma agent_log_ok_run:
  assumes "agent_log_ok d" "run \<in> set (adb_runs d)"
  obtains st where "st \<in> set (adb_states d)" "agent_projected run st (agent_log (ar_id run) d)"
  using assms by (auto simp: agent_log_ok_def list_all2_conv_all_nth in_set_conv_nth) metis

lemma agent_log_ok_cong:
  "adb_runs d' = adb_runs d \<Longrightarrow> adb_events d' = adb_events d \<Longrightarrow> adb_states d' = adb_states d \<Longrightarrow> agent_log_ok d' = agent_log_ok d"
  by (simp add: agent_log_ok_def agent_log_def)

text \<open>Degrading commutes with the reducer.\<close>

lemma commit_degraded:
  "fst (commit_agent_event n (degrade_run s) e) = degrade_run (fst (commit_agent_event n s e))"
proof -
  have gap: "agent_had_gap n (degrade_run s) e = agent_had_gap n s e"
    by (simp add: agent_had_gap_def degrade_run_def)
  have payload: "fst (apply_agent_payload m (degrade_run t) p) = degrade_run (fst (apply_agent_payload m t p))" for m and t :: "'a RunState" and p
    by (auto simp: apply_agent_payload_def degrade_run_def split: AgentEventPayload.splits)
  have reset: "(degrade_run t)\<lparr>st_terminal_output := None, st_last_error := None\<rparr> =
      degrade_run (t\<lparr>st_terminal_output := None, st_last_error := None\<rparr>)" for t :: "'a RunState"
    by (simp add: degrade_run_def)
  have stamp: "(degrade_run t)\<lparr>st_last_run_attempt_id := i, st_last_run_attempt_number := k, st_last_event_sequence := m,
      st_last_event_id := j, st_updated_at := u\<rparr> = degrade_run (t\<lparr>st_last_run_attempt_id := i,
      st_last_run_attempt_number := k, st_last_event_sequence := m, st_last_event_id := j, st_updated_at := u\<rparr>)"
    for t :: "'a RunState" and i k m j u
    by (simp add: degrade_run_def)
  show ?thesis
    unfolding commit_agent_event_def Let_def gap split_beta fst_conv
    by (cases "agent_had_gap n s e"; cases n) (simp_all add: reset payload stamp)
qed

lemma reduce_degraded:
  assumes "reduce_agent_event (degrade_run s) e = (s', Inr a)" "a \<noteq> RDuplicate"
  obtains b where "reduce_agent_event s e = (fst (reduce_agent_event s e), Inr b)" "b \<noteq> RDuplicate"
    "s' = degrade_run (fst (reduce_agent_event s e))"
proof -
  from reduce_agent_outcome [OF assms(1)] assms(2) obtain n where n: "agent_admitted s e" "is_new_attempt s e = Inr n"
      "n \<or> st_last_event_sequence s < ae_sequence e" "commit_agent_event n (degrade_run s) e = (s', a)"
    by auto
  then have red: "reduce_agent_event s e = (fst (commit_agent_event n s e), Inr (snd (commit_agent_event n s e)))"
    by (auto simp: reduce_agent_admitted)
  show thesis
  proof (rule that)
    show "snd (commit_agent_event n s e) \<noteq> RDuplicate" by (rule commit_agent_event_facts(6) [OF surjective_pairing])
    show "s' = degrade_run (fst (reduce_agent_event s e))" using n(4) commit_degraded [of n s e] red by simp
  qed (simp add: red)
qed

lemma reduce_agent_committed:
  assumes "reduce_agent_event s e = (s', Inr a)" "a \<noteq> RDuplicate"
  shows "st_last_run_attempt_id s' = Some (ae_run_attempt_id e)" "st_last_run_attempt_number s' = ae_run_attempt_number e"
    "st_last_event_sequence s' = ae_sequence e" "st_last_event_id s' = Some (ae_event_id e)"
  using reduce_agent_outcome [OF assms(1)] assms(2) commit_agent_event_facts(7-10) by blast+

text \<open>The state of a log that was applied in full names the last event of the log.\<close>

lemma agent_log_last_event:
  assumes "applied reduce_agent_event RDuplicate s es = es" "es \<noteq> []"
  shows "st_last_event_id (deliver reduce_agent_event s es) = Some (ae_event_id (last es))"
proof -
  from assms(2) obtain xs e where es: "es = xs @ [e]" by (metis rev_exhaust)
  let ?s = "deliver reduce_agent_event s xs"
  obtain s' r where red: "reduce_agent_event ?s e = (s', r)" by (cases "reduce_agent_event ?s e")
  with applied_all_snoc(2) [of reduce_agent_event RDuplicate s xs e] assms(1)
  obtain a where a: "r = Inr a" "a \<noteq> RDuplicate" by (auto simp: es split: sum.splits if_splits)
  from reduce_agent_committed(4) [OF red [unfolded a(1)] a(2)] red show ?thesis by (simp add: es deliver_append)
qed

section \<open>What the operations do to the log\<close>

lemmas insert_defs = insert_agent_run_def insert_turn_def insert_attempt_def insert_registry_def insert_run_state_def

lemma insert_agent_run_ok:
  assumes "insert_agent_run r d = Inr d'"
  shows "ar_id r \<notin> ar_id ` set (adb_runs d)" "d' = d\<lparr>adb_runs := adb_runs d @ [r]\<rparr>"
  using assms by (auto simp: insert_agent_run_def list_ex_iff split: if_splits)

lemma insert_frames:
  "insert_turn t d = Inr d' \<Longrightarrow> d' = d\<lparr>adb_turns := adb_turns d @ [t]\<rparr>"
  "insert_attempt a d = Inr d' \<Longrightarrow> d' = d\<lparr>adb_attempts := adb_attempts d @ [a]\<rparr>"
  "insert_registry p d = Inr d' \<Longrightarrow> d' = d\<lparr>adb_registry := adb_registry d @ [p]\<rparr>"
  "insert_run_state s d = Inr d' \<Longrightarrow> d' = d\<lparr>adb_states := adb_states d @ [s]\<rparr>"
  by (auto simp: insert_defs split: if_splits)

lemma insert_attempt_fresh: "insert_attempt a d = Inr d' \<Longrightarrow> aa_id a \<notin> aa_id ` set (adb_attempts d)"
  by (auto simp: insert_attempt_def list_ex_iff split: if_splits)

lemma insert_identity_ok:
  assumes "insert_identity env i rq ra now clock d = Inr d'"
  shows "rq_agent_run_id rq \<notin> ar_id ` set (adb_runs d)" "ra_run_attempt_id ra \<notin> aa_id ` set (adb_attempts d)"
    "d' = d\<lparr>adb_runs := adb_runs d @ [run_row_of rq clock], adb_turns := adb_turns d @ [turn_row_of rq clock],
       adb_attempts := adb_attempts d @ [attempt_row_of rq ra clock],
       adb_registry := adb_registry d @ [registry_row_of i (ra_run_attempt_id ra) clock (sql_bind env now)],
       adb_states := adb_states d @ [state_row_of rq clock]\<rparr>"
proof -
  from assms obtain d1 d2 d3 d4 where ins: "insert_agent_run (run_row_of rq clock) d = Inr d1"
      "insert_turn (turn_row_of rq clock) d1 = Inr d2" "insert_attempt (attempt_row_of rq ra clock) d2 = Inr d3"
      "insert_registry (registry_row_of i (ra_run_attempt_id ra) clock (sql_bind env now)) d3 = Inr d4"
      "insert_run_state (state_row_of rq clock) d4 = Inr d'"
    unfolding insert_identity_def and_then_eq_Inr by blast
  from insert_agent_run_ok(1) [OF ins(1)] show "rq_agent_run_id rq \<notin> ar_id ` set (adb_runs d)"
    by (simp add: run_row_of_def)
  from insert_attempt_fresh [OF ins(3)] insert_agent_run_ok(2) [OF ins(1)] insert_frames(1) [OF ins(2)]
  show "ra_run_attempt_id ra \<notin> aa_id ` set (adb_attempts d)" by (simp add: attempt_row_of_def)
  from insert_agent_run_ok(2) [OF ins(1)] insert_frames(1) [OF ins(2)] insert_frames(2) [OF ins(3)]
    insert_frames(3) [OF ins(4)] insert_frames(4) [OF ins(5)]
  show "d' = d\<lparr>adb_runs := adb_runs d @ [run_row_of rq clock], adb_turns := adb_turns d @ [turn_row_of rq clock],
       adb_attempts := adb_attempts d @ [attempt_row_of rq ra clock],
       adb_registry := adb_registry d @ [registry_row_of i (ra_run_attempt_id ra) clock (sql_bind env now)],
       adb_states := adb_states d @ [state_row_of rq clock]\<rparr>" by simp
qed

lemma persist_identity_cases:
  assumes "persist_identity_before_launch env i rq ra now clock d = (res, d')"
  obtains "d' = d"
  | "insert_identity env i rq ra now clock d = Inr d'"
    "res = Inr \<lparr>pi_agent_run_id = rq_agent_run_id rq, pi_turn_id = rq_turn_id rq,
       pi_run_attempt_id = ra_run_attempt_id ra, pi_process_registry_id = i\<rparr>"
  using assms
  by (auto simp: persist_identity_before_launch_def transaction_def result_simps
      split: sum.splits option.splits if_splits prod.splits)

lemma persist_retry_inserts:
  assumes "persist_retry_attempt_before_launch env i rq ra now clock d = (res, d')"
  obtains "d' = d" | d1 where "insert_attempt (attempt_row_of rq ra clock) d = Inr d1"
    "insert_registry (registry_row_of i (ra_run_attempt_id ra) clock (sql_bind env now)) d1 = Inr d'"
  using assms
  by (auto simp: persist_retry_attempt_before_launch_def transaction_def result_simps
      split: sum.splits option.splits if_splits prod.splits)

lemma persist_retry_cases:
  assumes "persist_retry_attempt_before_launch env i rq ra now clock d = (res, d')"
  obtains "d' = d"
  | "ra_run_attempt_id ra \<notin> aa_id ` set (adb_attempts d)"
    "d' = d\<lparr>adb_attempts := adb_attempts d @ [attempt_row_of rq ra clock],
       adb_registry := adb_registry d @ [registry_row_of i (ra_run_attempt_id ra) clock (sql_bind env now)]\<rparr>"
  using assms
proof (cases rule: persist_retry_inserts)
  case (2 d1)
  from insert_attempt_fresh [OF 2(1)] insert_frames(2) [OF 2(1)] insert_frames(3) [OF 2(2)] that(2) show thesis
    by (simp add: attempt_row_of_def)
qed (rule that(1))

lemma agent_log_ok_identity:
  assumes "agent_log_ok d" "persist_identity_before_launch env i rq ra now clock d = (res, d')"
  shows "agent_log_ok d'"
  using assms(2)
proof (cases rule: persist_identity_cases)
  case 2
  note new = insert_identity_ok [OF 2(1)]
  have "agent_log (rq_agent_run_id rq) d = []"
    using assms(1) new(1) by (force simp: agent_log_ok_def agent_log_def filter_empty_conv)
  moreover have logs: "agent_log j d' = agent_log j d" for j by (simp add: new(3) agent_log_def)
  moreover have row: "ar_id (run_row_of rq clock) = rq_agent_run_id rq" by (simp add: run_row_of_def)
  ultimately have "list_all2 (\<lambda>run st. agent_projected run st (agent_log (ar_id run) d')) (adb_runs d') (adb_states d')"
    unfolding logs unfolding new(3)
    using assms(1) agent_projected_empty [of rq clock clock] by (auto simp: agent_log_ok_def intro!: list_all2_appendI)
  then show ?thesis using assms(1) new(1) row by (auto simp: agent_log_ok_def new(3))
qed (use assms(1) in simp)

lemma agent_log_ok_retry:
  assumes "agent_log_ok d" "persist_retry_attempt_before_launch env i rq ra now clock d = (res, d')"
  shows "agent_log_ok d'"
  using assms(2) by (cases rule: persist_retry_cases) (use assms(1) agent_log_ok_cong [of d' d] in simp_all)

text \<open>A mark whose state is still the stored one, up to the mark itself, keeps the projection; the second update always does.\<close>

definition still_stored :: "uuid \<Rightarrow> 'v RunState \<Rightarrow> 'v agent_db \<Rightarrow> bool" where
  "still_stored run_id state d \<longleftrightarrow> (\<exists>s. read_run_state run_id d = Inr s \<and> degrade_run state = degrade_run s)"

lemma agent_log_ok_write_state:
  assumes "agent_log_ok d" "still_stored run_id state d"
  shows "agent_log_ok (write_degraded_state env run_id state now d)"
proof -
  from assms(2) obtain row where row: "find (\<lambda>r. ars_agent_run_id r = run_id) (adb_states d) = Some row"
    "degrade_run state = degrade_run (ars_state_json row)"
    by (auto simp: still_stored_def read_run_state_def split: option.splits)
  define g where "g = (\<lambda>y :: 'a AgentRunStateRow. if ars_agent_run_id y = run_id then y\<lparr>asr_projection_status := ProjDegraded,
      ars_state_json := degrade_run state, asr_updated_at := sql_bind env now\<rparr> else y)"
  let ?d = "write_degraded_state env run_id state now d"
  have d': "?d = d\<lparr>adb_states := map g (adb_states d)\<rparr>" by (simp add: write_degraded_state_def update_where_def g_def)
  have "agent_projected x (g y) (agent_log (ar_id x) ?d)"
    if "x \<in> set (adb_runs d)" "y \<in> set (adb_states d)" "agent_projected x y (agent_log (ar_id x) d)" for x y
  proof (cases "ars_agent_run_id y = run_id")
    case True
    from find_distinct [OF agent_log_ok_distinct_states [OF assms(1)] that(2) True] row(1) have "y = row" by simp
    with that(3) True row(2) show ?thesis
      by (auto simp: agent_projected_def Let_def g_def d' agent_log_def replayed_def degrade_run_def)
  qed (use that(3) in \<open>simp add: g_def d' agent_log_def\<close>)
  then have "list_all2 (\<lambda>run st. agent_projected run st (agent_log (ar_id run) ?d)) (adb_runs ?d) (adb_states ?d)"
    using assms(1) by (auto simp: d' agent_log_ok_def list_all2_map2 elim!: list.rel_mono_strong)
  then show ?thesis using assms(1) by (auto simp: agent_log_ok_def d')
qed

lemma agent_log_ok_write_run:
  assumes "agent_log_ok d"
  shows "agent_log_ok (write_degraded_run env run_id now d)"
proof -
  define f where "f = (\<lambda>x :: AgentRunRecord. if ar_id x = run_id then x\<lparr>ar_projection_status := ProjDegraded,
      ar_updated_at := sql_bind env now\<rparr> else x)"
  let ?d = "write_degraded_run env run_id now d"
  have d': "?d = d\<lparr>adb_runs := map f (adb_runs d)\<rparr>" by (simp add: write_degraded_run_def update_where_def f_def)
  have ids: "ar_id (f x) = ar_id x" "ar_request_envelope (f x) = ar_request_envelope x" "ar_status (f x) = ar_status x" for x
    by (simp_all add: f_def)
  have "agent_projected (f x) y (agent_log (ar_id (f x)) ?d) = agent_projected x y (agent_log (ar_id x) d)" for x y
    by (simp add: agent_projected_def replayed_def ids agent_log_def d')
  with assms show ?thesis by (auto simp: agent_log_ok_def d' ids comp_def image_image list_all2_map1)
qed

lemma insert_agent_event_ok:
  assumes "insert_agent_event r d = Inr d'"
  shows "aev_event_id r \<notin> aev_event_id ` set (adb_events d)" "aev_agent_run_id r \<in> ar_id ` set (adb_runs d)"
    "\<exists>x \<in> set (adb_attempts d). aa_id x = aer_run_attempt_id r \<and> aa_agent_run_id x = aev_agent_run_id r"
    "d' = d\<lparr>adb_events := adb_events d @ [r]\<rparr>"
  using assms by (auto simp: insert_agent_event_def list_ex_iff image_iff split: if_splits) metis+

text \<open>A successful append is a duplicate or a new event that the reducer accepted.\<close>

lemma append_agent_cases:
  assumes "append_and_project_agent env clock e d = (Inr a, d')"
  obtains (duplicate) "a = RDuplicate" "d' = d" "\<exists>r \<in> set (adb_events d). aev_event_envelope r = e"
  | (new) row s where "ae_event_id e \<notin> aev_event_id ` set (adb_events d)" "ae_agent_run_id e \<in> ar_id ` set (adb_runs d)"
    "\<exists>x \<in> set (adb_attempts d). aa_id x = ae_run_attempt_id e \<and> aa_agent_run_id x = ae_agent_run_id e"
    "find (\<lambda>r. ars_agent_run_id r = ae_agent_run_id e) (adb_states d) = Some row"
    "reduce_agent_event (ars_state_json row) e = (s, Inr a)"
    "d' = store_run_projection env e (int (unat (ae_sequence e))) s
       (d\<lparr>adb_events := adb_events d @ [agent_event_row (int (unat (ae_sequence e))) e clock]\<rparr>)"
proof -
  from assms obtain n where n: "i64_of_u64 (ae_sequence e) = Some n" "append_and_project_agent_body env clock e n d = Inr (a, d')"
    by (auto simp: append_and_project_agent_def transaction_ok_iff split: sum.splits option.splits)
  then have n_eq: "n = int (unat (ae_sequence e))" by (auto simp: i64_of_u64_def split: if_splits)
  let ?by_id = "find (\<lambda>r. aev_event_id r = ae_event_id e) (adb_events d)"
  let ?by_seq = "find (\<lambda>r. aer_run_attempt_id r = ae_run_attempt_id e \<and> aer_sequence r = n) (adb_events d)"
  have known: thesis if "?by_id = Some r \<or> (?by_id = None \<and> ?by_seq = Some r)" for r
  proof -
    from that n(2) have "a = RDuplicate" "d' = d" "aev_event_envelope r = e"
      by (auto simp: append_and_project_agent_body_def split: if_splits)
    with that find_SomeD [of _ "adb_events d" r] duplicate show thesis by blast
  qed
  show thesis
  proof (cases "?by_id = None \<and> ?by_seq = None")
    case True
    with n(2) obtain row s d1 where
      row: "find (\<lambda>r. ars_agent_run_id r = ae_agent_run_id e) (adb_states d) = Some row"
      and red: "reduce_agent_event (ars_state_json row) e = (s, Inr a)"
      and ins: "insert_agent_event (agent_event_row n e clock) d = Inr d1"
      and d': "d' = store_run_projection env e n s d1"
      by (auto simp: append_and_project_agent_body_def result_simps split: option.splits prod.splits sum.splits)
    show thesis
      by (rule new [OF _ _ _ row red]) (use insert_agent_event_ok [OF ins] d' in \<open>simp_all add: n_eq agent_event_row_def\<close>)
  next
    case False
    with known show thesis by (cases ?by_id; cases ?by_seq) auto
  qed
qed

lemma agent_projected_step:
  assumes "agent_projected run st es" "reduce_agent_event (ars_state_json st) e = (s, Inr a)" "a \<noteq> RDuplicate"
  shows "agent_projected (run\<lparr>ar_status := st_status s, ar_projection_status := st_projection_status s, ar_updated_at := u\<rparr>)
    (st\<lparr>asr_last_run_attempt_id := st_last_run_attempt_id s, asr_last_run_attempt_number := int (unat (st_last_run_attempt_number s)),
      asr_last_event_sequence := int (unat (ae_sequence e)), asr_last_event_id := st_last_event_id s, ars_status := st_status s,
      asr_projection_status := st_projection_status s, ars_state_json := s, asr_updated_at := u\<rparr>) (es @ [e])"
proof -
  let ?r = "replayed run es" and ?init = "run_state_pending (ar_request_envelope run) :: 'a RunState"
  have "\<exists>b. reduce_agent_event ?r e = (fst (reduce_agent_event ?r e), Inr b) \<and> b \<noteq> RDuplicate \<and>
      (s = fst (reduce_agent_event ?r e) \<or> s = degrade_run (fst (reduce_agent_event ?r e)))"
  proof (cases "ars_state_json st = ?r")
    case True
    with assms(2,3) show ?thesis by auto
  next
    case False
    with assms(1) have "ars_state_json st = degrade_run ?r" by (auto simp: agent_projected_def Let_def)
    with assms(2,3) reduce_degraded [of ?r e s a] show ?thesis by auto
  qed
  then obtain b where b: "snd (reduce_agent_event ?r e) = Inr b" "b \<noteq> RDuplicate"
      "s = fst (reduce_agent_event ?r e) \<or> s = degrade_run (fst (reduce_agent_event ?r e))" by (metis snd_conv)
  from assms(1) have "applied reduce_agent_event RDuplicate ?init es = es" by (simp add: agent_projected_def Let_def)
  with b have "applied reduce_agent_event RDuplicate ?init (es @ [e]) = es @ [e]"
    by (auto simp: applied_append replayed_def split: prod.splits sum.splits)
  moreover have "st_last_event_sequence s = ae_sequence e" by (rule reduce_agent_committed [OF assms(2,3)])
  moreover have "replayed (run\<lparr>ar_status := x, ar_projection_status := y, ar_updated_at := u\<rparr>) (es @ [e]) = fst (reduce_agent_event ?r e)" for x y
    by (simp add: replayed_def deliver_append)
  ultimately show ?thesis using b(3) assms(1) by (simp add: agent_projected_def Let_def)
qed

lemma agent_log_ok_not_duplicate:
  assumes "agent_log_ok d" "agent_projected run st (agent_log (ar_id run) d)" "ae_event_id e \<notin> aev_event_id ` set (adb_events d)"
    and "reduce_agent_event (ars_state_json st) e = (s, Inr a)"
  shows "a \<noteq> RDuplicate"
proof
  assume "a = RDuplicate"
  let ?es = "agent_log (ar_id run) d"
  have "snd (commit_agent_event n (ars_state_json st) e) \<noteq> RDuplicate" for n
    by (rule commit_agent_event_facts(6) [OF surjective_pairing])
  moreover have "agent_admitted (ars_state_json st) e" using reduce_agent_not_admitted assms(4) by fastforce
  ultimately have last: "st_last_event_id (ars_state_json st) = Some (ae_event_id e)"
    using assms(4) \<open>a = RDuplicate\<close> by (auto simp: reduce_agent_admitted split: if_splits sum.splits)
  from assms(2) have "st_last_event_id (ars_state_json st) = st_last_event_id (replayed run ?es)"
    and app: "applied reduce_agent_event RDuplicate (run_state_pending (ar_request_envelope run)) ?es = ?es"
    by (auto simp: agent_projected_def Let_def)
  with last have named: "st_last_event_id (replayed run ?es) = Some (ae_event_id e)" by simp
  then have "?es \<noteq> []" by (auto simp: replayed_def run_state_pending_def)
  with agent_log_last_event [OF app] named have "ae_event_id e = ae_event_id (last ?es)" "last ?es \<in> set ?es"
    by (auto simp: replayed_def)
  moreover have "ae_event_id ` set ?es \<subseteq> aev_event_id ` set (adb_events d)"
    using assms(1) by (auto simp: agent_log_ok_def agent_log_def agent_event_row_ok_def list_all_iff agent_event_row_def
        intro!: image_eqI dest!: bspec arg_cong [where f = aev_event_id])
  ultimately show False using assms(3) by auto
qed

lemma agent_log_ok_append:
  assumes "agent_log_ok d" "append_and_project_agent env clock e d = (Inr a, d')"
  shows "agent_log_ok d'"
  using assms(2)
proof (cases rule: append_agent_cases)
  case (new row s)
  let ?run = "ae_agent_run_id e" and ?u = "sql_bind env (st_updated_at s)"
  have logs: "agent_log j d' = (if j = ?run then agent_log j d @ [e] else agent_log j d)" for j
    by (simp add: new(6) store_run_projection_def agent_log_def agent_event_row_def Let_def)
  define f where "f = (\<lambda>x :: AgentRunRecord. if ar_id x = ?run then x\<lparr>ar_status := st_status s,
      ar_projection_status := st_projection_status s, ar_updated_at := ?u\<rparr> else x)"
  define g where "g = (\<lambda>y :: 'a AgentRunStateRow. if ars_agent_run_id y = ?run then y\<lparr>
      asr_last_run_attempt_id := st_last_run_attempt_id s, asr_last_run_attempt_number := int (unat (st_last_run_attempt_number s)),
      asr_last_event_sequence := int (unat (ae_sequence e)), asr_last_event_id := st_last_event_id s, ars_status := st_status s,
      asr_projection_status := st_projection_status s, ars_state_json := s, asr_updated_at := ?u\<rparr> else y)"
  have rows: "adb_runs d' = map f (adb_runs d)" "adb_states d' = map g (adb_states d)"
    by (simp_all add: new(6) store_run_projection_def update_where_def f_def g_def Let_def)
  have step: "agent_projected (f x) (g y) (agent_log (ar_id (f x)) d')"
    if "y \<in> set (adb_states d)" "agent_projected x y (agent_log (ar_id x) d)" for x y
  proof (cases "ar_id x = ?run")
    case True
    with that(2) have y: "ars_agent_run_id y = ?run" by (simp add: agent_projected_def Let_def)
    with find_distinct [OF agent_log_ok_distinct_states [OF assms(1)] that(1) y] new(4) have "y = row" by simp
    with new(5) have red: "reduce_agent_event (ars_state_json y) e = (s, Inr a)" by simp
    from agent_projected_step [OF that(2) red agent_log_ok_not_duplicate [OF assms(1) that(2) new(1) red], of ?u] True y
    show ?thesis by (simp add: logs f_def g_def)
  next
    case False
    with that(2) have "ars_agent_run_id y \<noteq> ?run" by (simp add: agent_projected_def Let_def)
    with False that(2) show ?thesis by (simp add: logs f_def g_def)
  qed
  have "list_all2 (\<lambda>run st. agent_projected run st (agent_log (ar_id run) d')) (adb_runs d') (adb_states d')"
    unfolding rows list_all2_map1 list_all2_map2
    using assms(1) step by (auto simp: agent_log_ok_def elim!: list.rel_mono_strong)
  moreover have "map ar_id (adb_runs d') = map ar_id (adb_runs d)" by (simp add: rows f_def)
  moreover from this have "ar_id ` set (adb_runs d') = ar_id ` set (adb_runs d)" by (metis set_map)
  moreover have "adb_events d' = adb_events d @ [agent_event_row (int (unat (ae_sequence e))) e clock]"
    by (simp add: new(6) store_run_projection_def Let_def)
  ultimately show ?thesis using assms(1) new(1,2)
    by (auto simp: agent_log_ok_def agent_event_row_ok_def agent_event_row_def)
qed (use assms(1) in simp)

section \<open>The current attempt\<close>

text \<open>The attempt that the state of a run names has the status of the run, and is finished when that is terminal.\<close>

definition attempt_current :: "'v agent_db \<Rightarrow> 'v AgentRunStateRow \<Rightarrow> bool" where
  "attempt_current d st \<longleftrightarrow> (case asr_last_run_attempt_id st of None \<Rightarrow> True | Some i \<Rightarrow>
     \<exists>a \<in> set (adb_attempts d). aa_id a = i \<and> aa_agent_run_id a = ars_agent_run_id st \<and> aa_status a = ars_status st \<and>
       (agent_terminal (ars_status st) \<longrightarrow> aa_finished_at a \<noteq> None))"

definition attempts_ok :: "'v agent_db \<Rightarrow> bool" where
  "attempts_ok d \<longleftrightarrow> distinct (map aa_id (adb_attempts d)) \<and> (\<forall>st \<in> set (adb_states d). attempt_current d st)"

lemma attempt_current_mono:
  assumes "attempt_current d st" "set (adb_attempts d) \<subseteq> set (adb_attempts d')"
  shows "attempt_current d' st"
  using assms by (auto simp: attempt_current_def split: option.splits)

lemma attempts_ok_identity:
  assumes "attempts_ok d" "persist_identity_before_launch env i rq ra now clock d = (res, d')"
  shows "attempts_ok d'"
  using assms(2)
proof (cases rule: persist_identity_cases)
  case 2
  note new = insert_identity_ok [OF 2(1)]
  have "attempt_current d' (state_row_of rq clock)" by (simp add: attempt_current_def state_row_of_def Let_def)
  moreover have "attempt_current d' st" if "attempt_current d st" for st
    by (rule attempt_current_mono [OF that]) (auto simp: new(3))
  ultimately show ?thesis using assms(1) new(2) by (auto simp: attempts_ok_def new(3) attempt_row_of_def)
qed (use assms(1) in simp)

lemma attempts_ok_retry:
  assumes "attempts_ok d" "persist_retry_attempt_before_launch env i rq ra now clock d = (res, d')"
  shows "attempts_ok d'"
  using assms(2)
proof (cases rule: persist_retry_cases)
  case 2
  have "attempt_current d' st" if "attempt_current d st" for st
    by (rule attempt_current_mono [OF that]) (auto simp: 2(2))
  then show ?thesis using assms(1) 2 by (auto simp: attempts_ok_def attempt_row_of_def)
qed (use assms(1) in simp)

lemma attempt_current_cong:
  "adb_attempts d' = adb_attempts d \<Longrightarrow> asr_last_run_attempt_id y' = asr_last_run_attempt_id y \<Longrightarrow>
     ars_agent_run_id y' = ars_agent_run_id y \<Longrightarrow> ars_status y' = ars_status y \<Longrightarrow> attempt_current d' y' = attempt_current d y"
  by (cases "asr_last_run_attempt_id y") (simp_all add: attempt_current_def)

lemma attempts_ok_write_state:
  assumes "attempts_ok d"
  shows "attempts_ok (write_degraded_state env run_id state now d)"
proof -
  define g where "g = (\<lambda>y :: 'a AgentRunStateRow. if ars_agent_run_id y = run_id then y\<lparr>asr_projection_status := ProjDegraded,
      ars_state_json := degrade_run state, asr_updated_at := sql_bind env now\<rparr> else y)"
  let ?d = "write_degraded_state env run_id state now d"
  have d': "adb_states ?d = map g (adb_states d)" "adb_attempts ?d = adb_attempts d"
    by (auto simp: write_degraded_state_def update_where_def g_def)
  have "attempt_current ?d (g y) = attempt_current d y" for y
    by (rule attempt_current_cong) (simp_all add: d' g_def)
  with assms show ?thesis by (simp add: attempts_ok_def d')
qed

lemma attempts_ok_write_run: "attempts_ok d \<Longrightarrow> attempts_ok (write_degraded_run env run_id now d)"
  by (simp add: attempts_ok_def attempt_current_def write_degraded_run_def cong: option.case_cong)

lemma attempts_ok_append:
  assumes "agent_log_ok d" "attempts_ok d" "append_and_project_agent env clock e d = (Inr a, d')"
  shows "attempts_ok d'"
  using assms(3)
proof (cases rule: append_agent_cases)
  case (new row s)
  let ?run = "ae_agent_run_id e" and ?u = "sql_bind env (st_updated_at s)"
  define h where "h = (\<lambda>x :: 'a AgentRunAttemptRecord. if aa_id x = ae_run_attempt_id e then x\<lparr>aa_status := st_status s,
      aa_projection_status := st_projection_status s,
      aa_finished_at := (if agent_terminal (st_status s) \<and> aa_finished_at x = None then Some ?u else aa_finished_at x),
      aa_updated_at := ?u\<rparr> else x)"
  have att: "adb_attempts d' = map h (adb_attempts d)"
    by (simp add: new(6) store_run_projection_def update_where_def h_def Let_def)
  have keys: "aa_id (h x) = aa_id x" "aa_agent_run_id (h x) = aa_agent_run_id x" for x by (simp_all add: h_def)
  obtain x where x: "x \<in> set (adb_attempts d)" "aa_id x = ae_run_attempt_id e" "aa_agent_run_id x = ?run" using new(3) by blast
  from find_SomeD [OF new(4)] have row: "row \<in> set (adb_states d)" "ars_agent_run_id row = ?run" by auto
  from agent_log_ok_states [OF assms(1)] row(1) obtain run where run: "run \<in> set (adb_runs d)" "ar_id run = ?run"
    by (metis row(2) image_eqI in_set_conv_nth length_map nth_map nth_mem)
  obtain st where st: "st \<in> set (adb_states d)" "agent_projected run st (agent_log (ar_id run) d)"
    using agent_log_ok_run [OF assms(1) run(1)] .
  then have "st = row" using find_distinct [OF agent_log_ok_distinct_states [OF assms(1)] st(1), of ?run] new(4) run(2)
    by (simp add: agent_projected_def Let_def)
  with st new(5) have committed: "a \<noteq> RDuplicate" using agent_log_ok_not_duplicate [OF assms(1) st(2) new(1)] by blast
  have last: "st_last_run_attempt_id s = Some (ae_run_attempt_id e)" by (rule reduce_agent_committed [OF new(5) committed])
  have "attempt_current d' y'" if y': "y' \<in> set (adb_states d')" for y'
  proof -
    from y' obtain y where y: "y \<in> set (adb_states d)" "y' = (if ars_agent_run_id y = ?run then y\<lparr>
        asr_last_run_attempt_id := st_last_run_attempt_id s, asr_last_run_attempt_number := int (unat (st_last_run_attempt_number s)),
        asr_last_event_sequence := int (unat (ae_sequence e)), asr_last_event_id := st_last_event_id s, ars_status := st_status s,
        asr_projection_status := st_projection_status s, ars_state_json := s, asr_updated_at := ?u\<rparr> else y)"
      by (auto simp: new(6) store_run_projection_def set_update_where Let_def)
    show ?thesis
    proof (cases "ars_agent_run_id y = ?run")
      case True
      have "h x \<in> set (adb_attempts d')" using x(1) by (simp add: att)
      with True x y(2) last show ?thesis by (auto simp: attempt_current_def h_def intro!: bexI [of _ "h x"])
    next
      case False
      from assms(2) y(1) have cur: "attempt_current d y" by (simp add: attempts_ok_def)
      have "h z = z" if "z \<in> set (adb_attempts d)" "aa_agent_run_id z = ars_agent_run_id y" for z
      proof -
        have "aa_id z \<noteq> aa_id x" using assms(2) that x False
          by (auto simp: attempts_ok_def distinct_map inj_on_def)
        then show ?thesis by (simp add: h_def x(2))
      qed
      then have kept: "z \<in> set (adb_attempts d')" if "z \<in> set (adb_attempts d)" "aa_agent_run_id z = ars_agent_run_id y" for z
        using that by (metis att image_eqI list.set_map)
      from cur have "attempt_current d' y"
        unfolding attempt_current_def using kept by (cases "asr_last_run_attempt_id y") auto
      with False y(2) show ?thesis by simp
    qed
  qed
  with assms(2) show ?thesis by (simp add: attempts_ok_def att keys comp_def)
qed (use assms(2) in simp)

end
