(* ===== verification/Agent_Processes.thy ===== *)
theory Agent_Processes
  imports Agent_Store
begin

text \<open>
  Agent runs in the database, \<open>crates/db/src/models/agent_runtime.rs\<close>, second part: the registry of the processes behind the
  attempts, the gates that hold a launch back until the setup script has run, and the commands to agent runs.
\<close>

section \<open>The process registry\<close>

text \<open>The \<open>CHECK\<close> constraints of \<open>agent_process_registry\<close>.\<close>

definition registry_check :: "AgentProcessRegistryRecord \<Rightarrow> bool" where
  "registry_check r \<longleftrightarrow>
     (case pr_pid r of None \<Rightarrow> True | Some n \<Rightarrow> n > 0) \<and> (case pr_host_pid r of None \<Rightarrow> True | Some n \<Rightarrow> n > 0) \<and>
     (pr_host_endpoint r = None) = (pr_host_token r = None) \<and> pr_last_host_event_sequence r \<ge> 0 \<and>
     (case pr_process_group_id r of None \<Rightarrow> True | Some n \<Rightarrow> n > 0) \<and>
     (pr_lease_owner r = None) = (pr_lease_expires_at r = None) \<and>
     (pr_registry_status r = RegReserved \<and> pr_pid r = None \<and> pr_process_started_at r = None \<and>
        pr_observed_exited_at r = None \<and> pr_exit_code r = None \<or>
      pr_registry_status r \<in> {RegSpawned, RegRunning, RegUnreachable} \<and> pr_pid r \<noteq> None \<and> pr_process_started_at r \<noteq> None \<and>
        pr_observed_exited_at r = None \<and> pr_exit_code r = None \<or>
      pr_registry_status r = RegExited \<and> pr_pid r \<noteq> None \<and> pr_process_started_at r \<noteq> None \<and> pr_observed_exited_at r \<noteq> None)"

text \<open>The unique index on \<open>(pid, process_started_at)\<close> where both are present.\<close>

definition process_identities :: "AgentProcessRegistryRecord list \<Rightarrow> (i64 \<times> sql_text) list" where
  "process_identities rows = List.map_filter (\<lambda>r. case (pr_pid r, pr_process_started_at r) of
     (Some p, Some t) \<Rightarrow> Some (p, t) | _ \<Rightarrow> None) rows"

text \<open>An \<open>UPDATE\<close> of the registry: the number of rows, or the constraint it violates.\<close>

definition update_registry ::
  "(AgentProcessRegistryRecord \<Rightarrow> bool) \<Rightarrow> (AgentProcessRegistryRecord \<Rightarrow> AgentProcessRegistryRecord) \<Rightarrow> 'v agent_db \<Rightarrow>
   (AgentRuntimePersistenceError + nat) \<times> 'v agent_db" where
  "update_registry P f d =
     (let rows = update_where P f (adb_registry d) in
      if \<not> list_all (\<lambda>r. P r \<longrightarrow> registry_check (f r)) (adb_registry d)
      then (Inl (ADatabase (DbCheck ''agent_process_registry'')), d)
      else if \<not> distinct (process_identities rows) then (Inl (ADatabase (DbUnique ''agent_process_registry'')), d)
      else (Inr (rows_affected P (adb_registry d)), d\<lparr>adb_registry := rows\<rparr>))"

definition ok_unit :: "('e + 'a) \<times> 'd \<Rightarrow> ('e + unit) \<times> 'd" where
  "ok_unit r = (map_sum id (\<lambda>_. ()) (fst r), snd r)"

definition reserve_process_host ::
  "sql_env \<Rightarrow> uuid \<Rightarrow> string \<Rightarrow> string \<Rightarrow> uuid \<Rightarrow> datetime \<Rightarrow> 'v agent_db \<Rightarrow> (AgentRuntimePersistenceError + unit) \<times> 'v agent_db" where
  "reserve_process_host env attempt_id endpoint token host_instance_id now d =
     (case update_registry
         (\<lambda>r. pr_run_attempt_id r = attempt_id \<and> pr_registry_status r = RegReserved \<and> pr_host_endpoint r = None \<and> pr_host_token r = None)
         (\<lambda>r. r\<lparr>pr_host_endpoint := Some endpoint, pr_host_token := Some token,
                pr_host_instance_id := Some (uuid_text env host_instance_id), pr_updated_at := sql_bind env now\<rparr>) d of
        (Inl e, d') \<Rightarrow> (Inl e, d')
      | (Inr n, d') \<Rightarrow>
          if n \<noteq> 1 then (Inl (AIdentityConflict ''agent process host reservation'' (uuid_text env attempt_id)), d') else (Inr (), d'))"

definition mark_process_host_attached ::
  "sql_env \<Rightarrow> uuid \<Rightarrow> u32 \<Rightarrow> datetime \<Rightarrow> 'v agent_db \<Rightarrow> (AgentRuntimePersistenceError + unit) \<times> 'v agent_db" where
  "mark_process_host_attached env attempt_id host_pid now d = ok_unit (update_registry
     (\<lambda>r. pr_run_attempt_id r = attempt_id \<and> pr_registry_status r \<noteq> RegExited)
     (\<lambda>r. r\<lparr>pr_host_pid := Some (int (unat host_pid)), pr_updated_at := sql_bind env now\<rparr>) d)"

definition clear_process_host_reservation ::
  "sql_env \<Rightarrow> uuid \<Rightarrow> datetime \<Rightarrow> 'v agent_db \<Rightarrow> (AgentRuntimePersistenceError + unit) \<times> 'v agent_db" where
  "clear_process_host_reservation env attempt_id now d = ok_unit (update_registry
     (\<lambda>r. pr_run_attempt_id r = attempt_id \<and> pr_registry_status r = RegReserved)
     (\<lambda>r. r\<lparr>pr_host_endpoint := None, pr_host_token := None, pr_host_instance_id := None, pr_host_pid := None,
            pr_updated_at := sql_bind env now\<rparr>) d)"

definition advance_process_host_cursor ::
  "sql_env \<Rightarrow> uuid \<Rightarrow> u64 \<Rightarrow> datetime \<Rightarrow> 'v agent_db \<Rightarrow> (AgentRuntimePersistenceError + unit) \<times> 'v agent_db" where
  "advance_process_host_cursor env attempt_id sequence now d =
     (case i64_of_u64 sequence of
        None \<Rightarrow> (Inl ASerialization, d)
      | Some n \<Rightarrow> ok_unit (update_registry (\<lambda>r. pr_run_attempt_id r = attempt_id)
          (\<lambda>r. r\<lparr>pr_last_host_event_sequence := max (pr_last_host_event_sequence r) n, pr_updated_at := sql_bind env now\<rparr>) d))"

definition mark_process_host_unreachable ::
  "sql_env \<Rightarrow> uuid \<Rightarrow> datetime \<Rightarrow> 'v agent_db \<Rightarrow> (AgentRuntimePersistenceError + unit) \<times> 'v agent_db" where
  "mark_process_host_unreachable env attempt_id now d = ok_unit (update_registry
     (\<lambda>r. pr_run_attempt_id r = attempt_id \<and> pr_registry_status r \<in> {RegSpawned, RegRunning, RegUnreachable})
     (\<lambda>r. r\<lparr>pr_registry_status := RegUnreachable, pr_updated_at := sql_bind env now\<rparr>) d)"

definition mark_process_started ::
  "sql_env \<Rightarrow> uuid \<Rightarrow> u32 \<Rightarrow> u32 option \<Rightarrow> string option \<Rightarrow> datetime \<Rightarrow> datetime \<Rightarrow> 'v agent_db \<Rightarrow>
   (AgentRuntimePersistenceError + unit) \<times> 'v agent_db" where
  "mark_process_started env attempt_id pid group_id executable started_at now d = ok_unit (update_registry
     (\<lambda>r. pr_run_attempt_id r = attempt_id \<and> pr_registry_status r \<in> {RegReserved, RegSpawned, RegRunning, RegUnreachable})
     (\<lambda>r. r\<lparr>pr_registry_status := RegRunning, pr_pid := Some (int (unat pid)),
            pr_process_group_id := map_option (\<lambda>g. int (unat g)) group_id,
            pr_process_started_at := Some (sql_bind env started_at), pr_executable := executable,
            pr_updated_at := sql_bind env now\<rparr>) d)"

definition mark_process_exited ::
  "sql_env \<Rightarrow> uuid \<Rightarrow> i64 option \<Rightarrow> datetime \<Rightarrow> datetime \<Rightarrow> 'v agent_db \<Rightarrow> (AgentRuntimePersistenceError + unit) \<times> 'v agent_db" where
  "mark_process_exited env attempt_id exit_code exited_at now d = ok_unit (update_registry
     (\<lambda>r. pr_run_attempt_id r = attempt_id \<and> pr_registry_status r \<in> {RegSpawned, RegRunning, RegUnreachable})
     (\<lambda>r. r\<lparr>pr_registry_status := RegExited, pr_exit_code := exit_code, pr_observed_exited_at := Some (sql_bind env exited_at),
            pr_updated_at := sql_bind env now\<rparr>) d)"

section \<open>Launch gates\<close>

definition find_gate :: "uuid \<Rightarrow> 'v agent_db \<Rightarrow> AgentRunLaunchGateRecord option" where
  "find_gate run_id d = find (\<lambda>g. ag_agent_run_id g = run_id) (adb_gates d)"

definition create_gate ::
  "sql_env \<Rightarrow> uuid \<Rightarrow> string \<Rightarrow> sql_text \<Rightarrow> 'v agent_db \<Rightarrow>
   (AgentRuntimePersistenceError + AgentRunLaunchGateRecord) \<times> 'v agent_db" where
  "create_gate env run_id action clock d =
     (let row = \<lparr>ag_agent_run_id = run_id, ag_setup_execution_process_id = None, ag_gate_status = GateWaitingSetupStart,
            ag_setup_action = action, ag_failure_message = None, ag_created_at = clock, ag_updated_at = clock\<rparr> in
      if find_gate run_id d = None \<and> run_id \<notin> ar_id ` set (adb_runs d)
      then (Inl (ADatabase (DbForeignKey ''agent_run_launch_gates'')), d)
      else let d' = (if find_gate run_id d = None then d\<lparr>adb_gates := adb_gates d @ [row]\<rparr> else d) in
        (case find_gate run_id d' of
           None \<Rightarrow> (Inl (AMissingLaunchGate run_id), d')
         | Some g \<Rightarrow>
             if ag_setup_action g \<noteq> action then (Inl (AIdempotencyConflict ''agent run launch gate'' (uuid_text env run_id)), d')
             else (Inr g, d')))"

text \<open>A guarded transition of a gate: one row changes, or the gate has to be in one of the statuses the caller accepts.\<close>

definition gate_transition ::
  "sql_env \<Rightarrow> string \<Rightarrow> uuid \<Rightarrow> (AgentRunLaunchGateRecord \<Rightarrow> bool) \<Rightarrow> (AgentRunLaunchGateRecord \<Rightarrow> AgentRunLaunchGateRecord) \<Rightarrow>
   (AgentRunLaunchGateRecord \<Rightarrow> bool) \<Rightarrow> 'v agent_db \<Rightarrow> (AgentRuntimePersistenceError + unit) \<times> 'v agent_db" where
  "gate_transition env what run_id P f accepted d =
     (let Q = (\<lambda>g. ag_agent_run_id g = run_id \<and> P g); d' = d\<lparr>adb_gates := update_where Q f (adb_gates d)\<rparr> in
      if rows_affected Q (adb_gates d) = 1 then (Inr (), d')
      else (case find_gate run_id d' of
              None \<Rightarrow> (Inl (AMissingLaunchGate run_id), d')
            | Some g \<Rightarrow> if accepted g then (Inr (), d') else (Inl (AIdentityConflict what (uuid_text env run_id)), d')))"

definition attach_setup_process ::
  "sql_env \<Rightarrow> uuid \<Rightarrow> uuid \<Rightarrow> sql_text \<Rightarrow> 'v agent_db \<Rightarrow> (AgentRuntimePersistenceError + unit) \<times> 'v agent_db" where
  "attach_setup_process env run_id process_id clock d =
     (if list_ex (\<lambda>g. ag_agent_run_id g = run_id \<and> ag_gate_status g = GateWaitingSetupStart) (adb_gates d)
      then if list_ex (\<lambda>g. ag_agent_run_id g \<noteq> run_id \<and> ag_setup_execution_process_id g = Some process_id) (adb_gates d)
        then (Inl (ADatabase (DbUnique ''agent_run_launch_gates'')), d)
        else if process_id \<notin> set (adb_processes d) then (Inl (ADatabase (DbForeignKey ''agent_run_launch_gates'')), d)
        else gate_transition env ''agent run launch gate process'' run_id (\<lambda>g. ag_gate_status g = GateWaitingSetupStart)
          (\<lambda>g. g\<lparr>ag_setup_execution_process_id := Some process_id, ag_gate_status := GateWaitingSetup, ag_updated_at := clock\<rparr>)
          (\<lambda>g. ag_setup_execution_process_id g = Some process_id \<and> ag_gate_status g \<in> {GateWaitingSetup, GateSatisfied}) d
      else gate_transition env ''agent run launch gate process'' run_id (\<lambda>g. False) id
        (\<lambda>g. ag_setup_execution_process_id g = Some process_id \<and> ag_gate_status g \<in> {GateWaitingSetup, GateSatisfied}) d)"

definition mark_satisfied ::
  "sql_env \<Rightarrow> uuid \<Rightarrow> sql_text \<Rightarrow> 'v agent_db \<Rightarrow> (AgentRuntimePersistenceError + unit) \<times> 'v agent_db" where
  "mark_satisfied env run_id clock d = gate_transition env ''agent run launch gate transition'' run_id
     (\<lambda>g. ag_gate_status g = GateWaitingSetup)
     (\<lambda>g. g\<lparr>ag_gate_status := GateSatisfied, ag_failure_message := None, ag_updated_at := clock\<rparr>)
     (\<lambda>g. ag_gate_status g = GateSatisfied) d"

definition mark_gate_failed ::
  "sql_env \<Rightarrow> uuid \<Rightarrow> string \<Rightarrow> sql_text \<Rightarrow> 'v agent_db \<Rightarrow> (AgentRuntimePersistenceError + unit) \<times> 'v agent_db" where
  "mark_gate_failed env run_id message clock d = gate_transition env ''agent run launch gate transition'' run_id
     (\<lambda>g. ag_gate_status g \<in> {GateWaitingSetupStart, GateWaitingSetup})
     (\<lambda>g. g\<lparr>ag_gate_status := GateFailed,
            ag_failure_message := (case ag_failure_message g of None \<Rightarrow> Some message | m \<Rightarrow> m), ag_updated_at := clock\<rparr>)
     (\<lambda>g. ag_gate_status g = GateFailed) d"

definition find_gate_by_setup_process :: "uuid \<Rightarrow> 'v agent_db \<Rightarrow> AgentRunLaunchGateRecord option" where
  "find_gate_by_setup_process process_id d = find (\<lambda>g. ag_setup_execution_process_id g = Some process_id) (adb_gates d)"

definition pending_gates :: "'v agent_db \<Rightarrow> AgentRunLaunchGateRecord list" where
  "pending_gates d = filter (\<lambda>g. list_ex (\<lambda>r. ar_id r = ag_agent_run_id g \<and> ar_status r = APending) (adb_runs d)) (adb_gates d)"

definition find_gate_for_session :: "uuid \<Rightarrow> 'v agent_db \<Rightarrow> AgentRunLaunchGateRecord option" where
  "find_gate_for_session session_id d = (case rev (sort_key (\<lambda>g. (ag_created_at g, ag_agent_run_id g))
     (filter (\<lambda>g. list_ex (\<lambda>r. ar_id r = ag_agent_run_id g \<and> ar_session_id r = session_id) (adb_runs d)) (pending_gates d))) of
     [] \<Rightarrow> None | g # _ \<Rightarrow> Some g)"

definition find_reconcilable_gates :: "'v agent_db \<Rightarrow> AgentRunLaunchGateRecord list" where
  "find_reconcilable_gates d = sort_key (\<lambda>g. (ag_created_at g, ag_agent_run_id g)) (pending_gates d)"

section \<open>Commands\<close>

definition enqueue_agent_command ::
  "'v AgentRunPortCommandEnvelope \<Rightarrow> sql_text \<Rightarrow> 'v agent_db \<Rightarrow>
   (AgentRuntimePersistenceError + ('v AgentRunCommandRecord \<times> bool)) \<times> 'v agent_db" where
  "enqueue_agent_command c clock d =
     (case validate_command c of
        Inl e \<Rightarrow> (Inl (AInvalidCommand e), d)
      | Inr _ \<Rightarrow>
     if (case ce_command c of CmdCreate _ _ \<Rightarrow> True | _ \<Rightarrow> False) then (Inl AInvalidDirectCommand, d)
     else let row = \<lparr>ac_command_id = ce_command_id c, ac_agent_run_id = ce_agent_run_id c, ac_idempotency_key = ce_idempotency_key c,
            ac_command_schema_version = int (unat (ce_schema_version c)), ac_command_envelope = c, ac_delivery_status = DPending,
            ac_delivery_attempts = 0, ac_delivered_at = None, ac_last_error = None, ac_created_at = clock, ac_updated_at = clock\<rparr> in
     if sql_blank (ce_idempotency_key c) \<or> ac_command_schema_version row \<le> 0
     then (Inl (ADatabase (DbCheck ''agent_run_commands'')), d)
     else (case find (\<lambda>x. ac_idempotency_key x = ce_idempotency_key c) (adb_commands d) of
        Some existing \<Rightarrow>
          if ac_command_envelope existing \<noteq> c then (Inl (AIdempotencyConflict ''AgentRun command'' (ce_idempotency_key c)), d)
          else (Inr (existing, False), d)
      | None \<Rightarrow>
          if list_ex (\<lambda>x. ac_command_id x = ce_command_id c) (adb_commands d)
          then (Inl (ADatabase (DbUnique ''agent_run_commands'')), d)
          else if ce_agent_run_id c \<notin> ar_id ` set (adb_runs d) then (Inl (ADatabase (DbForeignKey ''agent_run_commands'')), d)
          else (Inr (row, True), d\<lparr>adb_commands := adb_commands d @ [row]\<rparr>)))"

definition update_commands ::
  "('v AgentRunCommandRecord \<Rightarrow> bool) \<Rightarrow> ('v AgentRunCommandRecord \<Rightarrow> 'v AgentRunCommandRecord) \<Rightarrow> 'v agent_db \<Rightarrow> nat \<times> 'v agent_db" where
  "update_commands P f d = (rows_affected P (adb_commands d), d\<lparr>adb_commands := update_where P f (adb_commands d)\<rparr>)"

definition claim_command ::
  "sql_env \<Rightarrow> uuid \<Rightarrow> datetime \<Rightarrow> 'v agent_db \<Rightarrow> 'v AgentRunCommandRecord option \<times> 'v agent_db" where
  "claim_command env command_id now d =
     (case update_commands (\<lambda>c. ac_command_id c = command_id \<and> ac_delivery_status c \<in> {DPending, DFailed})
         (\<lambda>c. c\<lparr>ac_delivery_status := DDelivering, ac_delivery_attempts := ac_delivery_attempts c + 1,
                ac_updated_at := sql_bind env now\<rparr>) d of
        (n, d') \<Rightarrow> (if n = 1 then find (\<lambda>c. ac_command_id c = command_id) (adb_commands d') else None, d'))"

definition reconcile_inflight_commands :: "sql_env \<Rightarrow> datetime \<Rightarrow> 'v agent_db \<Rightarrow> nat \<times> 'v agent_db" where
  "reconcile_inflight_commands env now = update_commands (\<lambda>c. ac_delivery_status c = DDelivering)
     (\<lambda>c. c\<lparr>ac_delivery_status := DPending, ac_updated_at := sql_bind env now\<rparr>)"

definition pending_commands :: "'v agent_db \<Rightarrow> 'v AgentRunCommandRecord list" where
  "pending_commands d = sort_key (\<lambda>c. (ac_created_at c, ac_command_id c))
     (filter (\<lambda>c. ac_delivery_status c \<in> {DPending, DFailed}) (adb_commands d))"

definition mark_command_delivered :: "sql_env \<Rightarrow> uuid \<Rightarrow> datetime \<Rightarrow> 'v agent_db \<Rightarrow> bool \<times> 'v agent_db" where
  "mark_command_delivered env command_id now d =
     (case update_commands (\<lambda>c. ac_command_id c = command_id \<and> ac_delivery_status c = DDelivering)
         (\<lambda>c. c\<lparr>ac_delivery_status := DDelivered, ac_delivered_at := Some (sql_bind env now), ac_last_error := None,
                ac_updated_at := sql_bind env now\<rparr>) d of (n, d') \<Rightarrow> (n = 1, d'))"

definition mark_command_failed :: "sql_env \<Rightarrow> uuid \<Rightarrow> string \<Rightarrow> datetime \<Rightarrow> 'v agent_db \<Rightarrow> bool \<times> 'v agent_db" where
  "mark_command_failed env command_id err now d =
     (case update_commands (\<lambda>c. ac_command_id c = command_id \<and> ac_delivery_status c = DDelivering)
         (\<lambda>c. c\<lparr>ac_delivery_status := DFailed, ac_last_error := Some err, ac_updated_at := sql_bind env now\<rparr>) d of
        (n, d') \<Rightarrow> (n = 1, d'))"

end
