(* ===== verification/Agent_Runtime.thy ===== *)
theory Agent_Runtime
  imports Agent_Processes
begin

text \<open>
  The agent runtime store as a whole: its step relation, what every step keeps, and the promises of the store over
  arbitrary sequences of its operations. \<open>append_agent_event\<close>, which inserts an event without its projection, is
  called by tests only and is not a step.
\<close>

section \<open>Steps\<close>

text \<open>The calls that are one statement or one transaction.\<close>

inductive agent_call :: "sql_env \<Rightarrow> 'v agent_db \<Rightarrow> 'v agent_db \<Rightarrow> bool" for env where
  identity: "agent_call env d (snd (persist_identity_before_launch env i rq ra now clock d))"
| retry: "agent_call env d (snd (persist_retry_attempt_before_launch env i rq ra now clock d))"
| event: "agent_call env d (snd (append_and_project_agent env clock e d))"
| seen: "agent_call env d (mark_seen_by_workspace_id workspace_id clock d)"
| reserve: "agent_call env d (snd (reserve_process_host env attempt_id endpoint token host now d))"
| attached: "agent_call env d (snd (mark_process_host_attached env attempt_id host_pid now d))"
| cleared: "agent_call env d (snd (clear_process_host_reservation env attempt_id now d))"
| cursor: "agent_call env d (snd (advance_process_host_cursor env attempt_id sequence now d))"
| unreachable: "agent_call env d (snd (mark_process_host_unreachable env attempt_id now d))"
| started: "agent_call env d (snd (mark_process_started env attempt_id pid group_id executable started_at now d))"
| exited: "agent_call env d (snd (mark_process_exited env attempt_id exit_code exited_at now d))"
| gate: "agent_call env d (snd (create_gate env run_id action clock d))"
| attach: "agent_call env d (snd (attach_setup_process env run_id process_id clock d))"
| satisfied: "agent_call env d (snd (mark_satisfied env run_id clock d))"
| gate_failed: "agent_call env d (snd (mark_gate_failed env run_id message clock d))"
| enqueue: "agent_call env d (snd (enqueue_agent_command c clock d))"
| claim: "agent_call env d (snd (claim_command env command_id now d))"
| inflight: "agent_call env d (snd (reconcile_inflight_commands env now d))"
| delivered: "agent_call env d (snd (mark_command_delivered env command_id now d))"
| command_failed: "agent_call env d (snd (mark_command_failed env command_id err now d))"

text \<open>
  A step of the store: such a call, or one of the two updates of a mark as degraded, with any state that was read
  before. An orderly step is a call, an update of a mark whose state is still the stored one, up to the mark itself, or the
  second update; so in an orderly sequence no event of a run is appended between the read and the first update of a mark.
\<close>

inductive agent_step :: "sql_env \<Rightarrow> 'v agent_db \<Rightarrow> 'v agent_db \<Rightarrow> bool" for env where
  call: "agent_call env d d' \<Longrightarrow> agent_step env d d'"
| degraded_state: "agent_step env d (write_degraded_state env run_id state now d)"
| degraded_run: "agent_step env d (write_degraded_run env run_id now d)"

inductive orderly_agent_step :: "sql_env \<Rightarrow> 'v agent_db \<Rightarrow> 'v agent_db \<Rightarrow> bool" for env where
  orderly_call: "agent_call env d d' \<Longrightarrow> orderly_agent_step env d d'"
| orderly_state: "still_stored run_id state d \<Longrightarrow> orderly_agent_step env d (write_degraded_state env run_id state now d)"
| orderly_run: "orderly_agent_step env d (write_degraded_run env run_id now d)"

lemma orderly_agent_step: "orderly_agent_step env d d' \<Longrightarrow> agent_step env d d'"
  by (auto elim!: orderly_agent_step.cases intro: agent_step.intros)

text \<open>A mark that runs by itself is two orderly steps.\<close>

lemma mark_projection_degraded_orderly: "(orderly_agent_step env)\<^sup>*\<^sup>* d (snd (mark_projection_degraded env run_id now now' d))"
proof (cases "read_run_state run_id d")
  case (Inr state)
  then have "orderly_agent_step env d (write_degraded_state env run_id state now d)"
    by (intro orderly_state) (simp add: still_stored_def)
  then show ?thesis
    by (auto simp: mark_projection_degraded_def Inr intro: rtranclp.intros orderly_run)
qed (simp add: mark_projection_degraded_def)

abbreviation agent_steps :: "sql_env \<Rightarrow> 'v agent_db \<Rightarrow> 'v agent_db \<Rightarrow> bool" where
  "agent_steps env \<equiv> (agent_step env)\<^sup>*\<^sup>*"

section \<open>What a step keeps\<close>

text \<open>The columns that make up an identity never change.\<close>

definition same_run :: "AgentRunRecord \<Rightarrow> AgentRunRecord \<Rightarrow> bool" where
  "same_run r r' \<longleftrightarrow> ar_id r' = ar_id r \<and> ar_idempotency_key r' = ar_idempotency_key r \<and>
     ar_request_envelope r' = ar_request_envelope r"

definition same_attempt :: "'v AgentRunAttemptRecord \<Rightarrow> 'v AgentRunAttemptRecord \<Rightarrow> bool" where
  "same_attempt a a' \<longleftrightarrow> aa_id a' = aa_id a \<and> aa_agent_run_id a' = aa_agent_run_id a \<and> aa_attempt_number a' = aa_attempt_number a \<and>
     aa_idempotency_key a' = aa_idempotency_key a \<and> aa_request_envelope a' = aa_request_envelope a"

text \<open>A process that has exited stays exited as it was observed, and the cursor of its host only grows.\<close>

definition registry_moves :: "AgentProcessRegistryRecord \<Rightarrow> AgentProcessRegistryRecord \<Rightarrow> bool" where
  "registry_moves r r' \<longleftrightarrow> pr_id r' = pr_id r \<and> pr_run_attempt_id r' = pr_run_attempt_id r \<and>
     pr_last_host_event_sequence r \<le> pr_last_host_event_sequence r' \<and>
     (pr_registry_status r = RegExited \<longrightarrow> pr_registry_status r' = RegExited \<and> pr_pid r' = pr_pid r \<and>
        pr_process_started_at r' = pr_process_started_at r \<and> pr_exit_code r' = pr_exit_code r \<and>
        pr_observed_exited_at r' = pr_observed_exited_at r)"

text \<open>A gate that is satisfied or failed does not change any more.\<close>

definition gate_settled :: "AgentRunLaunchGateRecord \<Rightarrow> bool" where
  "gate_settled g \<longleftrightarrow> ag_gate_status g \<in> {GateSatisfied, GateFailed}"

definition gate_moves :: "AgentRunLaunchGateRecord \<Rightarrow> AgentRunLaunchGateRecord \<Rightarrow> bool" where
  "gate_moves g g' \<longleftrightarrow> ag_agent_run_id g' = ag_agent_run_id g \<and> ag_setup_action g' = ag_setup_action g \<and>
     (gate_settled g \<longrightarrow> g' = g)"

text \<open>A delivered command stays as it is; its envelope never changes.\<close>

definition command_moves :: "'v AgentRunCommandRecord \<Rightarrow> 'v AgentRunCommandRecord \<Rightarrow> bool" where
  "command_moves c c' \<longleftrightarrow> ac_command_id c' = ac_command_id c \<and> ac_idempotency_key c' = ac_idempotency_key c \<and>
     ac_command_envelope c' = ac_command_envelope c \<and> ac_delivery_attempts c \<le> ac_delivery_attempts c' \<and>
     (ac_delivery_status c = DDelivered \<longrightarrow> c' = c)"

definition tables_grow :: "'v agent_db \<Rightarrow> 'v agent_db \<Rightarrow> bool" where
  "tables_grow d d' \<longleftrightarrow> evolves same_run (adb_runs d) (adb_runs d') \<and> evolves (=) (adb_turns d) (adb_turns d') \<and>
     evolves same_attempt (adb_attempts d) (adb_attempts d') \<and> evolves registry_moves (adb_registry d) (adb_registry d') \<and>
     evolves (=) (adb_events d) (adb_events d') \<and> evolves gate_moves (adb_gates d) (adb_gates d') \<and>
     evolves command_moves (adb_commands d) (adb_commands d')"

lemma row_refl [simp]: "same_run r r" "same_attempt a a" "registry_moves p p" "gate_moves g g" "command_moves c c"
  by (simp_all add: same_run_def same_attempt_def registry_moves_def gate_moves_def command_moves_def)

lemma row_trans:
  "same_run r r' \<Longrightarrow> same_run r' r'' \<Longrightarrow> same_run r r''"
  "same_attempt a a' \<Longrightarrow> same_attempt a' a'' \<Longrightarrow> same_attempt a a''"
  "registry_moves p p' \<Longrightarrow> registry_moves p' p'' \<Longrightarrow> registry_moves p p''"
  "gate_moves g g' \<Longrightarrow> gate_moves g' g'' \<Longrightarrow> gate_moves g g''"
  "command_moves c c' \<Longrightarrow> command_moves c' c'' \<Longrightarrow> command_moves c c''"
  by (auto simp: same_run_def same_attempt_def registry_moves_def gate_moves_def command_moves_def)

lemma evolves_same [simp]: "evolves same_run xs xs" "evolves same_attempt ys ys" "evolves registry_moves ps ps"
  "evolves gate_moves gs gs" "evolves command_moves cs cs" "evolves (=) us us"
  by (simp_all add: evolves_refl)

lemma tables_grow_refl [simp]: "tables_grow d d"
  by (simp add: tables_grow_def)

lemma tables_grow_trans: "tables_grow a b \<Longrightarrow> tables_grow b c \<Longrightarrow> tables_grow a c"
  unfolding tables_grow_def by (blast intro: evolves_trans row_trans)

section \<open>Steps grow the tables\<close>

lemma update_registry_grows:
  assumes "\<And>r. P r \<Longrightarrow> registry_moves r (f r)"
  shows "tables_grow d (snd (update_registry P f d))"
  using assms by (auto simp: update_registry_def tables_grow_def Let_def intro: evolves_update)

lemma gate_transition_grows:
  assumes "\<And>g. P g \<Longrightarrow> gate_moves g (f g)"
  shows "tables_grow d (snd (gate_transition env what run_id P f accepted d))"
  using assms by (auto simp: gate_transition_def tables_grow_def Let_def intro: evolves_update split: option.splits)

lemma update_commands_grows:
  assumes "\<And>c. P c \<Longrightarrow> command_moves c (f c)"
  shows "tables_grow d (snd (update_commands P f d))"
  using assms by (auto simp: update_commands_def tables_grow_def intro: evolves_update)

lemma grow_append:
  "adb_runs d' = adb_runs d @ rs \<Longrightarrow> adb_turns d' = adb_turns d @ ts \<Longrightarrow> adb_attempts d' = adb_attempts d @ as \<Longrightarrow>
   adb_registry d' = adb_registry d @ ps \<Longrightarrow> adb_events d' = adb_events d @ es \<Longrightarrow> adb_gates d' = adb_gates d @ gs \<Longrightarrow>
   adb_commands d' = adb_commands d @ cs \<Longrightarrow> tables_grow d d'"
  by (simp add: tables_grow_def evolves_append)

lemma append_agent_error: "append_and_project_agent env clock e d = (Inl err, d') \<Longrightarrow> d' = d"
  by (auto simp: append_and_project_agent_def transaction_err_iff split: sum.splits option.splits)

lemma identity_grows: "tables_grow d (snd (persist_identity_before_launch env i rq ra now clock d))"
proof -
  obtain res d' where p: "persist_identity_before_launch env i rq ra now clock d = (res, d')" by fastforce
  then have "tables_grow d d'"
  proof (cases rule: persist_identity_cases)
    case 2
    from insert_identity_ok(3) [OF 2(1)] show ?thesis by (intro grow_append [where gs = "[]" and cs = "[]" and es = "[]"]) simp_all
  qed simp
  then show ?thesis by (simp add: p)
qed

lemma retry_grows: "tables_grow d (snd (persist_retry_attempt_before_launch env i rq ra now clock d))"
proof -
  obtain res d' where p: "persist_retry_attempt_before_launch env i rq ra now clock d = (res, d')" by fastforce
  then have "tables_grow d d'"
  proof (cases rule: persist_retry_cases)
    case 2
    then show ?thesis by (intro grow_append [where gs = "[]" and cs = "[]" and es = "[]" and rs = "[]" and ts = "[]"]) simp_all
  qed simp
  then show ?thesis by (simp add: p)
qed

lemma event_grows: "tables_grow d (snd (append_and_project_agent env clock e d))"
proof -
  obtain res d' where p: "append_and_project_agent env clock e d = (res, d')" by fastforce
  have "tables_grow d d'"
  proof (cases res)
    case (Inr a)
    with p have "append_and_project_agent env clock e d = (Inr a, d')" by simp
    then show ?thesis
    proof (cases rule: append_agent_cases)
      case (new row s)
      have "evolves same_run (adb_runs d) (adb_runs d')" "evolves same_attempt (adb_attempts d) (adb_attempts d')"
        by (auto simp: new(6) store_run_projection_def Let_def same_run_def same_attempt_def intro!: evolves_update)
      then show ?thesis
        by (simp add: tables_grow_def) (simp add: new(6) store_run_projection_def Let_def evolves_append)
    qed simp
  next
    case (Inl err)
    with p append_agent_error [of env clock e d err d'] show ?thesis by simp
  qed
  then show ?thesis by (simp add: p)
qed

lemma degraded_grows:
  "tables_grow d (write_degraded_state env run_id state now d)" "tables_grow d (write_degraded_run env run_id now d)"
  by (auto simp: write_degraded_state_def write_degraded_run_def tables_grow_def same_run_def intro!: evolves_update)

lemma create_gate_grows: "tables_grow d (snd (create_gate env run_id action clock d))"
  by (auto simp: create_gate_def tables_grow_def Let_def evolves_append split: option.splits)

lemma enqueue_agent_grows: "tables_grow d (snd (enqueue_agent_command c clock d))"
  by (auto simp: enqueue_agent_command_def tables_grow_def Let_def evolves_append split: sum.splits option.splits)

lemma attach_grows: "tables_grow d (snd (attach_setup_process env run_id process_id clock d))"
  unfolding attach_setup_process_def
  by (auto intro!: gate_transition_grows simp: gate_moves_def gate_settled_def)

lemma reserve_snd:
  "snd (reserve_process_host env attempt_id endpoint token host now d) = snd (update_registry
     (\<lambda>r. pr_run_attempt_id r = attempt_id \<and> pr_registry_status r = RegReserved \<and> pr_host_endpoint r = None \<and> pr_host_token r = None)
     (\<lambda>r. r\<lparr>pr_host_endpoint := Some endpoint, pr_host_token := Some token,
            pr_host_instance_id := Some (uuid_text env host), pr_updated_at := sql_bind env now\<rparr>) d)"
  by (auto simp: reserve_process_host_def split: prod.splits sum.splits)

lemmas registry_ops = reserve_snd mark_process_host_attached_def clear_process_host_reservation_def advance_process_host_cursor_def
  mark_process_host_unreachable_def mark_process_started_def mark_process_exited_def

lemma registry_ops_grow:
  "tables_grow d (snd (reserve_process_host env attempt_id endpoint token host now d))"
  "tables_grow d (snd (mark_process_host_attached env attempt_id host_pid now d))"
  "tables_grow d (snd (clear_process_host_reservation env attempt_id now d))"
  "tables_grow d (snd (advance_process_host_cursor env attempt_id sequence now d))"
  "tables_grow d (snd (mark_process_host_unreachable env attempt_id now d))"
  "tables_grow d (snd (mark_process_started env attempt_id pid group_id executable started_at now d))"
  "tables_grow d (snd (mark_process_exited env attempt_id exit_code exited_at now d))"
  by (auto simp: registry_ops ok_unit_def registry_moves_def intro!: update_registry_grows split: option.splits)

lemma gate_ops_grow:
  "tables_grow d (snd (mark_satisfied env run_id clock d))" "tables_grow d (snd (mark_gate_failed env run_id message clock d))"
  unfolding mark_satisfied_def mark_gate_failed_def
  by (auto intro!: gate_transition_grows simp: gate_moves_def gate_settled_def)

lemma command_ops_grow:
  "tables_grow d (snd (claim_command env command_id now d))" "tables_grow d (snd (reconcile_inflight_commands env now d))"
  "tables_grow d (snd (mark_command_delivered env command_id now d))" "tables_grow d (snd (mark_command_failed env command_id err now d))"
  unfolding claim_command_def reconcile_inflight_commands_def mark_command_delivered_def mark_command_failed_def split_beta snd_conv
  by (rule update_commands_grows; auto simp: command_moves_def)+

lemma seen_grows: "tables_grow d (mark_seen_by_workspace_id workspace_id clock d)"
  by (simp add: mark_seen_by_workspace_id_def tables_grow_def Let_def)

lemma agent_call_grows: "agent_call env d d' \<Longrightarrow> tables_grow d d'"
  by (induction rule: agent_call.induct)
     (rule identity_grows retry_grows event_grows seen_grows registry_ops_grow create_gate_grows attach_grows
        gate_ops_grow enqueue_agent_grows command_ops_grow)+

lemma agent_step_grows: "agent_step env d d' \<Longrightarrow> tables_grow d d'"
  by (induction rule: agent_step.induct) (auto intro: agent_call_grows degraded_grows)

lemma agent_steps_grow: "agent_steps env d d' \<Longrightarrow> tables_grow d d'"
  by (induction rule: rtranclp_induct) (auto intro: tables_grow_trans agent_step_grows)

section \<open>The invariant\<close>

text \<open>The unique keys that an identity rests on.\<close>

definition identities_ok :: "'v agent_db \<Rightarrow> bool" where
  "identities_ok d \<longleftrightarrow> distinct (map ar_id (adb_runs d)) \<and> distinct (map ar_idempotency_key (adb_runs d)) \<and>
     distinct (map at_agent_run_id (adb_turns d)) \<and>
     distinct (map (\<lambda>a. (aa_agent_run_id a, aa_attempt_number a)) (adb_attempts d)) \<and>
     distinct (map aa_idempotency_key (adb_attempts d)) \<and> distinct (map pr_run_attempt_id (adb_registry d))"

definition agent_ok :: "'v agent_db \<Rightarrow> bool" where
  "agent_ok d \<longleftrightarrow> agent_log_ok d \<and> attempts_ok d \<and> identities_ok d"

text \<open>Operations on the registry, the gates, the commands and the seen marks leave the rest alone.\<close>

definition same_core :: "'v agent_db \<Rightarrow> 'v agent_db \<Rightarrow> bool" where
  "same_core d d' \<longleftrightarrow> adb_runs d' = adb_runs d \<and> adb_turns d' = adb_turns d \<and> adb_attempts d' = adb_attempts d \<and>
     adb_events d' = adb_events d \<and> adb_states d' = adb_states d \<and> length (adb_registry d') = length (adb_registry d)"

lemma evolves_map_eq:
  assumes "evolves R xs ys" "length ys = length xs" "\<And>a b. R a b \<Longrightarrow> f b = f a"
  shows "map f ys = map f xs"
  using assms by (auto simp: evolves_def intro!: nth_equalityI)

lemma agent_ok_core:
  assumes "agent_ok d" "tables_grow d d'" "same_core d d'"
  shows "agent_ok d'"
proof -
  have "map pr_run_attempt_id (adb_registry d') = map pr_run_attempt_id (adb_registry d)"
    by (rule evolves_map_eq [of registry_moves])
       (use assms(2,3) in \<open>auto simp: tables_grow_def same_core_def registry_moves_def\<close>)
  moreover have "agent_log_ok d' = agent_log_ok d"
    by (rule agent_log_ok_cong) (use assms(3) in \<open>simp_all add: same_core_def\<close>)
  moreover have "attempt_current d' st = attempt_current d st" for st
    by (rule attempt_current_cong) (use assms(3) in \<open>simp_all add: same_core_def\<close>)
  ultimately show ?thesis using assms(1,3) by (simp add: agent_ok_def attempts_ok_def identities_ok_def same_core_def)
qed

lemma same_core_ops:
  "same_core d (snd (update_registry P f d))" "same_core d (snd (ok_unit (update_registry P f d)))"
  "same_core d (snd (gate_transition env what run_id Q g accepted d))" "same_core d (snd (update_commands C h d))"
  "same_core d (snd (create_gate env run_id action clock d))" "same_core d (snd (enqueue_agent_command c clock d))"
  "same_core d (mark_seen_by_workspace_id workspace_id clock d)" "same_core d d"
  by (auto simp: same_core_def update_registry_def gate_transition_def update_commands_def create_gate_def ok_unit_def
      enqueue_agent_command_def mark_seen_by_workspace_id_def Let_def split: sum.splits option.splits)

lemma core_ops:
  "same_core d (snd (reserve_process_host env attempt_id endpoint token host now d))"
  "same_core d (snd (mark_process_host_attached env attempt_id host_pid now d))"
  "same_core d (snd (clear_process_host_reservation env attempt_id now d))"
  "same_core d (snd (advance_process_host_cursor env attempt_id sequence now d))"
  "same_core d (snd (mark_process_host_unreachable env attempt_id now d))"
  "same_core d (snd (mark_process_started env attempt_id pid group_id executable started_at now d))"
  "same_core d (snd (mark_process_exited env attempt_id exit_code exited_at now d))"
  "same_core d (snd (attach_setup_process env run_id process_id clock d))"
  "same_core d (snd (mark_satisfied env run_id clock d))" "same_core d (snd (mark_gate_failed env run_id message clock d))"
  "same_core d (snd (claim_command env command_id now d))" "same_core d (snd (reconcile_inflight_commands env now d))"
  "same_core d (snd (mark_command_delivered env command_id now d))" "same_core d (snd (mark_command_failed env command_id err now d))"
  by (simp_all add: registry_ops attach_setup_process_def mark_satisfied_def mark_gate_failed_def claim_command_def
      reconcile_inflight_commands_def mark_command_delivered_def mark_command_failed_def split_beta same_core_ops split: option.split)

lemma insert_keys:
  "insert_agent_run r d = Inr d' \<Longrightarrow> ar_idempotency_key r \<notin> ar_idempotency_key ` set (adb_runs d)"
  "insert_turn t d = Inr d' \<Longrightarrow> at_agent_run_id t \<notin> at_agent_run_id ` set (adb_turns d)"
  "insert_attempt a d = Inr d' \<Longrightarrow> (aa_agent_run_id a, aa_attempt_number a) \<notin> (\<lambda>a. (aa_agent_run_id a, aa_attempt_number a)) ` set (adb_attempts d)"
  "insert_attempt a d = Inr d' \<Longrightarrow> aa_idempotency_key a \<notin> aa_idempotency_key ` set (adb_attempts d)"
  "insert_registry p d = Inr d' \<Longrightarrow> pr_run_attempt_id p \<notin> pr_run_attempt_id ` set (adb_registry d)"
  by (auto simp: insert_defs list_ex_iff split: if_splits)

lemma identities_ok_insert:
  assumes "identities_ok d"
  shows "insert_agent_run r d = Inr d' \<Longrightarrow> identities_ok d'" "insert_turn t d = Inr d' \<Longrightarrow> identities_ok d'"
    "insert_attempt a d = Inr d' \<Longrightarrow> identities_ok d'" "insert_registry p d = Inr d' \<Longrightarrow> identities_ok d'"
    "insert_run_state s d = Inr d' \<Longrightarrow> identities_ok d'"
proof -
  show "insert_agent_run r d = Inr d' \<Longrightarrow> identities_ok d'"
    using insert_agent_run_ok [of r d d'] insert_keys(1) [of r d d'] assms by (simp add: identities_ok_def)
  show "insert_turn t d = Inr d' \<Longrightarrow> identities_ok d'"
    using insert_frames(1) [of t d d'] insert_keys(2) [of t d d'] assms by (simp add: identities_ok_def)
  show "insert_attempt a d = Inr d' \<Longrightarrow> identities_ok d'"
    using insert_frames(2) [of a d d'] insert_keys(3,4) [of a d d'] assms by (simp add: identities_ok_def)
  show "insert_registry p d = Inr d' \<Longrightarrow> identities_ok d'"
    using insert_frames(3) [of p d d'] insert_keys(5) [of p d d'] assms by (simp add: identities_ok_def)
  show "insert_run_state s d = Inr d' \<Longrightarrow> identities_ok d'"
    using insert_frames(4) [of s d d'] assms by (simp add: identities_ok_def)
qed

lemma identities_ok_identity:
  assumes "identities_ok d" "persist_identity_before_launch env i rq ra now clock d = (res, d')"
  shows "identities_ok d'"
  using assms(2)
proof (cases rule: persist_identity_cases)
  case 2
  then obtain d1 d2 d3 d4 where ins: "insert_agent_run (run_row_of rq clock) d = Inr d1"
      "insert_turn (turn_row_of rq clock) d1 = Inr d2" "insert_attempt (attempt_row_of rq ra clock) d2 = Inr d3"
      "insert_registry (registry_row_of i (ra_run_attempt_id ra) clock (sql_bind env now)) d3 = Inr d4"
      "insert_run_state (state_row_of rq clock) d4 = Inr d'"
    unfolding insert_identity_def and_then_eq_Inr by blast
  note keep = identities_ok_insert
  show ?thesis
    by (rule keep(5) [OF keep(4) [OF keep(3) [OF keep(2) [OF keep(1) [OF assms(1) ins(1)] ins(2)] ins(3)] ins(4)] ins(5)])
qed (use assms(1) in simp)

lemma identities_ok_retry:
  assumes "identities_ok d" "persist_retry_attempt_before_launch env i rq ra now clock d = (res, d')"
  shows "identities_ok d'"
  using assms(2)
proof (cases rule: persist_retry_inserts)
  case (2 d1)
  show ?thesis by (rule identities_ok_insert(4) [OF identities_ok_insert(3) [OF assms(1) 2(1)] 2(2)])
qed (use assms(1) in simp)

lemma identities_ok_grow:
  assumes "identities_ok d" "tables_grow d d'" "length (adb_runs d') = length (adb_runs d)" "length (adb_turns d') = length (adb_turns d)"
    "length (adb_attempts d') = length (adb_attempts d)" "length (adb_registry d') = length (adb_registry d)"
  shows "identities_ok d'"
proof -
  from assms(2) have e: "evolves same_run (adb_runs d) (adb_runs d')" "evolves (=) (adb_turns d) (adb_turns d')"
      "evolves same_attempt (adb_attempts d) (adb_attempts d')" "evolves registry_moves (adb_registry d) (adb_registry d')"
    by (simp_all add: tables_grow_def)
  have "map ar_id (adb_runs d') = map ar_id (adb_runs d)" "map ar_idempotency_key (adb_runs d') = map ar_idempotency_key (adb_runs d)"
    by (rule evolves_map_eq [OF e(1) assms(3)], simp add: same_run_def)+
  moreover have "map at_agent_run_id (adb_turns d') = map at_agent_run_id (adb_turns d)"
    by (rule evolves_map_eq [OF e(2) assms(4)]) simp
  moreover have "map (\<lambda>a. (aa_agent_run_id a, aa_attempt_number a)) (adb_attempts d') = map (\<lambda>a. (aa_agent_run_id a, aa_attempt_number a)) (adb_attempts d)"
      "map aa_idempotency_key (adb_attempts d') = map aa_idempotency_key (adb_attempts d)"
    by (rule evolves_map_eq [OF e(3) assms(5)], simp add: same_attempt_def)+
  moreover have "map pr_run_attempt_id (adb_registry d') = map pr_run_attempt_id (adb_registry d)"
    by (rule evolves_map_eq [OF e(4) assms(6)]) (simp add: registry_moves_def)
  ultimately show ?thesis using assms(1) unfolding identities_ok_def by simp
qed

lemma identities_ok_event:
  assumes "identities_ok d"
  shows "identities_ok (snd (append_and_project_agent env clock e d))"
proof -
  obtain res d' where p: "append_and_project_agent env clock e d = (res, d')" by fastforce
  show ?thesis
  proof (cases res)
    case (Inl err)
    with p append_agent_error [of env clock e d err d'] assms show ?thesis by simp
  next
    case (Inr a)
    with p have "append_and_project_agent env clock e d = (Inr a, d')" by simp
    then have "identities_ok d'"
    proof (cases rule: append_agent_cases)
      case (new row s)
      with assms event_grows [of d env clock e] p show ?thesis
        by (intro identities_ok_grow [of d d']) (simp_all add: store_run_projection_def Let_def)
    qed (use assms in simp)
    then show ?thesis by (simp add: p)
  qed
qed

lemma agent_ok_event:
  assumes "agent_ok d"
  shows "agent_ok (snd (append_and_project_agent env clock e d))"
proof -
  obtain res d' where p: "append_and_project_agent env clock e d = (res, d')" by fastforce
  show ?thesis
  proof (cases res)
    case (Inl err)
    with p append_agent_error [of env clock e d err d'] assms show ?thesis by simp
  next
    case (Inr a)
    with p have "append_and_project_agent env clock e d = (Inr a, d')" by simp
    from agent_log_ok_append [OF _ this] attempts_ok_append [OF _ _ this] identities_ok_event [of d env clock e] assms p
    show ?thesis by (simp add: agent_ok_def)
  qed
qed

lemma identities_ok_degraded:
  assumes "identities_ok d"
  shows "identities_ok (write_degraded_state env run_id state now d)" "identities_ok (write_degraded_run env run_id now d)"
  using assms degraded_grows [where d = d]
  by (auto intro!: identities_ok_grow [of d] simp: write_degraded_state_def write_degraded_run_def)

lemma agent_ok_identity: "agent_ok d \<Longrightarrow> agent_ok (snd (persist_identity_before_launch env i rq ra now clock d))"
  unfolding agent_ok_def
  by (cases "persist_identity_before_launch env i rq ra now clock d")
     (auto intro: agent_log_ok_identity attempts_ok_identity identities_ok_identity)

lemma agent_ok_retry: "agent_ok d \<Longrightarrow> agent_ok (snd (persist_retry_attempt_before_launch env i rq ra now clock d))"
  unfolding agent_ok_def
  by (cases "persist_retry_attempt_before_launch env i rq ra now clock d")
     (auto intro: agent_log_ok_retry attempts_ok_retry identities_ok_retry)

lemma agent_call_ok: "agent_call env d d' \<Longrightarrow> agent_ok d \<Longrightarrow> agent_ok d'"
  by (cases rule: agent_call.cases, assumption)
     (auto intro: agent_ok_identity agent_ok_retry agent_ok_event agent_ok_core core_ops same_core_ops
        seen_grows registry_ops_grow create_gate_grows attach_grows gate_ops_grow enqueue_agent_grows command_ops_grow)

lemma orderly_agent_steps_ok: "(orderly_agent_step env)\<^sup>*\<^sup>* d d' \<Longrightarrow> agent_ok d \<Longrightarrow> agent_ok d'"
proof (induction rule: rtranclp_induct)
  case (step d' d'')
  from step.IH [OF step.prems] have ok: "agent_ok d'" .
  from step.hyps(2) show ?case
  proof cases
    case orderly_call
    with ok show ?thesis by (blast intro: agent_call_ok)
  qed (use ok in \<open>simp_all add: agent_ok_def agent_log_ok_write_state agent_log_ok_write_run attempts_ok_write_state
        attempts_ok_write_run identities_ok_degraded\<close>)
qed

text \<open>The keys stay unique over arbitrary steps.\<close>

lemma identities_ok_core: "identities_ok d \<Longrightarrow> tables_grow d d' \<Longrightarrow> same_core d d' \<Longrightarrow> identities_ok d'"
  by (rule identities_ok_grow [of d]) (simp_all add: same_core_def)

lemma identities_ok_snd:
  "identities_ok d \<Longrightarrow> identities_ok (snd (persist_identity_before_launch env i rq ra now clock d))"
  "identities_ok d \<Longrightarrow> identities_ok (snd (persist_retry_attempt_before_launch env i rq ra now clock d))"
  by (auto intro: identities_ok_identity identities_ok_retry simp: prod_eq_iff)

lemma agent_steps_identities: "agent_steps env d d' \<Longrightarrow> identities_ok d \<Longrightarrow> identities_ok d'"
proof (induction rule: rtranclp_induct)
  case (step d' d'')
  from step.IH [OF step.prems] have ok: "identities_ok d'" .
  have "identities_ok d''" if "agent_call env d' d''"
    using that ok
    by (cases rule: agent_call.cases)
       (auto intro: identities_ok_snd identities_ok_event identities_ok_core core_ops same_core_ops
          seen_grows registry_ops_grow create_gate_grows attach_grows gate_ops_grow enqueue_agent_grows command_ops_grow)
  with step.hyps(2) ok show ?case by (auto elim!: agent_step.cases intro: identities_ok_degraded)
qed simp

section \<open>Identities\<close>

lemma identity_rows_mem:
  "x \<in> set (identity_rows P d) \<longleftrightarrow> (\<exists>r \<in> set (adb_runs d). \<exists>t \<in> set (adb_turns d). \<exists>a \<in> set (adb_attempts d). \<exists>p \<in> set (adb_registry d).
     at_agent_run_id t = ar_id r \<and> aa_agent_run_id a = ar_id r \<and> P r a \<and> pr_run_attempt_id p = aa_id a \<and>
     x = (\<lparr>pi_agent_run_id = ar_id r, pi_turn_id = at_id t, pi_run_attempt_id = aa_id a, pi_process_registry_id = pr_id p\<rparr>,
       ar_request_envelope r, aa_request_envelope a))"
  unfolding identity_rows_def by (auto simp: Bex_def)

lemma identity_rows_grow:
  assumes "tables_grow d d'" "\<And>r r' a a'. same_run r r' \<Longrightarrow> same_attempt a a' \<Longrightarrow> P r a \<Longrightarrow> P r' a'" "x \<in> set (identity_rows P d)"
  shows "x \<in> set (identity_rows P d')"
proof -
  from assms(3) obtain r t a p where rows: "r \<in> set (adb_runs d)" "t \<in> set (adb_turns d)" "a \<in> set (adb_attempts d)" "p \<in> set (adb_registry d)"
    and join: "at_agent_run_id t = ar_id r" "aa_agent_run_id a = ar_id r" "P r a" "pr_run_attempt_id p = aa_id a"
    and x: "x = (\<lparr>pi_agent_run_id = ar_id r, pi_turn_id = at_id t, pi_run_attempt_id = aa_id a, pi_process_registry_id = pr_id p\<rparr>,
       ar_request_envelope r, aa_request_envelope a)"
    unfolding identity_rows_mem by blast
  from assms(1) have e: "evolves same_run (adb_runs d) (adb_runs d')" "evolves (=) (adb_turns d) (adb_turns d')"
      "evolves same_attempt (adb_attempts d) (adb_attempts d')" "evolves registry_moves (adb_registry d) (adb_registry d')"
    by (simp_all add: tables_grow_def)
  from evolves_mem [OF e(1) rows(1)] evolves_mem [OF e(2) rows(2)] evolves_mem [OF e(3) rows(3)] evolves_mem [OF e(4) rows(4)]
  obtain r' a' p' where new: "r' \<in> set (adb_runs d')" "t \<in> set (adb_turns d')" "a' \<in> set (adb_attempts d')" "p' \<in> set (adb_registry d')"
    and same: "same_run r r'" "same_attempt a a'" "registry_moves p p'" by blast
  have "P r' a'" by (rule assms(2) [OF same(1,2) join(3)])
  with join x same show ?thesis unfolding identity_rows_mem
    by (intro bexI [OF _ new(1)] bexI [OF _ new(2)] bexI [OF _ new(3)] bexI [OF _ new(4)])
       (simp add: same_run_def same_attempt_def registry_moves_def)
qed

lemma distinct_key: "distinct (map f xs) \<Longrightarrow> x \<in> set xs \<Longrightarrow> y \<in> set xs \<Longrightarrow> f x = f y \<Longrightarrow> x = y"
  by (simp add: distinct_map inj_on_def)

text \<open>A key that selects one attempt selects one identity.\<close>

lemma identity_rows_unique:
  assumes "identities_ok d" "x \<in> set (identity_rows P d)" "y \<in> set (identity_rows P d)"
    and one: "\<And>r r' a a'. r \<in> set (adb_runs d) \<Longrightarrow> r' \<in> set (adb_runs d) \<Longrightarrow> a \<in> set (adb_attempts d) \<Longrightarrow> a' \<in> set (adb_attempts d) \<Longrightarrow>
      aa_agent_run_id a = ar_id r \<Longrightarrow> aa_agent_run_id a' = ar_id r' \<Longrightarrow> P r a \<Longrightarrow> P r' a' \<Longrightarrow> a = a'"
  shows "x = y"
proof -
  from assms(2) obtain r t a p where x: "r \<in> set (adb_runs d)" "t \<in> set (adb_turns d)" "a \<in> set (adb_attempts d)" "p \<in> set (adb_registry d)"
      "at_agent_run_id t = ar_id r" "aa_agent_run_id a = ar_id r" "P r a" "pr_run_attempt_id p = aa_id a"
      "x = (\<lparr>pi_agent_run_id = ar_id r, pi_turn_id = at_id t, pi_run_attempt_id = aa_id a, pi_process_registry_id = pr_id p\<rparr>,
       ar_request_envelope r, aa_request_envelope a)"
    unfolding identity_rows_mem by blast
  from assms(3) obtain r' t' a' p' where y: "r' \<in> set (adb_runs d)" "t' \<in> set (adb_turns d)" "a' \<in> set (adb_attempts d)" "p' \<in> set (adb_registry d)"
      "at_agent_run_id t' = ar_id r'" "aa_agent_run_id a' = ar_id r'" "P r' a'" "pr_run_attempt_id p' = aa_id a'"
      "y = (\<lparr>pi_agent_run_id = ar_id r', pi_turn_id = at_id t', pi_run_attempt_id = aa_id a', pi_process_registry_id = pr_id p'\<rparr>,
       ar_request_envelope r', aa_request_envelope a')"
    unfolding identity_rows_mem by blast
  from assms(1) have keys: "distinct (map ar_id (adb_runs d))" "distinct (map at_agent_run_id (adb_turns d))" "distinct (map pr_run_attempt_id (adb_registry d))"
    by (simp_all add: identities_ok_def)
  have "a = a'" by (rule one [OF x(1) y(1) x(3) y(3) x(6) y(6) x(7) y(7)])
  moreover from this have "r = r'" using distinct_key [OF keys(1) x(1) y(1)] x(6) y(6) by simp
  moreover from this have "t = t'" using distinct_key [OF keys(2) x(2) y(2)] x(5) y(5) by simp
  moreover have "p = p'" using distinct_key [OF keys(3) x(4) y(4)] x(8) y(8) \<open>a = a'\<close> by simp
  ultimately show ?thesis using x(9) y(9) by simp
qed

definition launch_key :: "AgentRunRequestEnvelope \<Rightarrow> AgentRunRecord \<Rightarrow> 'v AgentRunAttemptRecord \<Rightarrow> bool" where
  "launch_key rq r a \<longleftrightarrow> ar_idempotency_key r = rq_idempotency_key rq \<and> aa_attempt_number a = 1"

lemma launch_rows_unique:
  assumes "identities_ok d" "x \<in> set (identity_rows (launch_key rq) d)" "y \<in> set (identity_rows (launch_key rq) d)"
  shows "x = y"
proof (rule identity_rows_unique [OF assms])
  fix r r' a a'
  assume rows: "r \<in> set (adb_runs d)" "r' \<in> set (adb_runs d)" "a \<in> set (adb_attempts d)" "a' \<in> set (adb_attempts d)"
    "aa_agent_run_id a = ar_id r" "aa_agent_run_id a' = ar_id r'" "launch_key rq r a" "launch_key rq r' a'"
  from assms(1) have keys: "distinct (map ar_idempotency_key (adb_runs d))"
      "distinct (map (\<lambda>a. (aa_agent_run_id a, aa_attempt_number a)) (adb_attempts d))"
    by (simp_all add: identities_ok_def)
  from distinct_key [OF keys(1) rows(1,2)] rows(7,8) have "r = r'" by (simp add: launch_key_def)
  with distinct_key [OF keys(2) rows(3,4)] rows(5-8) show "a = a'" by (simp add: launch_key_def)
qed

lemma existing_identity_mem: "existing_identity P d = Some x \<Longrightarrow> x \<in> set (identity_rows P d)"
  by (auto simp: existing_identity_def split: list.splits)

lemma existing_identityI:
  assumes "identities_ok d" "x \<in> set (identity_rows (launch_key rq) d)"
  shows "existing_identity (launch_key rq) d = Some x"
proof (cases "identity_rows (launch_key rq) d")
  case (Cons y ys)
  with launch_rows_unique [OF assms(1,2), of y] show ?thesis by (simp add: existing_identity_def)
qed (use assms in simp)

lemma persist_identity_alt:
  "persist_identity_before_launch env i rq ra now clock d =
     (case validate_for_run ra rq of
        Inl e \<Rightarrow> (Inl (AInvalidAttempt e), d)
      | Inr _ \<Rightarrow>
          if ra_attempt_number ra \<noteq> 1 then (Inl AInvalidFirstAttempt, d)
          else case existing_identity (launch_key rq) d of
              Some (identity, rq', ra') \<Rightarrow>
                if rq' \<noteq> rq \<or> ra' \<noteq> ra then (Inl (AIdempotencyConflict ''agent run'' (rq_idempotency_key rq)), d)
                else (Inr identity, d)
            | None \<Rightarrow>
                (case insert_identity env i rq ra now clock d of
                   Inl e \<Rightarrow> (Inl (ADatabase e), d)
                 | Inr d' \<Rightarrow> (Inr \<lparr>pi_agent_run_id = rq_agent_run_id rq, pi_turn_id = rq_turn_id rq,
                     pi_run_attempt_id = ra_run_attempt_id ra, pi_process_registry_id = i\<rparr>, d')))"
proof -
  have key: "(\<lambda>r a. ar_idempotency_key r = rq_idempotency_key rq \<and> aa_attempt_number a = 1) = launch_key rq"
    by (simp add: fun_eq_iff launch_key_def)
  show ?thesis unfolding persist_identity_before_launch_def key
    by (cases "insert_identity env i rq ra now clock d") (auto simp: transaction_def split: sum.splits option.splits)
qed

lemma persisted_row:
  assumes "persist_identity_before_launch env i rq ra now clock d = (Inr identity, d')"
  shows "(identity, rq, ra) \<in> set (identity_rows (launch_key rq) d')" "validate_for_run ra rq = Inr ()" "ra_attempt_number ra = 1"
proof -
  from assms show valid: "validate_for_run ra rq = Inr ()" "ra_attempt_number ra = 1"
    by (auto simp: persist_identity_alt split: sum.splits if_splits)
  show "(identity, rq, ra) \<in> set (identity_rows (launch_key rq) d')"
  proof (cases "existing_identity (launch_key rq) d")
    case (Some x)
    with assms valid have "x = (identity, rq, ra)" "d' = d" by (auto simp: persist_identity_alt split: if_splits prod.splits)
    with existing_identity_mem [OF Some] show ?thesis by simp
  next
    case None
    with assms valid have ins: "insert_identity env i rq ra now clock d = Inr d'" and
      identity: "identity = \<lparr>pi_agent_run_id = rq_agent_run_id rq, pi_turn_id = rq_turn_id rq,
        pi_run_attempt_id = ra_run_attempt_id ra, pi_process_registry_id = i\<rparr>"
      by (auto simp: persist_identity_alt split: sum.splits)
    from insert_identity_ok(3) [OF ins] have rows: "run_row_of rq clock \<in> set (adb_runs d')" "turn_row_of rq clock \<in> set (adb_turns d')"
        "attempt_row_of rq ra clock \<in> set (adb_attempts d')"
        "registry_row_of i (ra_run_attempt_id ra) clock (sql_bind env now) \<in> set (adb_registry d')" by simp_all
    show ?thesis unfolding identity_rows_mem
      by (intro bexI [OF _ rows(1)] bexI [OF _ rows(2)] bexI [OF _ rows(3)] bexI [OF _ rows(4)])
         (simp add: identity launch_key_def run_row_of_def turn_row_of_def attempt_row_of_def registry_row_of_def valid(2))
  qed
qed

section \<open>What the store promises\<close>

text \<open>
  C11: the stored state of an agent run is the replay of its event log. From a consistent database, after any operations of the
  agent store in any order, every run has a state row whose state is the projection of the logged events, in order, or the same
  state marked as degraded; the status columns of the run and of its state agree with it, and so does the attempt the state names
  as the last, which is finished when that status is terminal. The operations may interleave at every statement or
  transaction, with one condition: when \<open>mark_projection_degraded\<close>, which is not a transaction, writes back the state it
  has read, that state is still the stored one, apart from another mark. Without it the claim is false (see
  \<open>degraded_mark_can_lose_an_event\<close>).
\<close>

theorem agent_state_replays_log:
  assumes "agent_ok d" "(orderly_agent_step env)\<^sup>*\<^sup>* d d'" "run \<in> set (adb_runs d')"
  shows "\<exists>st \<in> set (adb_states d'). ars_agent_run_id st = ar_id run \<and>
    (let s = ars_state_json st;
         r = deliver reduce_agent_event (run_state_pending (ar_request_envelope run)) (agent_log (ar_id run) d')
     in (s = r \<or> s = degrade_run r) \<and> ars_status st = st_status r \<and> ar_status run = st_status r \<and>
        asr_last_event_sequence st = int (unat (st_last_event_sequence r)) \<and>
        (\<forall>i. st_last_run_attempt_id r = Some i \<longrightarrow> (\<exists>a \<in> set (adb_attempts d'). aa_id a = i \<and> aa_agent_run_id a = ar_id run \<and>
           aa_status a = st_status r \<and> (agent_terminal (st_status r) \<longrightarrow> aa_finished_at a \<noteq> None))))"
proof -
  from orderly_agent_steps_ok [OF assms(2,1)] have ok: "agent_log_ok d'" "attempts_ok d'" by (simp_all add: agent_ok_def)
  obtain st where st: "st \<in> set (adb_states d')" "agent_projected run st (agent_log (ar_id run) d')"
    using agent_log_ok_run [OF ok(1) assms(3)] .
  define r where "r = deliver reduce_agent_event (run_state_pending (ar_request_envelope run)) (agent_log (ar_id run) d')"
  have same: "st_status (degrade_run r) = st_status r" "st_last_run_attempt_id (degrade_run r) = st_last_run_attempt_id r"
    by (simp_all add: degrade_run_def)
  from st(2) same have cols: "ars_state_json st = r \<or> ars_state_json st = degrade_run r" "ars_agent_run_id st = ar_id run"
      "ars_status st = st_status r" "ar_status run = st_status r" "asr_last_run_attempt_id st = st_last_run_attempt_id r"
      "asr_last_event_sequence st = int (unat (st_last_event_sequence r))"
    unfolding agent_projected_def Let_def replayed_def r_def [symmetric] by auto
  have "attempt_current d' st" using ok(2) st(1) by (simp add: attempts_ok_def)
  then have "\<forall>i. st_last_run_attempt_id r = Some i \<longrightarrow> (\<exists>a \<in> set (adb_attempts d'). aa_id a = i \<and> aa_agent_run_id a = ar_id run \<and>
      aa_status a = st_status r \<and> (agent_terminal (st_status r) \<longrightarrow> aa_finished_at a \<noteq> None))"
    unfolding attempt_current_def cols(2,3,5) by (cases "st_last_run_attempt_id r") (simp_all del: agent_terminal.simps)
  with cols st(1) show ?thesis unfolding Let_def r_def [symmetric] by blast
qed

definition sample_agent_db :: "json_lit agent_db" where
  "sample_agent_db = \<lparr>adb_sessions = [2], adb_workspaces = [1], adb_processes = [], adb_runs = [], adb_turns = [], adb_attempts = [],
     adb_registry = [], adb_events = [], adb_states = [], adb_seen = [], adb_gates = [], adb_commands = []\<rparr>"

definition sample_launched_db :: "json_lit agent_db" where
  "sample_launched_db = snd (persist_identity_before_launch unary_env 30 sample_request sample_attempt 1 ''1'' sample_agent_db)"

definition sample_finished_db :: "json_lit agent_db" where
  "sample_finished_db = snd (append_and_project_agent unary_env ''2'' (sample_event 2 9 (AELifecycleChanged ASucceeded))
     (snd (append_and_project_agent unary_env ''1'' (sample_event 1 8 (AELifecycleChanged ARunning)) sample_launched_db)))"

lemma sample_agent_db_ok: "agent_ok sample_agent_db"
  by (simp add: sample_agent_db_def agent_ok_def agent_log_ok_def attempts_ok_def identities_ok_def)

lemma sample_orderly_steps: "(orderly_agent_step unary_env)\<^sup>*\<^sup>* sample_launched_db sample_finished_db"
    "orderly_agent_step unary_env sample_agent_db sample_launched_db"
  unfolding sample_finished_db_def sample_launched_db_def
  by (meson agent_call.event agent_call.identity orderly_call r_into_rtranclp rtranclp.rtrancl_into_rtrancl)+

lemma sample_agent_steps: "agent_steps unary_env sample_launched_db sample_finished_db"
  using sample_orderly_steps(1) by (rule rtranclp_mono [THEN predicate2D, rotated]) (blast intro: orderly_agent_step)

theorem agent_state_replays_log_witness:
  "\<exists>st \<in> set (adb_states sample_finished_db). ars_status st = ASucceeded \<and>
     (\<exists>a \<in> set (adb_attempts sample_finished_db). aa_id a = 7 \<and> aa_status a = ASucceeded \<and> aa_finished_at a \<noteq> None)"
proof -
  from sample_orderly_steps have steps: "(orderly_agent_step unary_env)\<^sup>*\<^sup>* sample_agent_db sample_finished_db"
    by (rule converse_rtranclp_into_rtranclp [rotated])
  let ?run = "hd (adb_runs sample_finished_db)"
  let ?r = "deliver reduce_agent_event (run_state_pending (ar_request_envelope ?run)) (agent_log (ar_id ?run) sample_finished_db)"
  have facts: "adb_runs sample_finished_db \<noteq> []" "st_status ?r = ASucceeded" "st_last_run_attempt_id ?r = Some 7" by code_simp+
  from agent_state_replays_log [OF sample_agent_db_ok steps hd_in_set [OF facts(1)]] facts(2,3)
  show ?thesis unfolding Let_def by fastforce
qed

text \<open>
  The interleaving that the condition excludes: a mark reads the state of a run, the run's next event is appended, and the mark
  writes back what it read. The state then lacks a logged event, and the status column of the run disagrees with it.
\<close>

definition sample_lost_db :: "json_lit agent_db" where
  "sample_lost_db = (case read_run_state 3 sample_launched_db of
     Inl _ \<Rightarrow> sample_launched_db
   | Inr state \<Rightarrow> write_degraded_run unary_env 3 4 (write_degraded_state unary_env 3 state 3
       (snd (append_and_project_agent unary_env ''2'' (sample_event 1 8 (AELifecycleChanged ARunning)) sample_launched_db))))"

lemma degraded_mark_can_lose_an_event:
  "agent_steps unary_env sample_launched_db sample_lost_db"
  "map (\<lambda>r. (ar_id r, ar_status r)) (adb_runs sample_lost_db) = [(3, ARunning)]"
  "map (\<lambda>s. (ars_agent_run_id s, st_status (ars_state_json s), st_last_event_sequence (ars_state_json s))) (adb_states sample_lost_db) = [(3, APending, 0)]"
  "map ae_sequence (agent_log 3 sample_lost_db) = [1]"
proof -
  let ?appended = "snd (append_and_project_agent unary_env ''2'' (sample_event 1 8 (AELifecycleChanged ARunning)) sample_launched_db)"
  have "agent_step unary_env sample_launched_db ?appended" by (intro agent_step.call agent_call.event)
  then have "agent_steps unary_env sample_launched_db (write_degraded_run unary_env 3 4 (write_degraded_state unary_env 3 state 3 ?appended))" for state
    by (meson degraded_state degraded_run r_into_rtranclp rtranclp.rtrancl_into_rtrancl)
  then show "agent_steps unary_env sample_launched_db sample_lost_db"
    by (simp add: sample_lost_db_def split: sum.splits)
qed code_simp+

text \<open>
  C12: a persisted identity is stable. Once the identity of an agent run has been persisted, persisting it again with the
  same request and attempt returns the same ids and changes nothing, whatever the agent store has done in between.
\<close>

theorem persisted_identity_is_stable:
  assumes "agent_ok d" "persist_identity_before_launch env i rq ra now clock d = (Inr identity, d1)" "agent_steps env d1 d2"
  shows "persist_identity_before_launch env i' rq ra now' clock' d2 = (Inr identity, d2)"
proof -
  from agent_ok_identity [OF assms(1), of env i rq ra now clock] assms(2) have "agent_ok d1" by simp
  with agent_steps_identities [OF assms(3)] have "identities_ok d2" by (simp add: agent_ok_def)
  moreover have "(identity, rq, ra) \<in> set (identity_rows (launch_key rq) d2)"
    by (rule identity_rows_grow [OF agent_steps_grow [OF assms(3)] _ persisted_row(1) [OF assms(2)]])
       (simp add: launch_key_def same_run_def same_attempt_def)
  ultimately have "existing_identity (launch_key rq) d2 = Some (identity, rq, ra)" by (rule existing_identityI)
  then show ?thesis by (simp add: persist_identity_alt persisted_row(2,3) [OF assms(2)])
qed

theorem persisted_identity_is_stable_witness:
  "persist_identity_before_launch unary_env 31 sample_request sample_attempt 5 ''5'' sample_finished_db =
     (Inr \<lparr>pi_agent_run_id = 3, pi_turn_id = 4, pi_run_attempt_id = 7, pi_process_registry_id = 30\<rparr>, sample_finished_db)"
proof -
  have "fst (persist_identity_before_launch unary_env 30 sample_request sample_attempt 1 ''1'' sample_agent_db) =
      Inr \<lparr>pi_agent_run_id = 3, pi_turn_id = 4, pi_run_attempt_id = 7, pi_process_registry_id = 30\<rparr>" by code_simp
  then have "persist_identity_before_launch unary_env 30 sample_request sample_attempt 1 ''1'' sample_agent_db =
      (Inr \<lparr>pi_agent_run_id = 3, pi_turn_id = 4, pi_run_attempt_id = 7, pi_process_registry_id = 30\<rparr>, sample_launched_db)"
    by (simp add: sample_launched_db_def prod_eq_iff)
  from persisted_identity_is_stable [OF sample_agent_db_ok this sample_agent_steps] show ?thesis .
qed

text \<open>
  C13: what is settled stays settled. Over any operations of the agent store, a process that was observed to exit keeps its exit
  code and identity, a launch gate that was satisfied or failed does not change, and a delivered command does not change.
\<close>

theorem agent_outcomes_stay:
  assumes "agent_steps env d d'"
  shows "(\<forall>p \<in> set (adb_registry d). pr_registry_status p = RegExited \<longrightarrow> (\<exists>p' \<in> set (adb_registry d').
      pr_run_attempt_id p' = pr_run_attempt_id p \<and> pr_registry_status p' = RegExited \<and> pr_pid p' = pr_pid p \<and>
      pr_exit_code p' = pr_exit_code p \<and> pr_observed_exited_at p' = pr_observed_exited_at p)) \<and>
    (\<forall>g \<in> set (adb_gates d). ag_gate_status g \<in> {GateSatisfied, GateFailed} \<longrightarrow> g \<in> set (adb_gates d')) \<and>
    (\<forall>c \<in> set (adb_commands d). ac_delivery_status c = DDelivered \<longrightarrow> c \<in> set (adb_commands d'))"
proof -
  from agent_steps_grow [OF assms] have e: "evolves registry_moves (adb_registry d) (adb_registry d')"
      "evolves gate_moves (adb_gates d) (adb_gates d')" "evolves command_moves (adb_commands d) (adb_commands d')"
    by (simp_all add: tables_grow_def)
  from evolves_mem [OF e(1)] evolves_mem [OF e(2)] evolves_mem [OF e(3)] show ?thesis
    unfolding registry_moves_def gate_moves_def gate_settled_def command_moves_def by (intro conjI ballI impI) blast+
qed

definition sample_exited_db :: "json_lit agent_db" where
  "sample_exited_db = snd (mark_process_exited unary_env 7 (Some 0) 3 3
     (snd (mark_process_started unary_env 7 42 None None 2 2 sample_launched_db)))"

theorem agent_outcomes_stay_witness:
  "\<exists>p' \<in> set (adb_registry (snd (mark_process_host_unreachable unary_env 7 4 sample_exited_db))).
     pr_run_attempt_id p' = 7 \<and> pr_registry_status p' = RegExited \<and> pr_exit_code p' = Some 0"
proof -
  let ?p = "hd (adb_registry sample_exited_db)"
  have facts: "adb_registry sample_exited_db \<noteq> []" "pr_registry_status ?p = RegExited" "pr_run_attempt_id ?p = 7" "pr_exit_code ?p = Some 0"
    by code_simp+
  have step: "agent_steps unary_env sample_exited_db (snd (mark_process_host_unreachable unary_env 7 4 sample_exited_db))"
    by (rule r_into_rtranclp) (intro agent_step.call agent_call.unreachable)
  from agent_outcomes_stay [OF step] hd_in_set [OF facts(1)] facts(2-4) show ?thesis by metis
qed

end
