(* ===== verification/Condition_Router.thy ===== *)
theory Condition_Router
  imports Planner
begin

text \<open>
  The router of condition nodes, \<open>crates/server/src/workflow_runtime/condition_router.rs\<close>, and the
  prompt envelope it fills, \<open>envelope.rs\<close>. A condition node is decided by an agent: the
  router builds its prompt, looks for exactly one tagged decision block in the answer, validates it and
  either routes or pauses for a human. Parameters: the JSON library, and \<open>decision_from_str\<close>, the
  serde-derived parser of a \<open>RouterDecision\<close>.
\<close>

section \<open>The envelope\<close>

abbreviation nl :: string where "nl \<equiv> [CHR 0x0A]"

definition MAX_WORKFLOW_ENVELOPE_INPUT_CHARS :: nat where
  "MAX_WORKFLOW_ENVELOPE_INPUT_CHARS = 8000"

definition MAX_WORKFLOW_ENVELOPE_HANDOFF_CHARS :: nat where
  "MAX_WORKFLOW_ENVELOPE_HANDOFF_CHARS = 12000"

record WorkflowEnvelopeUpstream =
  up_heading :: string
  up_body :: string

record WorkflowAgentEnvelope =
  env_node_type_label :: string
  env_node_name :: string
  env_node_id :: string
  env_workflow_input :: string
  env_upstream_handoff :: "WorkflowEnvelopeUpstream list"
  env_node_task :: string
  env_handoff_contract :: string

definition truncate_for_workflow_envelope :: "string \<Rightarrow> nat \<Rightarrow> string" where
  "truncate_for_workflow_envelope value limit =
     (let truncated = take limit value; rest = drop limit value
      in if rest \<noteq> [] then truncated @ nl @ ''[truncated to '' @ dec_of_nat limit @ '' characters]''
         else value)"

definition render_upstream :: "WorkflowEnvelopeUpstream \<Rightarrow> string" where
  "render_upstream u =
     (let body = trim (up_body u)
      in ''### '' @ trim (up_heading u) @ nl @
         (if body = [] then ''<empty>'' @ nl @ nl
          else truncate_for_workflow_envelope body MAX_WORKFLOW_ENVELOPE_HANDOFF_CHARS @ nl @ nl))"

definition render_workflow_agent_envelope :: "WorkflowAgentEnvelope \<Rightarrow> string" where
  "render_workflow_agent_envelope env =
     (let workflow_input = trim (env_workflow_input env);
          node_task = trim (env_node_task env);
          handoff_contract = trim (env_handoff_contract env)
      in ''# Workflow Agent Envelope'' @ nl @ nl @
         ''This message is the explicit runtime context for one workflow node. '' @
         ''The saved node prompt or runtime node task is preserved under `Node Task`; the surrounding sections are workflow handoff context.'' @ nl @ nl @
         ''## Current Node'' @ nl @
         ''- Type: '' @ env_node_type_label env @ nl @ ''- Name: '' @ env_node_name env @ nl @
         ''- ID: '' @ env_node_id env @ nl @ nl @
         ''## Workflow Input'' @ nl @
         (if workflow_input = [] then ''No workflow input was provided.'' @ nl @ nl
          else truncate_for_workflow_envelope workflow_input MAX_WORKFLOW_ENVELOPE_INPUT_CHARS @ nl @ nl) @
         ''## Direct Upstream Handoff'' @ nl @
         (if env_upstream_handoff env = []
          then ''No direct upstream node has produced output for this node.'' @ nl @ nl
          else concat (map render_upstream (env_upstream_handoff env))) @
         ''## Node Task'' @ nl @
         (if node_task = [] then ''No explicit task prompt was configured for this node.'' @ nl @ nl
          else node_task @ nl @ nl) @
         ''## Handoff Contract'' @ nl @
         (if handoff_contract = []
          then ''No additional handoff contract was configured for this node.''
          else handoff_contract))"

section \<open>The router\<close>

definition DECISION_START_TAG :: string where "DECISION_START_TAG = ''<workflow_router_decision>''"
definition DECISION_END_TAG :: string where "DECISION_END_TAG = ''</workflow_router_decision>''"

record RouterUpstreamNode =
  ru_node_id :: string
  ru_node_type :: string
  ru_status :: string
  ru_output_text :: "string option"
  ru_error_text :: "string option"

record ConditionRouterCompletion =
  rc_output_text :: string
  rc_selected :: "string list"
  rc_skipped :: "string list"
  rc_pause_prompt :: "string option"

definition auto_route :: "string \<Rightarrow> string list \<Rightarrow> string list \<Rightarrow> ConditionRouterCompletion" where
  "auto_route output selected skipped = \<lparr>rc_output_text = output, rc_selected = selected,
     rc_skipped = skipped, rc_pause_prompt = None\<rparr>"

definition pause :: "string \<Rightarrow> string \<Rightarrow> ConditionRouterCompletion" where
  "pause output prompt = \<lparr>rc_output_text = output, rc_selected = [], rc_skipped = [],
     rc_pause_prompt = Some prompt\<rparr>"

definition should_pause :: "ConditionRouterCompletion \<Rightarrow> bool" where
  "should_pause c \<longleftrightarrow> rc_pause_prompt c \<noteq> None"

record ManualConditionRoute =
  mr_output_text :: string
  mr_selected :: "string list"
  mr_skipped :: "string list"

datatype ConditionRouterError = ConditionRouterError (cre_message: string)

datatype RouterDecisionStatus = RDSelected | RDNeedsUser

datatype RouterDecisionConfidence = ConfHigh | ConfMedium | ConfLow

record RouterDecision =
  rd_schema_version :: u32
  rd_status :: RouterDecisionStatus
  rd_selected :: "string list"
  rd_skipped :: "string list"
  rd_confidence :: "RouterDecisionConfidence option"
  rd_reason :: "string option"
  rd_question :: "string option"

record ValidatedSelection =
  vs_selected :: "string list"
  vs_skipped :: "string list"

record ConditionCandidate =
  cand_target_node_id :: string
  cand_target_label :: string
  cand_condition :: string

definition condition_outgoing_target_ids :: "'v WorkflowGraph \<Rightarrow> 'v WorkflowNode \<Rightarrow> string list" where
  "condition_outgoing_target_ids g n = map we_target (condition_outgoing_edges g (wn_id n))"

definition condition_routing_mode :: "'v WorkflowNode \<Rightarrow> ConditionRoutingMode" where
  "condition_routing_mode n = (case routing_mode (wn_data n) of Some m \<Rightarrow> m | None \<Rightarrow> RSingle)"

definition node_label :: "'v WorkflowNode \<Rightarrow> string" where
  "node_label n =
     (case map_option trim (display_name (wn_data n)) of
        Some name \<Rightarrow> if name \<noteq> [] then name else wn_id n
      | None \<Rightarrow> wn_id n)"

definition indent_block :: "string \<Rightarrow> string \<Rightarrow> string" where
  "indent_block value prefix = join_str nl (map (\<lambda>line. prefix @ line) (lines value))"

definition condition_candidates :: "'v WorkflowGraph \<Rightarrow> 'v WorkflowNode \<Rightarrow> ConditionCandidate list" where
  "condition_candidates g n =
     map (\<lambda>e.
       let target_node = find (\<lambda>m. wn_id m = we_target e) (wg_nodes g);
           branch = Option.bind (branches (wn_data n))
             (find (\<lambda>b. branch_target_node_id b = Some (we_target e)))
       in \<lparr>cand_target_node_id = we_target e,
           cand_target_label = (case target_node of Some m \<Rightarrow> node_label m | None \<Rightarrow> we_target e),
           cand_condition = (case Option.bind branch branch_condition of Some c \<Rightarrow> c | None \<Rightarrow> [])\<rparr>)
     (condition_outgoing_edges g (wn_id n))"

abbreviation dq :: "string \<Rightarrow> string" where "dq s \<equiv> [CHR 0x22] @ s @ [CHR 0x22]"

definition render_candidate :: "ConditionCandidate \<Rightarrow> string" where
  "render_candidate c = ''- node_id: '' @ cand_target_node_id c @ nl @ ''  label: '' @ cand_target_label c @
     nl @ ''  condition: '' @ cand_condition c @ nl"

definition render_router_node_task ::
  "string \<Rightarrow> 'v WorkflowNode \<Rightarrow> ConditionCandidate list \<Rightarrow> string option \<Rightarrow> string" where
  "render_router_node_task run_id n candidates worktree_summary =
     ''You are the router for one workflow Condition node.'' @ nl @
     ''Do not modify files. You may inspect the repository read-only if needed.'' @ nl @
     ''Choose only from the connected downstream candidate node ids listed below.'' @ nl @
     ''If no branch clearly matches, return status needs_user and ask a concise question.'' @ nl @ nl @
     ''Route in this order:'' @ nl @
     ''1. Understand what the direct upstream node(s) completed, including any persisted file changes or generated files shown in the worktree evidence.'' @ nl @
     ''2. Analyze each downstream branch condition and the target label to determine what evidence would justify choosing that branch.'' @ nl @
     ''3. Compare upstream completion evidence against each branch condition, then select only branches that clearly match.'' @ nl @
     ''Do not choose a branch only because its label sounds plausible; require evidence from upstream handoff, file changes, generated files, or read-only inspection.'' @ nl @ nl @
     ''Workflow run id: '' @ run_id @ nl @
     ''Routing mode: '' @ (case condition_routing_mode n of RSingle \<Rightarrow> ''single'' | RMulti \<Rightarrow> ''multi'') @ nl @ nl @
     ''Candidate downstream branches:'' @ nl @
     concat (map render_candidate candidates) @
     nl @ ''Worktree evidence before routing:'' @ nl @
     (case worktree_summary of Some w \<Rightarrow> w | None \<Rightarrow> ''Not captured.'') @
     nl @ nl @ ''Return exactly one decision block and no second block:'' @ nl @
     DECISION_START_TAG @
     nl @ ''{'' @ nl @
     ''  '' @ dq ''schema_version'' @ '': 1,'' @ nl @
     ''  '' @ dq ''status'' @ '': '' @ dq ''selected'' @ '','' @ nl @
     ''  '' @ dq ''selected_target_node_ids'' @ '': ['' @ dq ''target-node-id'' @ ''],'' @ nl @
     ''  '' @ dq ''skipped_target_node_ids'' @ '': ['' @ dq ''other-target-node-id'' @ ''],'' @ nl @
     ''  '' @ dq ''confidence'' @ '': '' @ dq ''high'' @ '','' @ nl @
     ''  '' @ dq ''reason'' @ '': '' @ dq ''Why the selected branch matches.'' @ '','' @ nl @
     ''  '' @ dq ''question'' @ '': null'' @ nl @
     ''}'' @ nl @
     DECISION_END_TAG @
     nl @ nl @ ''For uncertainty use status needs_user, confidence low, no selected targets, and a question.''"

definition router_upstream_handoff :: "RouterUpstreamNode \<Rightarrow> WorkflowEnvelopeUpstream" where
  "router_upstream_handoff u = \<lparr>
     up_heading = ru_node_id u @ '' ['' @ ru_node_type u @ ''] status='' @ ru_status u,
     up_body =
       ''node_id: '' @ ru_node_id u @ nl @ ''node_type: '' @ ru_node_type u @ nl @ ''status: '' @ ru_status u @
       (case ru_output_text u of Some t \<Rightarrow> nl @ ''output:'' @ nl @ indent_block t ''  '' | None \<Rightarrow> []) @
       (case ru_error_text u of Some t \<Rightarrow> nl @ ''error:'' @ nl @ indent_block t ''  '' | None \<Rightarrow> [])\<rparr>"

definition router_handoff_contract :: string where
  "router_handoff_contract =
     ''- Work in the shared workflow workspace/worktree only for read-only inspection.'' @ nl @
     ''- Do not modify files and do not perform implementation work; this Condition node only decides routing.'' @ nl @
     ''- Treat direct upstream handoff as the prior workflow context for branch selection.'' @ nl @
     ''- Choose only connected downstream candidate node ids listed in `Node Task`.'' @ nl @
     ''- If no branch clearly matches or required information is missing, return `needs_user` with a specific question instead of guessing.'' @ nl @
     ''- Finish with exactly one `workflow_router_decision` block; ordinary prose alone will pause the workflow.''"

definition build_router_prompt ::
  "string \<Rightarrow> 'v WorkflowGraph \<Rightarrow> 'v WorkflowNode \<Rightarrow> string \<Rightarrow> RouterUpstreamNode list \<Rightarrow> string option \<Rightarrow>
   ConditionRouterError + string"
where
  "build_router_prompt run_id g n run_input upstream_nodes worktree_summary =
     (if wn_kind n \<noteq> KCondition
      then Inl (ConditionRouterError (''Workflow node '' @ quoted (wn_id n) @ '' is not a condition''))
      else let candidates = condition_candidates g n
           in if candidates = []
              then Inl (ConditionRouterError (''Condition node '' @ quoted (wn_id n) @ '' has no outgoing candidates''))
              else Inr (render_workflow_agent_envelope \<lparr>
                env_node_type_label = ''Condition router'',
                env_node_name = node_label n,
                env_node_id = wn_id n,
                env_workflow_input = run_input,
                env_upstream_handoff = map router_upstream_handoff upstream_nodes,
                env_node_task = render_router_node_task run_id n candidates worktree_summary,
                env_handoff_contract = router_handoff_contract\<rparr>))"

text \<open>The loop that collects the text of the decision blocks.\<close>

function decision_blocks :: "string \<Rightarrow> string list \<Rightarrow> ConditionRouterError + string list" where
  "decision_blocks s matches =
     (case find_str DECISION_START_TAG s of
        None \<Rightarrow> Inr matches
      | Some start_offset \<Rightarrow>
          let body = drop (start_offset + length DECISION_START_TAG) s
          in case find_str DECISION_END_TAG body of
               None \<Rightarrow> Inl (ConditionRouterError ''Router decision block is missing the closing tag'')
             | Some end_offset \<Rightarrow>
                 decision_blocks (drop (end_offset + length DECISION_END_TAG) body)
                   (matches @ [trim (take end_offset body)]))"
  by pat_completeness auto
termination
proof (relation "measure (\<lambda>(s, matches). length s)", goal_cases)
  case (2 s matches start_offset body end_offset)
  then have "s \<noteq> []" by (cases s) (auto simp: DECISION_START_TAG_def)
  moreover have "length DECISION_START_TAG > 0" by (simp add: DECISION_START_TAG_def)
  ultimately show ?case using 2 by auto
qed simp

declare decision_blocks.simps [simp del]

definition parse_router_decision ::
  "(string \<Rightarrow> string + RouterDecision) \<Rightarrow> string \<Rightarrow> ConditionRouterError + RouterDecision" where
  "parse_router_decision decision_from_str raw =
     and_then (decision_blocks raw []) (\<lambda>matches.
       case matches of
         [] \<Rightarrow> Inl (ConditionRouterError ''Router output did not contain a workflow_router_decision block'')
       | [m] \<Rightarrow>
           and_then (map_err (\<lambda>err. ConditionRouterError (''Router decision JSON is invalid: '' @ err))
              (decision_from_str m)) (\<lambda>d.
             if rd_schema_version d \<noteq> 1
             then Inl (ConditionRouterError (''Unsupported router decision schema_version '' @
                    quoted (dec_of_nat (unat (rd_schema_version d)))))
             else Inr d)
       | _ \<Rightarrow> Inl (ConditionRouterError ''Router output contained multiple workflow_router_decision blocks''))"

fun check_selected ::
  "string list \<Rightarrow> string set \<Rightarrow> string list \<Rightarrow> ConditionRouterError + unit" where
  "check_selected outgoing seen [] = Inr ()"
| "check_selected outgoing seen (t # ts) =
     (if t \<in> seen
      then Inl (ConditionRouterError (''Condition routing selected duplicate target '' @ quoted t))
      else if t \<notin> set outgoing
      then Inl (ConditionRouterError (''Condition routing selected non-outgoing target '' @ quoted t))
      else check_selected outgoing (insert t seen) ts)"

definition validate_target_selection ::
  "'v WorkflowGraph \<Rightarrow> 'v WorkflowNode \<Rightarrow> string list \<Rightarrow> ConditionRouterError + ValidatedSelection" where
  "validate_target_selection g n selected =
     (if wn_kind n \<noteq> KCondition
      then Inl (ConditionRouterError (''Workflow node '' @ quoted (wn_id n) @ '' is not a condition''))
      else let outgoing = condition_outgoing_target_ids g n
      in if outgoing = []
      then Inl (ConditionRouterError (''Condition node '' @ quoted (wn_id n) @ '' has no outgoing targets''))
      else if selected = []
      then Inl (ConditionRouterError ''Condition routing selection cannot be empty'')
      else and_then (check_selected outgoing {} selected) (\<lambda>_.
        if condition_routing_mode n = RSingle \<and> length selected \<noteq> 1
        then Inl (ConditionRouterError ''Condition is in single routing mode but selected multiple targets'')
        else Inr \<lparr>vs_selected = selected, vs_skipped = filter (\<lambda>t. t \<notin> set selected) outgoing\<rparr>))"

definition validate_skipped_targets ::
  "'v WorkflowGraph \<Rightarrow> 'v WorkflowNode \<Rightarrow> string list \<Rightarrow> string list \<Rightarrow> ConditionRouterError + unit" where
  "validate_skipped_targets g n skipped selected =
     for_each (\<lambda>t.
       if t \<notin> set (condition_outgoing_target_ids g n)
       then Inl (ConditionRouterError (''Router skipped non-outgoing target '' @ quoted t))
       else if t \<in> set selected
       then Inl (ConditionRouterError (''Router both selected and skipped target '' @ quoted t))
       else Inr ()) skipped"

definition non_blank :: "string option \<Rightarrow> string option" where
  "non_blank x = (case x of Some t \<Rightarrow> if trim t \<noteq> [] then Some t else None | None \<Rightarrow> None)"

definition validate_router_decision ::
  "'v WorkflowGraph \<Rightarrow> 'v WorkflowNode \<Rightarrow> RouterDecision \<Rightarrow> string option \<Rightarrow>
   ConditionRouterError + (RouterDecision \<times> ValidatedSelection)"
where
  "validate_router_decision g n d mutation_warning =
     (case non_blank mutation_warning of
        Some warning \<Rightarrow> Inl (ConditionRouterError (''Router modified the worktree; review before continuing: '' @ warning))
      | None \<Rightarrow>
          if rd_status d = RDNeedsUser
          then Inl (ConditionRouterError
                 (case non_blank (rd_question d) of Some q \<Rightarrow> q | None \<Rightarrow> ''Router requested user input''))
          else if rd_confidence d \<noteq> Some ConfHigh
          then Inl (ConditionRouterError ''Router decision confidence is not high'')
          else and_then (validate_target_selection g n (rd_selected d)) (\<lambda>selection.
               and_then (validate_skipped_targets g n (rd_skipped d) (vs_selected selection)) (\<lambda>_.
               Inr (d, selection))))"

text \<open>The payload: the derived serialization of a decision and the \<open>json!\<close> literal around it.\<close>

fun opt_json :: "('a \<Rightarrow> json_lit) \<Rightarrow> 'a option \<Rightarrow> json_lit" where
  "opt_json f None = JNull"
| "opt_json f (Some x) = f x"

fun status_json :: "RouterDecisionStatus \<Rightarrow> json_lit" where
  "status_json RDSelected = JStr ''selected''"
| "status_json RDNeedsUser = JStr ''needs_user''"

fun confidence_json :: "RouterDecisionConfidence \<Rightarrow> json_lit" where
  "confidence_json ConfHigh = JStr ''high''"
| "confidence_json ConfMedium = JStr ''medium''"
| "confidence_json ConfLow = JStr ''low''"

definition strings_json :: "string list \<Rightarrow> json_lit" where
  "strings_json xs = JArr (map JStr xs)"

definition decision_json :: "RouterDecision \<Rightarrow> json_lit" where
  "decision_json d = JObj [
     (''schema_version'', JU32 (rd_schema_version d)), (''status'', status_json (rd_status d)),
     (''selected_target_node_ids'', strings_json (rd_selected d)),
     (''skipped_target_node_ids'', strings_json (rd_skipped d)),
     (''confidence'', opt_json confidence_json (rd_confidence d)),
     (''reason'', opt_json JStr (rd_reason d)), (''question'', opt_json JStr (rd_question d))]"

definition payload_json ::
  "string \<Rightarrow> string \<Rightarrow> RouterDecision option \<Rightarrow> string \<Rightarrow> string list \<Rightarrow> string list \<Rightarrow> string \<Rightarrow>
   string option \<Rightarrow> string option \<Rightarrow> bool \<Rightarrow> json_lit"
where
  "payload_json source status decision raw selected skipped result reason mutation_warning overrode =
     JObj [(''type'', JStr ''condition_router_decision''), (''source'', JStr source),
       (''status'', JStr status), (''schema_version'', JU32 1),
       (''decision'', opt_json decision_json decision), (''raw_output'', JStr raw),
       (''selected_target_node_ids'', strings_json selected),
       (''skipped_target_node_ids'', strings_json skipped),
       (''validation'', JObj [(''result'', JStr result), (''reason'', opt_json JStr reason),
          (''mutation_warning'', opt_json JStr mutation_warning),
          (''overrode_router_mutation_warning'', JBool overrode)])]"

definition router_output_payload ::
  "'v serde_json \<Rightarrow> string \<Rightarrow> string \<Rightarrow> RouterDecision option \<Rightarrow> string \<Rightarrow> string list \<Rightarrow> string list \<Rightarrow>
   string \<Rightarrow> string option \<Rightarrow> string option \<Rightarrow> bool \<Rightarrow> string"
where
  "router_output_payload S source status decision raw selected skipped result reason mutation_warning overrode =
     (case sj_to_string S (sj_json S (payload_json source status decision raw selected skipped result
             reason mutation_warning overrode)) of
        Inr t \<Rightarrow> t
      | Inl _ \<Rightarrow> ''{'' @ dq ''type'' @ '':'' @ dq ''condition_router_decision'' @ '','' @ dq ''status'' @ '':'' @
                 dq ''serialization_failed'' @ ''}'')"

definition evaluate_router_output ::
  "'v serde_json \<Rightarrow> (string \<Rightarrow> string + RouterDecision) \<Rightarrow> string \<Rightarrow> 'v WorkflowGraph \<Rightarrow> 'v WorkflowNode \<Rightarrow>
   string option \<Rightarrow> ConditionRouterCompletion"
where
  "evaluate_router_output S decision_from_str raw g n mutation_warning =
     (case and_then (parse_router_decision decision_from_str raw)
             (\<lambda>d. validate_router_decision g n d mutation_warning) of
        Inr (decision, selection) \<Rightarrow>
          auto_route
            (router_output_payload S ''router'' ''selected'' (Some decision) raw (vs_selected selection)
               (vs_skipped selection) ''auto_route'' None mutation_warning False)
            (vs_selected selection) (vs_skipped selection)
      | Inl err \<Rightarrow>
          (let parsed = (case parse_router_decision decision_from_str raw of Inr d \<Rightarrow> Some d | Inl _ \<Rightarrow> None);
               pause_prompt = (case non_blank (Option.bind parsed rd_question) of
                                 Some q \<Rightarrow> q | None \<Rightarrow> cre_message err)
           in pause
                (router_output_payload S ''router'' ''awaiting_human'' parsed raw [] [] ''pause''
                   (Some (cre_message err)) mutation_warning False)
                pause_prompt))"

definition build_manual_route ::
  "'v serde_json \<Rightarrow> 'v WorkflowGraph \<Rightarrow> 'v WorkflowNode \<Rightarrow> string list \<Rightarrow> string option \<Rightarrow> bool \<Rightarrow>
   ConditionRouterError + ManualConditionRoute"
where
  "build_manual_route S g n selected reason overrode =
     and_then (validate_target_selection g n selected) (\<lambda>selection.
       Inr \<lparr>mr_output_text = router_output_payload S ''user'' ''selected'' None [] (vs_selected selection)
              (vs_skipped selection) ''manual_route'' reason None overrode,
            mr_selected = vs_selected selection, mr_skipped = vs_skipped selection\<rparr>)"

definition output_has_router_mutation_warning :: "'v serde_json \<Rightarrow> string option \<Rightarrow> bool" where
  "output_has_router_mutation_warning S output =
     (case output of
        None \<Rightarrow> False
      | Some text \<Rightarrow>
          (case sj_from_str S text of
             Inl _ \<Rightarrow> False
           | Inr value \<Rightarrow>
               (case Option.bind (sj_get S value ''validation'') (\<lambda>v. sj_get S v ''mutation_warning'') of
                  Some warning \<Rightarrow> \<not> sj_is_null S warning
                | None \<Rightarrow> False)))"

section \<open>Selections\<close>

definition valid_selection :: "'v WorkflowGraph \<Rightarrow> 'v WorkflowNode \<Rightarrow> string list \<Rightarrow> bool" where
  "valid_selection g n sel \<longleftrightarrow>
     wn_kind n = KCondition \<and> sel \<noteq> [] \<and> distinct sel \<and>
     set sel \<subseteq> set (condition_outgoing_target_ids g n) \<and>
     (condition_routing_mode n = RSingle \<longrightarrow> length sel = 1)"

lemma check_selected_ok:
  "check_selected out seen ts = Inr () \<longleftrightarrow> distinct ts \<and> set ts \<subseteq> set out \<and> seen \<inter> set ts = {}"
  by (induction out seen ts rule: check_selected.induct) auto

lemma validate_target_selection_ok:
  "validate_target_selection g n sel = Inr v \<longleftrightarrow>
     valid_selection g n sel \<and>
     v = \<lparr>vs_selected = sel,
          vs_skipped = filter (\<lambda>t. t \<notin> set sel) (condition_outgoing_target_ids g n)\<rparr>"
  by (auto simp: validate_target_selection_def valid_selection_def Let_def and_then_eq_Inr
      check_selected_ok split: if_splits)

lemma validate_skipped_targets_ok:
  "validate_skipped_targets g n skipped selected = Inr () \<longleftrightarrow>
     set skipped \<subseteq> set (condition_outgoing_target_ids g n) - set selected"
  by (auto simp: validate_skipped_targets_def for_each_ok split: if_splits)

lemma validate_router_decision_ok:
  "validate_router_decision g n d mw = Inr (d', v) \<longleftrightarrow>
     d' = d \<and> non_blank mw = None \<and> rd_status d = RDSelected \<and> rd_confidence d = Some ConfHigh \<and>
     valid_selection g n (rd_selected d) \<and>
     set (rd_skipped d) \<subseteq> set (condition_outgoing_target_ids g n) - set (rd_selected d) \<and>
     v = \<lparr>vs_selected = rd_selected d,
          vs_skipped = filter (\<lambda>t. t \<notin> set (rd_selected d)) (condition_outgoing_target_ids g n)\<rparr>"
proof (cases "rd_status d")
  case RDSelected
  then show ?thesis
    by (cases "non_blank mw")
       (auto simp: validate_router_decision_def and_then_eq_Inr validate_target_selection_ok
          validate_skipped_targets_ok)
next
  case RDNeedsUser
  then show ?thesis by (cases "non_blank mw") (auto simp: validate_router_decision_def)
qed

lemma parse_router_decision_ok:
  "parse_router_decision P raw = Inr d \<longleftrightarrow>
     (\<exists>body. decision_blocks raw [] = Inr [body] \<and> P body = Inr d \<and> rd_schema_version d = 1)"
proof (cases "decision_blocks raw []")
  case (Inr ms)
  then show ?thesis
    by (cases ms; cases "tl ms")
       (auto simp: parse_router_decision_def and_then_eq_Inr map_err_eq_Inr split: if_splits)
qed (simp add: parse_router_decision_def)

lemma evaluate_router_output_cases:
  obtains (route) d v where
      "parse_router_decision P raw = Inr d" "validate_router_decision g n d mw = Inr (d, v)"
      "evaluate_router_output S P raw g n mw =
         auto_route (router_output_payload S ''router'' ''selected'' (Some d) raw (vs_selected v) (vs_skipped v)
           ''auto_route'' None mw False) (vs_selected v) (vs_skipped v)"
  | (paused) err parsed prompt where
      "and_then (parse_router_decision P raw) (\<lambda>d. validate_router_decision g n d mw) = Inl err"
      "evaluate_router_output S P raw g n mw =
         pause (router_output_payload S ''router'' ''awaiting_human'' parsed raw [] [] ''pause''
           (Some (cre_message err)) mw False) prompt"
      "prompt = (case non_blank (Option.bind parsed rd_question) of Some q \<Rightarrow> q | None \<Rightarrow> cre_message err)"
proof (cases "and_then (parse_router_decision P raw) (\<lambda>d. validate_router_decision g n d mw)")
  case (Inl err)
  show thesis
    by (rule paused [OF Inl _ refl]) (simp add: evaluate_router_output_def Inl Let_def)
next
  case (Inr dv)
  then obtain d v where dv: "dv = (d, v)" "parse_router_decision P raw = Inr d"
      "validate_router_decision g n d mw = Inr (d, v)"
    by (cases dv) (auto simp: and_then_eq_Inr validate_router_decision_ok)
  show thesis
    by (rule route [OF dv(2,3)]) (simp add: evaluate_router_output_def Inr dv(1))
qed

section \<open>Error messages\<close>

text \<open>No error of the router has an empty message, so a pause always has something to show.\<close>

definition speaks :: "ConditionRouterError + 'a \<Rightarrow> bool" where
  "speaks r \<longleftrightarrow> (\<forall>e. r = Inl e \<longrightarrow> cre_message e \<noteq> [])"

lemma speaks_Inr [simp]: "speaks (Inr x)"
  by (simp add: speaks_def)

lemma speaks_Inl [simp]: "speaks (Inl (ConditionRouterError m)) \<longleftrightarrow> m \<noteq> []"
  by (simp add: speaks_def)

lemma speaks_and_then [intro]: "speaks r \<Longrightarrow> (\<And>x. speaks (f x)) \<Longrightarrow> speaks (and_then r f)"
  by (cases r) (auto simp: speaks_def)

lemma speaks_decision_blocks: "speaks (decision_blocks s ms)"
  by (induction s ms rule: decision_blocks.induct)
     (subst decision_blocks.simps, auto simp: Let_def split: option.splits)

lemma speaks_parse: "speaks (parse_router_decision P raw)"
  unfolding parse_router_decision_def
  by (intro speaks_and_then speaks_decision_blocks)
     (auto split: list.splits if_splits simp: speaks_def result_simps)

lemma speaks_check_selected: "speaks (check_selected out seen ts)"
  by (induction out seen ts rule: check_selected.induct) auto

lemma speaks_for_each: "(\<And>x. speaks (f x)) \<Longrightarrow> speaks (for_each f xs)"
  by (induction xs) auto

lemma speaks_selection: "speaks (validate_target_selection g n sel)"
  unfolding validate_target_selection_def Let_def
  by (auto intro!: speaks_and_then speaks_check_selected)

lemma speaks_skipped: "speaks (validate_skipped_targets g n skipped sel)"
  unfolding validate_skipped_targets_def by (rule speaks_for_each) auto

lemma non_blank_Some: "non_blank x = Some t \<Longrightarrow> t \<noteq> []"
  by (auto simp: non_blank_def trim_def split: option.splits if_splits)

lemma speaks_validate: "speaks (validate_router_decision g n d mw)"
proof -
  have "speaks (Inl (ConditionRouterError
      (case non_blank (rd_question d) of Some q \<Rightarrow> q | None \<Rightarrow> ''Router requested user input'')))"
    using non_blank_Some by (auto split: option.splits)
  then show ?thesis
    unfolding validate_router_decision_def
    by (cases "non_blank mw")
       (auto intro!: speaks_and_then speaks_selection speaks_skipped split: option.splits)
qed

section \<open>Finding the block\<close>

lemma starts_with_overlap:
  assumes "starts_with (c # p) (x # s @ (c # p) @ t)" "c \<notin> set p" "\<not> starts_with (c # p) (x # s)"
  shows False
proof -
  from assms(1) obtain r where r: "x # s @ (c # p) @ t = (c # p) @ r" by (auto simp: starts_with_iff)
  show False
  proof (cases "length (c # p) \<le> length (x # s)")
    case True
    from arg_cong [OF r, of "take (length (c # p))"] True
    have "take (length (c # p)) (x # s) = c # p" by simp
    then have "x # s = (c # p) @ drop (length (c # p)) (x # s)" by (metis append_take_drop_id)
    then have "starts_with (c # p) (x # s)" unfolding starts_with_iff by blast
    with assms(3) show False ..
  next
    case False
    then have len: "length s < length p" by simp
    from arg_cong [OF r, of "\<lambda>l. l ! Suc (length s)"] len have "c = p ! length s"
      by (simp add: nth_append)
    with len assms(2) show False by auto
  qed
qed

lemma find_str_first:
  assumes "find_str (c # p) s = None" "c \<notin> set p"
  shows "find_str (c # p) (s @ (c # p) @ t) = Some (length s)"
  using assms(1)
proof (induction s)
  case Nil
  have "starts_with (c # p) ((c # p) @ t)" by (rule starts_with_append)
  then show ?case by simp
next
  case (Cons x s)
  from Cons.prems have "\<not> starts_with (c # p) (x # s)" "find_str (c # p) s = None"
    by (auto split: if_splits)
  with starts_with_overlap [of c p x s t] assms(2) Cons.IH show ?case by auto
qed

lemma find_tag:
  assumes "\<exists>c p. tag = c # p \<and> c \<notin> set p" "find_str tag s = None"
  shows "find_str tag (s @ tag @ t) = Some (length s)"
  using assms find_str_first by blast

lemma tag_shapes:
  "\<exists>c p. DECISION_START_TAG = c # p \<and> c \<notin> set p" "\<exists>c p. DECISION_END_TAG = c # p \<and> c \<notin> set p"
  by (simp_all add: DECISION_START_TAG_def DECISION_END_TAG_def)

section \<open>Reading the payload back\<close>

lemma strings_json_contains:
  assumes "serde_accessors S"
  shows "json_string_array_contains S (Some (sj_json S (strings_json xs))) t \<longleftrightarrow> t \<in> set xs"
  using assms by (auto simp: json_string_array_contains_def strings_json_def serde_accessorsD list_ex_iff)

lemma decision_json_selected:
  assumes "serde_accessors S"
  shows "sj_get S (sj_json S (decision_json d)) ''selected_target_node_ids'' =
    Some (sj_json S (strings_json (rd_selected d)))"
  using assms by (simp add: decision_json_def serde_accessorsD)

lemma payload_json_get:
  assumes "serde_accessors S"
  shows "sj_get S (sj_json S (payload_json source st dec raw sel skip res reason mw ov)) ''selected_target_node_ids'' =
      Some (sj_json S (strings_json sel))"
    and "sj_get S (sj_json S (payload_json source st dec raw sel skip res reason mw ov)) ''decision'' =
      Some (sj_json S (opt_json decision_json dec))"
    and "Option.bind (sj_get S (sj_json S (payload_json source st dec raw sel skip res reason mw ov)) ''validation'')
        (\<lambda>v. sj_get S v ''mutation_warning'') = Some (sj_json S (opt_json JStr mw))"
  using assms by (simp_all add: payload_json_def serde_accessorsD)

text \<open>The planner reads a payload as the targets it selects, or that its embedded decision selects.\<close>

lemma payload_selects:
  assumes "serde_accessors S"
    and "serde_roundtrip S (payload_json source st dec raw sel skip res reason mw ov)"
  shows "condition_output_selects_target S
      (Some (router_output_payload S source st dec raw sel skip res reason mw ov)) t \<longleftrightarrow>
    t \<in> set sel \<or> (\<exists>d. dec = Some d \<and> t \<in> set (rd_selected d))"
proof -
  from assms(2) have reread: "sj_from_str S (router_output_payload S source st dec raw sel skip res reason mw ov) =
        Inr (sj_json S (payload_json source st dec raw sel skip res reason mw ov))"
    by (auto simp: serde_roundtrip_def router_output_payload_def)
  have dec: "json_string_array_contains S (Option.bind (Some (sj_json S (opt_json decision_json dec)))
      (\<lambda>d. sj_get S d ''selected_target_node_ids'')) t \<longleftrightarrow> (\<exists>d. dec = Some d \<and> t \<in> set (rd_selected d))"
  proof (cases dec)
    case None
    with assms(1) show ?thesis by (simp add: serde_accessorsD json_string_array_contains_def)
  next
    case (Some d)
    with assms(1) show ?thesis by (simp add: decision_json_selected strings_json_contains)
  qed
  show ?thesis
    unfolding condition_output_selects_target_def
    by (simp add: reread payload_json_get [OF assms(1)] strings_json_contains [OF assms(1)] dec del: bind.simps)
qed

lemma payload_mutation_warning:
  assumes "serde_accessors S"
    and "serde_roundtrip S (payload_json source st dec raw sel skip res reason mw ov)"
  shows "output_has_router_mutation_warning S
      (Some (router_output_payload S source st dec raw sel skip res reason mw ov)) \<longleftrightarrow> mw \<noteq> None"
proof -
  from assms(2) have reread: "sj_from_str S (router_output_payload S source st dec raw sel skip res reason mw ov) =
        Inr (sj_json S (payload_json source st dec raw sel skip res reason mw ov))"
    by (auto simp: serde_roundtrip_def router_output_payload_def)
  have "sj_is_null S (sj_json S (opt_json JStr mw)) \<longleftrightarrow> mw = None"
    using assms(1) by (cases mw) (simp_all add: serde_accessorsD)
  then show ?thesis
    by (simp add: output_has_router_mutation_warning_def reread payload_json_get [OF assms(1)])
qed

section \<open>Properties\<close>

text \<open>
  C32: the router routes without asking a human exactly when the answer contains one decision block
  whose JSON is a decision of schema version 1 that is marked selected with high confidence, whose
  selection is valid for the node (distinct outgoing targets, at least one, and one only in single
  mode), whose skipped list names only other outgoing targets, and when the worktree was not modified.
  In every other case it pauses.
\<close>

theorem router_routes_iff:
  "\<not> should_pause (evaluate_router_output S P raw g n mutation_warning) \<longleftrightarrow>
     (\<exists>body d. decision_blocks raw [] = Inr [body] \<and> P body = Inr d \<and> rd_schema_version d = 1 \<and>
        rd_status d = RDSelected \<and> rd_confidence d = Some ConfHigh \<and>
        valid_selection g n (rd_selected d) \<and>
        set (rd_skipped d) \<subseteq> set (condition_outgoing_target_ids g n) - set (rd_selected d) \<and>
        (mutation_warning = None \<or> (\<exists>w. mutation_warning = Some w \<and> list_all is_whitespace w)))"
proof -
  have blank: "non_blank mutation_warning = None \<longleftrightarrow>
      mutation_warning = None \<or> (\<exists>w. mutation_warning = Some w \<and> list_all is_whitespace w)"
    by (auto simp: non_blank_def trim_all_whitespace list_all_iff split: option.splits)
  show ?thesis
  proof (cases rule: evaluate_router_output_cases [of P raw g n mutation_warning S])
    case (route d v)
    then show ?thesis
      by (simp add: auto_route_def should_pause_def validate_router_decision_ok parse_router_decision_ok)
         (use blank in blast)
  next
    case (paused err parsed prompt)
    then have "\<nexists>d v. parse_router_decision P raw = Inr d \<and> validate_router_decision g n d mutation_warning = Inr (d, v)"
      by auto
    with paused show ?thesis
      unfolding blank [symmetric]
      by (auto simp: pause_def should_pause_def validate_router_decision_ok parse_router_decision_ok)
  qed
qed

text \<open>
  What a router completion tells the rest of the run. A routed completion splits the outgoing
  targets into the selected ones, at least one, and the skipped ones; a paused completion
  selects and skips nothing and carries a non-empty prompt for the human.
\<close>

theorem router_completion_shape:
  "let c = evaluate_router_output S P raw g n mw
   in case rc_pause_prompt c of
        None \<Rightarrow> rc_selected c \<noteq> [] \<and> set (rc_selected c) \<inter> set (rc_skipped c) = {} \<and>
          set (rc_selected c) \<union> set (rc_skipped c) = set (condition_outgoing_target_ids g n)
      | Some prompt \<Rightarrow> prompt \<noteq> [] \<and> rc_selected c = [] \<and> rc_skipped c = []"
proof (cases rule: evaluate_router_output_cases [of P raw g n mw S])
  case (route d v)
  then show ?thesis
    by (auto simp: auto_route_def validate_router_decision_ok valid_selection_def)
next
  case (paused err parsed prompt)
  have "speaks (and_then (parse_router_decision P raw) (\<lambda>d. validate_router_decision g n d mw))"
    by (intro speaks_and_then speaks_parse speaks_validate)
  with paused(1) have "cre_message err \<noteq> []" by (simp add: speaks_def)
  then have "prompt \<noteq> []" using paused(3) non_blank_Some by (auto split: option.splits)
  with paused(2) show ?thesis by (simp add: pause_def)
qed

text \<open>
  The block scanner reads back what the prompt asks for. In a text with one decision block,
  framed by text without an opening tag and with a body without a closing tag, it finds exactly
  that body, trimmed.
\<close>

theorem single_block_is_found:
  assumes "find_str DECISION_START_TAG before = None" "find_str DECISION_END_TAG body = None"
    and "find_str DECISION_START_TAG after = None"
  shows "decision_blocks (before @ DECISION_START_TAG @ body @ DECISION_END_TAG @ after) [] = Inr [trim body]"
proof -
  have "find_str DECISION_START_TAG (before @ DECISION_START_TAG @ body @ DECISION_END_TAG @ after) =
      Some (length before)"
    by (rule find_tag [OF tag_shapes(1) assms(1)])
  moreover have "find_str DECISION_END_TAG (body @ DECISION_END_TAG @ after) = Some (length body)"
    by (rule find_tag [OF tag_shapes(2) assms(2)])
  moreover have "decision_blocks after [trim body] = Inr [trim body]"
    using assms(3) by (subst decision_blocks.simps) simp
  ultimately show ?thesis by (subst decision_blocks.simps) (simp add: Let_def)
qed

theorem single_block_is_found_witness:
  "decision_blocks (''Thinking. '' @ DECISION_START_TAG @ '' {} '' @ DECISION_END_TAG @ '' Done.'') [] = Inr [''{}'']"
proof -
  have "find_str DECISION_START_TAG ''Thinking. '' = None" "find_str DECISION_END_TAG '' {} '' = None"
    "find_str DECISION_START_TAG '' Done.'' = None" "trim '' {} '' = ''{}''"
    by code_simp+
  with single_block_is_found [of "''Thinking. ''" "'' {} ''" "'' Done.''"] show ?thesis by simp
qed

end
