(* ===== verification/Host_Files.thy ===== *)
theory Host_Files
  imports Actions Decisions "HOL-Library.Sublist"
begin

text \<open>
  What the runtime uses of \<open>std::fs\<close>, the clock and the random source. A \<open>host\<close> holds the contents of the
  files and the set of directories, by path (the list of components). Every call is counted, and
  \<open>host_fault\<close> says which calls fail and after how many bytes: a property that holds for every host holds for every
  pattern of I/O failures, partial writes included. \<open>host_now\<close> and \<open>host_uuid\<close> are the values \<open>Utc::now\<close> and
  \<open>Uuid::new_v4\<close> return at a call. An \<open>io::Error\<close> is its text.
\<close>

section \<open>Calls\<close>

type_synonym path = "string list"

record host =
  host_files :: "path \<Rightarrow> bytes option"
  host_dirs :: "path set"
  host_calls :: nat
  host_fault :: "nat \<Rightarrow> (string \<times> nat) option"
  host_now :: "nat \<Rightarrow> datetime"
  host_uuid :: "nat \<Rightarrow> uuid"

record file_handle =
  file_path :: path
  file_pos :: nat

definition tick :: "host \<Rightarrow> host" where
  "tick h = h\<lparr>host_calls := Suc (host_calls h)\<rparr>"

definition io_call :: "(nat \<Rightarrow> host \<Rightarrow> host) \<Rightarrow> (host, string, 'a) action \<Rightarrow> (host, string, 'a) action" where
  "io_call partly call h =
     (case host_fault h (host_calls h) of
        Some (e, n) \<Rightarrow> (Inl e, partly n (tick h))
      | None \<Rightarrow> call (tick h))"

definition utc_now :: "host \<Rightarrow> datetime \<times> host" where
  "utc_now h = (host_now h (host_calls h), tick h)"

definition new_v4 :: "host \<Rightarrow> uuid \<times> host" where
  "new_v4 h = (host_uuid h (host_calls h), tick h)"

text \<open>\<open>Path::exists\<close> is false when the file cannot be inspected.\<close>

definition path_exists :: "path \<Rightarrow> host \<Rightarrow> bool \<times> host" where
  "path_exists p h =
     (host_fault h (host_calls h) = None \<and> (host_files h p \<noteq> None \<or> p \<in> host_dirs h), tick h)"

definition create_dir_all :: "path \<Rightarrow> (host, string, unit) action" where
  "create_dir_all p =
     io_call
       (\<lambda>n h. h\<lparr>host_dirs := host_dirs h \<union> set (take n (takeWhile (\<lambda>q. host_files h q = None) (prefixes p)))\<rparr>)
       (\<lambda>h. (if \<forall>q \<in> set (prefixes p). host_files h q = None then Inr () else Inl ''Not a directory'',
             h\<lparr>host_dirs := host_dirs h \<union> set (takeWhile (\<lambda>q. host_files h q = None) (prefixes p))\<rparr>))"

text \<open>\<open>OpenOptions::new().create_new(true).write(true).open(p)\<close>.\<close>

definition open_new :: "path \<Rightarrow> (host, string, file_handle) action" where
  "open_new p =
     io_call (\<lambda>_ h. h)
       (\<lambda>h. if host_files h p \<noteq> None \<or> p \<in> host_dirs h then (Inl ''File exists'', h)
            else if butlast p \<notin> host_dirs h then (Inl ''No such file or directory'', h)
            else (Inr \<lparr>file_path = p, file_pos = 0\<rparr>, h\<lparr>host_files := (host_files h)(p \<mapsto> [])\<rparr>))"

text \<open>A write goes to the position of the handle; a file that has been removed keeps no trace of it.\<close>

definition overwrite :: "nat \<Rightarrow> bytes \<Rightarrow> bytes \<Rightarrow> bytes" where
  "overwrite pos b c = take pos c @ replicate (pos - length c) 0 @ b @ drop (pos + length b) c"

definition write_at :: "file_handle \<Rightarrow> bytes \<Rightarrow> host \<Rightarrow> host" where
  "write_at f b h =
     h\<lparr>host_files := (host_files h)(file_path f := map_option (overwrite (file_pos f) b) (host_files h (file_path f)))\<rparr>"

definition write_all :: "file_handle \<Rightarrow> bytes \<Rightarrow> host \<Rightarrow> (string + unit) \<times> file_handle \<times> host" where
  "write_all f b h =
     (case host_fault h (host_calls h) of
        Some (e, n) \<Rightarrow>
          (Inl e, f\<lparr>file_pos := file_pos f + length (take n b)\<rparr>, write_at f (take n b) (tick h))
      | None \<Rightarrow> (Inr (), f\<lparr>file_pos := file_pos f + length b\<rparr>, write_at f b (tick h)))"

text \<open>\<open>sync_data\<close> and \<open>sync_all\<close>.\<close>

definition sync_file :: "(host, string, unit) action" where
  "sync_file = io_call (\<lambda>_ h. h) (\<lambda>h. (Inr (), h))"

definition rename :: "path \<Rightarrow> path \<Rightarrow> (host, string, unit) action" where
  "rename a b =
     io_call (\<lambda>_ h. h)
       (\<lambda>h. case host_files h a of
              None \<Rightarrow> (Inl ''No such file or directory'', h)
            | Some c \<Rightarrow>
                if b \<in> host_dirs h then (Inl ''Is a directory'', h)
                else (Inr (), h\<lparr>host_files := (host_files h)(a := None, b := Some c)\<rparr>))"

definition read_file :: "path \<Rightarrow> (host, string, bytes) action" where
  "read_file p = io_call (\<lambda>_ h. h) (\<lambda>h. (ok_or (host_files h p) ''No such file or directory'', h))"

text \<open>
  \<open>fs::copy\<close> opens the source, truncates the destination and writes it; a failure can come before the truncation or after any
  number of bytes, and copying a file to itself truncates it.
\<close>

definition copy_file :: "path \<Rightarrow> path \<Rightarrow> (host, string, unit) action" where
  "copy_file a b =
     io_call
       (\<lambda>n h. case (n, host_files h a) of
                (Suc k, Some c) \<Rightarrow>
                  if b \<in> host_dirs h \<or> butlast b \<notin> host_dirs h then h
                  else h\<lparr>host_files := (host_files h)(b \<mapsto> (if a = b then [] else take k c))\<rparr>
              | _ \<Rightarrow> h)
       (\<lambda>h. case host_files h a of
              None \<Rightarrow> (Inl ''No such file or directory'', h)
            | Some c \<Rightarrow>
                if b \<in> host_dirs h \<or> butlast b \<notin> host_dirs h then (Inl ''No such file or directory'', h)
                else (Inr (), h\<lparr>host_files := (host_files h)(b \<mapsto> (if a = b then [] else c))\<rparr>))"

section \<open>What a call leaves alone\<close>

text \<open>The host only differs in the given files, in directories that are new, and in the number of calls made.\<close>

definition touches :: "path set \<Rightarrow> host \<Rightarrow> host \<Rightarrow> bool" where
  "touches P h h' \<longleftrightarrow>
     (\<forall>p. p \<notin> P \<longrightarrow> host_files h' p = host_files h p) \<and> host_dirs h \<subseteq> host_dirs h' \<and>
     host_fault h' = host_fault h"

definition healthy :: "host \<Rightarrow> bool" where
  "healthy h \<longleftrightarrow> host_fault h = (\<lambda>_. None)"

lemma touches_refl [simp]: "touches P h h"
  by (simp add: touches_def)

lemma touches_tick [simp]: "touches P h (tick h)"
  by (simp add: touches_def tick_def)

lemma touches_trans: "touches P h h' \<Longrightarrow> touches P h' h'' \<Longrightarrow> touches P h h''"
  by (auto simp: touches_def)

lemma touches_mono: "touches P h h' \<Longrightarrow> P \<subseteq> Q \<Longrightarrow> touches Q h h'"
  by (auto simp: touches_def)

lemma touchesD: "touches P h h' \<Longrightarrow> p \<notin> P \<Longrightarrow> host_files h' p = host_files h p"
  by (simp add: touches_def)

lemma touches_healthy: "touches P h h' \<Longrightarrow> healthy h' \<longleftrightarrow> healthy h"
  by (simp add: touches_def healthy_def)

lemma tick_simps [simp]:
  "host_files (tick h) = host_files h" "host_dirs (tick h) = host_dirs h" "host_fault (tick h) = host_fault h"
  "healthy (tick h) = healthy h"
  by (simp_all add: tick_def healthy_def)

lemma io_call_cases:
  assumes "io_call partly call h = (r, h')"
  obtains (fault) e n where "r = Inl e" "h' = partly n (tick h)" "\<not> healthy h"
    | (called) "call (tick h) = (r, h')"
proof (cases "host_fault h (host_calls h)")
  case None
  with assms called show ?thesis by (simp add: io_call_def)
next
  case (Some en)
  obtain e n where en: "en = (e, n)" by (cases en)
  with Some assms have "r = Inl e" "h' = partly n (tick h)" "\<not> healthy h"
    by (auto simp: io_call_def healthy_def)
  then show ?thesis by (rule fault)
qed

lemma io_call_healthy: "healthy h \<Longrightarrow> io_call partly call h = call (tick h)"
  by (simp add: io_call_def healthy_def)

lemma healthy_update [simp]:
  "healthy (h\<lparr>host_files := f\<rparr>) = healthy h" "healthy (h\<lparr>host_dirs := D\<rparr>) = healthy h"
  by (simp_all add: healthy_def)

lemma touches_tick_update [simp]:
  "touches P h (tick h\<lparr>host_files := f\<rparr>) \<longleftrightarrow> (\<forall>p. p \<notin> P \<longrightarrow> f p = host_files h p)"
  "touches P h (tick h\<lparr>host_dirs := D\<rparr>) \<longleftrightarrow> host_dirs h \<subseteq> D"
  by (simp_all add: touches_def tick_def)

lemma utc_now_touches: "utc_now h = (t, h') \<Longrightarrow> touches P h h'"
  by (auto simp: utc_now_def)

lemma new_v4_touches: "new_v4 h = (u, h') \<Longrightarrow> touches P h h'"
  by (auto simp: new_v4_def)

lemma path_exists_touches: "path_exists p h = (b, h') \<Longrightarrow> touches P h h'"
  by (auto simp: path_exists_def)

lemma create_dir_all_touches: "create_dir_all p h = (r, h') \<Longrightarrow> touches P h h'"
  unfolding create_dir_all_def by (erule io_call_cases) auto

lemma open_new_touches: "open_new p h = (r, h') \<Longrightarrow> touches {p} h h'"
  unfolding open_new_def by (erule io_call_cases) (auto split: if_splits)

lemma write_all_touches: "write_all f b h = (r, f', h') \<Longrightarrow> touches {file_path f} h h' \<and> file_path f' = file_path f"
  by (auto simp: write_all_def write_at_def split: option.splits)

lemma sync_file_touches: "sync_file h = (r, h') \<Longrightarrow> h' = tick h"
  unfolding sync_file_def by (erule io_call_cases) auto

lemma read_file_touches: "read_file p h = (r, h') \<Longrightarrow> h' = tick h"
  unfolding read_file_def by (erule io_call_cases) auto

lemma copy_file_touches: "copy_file a b h = (r, h') \<Longrightarrow> touches {b} h h'"
  unfolding copy_file_def by (erule io_call_cases) (auto split: option.splits if_splits nat.splits)

lemma read_file_ok: "read_file p h = (Inr c, h') \<Longrightarrow> host_files h p = Some c"
  unfolding read_file_def by (erule io_call_cases) (auto simp: ok_or_eq_Inr)

lemma open_new_ok:
  "open_new p h = (Inr f, h') \<Longrightarrow>
     host_files h p = None \<and> f = \<lparr>file_path = p, file_pos = 0\<rparr> \<and> host_files h' p = Some []"
  unfolding open_new_def by (erule io_call_cases) (auto split: if_splits)

lemma overwrite_end: "pos = length c \<Longrightarrow> overwrite pos b c = c @ b"
  by (simp add: overwrite_def)

lemma write_all_ok:
  assumes "write_all f b h = (Inr (), f', h')" "host_files h (file_path f) = Some c" "file_pos f = length c"
  shows "host_files h' (file_path f) = Some (c @ b)" "f' = f\<lparr>file_pos := length (c @ b)\<rparr>"
  using assms by (auto simp: write_all_def write_at_def overwrite_end split: option.splits)

lemma rename_cases:
  assumes "rename a b h = (r, h')" "a \<noteq> b"
  obtains (refused) e where "r = Inl e" "h' = tick h"
    | (moved) c where "r = Inr ()" "host_files h a = Some c"
        "h' = tick h\<lparr>host_files := (host_files h)(a := None, b := Some c)\<rparr>"
  using assms unfolding rename_def by (elim io_call_cases) (auto split: option.splits if_splits)

end
