(* ===== verification/Native_Audit.thy ===== *)
theory Native_Audit
  imports Host_Files Reducers
begin

text \<open>
  The native audit, \<open>crates/executors/src/runtime/native_audit.rs\<close>: the frames a provider sends and receives are
  appended to \<open>frames.jsonl\<close>, one JSON line each with a checksum of its payload; \<open>manifest.json\<close> is replaced
  atomically when the stream is closed and carries the number of frames and the checksum of the stream. Reading
  a bundle checks all of it, and replaying it feeds the mapped events to the run state reducer.

  The writer and the host it writes to are one state. SHA-256, base64, the JSON codec and the text of a UUID come from other crates; they are the fields of the parameter \<open>audit_env\<close>.
  A \<open>Sha256\<close> hasher is the bytes it has been fed.
\<close>

section \<open>Frames and manifests\<close>

definition NATIVE_AUDIT_SCHEMA_VERSION :: u16 where "NATIVE_AUDIT_SCHEMA_VERSION = 1"

definition NATIVE_AUDIT_ROOT_RELATIVE :: path where
  "NATIVE_AUDIT_ROOT_RELATIVE = [''runtime'', ''native-audit'', ''v1'']"

definition NATIVE_AUDIT_MANIFEST_FILE :: string where "NATIVE_AUDIT_MANIFEST_FILE = ''manifest.json''"
definition NATIVE_AUDIT_FRAMES_FILE :: string where "NATIVE_AUDIT_FRAMES_FILE = ''frames.jsonl''"

datatype NativeAuditDirection = AuditInput | AuditOutput

datatype NativeAuditChannel =
  ChCanonicalInput | ChNativeInput | ChNativeOutput | ChStdin | ChStdout | ChStderr | ChRpc | ChRpcRequest
| ChRpcResponse | ChRpcNotification | ChSidecar | ChOther string

fun channel_as_str :: "NativeAuditChannel \<Rightarrow> string" where
  "channel_as_str ChCanonicalInput = ''canonical_input''"
| "channel_as_str ChNativeInput = ''native_input''"
| "channel_as_str ChNativeOutput = ''native_output''"
| "channel_as_str ChStdin = ''stdin''"
| "channel_as_str ChStdout = ''stdout''"
| "channel_as_str ChStderr = ''stderr''"
| "channel_as_str ChRpc = ''rpc''"
| "channel_as_str ChRpcRequest = ''rpc_request''"
| "channel_as_str ChRpcResponse = ''rpc_response''"
| "channel_as_str ChRpcNotification = ''rpc_notification''"
| "channel_as_str ChSidecar = ''sidecar''"
| "channel_as_str (ChOther value) = value"

datatype NativePayloadEncoding = PayloadBase64

record 'v NativeAuditFrame =
  fr_audit_format_version :: u16
  fr_sequence :: u64
  fr_timestamp :: datetime
  fr_direction :: NativeAuditDirection
  fr_channel :: NativeAuditChannel
  fr_content_type :: string
  fr_correlation_id :: uuid
  fr_payload_encoding :: NativePayloadEncoding
  fr_payload_base64 :: string
  fr_payload_checksum :: string
  fr_metadata :: "'v option"

datatype NativeAuditIntegrityStatus =
  AuditOpen | AuditComplete | AuditPartial | AuditCorrupt | AuditAuditFailed | AuditRecovered

record NativeAuditMetadata =
  am_session_id :: uuid
  am_agent_run_id :: uuid
  am_turn_id :: uuid
  am_run_attempt_id :: uuid
  am_run_attempt_number :: u32
  am_provider_id :: string
  am_runtime_profile_id :: string
  am_workspace_path :: string
  am_runtime_version :: "string option"
  am_protocol_version :: "string option"
  am_adapter_version :: string
  am_mapper_version :: string
  am_created_at :: datetime

record NativeAuditManifest =
  mf_audit_schema_version :: u16
  mf_session_id :: uuid
  mf_agent_run_id :: uuid
  mf_turn_id :: uuid
  mf_run_attempt_id :: uuid
  mf_run_attempt_number :: u32
  mf_provider_id :: string
  mf_runtime_profile_id :: string
  mf_workspace_path :: string
  mf_runtime_version :: "string option"
  mf_protocol_version :: "string option"
  mf_adapter_version :: string
  mf_mapper_version :: string
  mf_frame_count :: u64
  mf_first_sequence :: "u64 option"
  mf_last_sequence :: "u64 option"
  mf_final_checksum :: "string option"
  mf_integrity_status :: NativeAuditIntegrityStatus
  mf_created_at :: datetime
  mf_closed_at :: "datetime option"
  mf_manifest_relative_path :: string
  mf_frames_relative_path :: string
  mf_raw_content_trusted :: bool

record NativeAuditVersionSet =
  vs_audit_schema_version :: u16
  vs_runtime_version :: "string option"
  vs_adapter_version :: string
  vs_protocol_version :: "string option"
  vs_mapper_version :: string

definition manifest_versions :: "NativeAuditManifest \<Rightarrow> NativeAuditVersionSet" where
  "manifest_versions m = \<lparr>vs_audit_schema_version = mf_audit_schema_version m,
     vs_runtime_version = mf_runtime_version m, vs_adapter_version = mf_adapter_version m,
     vs_protocol_version = mf_protocol_version m, vs_mapper_version = mf_mapper_version m\<rparr>"

text \<open>The index row of a stream carries the status as its snake-case name.\<close>

fun integrity_status_string :: "NativeAuditIntegrityStatus \<Rightarrow> string" where
  "integrity_status_string AuditOpen = ''open''"
| "integrity_status_string AuditComplete = ''complete''"
| "integrity_status_string AuditPartial = ''partial''"
| "integrity_status_string AuditCorrupt = ''corrupt''"
| "integrity_status_string AuditAuditFailed = ''audit_failed''"
| "integrity_status_string AuditRecovered = ''recovered''"

record NativeAuditStreamIndex =
  ix_id :: "uuid option"
  ix_session_id :: uuid
  ix_agent_run_id :: uuid
  ix_run_attempt_id :: uuid
  ix_audit_schema_version :: u16
  ix_runtime_version :: "string option"
  ix_protocol_version :: "string option"
  ix_adapter_version :: string
  ix_mapper_version :: string
  ix_manifest_relative_path :: string
  ix_frames_relative_path :: string
  ix_first_sequence :: "u64 option"
  ix_last_sequence :: "u64 option"
  ix_final_checksum :: "string option"
  ix_integrity_status :: string
  ix_created_at :: datetime
  ix_closed_at :: "datetime option"

definition manifest_index :: "NativeAuditManifest \<Rightarrow> NativeAuditStreamIndex" where
  "manifest_index m = \<lparr>ix_id = None, ix_session_id = mf_session_id m, ix_agent_run_id = mf_agent_run_id m,
     ix_run_attempt_id = mf_run_attempt_id m, ix_audit_schema_version = mf_audit_schema_version m,
     ix_runtime_version = mf_runtime_version m, ix_protocol_version = mf_protocol_version m,
     ix_adapter_version = mf_adapter_version m, ix_mapper_version = mf_mapper_version m,
     ix_manifest_relative_path = mf_manifest_relative_path m,
     ix_frames_relative_path = mf_frames_relative_path m, ix_first_sequence = mf_first_sequence m,
     ix_last_sequence = mf_last_sequence m, ix_final_checksum = mf_final_checksum m,
     ix_integrity_status = integrity_status_string (mf_integrity_status m),
     ix_created_at = mf_created_at m, ix_closed_at = mf_closed_at m\<rparr>"

section \<open>The libraries and the errors\<close>

record 'v audit_env =
  au_sha256 :: "bytes \<Rightarrow> bytes"
  au_base64_encode :: "bytes \<Rightarrow> string"
  au_base64_decode :: "string \<Rightarrow> string + bytes"
  au_frame_to_vec :: "'v NativeAuditFrame \<Rightarrow> string + bytes"
  au_frame_from_slice :: "bytes \<Rightarrow> string + 'v NativeAuditFrame"
  au_manifest_to_vec_pretty :: "NativeAuditManifest \<Rightarrow> string + bytes"
  au_manifest_from_slice :: "bytes \<Rightarrow> string + NativeAuditManifest"
  au_message_to_vec :: "CanonicalMessage \<Rightarrow> string + bytes"
  au_value_from_slice :: "bytes \<Rightarrow> string + 'v"
  au_value_string :: "string \<Rightarrow> 'v"
  au_reference_json :: "NativeAuditReference \<Rightarrow> 'v"
  au_value_back :: "'v \<Rightarrow> 'v option"
  au_uuid_text :: "uuid \<Rightarrow> string"

datatype NativeAuditError =
  AuditIo string
| AuditJson string
| InvalidBase64 string
| AuditClosed
| AuditAlreadyExists path
| SequenceMismatch u64 u64
| PayloadChecksumMismatch u64 string string
| StreamChecksumMismatch string string
| TruncatedFrame
| PartialManifest
| UnsupportedVersion u16 u16
| MapperMismatch string string string
| MalformedFrame u64
| FailedClosed
| FixtureMismatch string

text \<open>\<open>hex_digest\<close> prints two lower-case hexadecimal digits per byte of the digest.\<close>

definition hex_digit :: "nat \<Rightarrow> char" where
  "hex_digit n = (if n < 10 then char_of (48 + n) else char_of (87 + n))"

definition hex_byte :: "8 word \<Rightarrow> string" where
  "hex_byte b = [hex_digit (unat b div 16), hex_digit (unat b mod 16)]"

definition hex_digest :: "'v audit_env \<Rightarrow> bytes \<Rightarrow> string" where
  "hex_digest E hasher = concat (map hex_byte (au_sha256 E hasher))"

definition sha256_hex :: "'v audit_env \<Rightarrow> bytes \<Rightarrow> string" where
  "sha256_hex E b = hex_digest E b"

definition to_be_bytes :: "u64 \<Rightarrow> bytes" where
  "to_be_bytes n = map (\<lambda>i. ucast (drop_bit (8 * (7 - i)) n)) [0 ..< 8]"

definition deterministic_uuid :: "'v audit_env \<Rightarrow> uuid \<Rightarrow> u64 \<Rightarrow> uuid" where
  "deterministic_uuid E run_attempt_id sequence =
     (let digest = take 16 (au_sha256 E (uuid_as_bytes run_attempt_id @ to_be_bytes sequence));
          digest = digest[6 := or (and (digest ! 6) 0x0f) 0x50];
          digest = digest[8 := or (and (digest ! 8) 0x3f) 0x80]
      in uuid_from_bytes digest)"

section \<open>Frames\<close>

definition frame_from_bytes ::
  "'v audit_env \<Rightarrow> u64 \<Rightarrow> datetime \<Rightarrow> NativeAuditDirection \<Rightarrow> NativeAuditChannel \<Rightarrow> string \<Rightarrow> uuid \<Rightarrow> bytes \<Rightarrow>
   'v option \<Rightarrow> 'v NativeAuditFrame"
where
  "frame_from_bytes E sequence timestamp direction channel content_type correlation_id payload metadata =
     \<lparr>fr_audit_format_version = NATIVE_AUDIT_SCHEMA_VERSION, fr_sequence = sequence,
      fr_timestamp = timestamp, fr_direction = direction, fr_channel = channel,
      fr_content_type = content_type, fr_correlation_id = correlation_id,
      fr_payload_encoding = PayloadBase64, fr_payload_base64 = au_base64_encode E payload,
      fr_payload_checksum = sha256_hex E payload, fr_metadata = metadata\<rparr>"

definition payload_bytes :: "'v audit_env \<Rightarrow> 'v NativeAuditFrame \<Rightarrow> NativeAuditError + bytes" where
  "payload_bytes E fr =
     and_then (map_err InvalidBase64 (au_base64_decode E (fr_payload_base64 fr))) (\<lambda>payload.
       let checksum = sha256_hex E payload
       in if checksum \<noteq> fr_payload_checksum fr
          then Inl (PayloadChecksumMismatch (fr_sequence fr) (fr_payload_checksum fr) checksum)
          else Inr payload)"

definition validate_frame :: "'v audit_env \<Rightarrow> 'v NativeAuditFrame \<Rightarrow> u64 \<Rightarrow> NativeAuditError + unit" where
  "validate_frame E fr expected_sequence =
     (if fr_audit_format_version fr \<noteq> NATIVE_AUDIT_SCHEMA_VERSION
      then Inl (UnsupportedVersion (fr_audit_format_version fr) NATIVE_AUDIT_SCHEMA_VERSION)
      else if fr_sequence fr \<noteq> expected_sequence
      then Inl (SequenceMismatch expected_sequence (fr_sequence fr))
      else and_then (payload_bytes E fr) (\<lambda>_. Inr ()))"

section \<open>The writer\<close>

record NativeAuditWriter =
  aw_directory :: path
  aw_manifest_path :: path
  aw_frames_path :: path
  aw_frames :: file_handle
  aw_manifest :: NativeAuditManifest
  aw_next_sequence :: u64
  aw_stream_hasher :: bytes
  aw_closed :: bool
  aw_failed :: bool

record RelativePaths =
  rp_directory :: path
  rp_manifest :: string
  rp_frames :: string

definition path_text :: "path \<Rightarrow> string" where
  "path_text p = replace_char (CHR 0x5C) (CHR ''/'') (join_str ''/'' p)"

definition stream_relative_paths :: "'v audit_env \<Rightarrow> NativeAuditMetadata \<Rightarrow> RelativePaths" where
  "stream_relative_paths E metadata =
     (let session = au_uuid_text E (am_session_id metadata);
          directory = NATIVE_AUDIT_ROOT_RELATIVE @ [''sessions'', take 2 session, session, ''agent-runs'',
            au_uuid_text E (am_agent_run_id metadata), ''attempts'', au_uuid_text E (am_run_attempt_id metadata)]
      in \<lparr>rp_directory = directory, rp_manifest = path_text (directory @ [NATIVE_AUDIT_MANIFEST_FILE]),
          rp_frames = path_text (directory @ [NATIVE_AUDIT_FRAMES_FILE])\<rparr>)"

text \<open>The write half of \<open>write_atomic_json\<close>: the handle is dropped when a write fails.\<close>

definition write_out :: "file_handle \<Rightarrow> bytes \<Rightarrow> (host, string, file_handle) action" where
  "write_out f b h = (case write_all f b h of (r, f', h') \<Rightarrow> (and_then r (\<lambda>_. Inr f'), h'))"

definition replace_file :: "path \<Rightarrow> path \<Rightarrow> bytes \<Rightarrow> (host, string, unit) action" where
  "replace_file temporary p b =
     bind_action (open_new temporary) (\<lambda>f.
     bind_action (write_out f b) (\<lambda>f.
     bind_action (write_out f [10]) (\<lambda>f.
     bind_action sync_file (\<lambda>_. rename temporary p))))"

definition write_atomic_json ::
  "'v audit_env \<Rightarrow> path \<Rightarrow> NativeAuditManifest \<Rightarrow> (host, NativeAuditError, unit) action"
where
  "write_atomic_json E p m h =
     (if p = [] then (Inl (AuditIo ''manifest has no parent''), h)
      else let (u, h1) = new_v4 h;
               temporary = butlast p @ [''.'' @ last p @ ''.tmp-'' @ au_uuid_text E u]
           in case au_manifest_to_vec_pretty E m of
                Inl e \<Rightarrow> (Inl (AuditJson e), h1)
              | Inr b \<Rightarrow> (case replace_file temporary p b h1 of (r, h2) \<Rightarrow> (map_err AuditIo r, h2)))"

definition initial_manifest :: "NativeAuditMetadata \<Rightarrow> RelativePaths \<Rightarrow> NativeAuditManifest" where
  "initial_manifest metadata relative = \<lparr>
     mf_audit_schema_version = NATIVE_AUDIT_SCHEMA_VERSION, mf_session_id = am_session_id metadata,
     mf_agent_run_id = am_agent_run_id metadata, mf_turn_id = am_turn_id metadata,
     mf_run_attempt_id = am_run_attempt_id metadata, mf_run_attempt_number = am_run_attempt_number metadata,
     mf_provider_id = am_provider_id metadata, mf_runtime_profile_id = am_runtime_profile_id metadata,
     mf_workspace_path = am_workspace_path metadata, mf_runtime_version = am_runtime_version metadata,
     mf_protocol_version = am_protocol_version metadata, mf_adapter_version = am_adapter_version metadata,
     mf_mapper_version = am_mapper_version metadata, mf_frame_count = 0, mf_first_sequence = None,
     mf_last_sequence = None, mf_final_checksum = None, mf_integrity_status = AuditOpen,
     mf_created_at = am_created_at metadata, mf_closed_at = None,
     mf_manifest_relative_path = rp_manifest relative, mf_frames_relative_path = rp_frames relative,
     mf_raw_content_trusted = True\<rparr>"

definition create_in ::
  "'v audit_env \<Rightarrow> path \<Rightarrow> NativeAuditMetadata \<Rightarrow> (host, NativeAuditError, NativeAuditWriter) action"
where
  "create_in E root_dir metadata h =
     (if am_run_attempt_number metadata = 0 then (Inl (SequenceMismatch 1 0), h)
      else
        let relative = stream_relative_paths E metadata;
            directory = root_dir @ rp_directory relative;
            manifest_path = directory @ [NATIVE_AUDIT_MANIFEST_FILE];
            frames_path = directory @ [NATIVE_AUDIT_FRAMES_FILE]
        in case create_dir_all directory h of
             (Inl e, h1) \<Rightarrow> (Inl (AuditIo e), h1)
           | (Inr _, h1) \<Rightarrow>
               let (manifest_there, h2) = path_exists manifest_path h1;
                   (frames_there, h3) = (if manifest_there then (False, h2) else path_exists frames_path h2)
               in if manifest_there \<or> frames_there then (Inl (AuditAlreadyExists directory), h3)
                  else case open_new frames_path h3 of
                         (Inl e, h4) \<Rightarrow> (Inl (AuditIo e), h4)
                       | (Inr frames, h4) \<Rightarrow>
                           let manifest = initial_manifest metadata relative
                           in case write_atomic_json E manifest_path manifest h4 of
                                (Inl e, h5) \<Rightarrow> (Inl e, h5)
                              | (Inr _, h5) \<Rightarrow>
                                  (Inr \<lparr>aw_directory = directory, aw_manifest_path = manifest_path,
                                        aw_frames_path = frames_path, aw_frames = frames,
                                        aw_manifest = manifest, aw_next_sequence = 1,
                                        aw_stream_hasher = [], aw_closed = False, aw_failed = False\<rparr>, h5))"

text \<open>\<open>write_all(&line).and_then(|_| sync_data())\<close>.\<close>

definition write_synced :: "file_handle \<Rightarrow> bytes \<Rightarrow> host \<Rightarrow> (string + unit) \<times> file_handle \<times> host" where
  "write_synced f b h =
     (case write_all f b h of
        (Inl e, f', h') \<Rightarrow> (Inl e, f', h')
      | (Inr _, f', h') \<Rightarrow> (case sync_file h' of (r, h'') \<Rightarrow> (r, f', h'')))"

text \<open>The writer after a durable append.\<close>

definition record_line :: "NativeAuditWriter \<Rightarrow> 'v NativeAuditFrame \<Rightarrow> bytes \<Rightarrow> NativeAuditWriter" where
  "record_line w fr line =
     w\<lparr>aw_stream_hasher := aw_stream_hasher w @ line,
       aw_manifest := (aw_manifest w)\<lparr>
         mf_frame_count := mf_frame_count (aw_manifest w) + 1,
         mf_first_sequence := (case mf_first_sequence (aw_manifest w) of
                                 None \<Rightarrow> Some (fr_sequence fr) | Some s \<Rightarrow> Some s),
         mf_last_sequence := Some (fr_sequence fr)\<rparr>,
       aw_next_sequence := aw_next_sequence w + 1\<rparr>"

type_synonym ('v, 'a) audit_action = "(NativeAuditWriter \<times> host, NativeAuditError, 'a) action"

definition append_frame ::
  "'v audit_env \<Rightarrow> 'v NativeAuditFrame \<Rightarrow> ('v, NativeAuditReference) audit_action"
where
  "append_frame E fr s =
     (case s of (w, h) \<Rightarrow>
        if aw_closed w then (Inl AuditClosed, (w, h))
        else if aw_failed w then (Inl FailedClosed, (w, h))
        else case validate_frame E fr (aw_next_sequence w) of
               Inl e \<Rightarrow> (Inl e, (w\<lparr>aw_failed := True\<rparr>, h))
             | Inr _ \<Rightarrow>
             (case au_frame_to_vec E fr of
                Inl e \<Rightarrow> (Inl (AuditJson e), (w, h))
              | Inr b \<Rightarrow>
                 (let line = b @ [10]
                  in case write_synced (aw_frames w) line h of
                       (Inl e, f, h') \<Rightarrow> (Inl (AuditIo e), (w\<lparr>aw_frames := f, aw_failed := True\<rparr>, h'))
                     | (Inr _, f, h') \<Rightarrow>
                         (Inr \<lparr>na_stream_id = mf_run_attempt_id (aw_manifest w), na_sequence = fr_sequence fr,
                               na_checksum = Some (fr_payload_checksum fr)\<rparr>,
                          (record_line (w\<lparr>aw_frames := f\<rparr>) fr line, h')))))"

definition append_bytes ::
  "'v audit_env \<Rightarrow> NativeAuditDirection \<Rightarrow> NativeAuditChannel \<Rightarrow> string \<Rightarrow> uuid \<Rightarrow> bytes \<Rightarrow> 'v option \<Rightarrow>
   ('v, NativeAuditReference) audit_action"
where
  "append_bytes E direction channel content_type correlation_id payload metadata s =
     (case s of (w, h) \<Rightarrow>
        let (now, h1) = utc_now h
        in append_frame E (frame_from_bytes E (aw_next_sequence w) now direction channel content_type
             correlation_id payload metadata) (w, h1))"

definition append_canonical_input ::
  "'v audit_env \<Rightarrow> CanonicalMessage \<Rightarrow> uuid \<Rightarrow> ('v, NativeAuditReference) audit_action"
where
  "append_canonical_input E message correlation_id =
     (case au_message_to_vec E message of
        Inl e \<Rightarrow> raise (AuditJson e)
      | Inr payload \<Rightarrow>
          append_bytes E AuditInput ChCanonicalInput ''application/json'' correlation_id payload None)"

definition append_canonical_input_reference ::
  "'v audit_env \<Rightarrow> NativeAuditReference \<Rightarrow> uuid \<Rightarrow> ('v, NativeAuditReference) audit_action"
where
  "append_canonical_input_reference E reference correlation_id =
     append_bytes E AuditInput ChCanonicalInput ''application/vnd.vibe-kanban.native-audit-reference+json''
       correlation_id [] (Some (au_reference_json E reference))"

definition append_native_input ::
  "'v audit_env \<Rightarrow> NativeAuditChannel \<Rightarrow> string \<Rightarrow> uuid \<Rightarrow> bytes \<Rightarrow> ('v, NativeAuditReference) audit_action"
where
  "append_native_input E channel content_type correlation_id payload =
     append_bytes E AuditInput channel content_type correlation_id payload None"

definition append_native_output ::
  "'v audit_env \<Rightarrow> NativeAuditChannel \<Rightarrow> string \<Rightarrow> uuid \<Rightarrow> bytes \<Rightarrow> ('v, NativeAuditReference) audit_action"
where
  "append_native_output E channel content_type correlation_id payload =
     append_bytes E AuditOutput channel content_type correlation_id payload None"

text \<open>The manifest a close writes.\<close>

definition final_manifest ::
  "'v audit_env \<Rightarrow> NativeAuditWriter \<Rightarrow> NativeAuditIntegrityStatus \<Rightarrow> datetime \<Rightarrow> NativeAuditManifest" where
  "final_manifest E w status now = (aw_manifest w)\<lparr>
     mf_integrity_status := (if aw_failed w then AuditAuditFailed else status),
     mf_final_checksum := Some (hex_digest E (aw_stream_hasher w)),
     mf_closed_at := Some now\<rparr>"

definition close_with_status ::
  "'v audit_env \<Rightarrow> NativeAuditIntegrityStatus \<Rightarrow> ('v, NativeAuditManifest) audit_action"
where
  "close_with_status E status s =
     (case s of (w, h) \<Rightarrow>
        if aw_closed w then (Inr (aw_manifest w), (w, h))
        else case sync_file h of
               (Inl e, h1) \<Rightarrow> (Inl (AuditIo e), (w\<lparr>aw_failed := True\<rparr>, h1))
             | (Inr _, h1) \<Rightarrow>
                 let (now, h2) = utc_now h1;
                     m = final_manifest E w status now
                 in case write_atomic_json E (aw_manifest_path w) m h2 of
                      (Inl e, h3) \<Rightarrow> (Inl e, (w\<lparr>aw_manifest := m, aw_failed := True\<rparr>, h3))
                    | (Inr _, h3) \<Rightarrow> (Inr m, (w\<lparr>aw_manifest := m, aw_closed := True\<rparr>, h3)))"

definition close_stream :: "'v audit_env \<Rightarrow> ('v, NativeAuditManifest) audit_action" where
  "close_stream E s = close_with_status E (if aw_failed (fst s) then AuditAuditFailed else AuditComplete) s"

definition fail_closed :: "'v audit_env \<Rightarrow> ('v, NativeAuditManifest) audit_action" where
  "fail_closed E s = (case s of (w, h) \<Rightarrow> close_with_status E AuditAuditFailed (w\<lparr>aw_failed := True\<rparr>, h))"

section \<open>The reader\<close>

record 'v AuditBundle =
  ab_directory :: path
  ab_manifest :: NativeAuditManifest
  ab_frames :: "'v NativeAuditFrame list"

text \<open>\<open>split_inclusive\<close> at line feeds: every piece ends with its line feed, a rest without one is a piece of its own.\<close>

fun split_inclusive :: "bytes \<Rightarrow> bytes list" where
  "split_inclusive [] = []"
| "split_inclusive (x # xs) =
     (if x = 10 then [x] # split_inclusive xs
      else case split_inclusive xs of [] \<Rightarrow> [[x]] | l # ls \<Rightarrow> (x # l) # ls)"

definition strip_newline :: "bytes \<Rightarrow> bytes" where
  "strip_newline l = (if l \<noteq> [] \<and> last l = 10 then butlast l else l)"

fun read_lines ::
  "'v audit_env \<Rightarrow> u64 \<Rightarrow> bytes \<Rightarrow> 'v NativeAuditFrame list \<Rightarrow> bytes list \<Rightarrow>
   NativeAuditError + u64 \<times> bytes \<times> 'v NativeAuditFrame list"
where
  "read_lines E sequence hasher frames [] = Inr (sequence, hasher, frames)"
| "read_lines E sequence hasher frames (raw # rest) =
     (if raw = [10] then read_lines E sequence hasher frames rest
      else case au_frame_from_slice E (strip_newline raw) of
             Inl _ \<Rightarrow> Inl (MalformedFrame sequence)
           | Inr fr \<Rightarrow>
               and_then (validate_frame E fr sequence) (\<lambda>_.
                 read_lines E (sequence + 1) (hasher @ raw) (frames @ [fr]) rest))"

definition first_seq :: "'v NativeAuditFrame list \<Rightarrow> u64 option" where
  "first_seq frames = (case frames of [] \<Rightarrow> None | fr # _ \<Rightarrow> Some (fr_sequence fr))"

definition last_seq :: "'v NativeAuditFrame list \<Rightarrow> u64 option" where
  "last_seq frames = (if frames = [] then None else Some (fr_sequence (last frames)))"

definition check_manifest :: "NativeAuditManifest \<Rightarrow> NativeAuditError + unit" where
  "check_manifest m =
     (if mf_integrity_status m \<notin> {AuditComplete, AuditRecovered} then Inl PartialManifest
      else if mf_audit_schema_version m \<noteq> NATIVE_AUDIT_SCHEMA_VERSION
      then Inl (UnsupportedVersion (mf_audit_schema_version m) NATIVE_AUDIT_SCHEMA_VERSION)
      else Inr ())"

definition check_frames ::
  "'v audit_env \<Rightarrow> NativeAuditManifest \<Rightarrow> bytes \<Rightarrow> NativeAuditError + 'v NativeAuditFrame list"
where
  "check_frames E m b =
     (if b \<noteq> [] \<and> last b \<noteq> 10 then Inl TruncatedFrame
      else and_then (read_lines E 1 [] [] (split_inclusive b)) (\<lambda>(sequence, hasher, frames).
        if mf_frame_count m \<noteq> of_nat (length frames) \<or> mf_first_sequence m \<noteq> first_seq frames \<or>
           mf_last_sequence m \<noteq> last_seq frames
        then Inl (MalformedFrame sequence)
        else let actual = hex_digest E hasher
             in if mf_final_checksum m \<noteq> Some actual
                then Inl (StreamChecksumMismatch (case mf_final_checksum m of None \<Rightarrow> [] | Some c \<Rightarrow> c) actual)
                else Inr frames))"

definition read_bundle :: "'v audit_env \<Rightarrow> path \<Rightarrow> (host, NativeAuditError, 'v AuditBundle) action" where
  "read_bundle E directory h =
     (case read_file (directory @ [NATIVE_AUDIT_MANIFEST_FILE]) h of
        (Inl e, h1) \<Rightarrow> (Inl (AuditIo e), h1)
      | (Inr mb, h1) \<Rightarrow>
          (case au_manifest_from_slice E mb of
             Inl _ \<Rightarrow> (Inl PartialManifest, h1)
           | Inr m \<Rightarrow>
             (case check_manifest m of
                Inl e \<Rightarrow> (Inl e, h1)
              | Inr _ \<Rightarrow>
                (case read_file (directory @ [NATIVE_AUDIT_FRAMES_FILE]) h1 of
                   (Inl e, h2) \<Rightarrow> (Inl (AuditIo e), h2)
                 | (Inr b, h2) \<Rightarrow>
                     (map_sum id (\<lambda>frames. \<lparr>ab_directory = directory, ab_manifest = m, ab_frames = frames\<rparr>)
                        (check_frames E m b), h2)))))"

definition copy_if_there :: "path \<Rightarrow> path \<Rightarrow> string \<Rightarrow> (host, string, unit) action" where
  "copy_if_there source destination name h =
     (let (there, h1) = path_exists (source @ [name]) h
      in if there then copy_file (source @ [name]) (destination @ [name]) h1 else (Inr (), h1))"

definition export_to :: "'v AuditBundle \<Rightarrow> path \<Rightarrow> (host, string, unit) action" where
  "export_to bundle destination =
     (let copy = (\<lambda>name. copy_file (ab_directory bundle @ [name]) (destination @ [name]))
      in bind_action (create_dir_all destination) (\<lambda>_.
         bind_action (copy NATIVE_AUDIT_MANIFEST_FILE) (\<lambda>_.
         bind_action (copy NATIVE_AUDIT_FRAMES_FILE) (\<lambda>_.
         each (copy_if_there (ab_directory bundle) destination)
           [''expected-provider-events.jsonl'', ''expected-agent-events.jsonl'']))))"

section \<open>Replay\<close>

record 'v ProviderEvent =
  pe_sequence :: u64
  pe_timestamp :: datetime
  pe_direction :: NativeAuditDirection
  pe_channel :: NativeAuditChannel
  pe_content_type :: string
  pe_correlation_id :: uuid
  pe_payload :: bytes
  pe_payload_json :: "'v option"
  pe_native_ref :: NativeAuditReference

text \<open>The trait \<open>NativeAuditReplayMapper\<close>.\<close>

record 'v NativeAuditReplayMapper =
  mp_versions :: NativeAuditVersionSet
  mp_decode :: "'v NativeAuditFrame \<Rightarrow> NativeAuditError + 'v ProviderEvent"
  mp_map :: "'v ProviderEvent \<Rightarrow> NativeAuditManifest \<Rightarrow> NativeAuditError + 'v AgentEventEnvelope list"

definition default_decode :: "'v audit_env \<Rightarrow> 'v NativeAuditFrame \<Rightarrow> NativeAuditError + 'v ProviderEvent" where
  "default_decode E fr =
     and_then (payload_bytes E fr) (\<lambda>payload.
       Inr \<lparr>pe_sequence = fr_sequence fr, pe_timestamp = fr_timestamp fr, pe_direction = fr_direction fr,
            pe_channel = fr_channel fr, pe_content_type = fr_content_type fr,
            pe_correlation_id = fr_correlation_id fr, pe_payload = payload,
            pe_payload_json =
              (if find_str ''json'' (fr_content_type fr) \<noteq> None
               then (case au_value_from_slice E payload of Inl _ \<Rightarrow> None | Inr v \<Rightarrow> Some v) else None),
            pe_native_ref = \<lparr>na_stream_id = 0, na_sequence = fr_sequence fr,
              na_checksum = Some (fr_payload_checksum fr)\<rparr>\<rparr>)"

definition default_map ::
  "'v audit_env \<Rightarrow> 'v ProviderEvent \<Rightarrow> NativeAuditManifest \<Rightarrow> NativeAuditError + 'v AgentEventEnvelope list"
where
  "default_map E event m =
     Inr [\<lparr>ae_schema_version = AGENT_EVENT_SCHEMA_VERSION, ae_payload_version = AGENT_EVENT_PAYLOAD_VERSION,
           ae_event_id = deterministic_uuid E (mf_run_attempt_id m) (pe_sequence event),
           ae_session_id = mf_session_id m, ae_agent_run_id = mf_agent_run_id m, ae_turn_id = mf_turn_id m,
           ae_run_attempt_id = mf_run_attempt_id m, ae_run_attempt_number = mf_run_attempt_number m,
           ae_sequence = pe_sequence event, ae_correlation_id = pe_correlation_id event,
           ae_orchestration_run_id = None, ae_orchestration_node_execution_id = None,
           ae_timestamp = pe_timestamp event,
           ae_native_refs = [\<lparr>na_stream_id = mf_run_attempt_id m, na_sequence = pe_sequence event,
             na_checksum = Some (case na_checksum (pe_native_ref event) of None \<Rightarrow> [] | Some c \<Rightarrow> c)\<rparr>],
           ae_payload = AEProviderExtension (mf_provider_id m) (channel_as_str (pe_channel event))
             (case pe_payload_json event of
                Some v \<Rightarrow> v
              | None \<Rightarrow> au_value_string E (au_base64_encode E (pe_payload event)))\<rparr>]"

definition default_mapper :: "'v audit_env \<Rightarrow> NativeAuditVersionSet \<Rightarrow> 'v NativeAuditReplayMapper" where
  "default_mapper E versions =
     \<lparr>mp_versions = versions, mp_decode = default_decode E, mp_map = default_map E\<rparr>"

definition text_or_default :: "string option \<Rightarrow> string" where
  "text_or_default x = (case x of None \<Rightarrow> [] | Some s \<Rightarrow> s)"

definition compare_versions :: "NativeAuditVersionSet \<Rightarrow> NativeAuditVersionSet \<Rightarrow> NativeAuditError + unit" where
  "compare_versions expected actual =
     (if vs_audit_schema_version expected \<noteq> vs_audit_schema_version actual
      then Inl (MapperMismatch ''audit_schema_version''
             (dec_of_nat (unat (vs_audit_schema_version expected)))
             (dec_of_nat (unat (vs_audit_schema_version actual))))
      else for_each (\<lambda>(field, e, a). if e \<noteq> a then Inl (MapperMismatch field e a) else Inr ())
        [(''runtime_version'', text_or_default (vs_runtime_version expected),
            text_or_default (vs_runtime_version actual)),
         (''adapter_version'', vs_adapter_version expected, vs_adapter_version actual),
         (''protocol_version'', text_or_default (vs_protocol_version expected),
            text_or_default (vs_protocol_version actual)),
         (''mapper_version'', vs_mapper_version expected, vs_mapper_version actual)])"

definition validate_versions :: "'v AuditBundle \<Rightarrow> NativeAuditVersionSet \<Rightarrow> NativeAuditError + unit" where
  "validate_versions bundle expected = compare_versions expected (manifest_versions (ab_manifest bundle))"

fun version_error_to_string :: "ContractVersionError \<Rightarrow> string" where
  "version_error_to_string (MissingUpcaster contract provided current) =
     contract @ '' version '' @ dec_of_nat (unat provided) @ '' is older than '' @ dec_of_nat (unat current) @
     ''; an explicit upcaster is required''"
| "version_error_to_string (UnsupportedFutureVersion contract provided current) =
     contract @ '' version '' @ dec_of_nat (unat provided) @ '' is newer than supported version '' @
     dec_of_nat (unat current)"

fun reducer_error_to_string :: "ReducerError \<Rightarrow> string" where
  "reducer_error_to_string (REventVersion e) = version_error_to_string e"
| "reducer_error_to_string RIdentityMismatch = ''event identity does not belong to this run state''"
| "reducer_error_to_string RRunAttemptConflict =
     ''run attempt number and identity conflict with the projection cursor''"
| "reducer_error_to_string RInvalidStreamPosition =
     ''run attempt number and event sequence must both be greater than zero''"
| "reducer_error_to_string (RSequenceConflict received last_applied) =
     ''event sequence '' @ dec_of_nat (unat received) @ '' conflicts with last applied sequence '' @
     dec_of_nat (unat last_applied)"
| "reducer_error_to_string (RUnsupportedStateSchema v) =
     ''state schema version '' @ dec_of_nat (unat v) @ '' is not supported''"
| "reducer_error_to_string (RUnsupportedReducerVersion v) =
     ''reducer version '' @ dec_of_nat (unat v) @ '' is not supported''"

fun replay_frames ::
  "'v NativeAuditReplayMapper \<Rightarrow> NativeAuditManifest \<Rightarrow> 'v NativeAuditFrame list \<Rightarrow>
   NativeAuditError + 'v ProviderEvent list \<times> 'v AgentEventEnvelope list"
where
  "replay_frames M m [] = Inr ([], [])"
| "replay_frames M m (fr # frames) =
     and_then (mp_decode M fr) (\<lambda>event.
       let event = event\<lparr>pe_native_ref := (pe_native_ref event)\<lparr>na_stream_id := mf_run_attempt_id m\<rparr>\<rparr>
       in and_then (mp_map M event m) (\<lambda>mapped.
          and_then (replay_frames M m frames) (\<lambda>(events, agent_events).
            Inr (event # events, mapped @ agent_events))))"

fun reduce_all :: "'v RunState \<Rightarrow> 'v AgentEventEnvelope list \<Rightarrow> NativeAuditError + 'v RunState" where
  "reduce_all s [] = Inr s"
| "reduce_all s (e # es) =
     (case reduce_agent_event s e of
        (s', Inl err) \<Rightarrow> Inl (MalformedFrame (of_nat (length (reducer_error_to_string err))))
      | (s', Inr _) \<Rightarrow> reduce_all s' es)"

record 'v AuditReplayResult =
  rr_provider_events :: "'v ProviderEvent list"
  rr_agent_events :: "'v AgentEventEnvelope list"
  rr_state :: "'v RunState"

definition replay_start :: "NativeAuditManifest \<Rightarrow> 'v RunState" where
  "replay_start m = \<lparr>
     st_state_schema_version = RUN_STATE_SCHEMA_VERSION, st_reducer_version = RUN_STATE_REDUCER_VERSION,
     st_session_id = mf_session_id m, st_agent_run_id = mf_agent_run_id m, st_turn_id = mf_turn_id m,
     st_status = APending, st_projection_status = ProjCurrent, st_last_run_attempt_id = None,
     st_last_run_attempt_number = 0, st_last_event_sequence = 0, st_last_event_id = None,
     st_provider_session = None, st_terminal_output = None, st_last_error = None,
     st_unknown_event_count = 0, st_updated_at = mf_created_at m\<rparr>"

definition replay ::
  "'v AuditBundle \<Rightarrow> 'v NativeAuditReplayMapper \<Rightarrow> NativeAuditError + 'v AuditReplayResult" where
  "replay bundle M =
     and_then (validate_versions bundle (mp_versions M)) (\<lambda>_.
     and_then (replay_frames M (ab_manifest bundle) (ab_frames bundle)) (\<lambda>(events, agent_events).
     and_then (reduce_all (replay_start (ab_manifest bundle)) agent_events) (\<lambda>s.
       Inr \<lparr>rr_provider_events = events, rr_agent_events = agent_events, rr_state = s\<rparr>)))"

definition replay_default :: "'v audit_env \<Rightarrow> 'v AuditBundle \<Rightarrow> NativeAuditError + 'v AuditReplayResult" where
  "replay_default E bundle = replay bundle (default_mapper E (manifest_versions (ab_manifest bundle)))"

end
