(* ===== verification/Audit_Frames.thy ===== *)
theory Audit_Frames
  imports Native_Audit
begin

text \<open>
  What the native audit relies on and what its files contain: the laws of the codec, the atomic replacement of the
  manifest under every pattern of I/O failures, and the lines of a stream, written and read back.
\<close>

section \<open>What the codec promises\<close>

text \<open>
  A frame that is written as JSON and read back agrees with the original, up to what \<open>serde\<close> does not distinguish: a channel
  \<open>Other("stdout")\<close> is read as \<open>Stdout\<close>, and a metadata value comes back as \<open>au_value_back\<close> says (\<open>null\<close> as none, a
  floating point number as \<open>serde_json\<close> reads its text). The reference of a canonical input, an object of two texts and an
  unsigned number, comes back as it was.
\<close>

definition same_frame :: "'v audit_env \<Rightarrow> 'v NativeAuditFrame \<Rightarrow> 'v NativeAuditFrame \<Rightarrow> bool" where
  "same_frame E f g \<longleftrightarrow>
     channel_as_str (fr_channel g) = channel_as_str (fr_channel f) \<and>
     fr_metadata g = Option.bind (fr_metadata f) (au_value_back E) \<and>
     g\<lparr>fr_channel := fr_channel f, fr_metadata := fr_metadata f\<rparr> = f"

definition audit_codec :: "'v audit_env \<Rightarrow> bool" where
  "audit_codec E \<longleftrightarrow>
     (\<forall>f b. au_frame_to_vec E f = Inr b \<longrightarrow>
        b \<noteq> [] \<and> 10 \<notin> set b \<and> (\<exists>g. au_frame_from_slice E b = Inr g \<and> same_frame E f g)) \<and>
     (\<forall>m b. au_manifest_to_vec_pretty E m = Inr b \<longrightarrow> au_manifest_from_slice E (b @ [10]) = Inr m) \<and>
     (\<forall>reference. au_value_back E (au_reference_json E reference) = Some (au_reference_json E reference))"

definition audit_codec_total :: "'v audit_env \<Rightarrow> bool" where
  "audit_codec_total E \<longleftrightarrow>
     (\<forall>f. is_ok (au_frame_to_vec E f)) \<and> (\<forall>m. is_ok (au_manifest_to_vec_pretty E m)) \<and>
     (\<forall>b. au_base64_decode E (au_base64_encode E b) = Inr b)"

lemma same_frame_payload:
  assumes "same_frame E f g"
  shows "payload_bytes E g = payload_bytes E f" "fr_sequence g = fr_sequence f"
    "validate_frame E g n = validate_frame E f n"
proof -
  have f: "f = g\<lparr>fr_channel := fr_channel f, fr_metadata := fr_metadata f\<rparr>" using assms by (simp add: same_frame_def)
  have eqs: "fr_payload_base64 g = fr_payload_base64 f" "fr_payload_checksum g = fr_payload_checksum f"
      "fr_sequence g = fr_sequence f" "fr_audit_format_version g = fr_audit_format_version f"
    by (subst f, simp)+
  then show "payload_bytes E g = payload_bytes E f" "fr_sequence g = fr_sequence f"
    "validate_frame E g n = validate_frame E f n"
    by (simp_all add: payload_bytes_def validate_frame_def Let_def cong: if_cong)
qed

section \<open>Replacing a file atomically\<close>

definition dot_files :: "path \<Rightarrow> path set" where
  "dot_files d = {d @ [CHR ''.'' # n] | n. True}"

lemma write_out_touches: "write_out f b h = (r, h') \<Longrightarrow> touches {file_path f} h h'"
  by (auto simp: write_out_def dest: write_all_touches split: prod.splits)

lemma write_out_ok:
  assumes "write_out f b h = (Inr f', h')" "host_files h (file_path f) = Some c" "file_pos f = length c"
  shows "host_files h' (file_path f) = Some (c @ b)" "file_path f' = file_path f" "file_pos f' = length (c @ b)"
proof -
  from assms(1) have w: "write_all f b h = (Inr (), f', h')"
    by (auto simp: write_out_def result_simps split: prod.splits)
  from write_all_ok [OF w assms(2,3)]
  show "host_files h' (file_path f) = Some (c @ b)" "file_path f' = file_path f" "file_pos f' = length (c @ b)"
    by simp_all
qed

lemma write_out_path: "write_out f b h = (Inr f', h') \<Longrightarrow> file_path f' = file_path f"
  by (auto simp: write_out_def result_simps dest: write_all_touches split: prod.splits)

lemma replace_file_result:
  assumes "replace_file t p b h = (r, h')" "t \<noteq> p"
  shows "(\<exists>e. r = Inl e \<and> touches {t} h h') \<or>
    (r = Inr () \<and> touches {t, p} h h' \<and> host_files h' p = Some (b @ [10]))"
proof (cases r)
  case (Inl e)
  have renamed: "touches {t} h1 h2" if "rename t p h1 = (Inl x, h2)" for x h1 h2
    using that assms(2) by (cases rule: rename_cases) auto
  have synced: "touches {t} h1 h2" if "sync_file h1 = (x, h2)" for x h1 h2
    using sync_file_touches [OF that] by simp
  have ends: "touches {t} h1 h'" if "bind_action sync_file (\<lambda>_. rename t p) h1 = (Inl e, h')" for h1
    using that by (auto simp: bind_err_iff dest: synced renamed intro: touches_trans)
  have second: "touches {t} h1 h'" if "file_path f = t"
    "bind_action (write_out f [10]) (\<lambda>f. bind_action sync_file (\<lambda>_. rename t p)) h1 = (Inl e, h')" for f h1
    using that(2) write_out_touches [of f "[10]" h1] unfolding bind_err_iff [of "write_out f [10]"] that(1)
    by (blast intro: ends touches_trans)
  have first: "touches {t} h1 h'" if "file_path f = t"
    "bind_action (write_out f b) (\<lambda>f. bind_action (write_out f [10]) (\<lambda>f. bind_action sync_file (\<lambda>_. rename t p))) h1
       = (Inl e, h')" for f h1
    using that(2) write_out_touches [of f b h1] write_out_path [of f b h1] unfolding bind_err_iff [of "write_out f b"] that(1)
    by (blast intro: second touches_trans)
  have opened: "file_path f = t" if "open_new t h = (Inr f, h1)" for f h1
    using open_new_ok [OF that] by simp
  from assms(1) have "replace_file t p b h = (Inl e, h')" by (simp add: Inl)
  then have "touches {t} h h'"
    unfolding replace_file_def bind_err_iff [of "open_new t"]
    by (blast intro: first opened open_new_touches touches_trans)
  with Inl show ?thesis by blast
next
  case (Inr u)
  with assms(1) obtain f1 h1 f2 h2 f3 h3 h4 where
      o1: "open_new t h = (Inr f1, h1)" and w1: "write_out f1 b h1 = (Inr f2, h2)"
      and w2: "write_out f2 [10] h2 = (Inr f3, h3)" and s: "sync_file h3 = (Inr (), h4)"
      and rn: "rename t p h4 = (Inr (), h')"
    unfolding replace_file_def by (auto simp: bind_ok_iff)
  have f1: "file_path f1 = t" "file_pos f1 = length []" "host_files h1 t = Some []"
    using open_new_ok [OF o1] by simp_all
  have f2: "host_files h2 t = Some b" "file_path f2 = t" "file_pos f2 = length b"
    using write_out_ok [OF w1] f1 by simp_all
  have f3: "host_files h3 t = Some (b @ [10])" using write_out_ok [OF w2] f2 by simp
  have h4: "h4 = tick h3" by (rule sync_file_touches [OF s])
  have "touches {t} h h1" "touches {t} h1 h2" "touches {t} h2 h3" "touches {t} h3 h4"
    using open_new_touches [OF o1] write_out_touches [OF w1] write_out_touches [OF w2] f1 f2 h4 by simp_all
  then have th4: "touches {t, p} h h4" by (blast intro: touches_trans touches_mono)
  show ?thesis using rn assms(2)
  proof (cases rule: rename_cases)
    case (moved c)
    then have "touches {t, p} h4 h'" by simp
    moreover have "host_files h' p = Some (b @ [10])" using moved f3 h4 by simp
    ultimately show ?thesis using touches_trans [OF th4] Inr by simp
  qed simp
qed

lemma write_atomic_json_result:
  assumes "write_atomic_json E (d @ [c # n]) m h = (r, h')" "c \<noteq> CHR ''.''"
  shows "(\<exists>e. r = Inl e \<and> touches (dot_files d) h h') \<or>
    (\<exists>b. r = Inr () \<and> au_manifest_to_vec_pretty E m = Inr b \<and>
       touches (insert (d @ [c # n]) (dot_files d)) h h' \<and> host_files h' (d @ [c # n]) = Some (b @ [10]))"
proof -
  obtain u h1 where u: "new_v4 h = (u, h1)" by (cases "new_v4 h")
  have t1: "touches P h h1" for P by (rule new_v4_touches [OF u])
  define t where "t = d @ [''.'' @ (c # n) @ ''.tmp-'' @ au_uuid_text E u]"
  have dot: "t \<in> dot_files d" and ne: "t \<noteq> d @ [c # n]" using assms(2) by (auto simp: t_def dot_files_def)
  show ?thesis
  proof (cases "au_manifest_to_vec_pretty E m")
    case (Inl e)
    with assms(1) u t1 show ?thesis by (auto simp: write_atomic_json_def)
  next
    case (Inr b)
    obtain q h2 where rf: "replace_file t (d @ [c # n]) b h1 = (q, h2)"
      by (cases "replace_file t (d @ [c # n]) b h1")
    have "h' = h2" "r = map_err AuditIo q"
      using assms(1) u Inr rf unfolding write_atomic_json_def t_def by (simp_all split: prod.splits)
    moreover have "touches (dot_files d) h h2" if "touches {t} h1 h2"
      using touches_mono [OF that, of "dot_files d"] dot touches_trans [OF t1] by blast
    moreover have "touches (insert (d @ [c # n]) (dot_files d)) h h2" if "touches {t, d @ [c # n]} h1 h2"
      using touches_mono [OF that, of "insert (d @ [c # n]) (dot_files d)"] dot touches_trans [OF t1] by blast
    ultimately show ?thesis using replace_file_result [OF rf ne] Inr by auto
  qed
qed

section \<open>Lines\<close>

lemma split_inclusive_line: "10 \<notin> set b \<Longrightarrow> split_inclusive (b @ 10 # rest) = (b @ [10]) # split_inclusive rest"
  by (induction b) auto

lemma concat_split_inclusive [simp]: "concat (split_inclusive b) = b"
proof (induction b)
  case (Cons x b)
  then show ?case by (cases "split_inclusive b") auto
qed simp

text \<open>A whole line: a line feed at its end and nowhere else.\<close>

definition whole_line :: "bytes \<Rightarrow> bool" where
  "whole_line l \<longleftrightarrow> (\<exists>b. l = b @ [10] \<and> 10 \<notin> set b)"

lemma split_inclusive_concat: "\<forall>l \<in> set ls. whole_line l \<Longrightarrow> split_inclusive (concat ls) = ls"
  by (induction ls) (auto simp: whole_line_def split_inclusive_line)

lemma split_inclusive_whole: "last b = 10 \<Longrightarrow> l \<in> set (split_inclusive b) \<Longrightarrow> whole_line l"
proof (induction b arbitrary: l)
  case (Cons x b)
  show ?case
  proof (cases "b = []")
    case True
    with Cons.prems show ?thesis by (auto simp: whole_line_def)
  next
    case False
    with Cons.prems have last: "last b = 10" by simp
    show ?thesis
    proof (cases "x = 10")
      case True
      with Cons.prems Cons.IH [OF last] show ?thesis by (auto simp: whole_line_def)
    next
      case x: False
      obtain l' ls where split: "split_inclusive b = l' # ls"
        using concat_split_inclusive [of b] False by (cases "split_inclusive b") auto
      have "whole_line l'" using Cons.IH [OF last] split by simp
      with x have "whole_line (x # l')"
        unfolding whole_line_def by (metis append_Cons set_ConsD)
      with Cons.prems x split Cons.IH [OF last] show ?thesis by auto
    qed
  qed
qed simp

definition frame_line :: "'v audit_env \<Rightarrow> 'v NativeAuditFrame \<Rightarrow> bytes" where
  "frame_line E f = (case au_frame_to_vec E f of Inl _ \<Rightarrow> [] | Inr b \<Rightarrow> b @ [10])"

definition stream_of :: "'v audit_env \<Rightarrow> 'v NativeAuditFrame list \<Rightarrow> bytes" where
  "stream_of E fs = concat (map (frame_line E) fs)"

lemma stream_of_simps [simp]: "stream_of E [] = []" "stream_of E (fs @ [f]) = stream_of E fs @ frame_line E f"
  "stream_of E (f # fs) = frame_line E f @ stream_of E fs"
  by (simp_all add: stream_of_def)

text \<open>Frames that can be written and carry the sequence numbers from \<open>n\<close> on.\<close>

fun frames_from :: "'v audit_env \<Rightarrow> u64 \<Rightarrow> 'v NativeAuditFrame list \<Rightarrow> bool" where
  "frames_from E n [] = True"
| "frames_from E n (f # fs) \<longleftrightarrow>
     is_ok (au_frame_to_vec E f) \<and> validate_frame E f n = Inr () \<and> frames_from E (n + 1) fs"

lemma frames_from_snoc:
  "frames_from E n (fs @ [f]) \<longleftrightarrow>
     frames_from E n fs \<and> is_ok (au_frame_to_vec E f) \<and> validate_frame E f (n + of_nat (length fs)) = Inr ()"
  by (induction fs arbitrary: n) (auto simp: algebra_simps)

lemma frame_line_whole:
  assumes "audit_codec E" "is_ok (au_frame_to_vec E f)"
  shows "whole_line (frame_line E f)" "frame_line E f \<noteq> [10]"
    "\<exists>g. au_frame_from_slice E (strip_newline (frame_line E f)) = Inr g \<and> same_frame E f g"
proof -
  obtain b where b: "au_frame_to_vec E f = Inr b" using assms(2) by (auto simp: is_ok_iff)
  with assms(1) have "b \<noteq> []" "10 \<notin> set b" "\<exists>g. au_frame_from_slice E b = Inr g \<and> same_frame E f g"
    by (auto simp: audit_codec_def)
  with b show "whole_line (frame_line E f)" "frame_line E f \<noteq> [10]"
    "\<exists>g. au_frame_from_slice E (strip_newline (frame_line E f)) = Inr g \<and> same_frame E f g"
    by (auto simp: frame_line_def whole_line_def strip_newline_def)
qed

lemma frames_from_lines:
  "audit_codec E \<Longrightarrow> frames_from E n fs \<Longrightarrow> \<forall>l \<in> set (map (frame_line E) fs). whole_line l"
  by (induction fs arbitrary: n) (auto simp: frame_line_whole)

lemma read_lines_written:
  assumes "audit_codec E" "frames_from E n fs"
  shows "\<exists>gs. read_lines E n hs acc (map (frame_line E) fs) =
      Inr (n + of_nat (length fs), hs @ stream_of E fs, acc @ gs) \<and> list_all2 (same_frame E) fs gs"
  using assms(2)
proof (induction fs arbitrary: n hs acc)
  case (Cons f fs)
  from Cons.prems have f: "is_ok (au_frame_to_vec E f)" "validate_frame E f n = Inr ()"
      "frames_from E (n + 1) fs" by simp_all
  obtain g where g: "au_frame_from_slice E (strip_newline (frame_line E f)) = Inr g" "same_frame E f g"
    using frame_line_whole(3) [OF assms(1) f(1)] by blast
  have "validate_frame E g n = Inr ()" using same_frame_payload(3) [OF g(2)] f(2) by simp
  moreover obtain gs where "read_lines E (n + 1) (hs @ frame_line E f) (acc @ [g]) (map (frame_line E) fs) =
      Inr (n + 1 + of_nat (length fs), (hs @ frame_line E f) @ stream_of E fs, (acc @ [g]) @ gs)"
      "list_all2 (same_frame E) fs gs"
    using Cons.IH [OF f(3)] by blast
  ultimately show ?case
    using g frame_line_whole(2) [OF assms(1) f(1)] by (auto simp: algebra_simps intro!: exI [of _ "g # gs"])
qed auto

lemma same_frames_seq:
  assumes "list_all2 (same_frame E) fs gs"
  shows "first_seq gs = first_seq fs" "last_seq gs = last_seq fs" "length gs = length fs"
proof -
  show len: "length gs = length fs" using assms by (simp add: list_all2_lengthD)
  show "first_seq gs = first_seq fs"
    using assms by (cases fs; cases gs) (auto simp: first_seq_def same_frame_payload)
  show "last_seq gs = last_seq fs"
    using assms len by (auto simp: last_seq_def last_conv_nth list_all2_conv_all_nth intro: same_frame_payload(2) [of E])
qed

definition counts_ok :: "NativeAuditManifest \<Rightarrow> 'v NativeAuditFrame list \<Rightarrow> bool" where
  "counts_ok m fs \<longleftrightarrow>
     mf_audit_schema_version m = NATIVE_AUDIT_SCHEMA_VERSION \<and> mf_frame_count m = of_nat (length fs) \<and>
     mf_first_sequence m = first_seq fs \<and> mf_last_sequence m = last_seq fs"

lemma check_frames_written:
  assumes "audit_codec E" "frames_from E 1 fs" "counts_ok m fs"
    and "mf_final_checksum m = Some (hex_digest E (stream_of E fs))"
  shows "\<exists>gs. check_frames E m (stream_of E fs) = Inr gs \<and> list_all2 (same_frame E) fs gs"
proof -
  note whole = frames_from_lines [OF assms(1,2)]
  have split: "split_inclusive (stream_of E fs) = map (frame_line E) fs"
    using split_inclusive_concat [OF whole] by (simp add: stream_of_def)
  have last: "last (stream_of E fs) = 10" if "stream_of E fs \<noteq> []"
    using that whole by (induction fs) (auto simp: whole_line_def)
  obtain gs where gs: "read_lines E 1 [] [] (map (frame_line E) fs) =
      Inr (1 + of_nat (length fs), stream_of E fs, gs)" "list_all2 (same_frame E) fs gs"
    using read_lines_written [OF assms(1,2), of "[]" "[]"] by auto
  have "check_frames E m (stream_of E fs) = Inr gs"
    using last assms(3,4) gs(1) same_frames_seq [OF gs(2)]
    by (auto simp: check_frames_def split counts_ok_def Let_def)
  with gs(2) show ?thesis by blast
qed

end
