(* ===== verification/Audit_Trail.thy ===== *)
theory Audit_Trail
  imports Audit_Frames
begin

text \<open>
  What the native audit guarantees: a bundle that reads back holds exactly the frames that were appended, whatever I/O
  fails on the way, and a writer that failed never leaves a readable bundle.
\<close>

section \<open>The invariant of the writer\<close>

definition writer_log :: "'v audit_env \<Rightarrow> 'v NativeAuditFrame list \<Rightarrow> NativeAuditWriter \<Rightarrow> bool" where
  "writer_log E fs w \<longleftrightarrow>
     aw_manifest_path w = aw_directory w @ [NATIVE_AUDIT_MANIFEST_FILE] \<and>
     aw_frames_path w = aw_directory w @ [NATIVE_AUDIT_FRAMES_FILE] \<and> file_path (aw_frames w) = aw_frames_path w \<and>
     frames_from E 1 fs \<and> aw_stream_hasher w = stream_of E fs \<and>
     aw_next_sequence w = 1 + of_nat (length fs) \<and> counts_ok (aw_manifest w) fs"

definition manifest_on_disk :: "'v audit_env \<Rightarrow> path \<Rightarrow> host \<Rightarrow> NativeAuditManifest option" where
  "manifest_on_disk E p h =
     (case host_files h p of
        None \<Rightarrow> None
      | Some b \<Rightarrow> (case au_manifest_from_slice E b of Inl _ \<Rightarrow> None | Inr m \<Rightarrow> Some m))"

lemma manifest_on_disk_tick [simp]: "manifest_on_disk E p (tick h) = manifest_on_disk E p h"
  by (simp add: manifest_on_disk_def)

definition status_on_disk :: "'v audit_env \<Rightarrow> NativeAuditWriter \<Rightarrow> host \<Rightarrow> NativeAuditIntegrityStatus option" where
  "status_on_disk E w h = map_option mf_integrity_status (manifest_on_disk E (aw_manifest_path w) h)"

definition open_ok :: "'v audit_env \<Rightarrow> 'v NativeAuditFrame list \<Rightarrow> NativeAuditWriter \<Rightarrow> host \<Rightarrow> bool" where
  "open_ok E fs w h \<longleftrightarrow>
     status_on_disk E w h = Some AuditOpen \<and>
     (\<not> aw_failed w \<longrightarrow>
        host_files h (aw_frames_path w) = Some (stream_of E fs) \<and> file_pos (aw_frames w) = length (stream_of E fs))"

definition closed_ok :: "'v audit_env \<Rightarrow> 'v NativeAuditFrame list \<Rightarrow> NativeAuditWriter \<Rightarrow> host \<Rightarrow> bool" where
  "closed_ok E fs w h \<longleftrightarrow>
     manifest_on_disk E (aw_manifest_path w) h = Some (aw_manifest w) \<and>
     mf_final_checksum (aw_manifest w) = Some (hex_digest E (stream_of E fs)) \<and>
     (mf_integrity_status (aw_manifest w) = AuditAuditFailed \<or>
      host_files h (aw_frames_path w) = Some (stream_of E fs))"

definition writer_inv :: "'v audit_env \<Rightarrow> 'v NativeAuditFrame list \<Rightarrow> NativeAuditWriter \<times> host \<Rightarrow> bool" where
  "writer_inv E fs s \<longleftrightarrow>
     (case s of (w, h) \<Rightarrow>
        writer_log E fs w \<and> (if aw_closed w then closed_ok E fs w h else open_ok E fs w h))"

lemma file_names:
  "NATIVE_AUDIT_MANIFEST_FILE = CHR ''m'' # ''anifest.json''" "NATIVE_AUDIT_FRAMES_FILE \<noteq> NATIVE_AUDIT_MANIFEST_FILE"
  "d @ [NATIVE_AUDIT_FRAMES_FILE] \<notin> dot_files d" "d @ [NATIVE_AUDIT_MANIFEST_FILE] \<notin> dot_files d"
  by (simp_all add: NATIVE_AUDIT_MANIFEST_FILE_def NATIVE_AUDIT_FRAMES_FILE_def dot_files_def)

lemma write_manifest_result:
  assumes "audit_codec E" "write_atomic_json E (d @ [NATIVE_AUDIT_MANIFEST_FILE]) m h = (r, h')"
  shows "host_files h' (d @ [NATIVE_AUDIT_FRAMES_FILE]) = host_files h (d @ [NATIVE_AUDIT_FRAMES_FILE])"
    "r = Inl e \<Longrightarrow> manifest_on_disk E (d @ [NATIVE_AUDIT_MANIFEST_FILE]) h' =
       manifest_on_disk E (d @ [NATIVE_AUDIT_MANIFEST_FILE]) h"
    "r = Inr u \<Longrightarrow> manifest_on_disk E (d @ [NATIVE_AUDIT_MANIFEST_FILE]) h' = Some m"
proof -
  have "CHR ''m'' \<noteq> CHR ''.''" by simp
  from write_atomic_json_result [OF assms(2) [unfolded file_names(1)] this, folded file_names(1)]
  consider (kept) x where "r = Inl x" "touches (dot_files d) h h'"
    | (replaced) b where "r = Inr ()" "au_manifest_to_vec_pretty E m = Inr b"
        "touches (insert (d @ [NATIVE_AUDIT_MANIFEST_FILE]) (dot_files d)) h h'"
        "host_files h' (d @ [NATIVE_AUDIT_MANIFEST_FILE]) = Some (b @ [10])"
    by blast
  note outcome = this
  show "host_files h' (d @ [NATIVE_AUDIT_FRAMES_FILE]) = host_files h (d @ [NATIVE_AUDIT_FRAMES_FILE])"
    using file_names(2,3) by (cases rule: outcome) (auto dest: touchesD)
  show "r = Inl e \<Longrightarrow> manifest_on_disk E (d @ [NATIVE_AUDIT_MANIFEST_FILE]) h' =
       manifest_on_disk E (d @ [NATIVE_AUDIT_MANIFEST_FILE]) h"
    using file_names(4) by (cases rule: outcome) (auto simp: manifest_on_disk_def touchesD)
  show "r = Inr u \<Longrightarrow> manifest_on_disk E (d @ [NATIVE_AUDIT_MANIFEST_FILE]) h' = Some m"
    using assms(1) by (cases rule: outcome) (auto simp: manifest_on_disk_def audit_codec_def)
qed

lemma write_synced_result:
  assumes "write_synced f b h = (r, f', h')"
  shows "touches {file_path f} h h'" "file_path f' = file_path f"
    "r = Inr u \<Longrightarrow> host_files h (file_path f) = Some c \<Longrightarrow> file_pos f = length c \<Longrightarrow>
       host_files h' (file_path f) = Some (c @ b) \<and> file_pos f' = length (c @ b)"
proof -
  obtain q f1 h1 where w: "write_all f b h = (q, f1, h1)" by (cases "write_all f b h") auto
  note t = write_all_touches [OF w]
  have "f' = f1" and h': "h' = h1 \<or> h' = tick h1" and q: "r = Inr u \<Longrightarrow> q = Inr ()"
    using assms w by (auto simp: write_synced_def dest: sync_file_touches split: sum.splits prod.splits)
  with t show "touches {file_path f} h h'" "file_path f' = file_path f" by (auto intro: touches_trans)
  show "host_files h' (file_path f) = Some (c @ b) \<and> file_pos f' = length (c @ b)"
    if "r = Inr u" "host_files h (file_path f) = Some c" "file_pos f = length c"
    using write_all_ok [of f b h f1 h1 c] w q [OF that(1)] that(2,3) \<open>f' = f1\<close> h' by auto
qed

lemma status_on_disk_touches:
  "touches {aw_frames_path w} h h' \<Longrightarrow> writer_log E fs w \<Longrightarrow> status_on_disk E w h' = status_on_disk E w h"
  using file_names(2) by (auto simp: status_on_disk_def manifest_on_disk_def writer_log_def touches_def)

lemma record_line_log:
  assumes "writer_log E fs w" "validate_frame E f (aw_next_sequence w) = Inr ()" "au_frame_to_vec E f = Inr b"
    and "file_path h = aw_frames_path w"
  shows "writer_log E (fs @ [f]) (record_line (w\<lparr>aw_frames := h\<rparr>) f (b @ [10]))"
proof -
  have seq: "fr_sequence f = 1 + of_nat (length fs)"
    using assms(1,2) by (auto simp: validate_frame_def writer_log_def split: if_splits)
  have "counts_ok (aw_manifest (record_line (w\<lparr>aw_frames := h\<rparr>) f (b @ [10]))) (fs @ [f])"
    using assms(1) seq by (cases fs) (auto simp: counts_ok_def record_line_def writer_log_def first_seq_def last_seq_def)
  with assms seq show ?thesis
    by (auto simp: writer_log_def record_line_def frames_from_snoc frame_line_def)
qed

lemma create_in_inv:
  assumes "audit_codec E" "create_in E root_dir metadata h = (Inr w, h')"
  shows "writer_inv E [] (w, h')" "\<not> aw_closed w" "\<not> aw_failed w"
    "aw_manifest w = initial_manifest metadata (stream_relative_paths E metadata)"
proof -
  define rel where "rel = stream_relative_paths E metadata"
  define d where "d = root_dir @ rp_directory rel"
  define m where "m = initial_manifest metadata rel"
  from assms(2) obtain f h3 h4 where o: "open_new (d @ [NATIVE_AUDIT_FRAMES_FILE]) h3 = (Inr f, h4)"
      and j: "write_atomic_json E (d @ [NATIVE_AUDIT_MANIFEST_FILE]) m h4 = (Inr (), h')"
      and w: "w = \<lparr>aw_directory = d, aw_manifest_path = d @ [NATIVE_AUDIT_MANIFEST_FILE],
        aw_frames_path = d @ [NATIVE_AUDIT_FRAMES_FILE], aw_frames = f, aw_manifest = m, aw_next_sequence = 1,
        aw_stream_hasher = [], aw_closed = False, aw_failed = False\<rparr>"
    unfolding create_in_def rel_def [symmetric] Let_def d_def [symmetric] m_def [symmetric]
    by (auto split: if_splits prod.splits sum.splits)
  note open_new_ok [OF o] write_manifest_result [OF assms(1) j]
  then show "writer_inv E [] (w, h')" "\<not> aw_closed w" "\<not> aw_failed w"
    "aw_manifest w = initial_manifest metadata (stream_relative_paths E metadata)"
    by (auto simp: writer_inv_def writer_log_def open_ok_def w counts_ok_def first_seq_def last_seq_def m_def
        rel_def initial_manifest_def status_on_disk_def)
qed

lemma append_frame_inv:
  assumes "writer_inv E fs s" "append_frame E f s = (r, s')"
  shows "writer_inv E (case r of Inl _ \<Rightarrow> fs | Inr _ \<Rightarrow> fs @ [f]) s'"
proof -
  obtain w h where s: "s = (w, h)" by (cases s)
  show ?thesis
  proof (cases "aw_closed w \<or> aw_failed w")
    case True
    with assms show ?thesis by (cases "aw_closed w") (auto simp: append_frame_def s)
  next
    case False
    from assms(1) False have wl: "writer_log E fs w" and oo: "open_ok E fs w h" by (simp_all add: writer_inv_def s)
    show ?thesis
    proof (cases "validate_frame E f (aw_next_sequence w)")
      case (Inl e)
      with assms False wl oo show ?thesis
        by (auto simp: append_frame_def s writer_inv_def writer_log_def open_ok_def status_on_disk_def)
    next
      case v: (Inr u)
      show ?thesis
      proof (cases "au_frame_to_vec E f")
        case (Inl e)
        with v assms False show ?thesis by (auto simp: append_frame_def s)
      next
        case (Inr b)
        obtain q f' h' where ws: "write_synced (aw_frames w) (b @ [10]) h = (q, f', h')"
          by (cases "write_synced (aw_frames w) (b @ [10]) h") auto
        have fp: "file_path (aw_frames w) = aw_frames_path w" using wl by (simp add: writer_log_def)
        note res = write_synced_result [OF ws, unfolded fp]
        have disk: "status_on_disk E w h' = Some AuditOpen"
          using status_on_disk_touches [OF res(1) wl] oo by (simp add: open_ok_def)
        show ?thesis
        proof (cases q)
          case (Inl e)
          with assms(2) v Inr ws False have "r = Inl (AuditIo e)" "s' = (w\<lparr>aw_frames := f', aw_failed := True\<rparr>, h')"
            by (simp_all add: append_frame_def s Let_def)
          with disk wl res(2) False show ?thesis
            by (simp add: writer_inv_def open_ok_def status_on_disk_def writer_log_def)
        next
          case q: (Inr x)
          with assms(2) v Inr ws False have r: "\<exists>y. r = Inr y"
              and s': "s' = (record_line (w\<lparr>aw_frames := f'\<rparr>) f (b @ [10]), h')"
            by (auto simp: append_frame_def s Let_def)
          have "host_files h' (aw_frames_path w) = Some (stream_of E fs @ b @ [10])"
              "file_pos f' = length (stream_of E fs @ b @ [10])"
            using res(3) [OF q, of "stream_of E fs"] oo False by (simp_all add: open_ok_def)
          moreover have "writer_log E (fs @ [f]) (record_line (w\<lparr>aw_frames := f'\<rparr>) f (b @ [10]))"
            using v by (intro record_line_log [OF wl _ Inr res(2)]) simp
          ultimately show ?thesis using r disk False Inr
            by (auto simp: s' writer_inv_def open_ok_def record_line_def status_on_disk_def frame_line_def)
        qed
      qed
    qed
  qed
qed

lemma close_with_status_inv:
  assumes "audit_codec E" "writer_inv E fs s" "close_with_status E status s = (r, s')"
  shows "writer_inv E fs s'"
proof -
  obtain w h where s: "s = (w, h)" by (cases s)
  show ?thesis
  proof (cases "aw_closed w")
    case True
    with assms show ?thesis by (simp add: close_with_status_def s)
  next
    case False
    with assms(2) have wl: "writer_log E fs w" and oo: "open_ok E fs w h" by (simp_all add: writer_inv_def s)
    obtain q h1 where sy: "sync_file h = (q, h1)" by (cases "sync_file h")
    then have h1: "h1 = tick h" by (rule sync_file_touches)
    show ?thesis
    proof (cases q)
      case (Inl e)
      with assms(3) sy False wl oo h1 show ?thesis
        by (auto simp: close_with_status_def s writer_inv_def open_ok_def writer_log_def status_on_disk_def)
    next
      case (Inr u)
      define m where "m = final_manifest E w status (fst (utc_now h1))"
      have mp: "aw_manifest_path w = aw_directory w @ [NATIVE_AUDIT_MANIFEST_FILE]"
          "aw_frames_path w = aw_directory w @ [NATIVE_AUDIT_FRAMES_FILE]" using wl by (simp_all add: writer_log_def)
      obtain x h3 where wa: "write_atomic_json E (aw_manifest_path w) m (tick h1) = (x, h3)"
        by (cases "write_atomic_json E (aw_manifest_path w) m (tick h1)")
      note res = write_manifest_result [OF assms(1) wa [unfolded mp], folded mp]
      have wl': "writer_log E fs (w\<lparr>aw_manifest := m, aw_failed := True\<rparr>)"
          "writer_log E fs (w\<lparr>aw_manifest := m, aw_closed := True\<rparr>)"
        using wl by (simp_all add: writer_log_def m_def final_manifest_def counts_ok_def)
      show ?thesis
      proof (cases x)
        case x: (Inl e)
        with assms(3) sy Inr False wa
        have "s' = (w\<lparr>aw_manifest := m, aw_failed := True\<rparr>, h3)"
          by (simp add: close_with_status_def s utc_now_def m_def Let_def)
        with wl'(1) res(2) [OF x] oo False h1 show ?thesis
          by (simp add: writer_inv_def open_ok_def status_on_disk_def)
      next
        case x: (Inr y)
        with assms(3) sy Inr False wa have s': "s' = (w\<lparr>aw_manifest := m, aw_closed := True\<rparr>, h3)"
          by (simp add: close_with_status_def s utc_now_def m_def Let_def)
        have "mf_final_checksum m = Some (hex_digest E (stream_of E fs))"
            "aw_failed w \<Longrightarrow> mf_integrity_status m = AuditAuditFailed"
          using wl by (simp_all add: m_def final_manifest_def writer_log_def)
        with s' wl'(2) res(1) res(3) [OF x] oo h1 show ?thesis
          by (auto simp: writer_inv_def closed_ok_def open_ok_def)
      qed
    qed
  qed
qed

section \<open>Sequences of calls\<close>

text \<open>
  A client holds a writer and calls its methods in any order, whatever they return. \<open>call_frames\<close> are the frames a
  call hands to \<open>append\<close> (one or none); they are recorded when the call succeeds.
\<close>

datatype 'v audit_call =
  CallAppend "'v NativeAuditFrame"
| CallBytes NativeAuditDirection NativeAuditChannel string uuid bytes "'v option"
| CallCanonicalInput CanonicalMessage uuid
| CallCanonicalReference NativeAuditReference uuid
| CallCloseWith NativeAuditIntegrityStatus
| CallClose
| CallFail

definition bytes_frame ::
  "'v audit_env \<Rightarrow> NativeAuditDirection \<Rightarrow> NativeAuditChannel \<Rightarrow> string \<Rightarrow> uuid \<Rightarrow> bytes \<Rightarrow> 'v option \<Rightarrow>
   NativeAuditWriter \<times> host \<Rightarrow> 'v NativeAuditFrame"
where
  "bytes_frame E d c t i p md s =
     frame_from_bytes E (aw_next_sequence (fst s)) (fst (utc_now (snd s))) d c t i p md"

fun call_frames :: "'v audit_env \<Rightarrow> 'v audit_call \<Rightarrow> NativeAuditWriter \<times> host \<Rightarrow> 'v NativeAuditFrame list" where
  "call_frames E (CallAppend f) s = [f]"
| "call_frames E (CallBytes d c t i p md) s = [bytes_frame E d c t i p md s]"
| "call_frames E (CallCanonicalInput message i) s =
     (case au_message_to_vec E message of
        Inl _ \<Rightarrow> []
      | Inr p \<Rightarrow> [bytes_frame E AuditInput ChCanonicalInput ''application/json'' i p None s])"
| "call_frames E (CallCanonicalReference ref i) s =
     [bytes_frame E AuditInput ChCanonicalInput
       ''application/vnd.vibe-kanban.native-audit-reference+json'' i [] (Some (au_reference_json E ref)) s]"
| "call_frames E _ s = []"

definition discard :: "('s, 'e, 'a) action \<Rightarrow> ('s, 'e, unit) action" where
  "discard m = bind_action m (\<lambda>_. ret ())"

fun do_call :: "'v audit_env \<Rightarrow> 'v audit_call \<Rightarrow> ('v, unit) audit_action" where
  "do_call E (CallAppend f) = discard (append_frame E f)"
| "do_call E (CallBytes d c t i p md) = discard (append_bytes E d c t i p md)"
| "do_call E (CallCanonicalInput message i) = discard (append_canonical_input E message i)"
| "do_call E (CallCanonicalReference ref i) = discard (append_canonical_input_reference E ref i)"
| "do_call E (CallCloseWith status) = discard (close_with_status E status)"
| "do_call E CallClose = discard (close_stream E)"
| "do_call E CallFail = discard (fail_closed E)"

definition call_step ::
  "'v audit_env \<Rightarrow> 'v audit_call \<Rightarrow> NativeAuditWriter \<times> host \<Rightarrow> 'v NativeAuditFrame list \<times> NativeAuditWriter \<times> host" where
  "call_step E c s =
     (case do_call E c s of (Inl _, s') \<Rightarrow> ([], s') | (Inr _, s') \<Rightarrow> (call_frames E c s, s'))"

definition run_calls ::
  "'v audit_env \<Rightarrow> 'v audit_call list \<Rightarrow> NativeAuditWriter \<times> host \<Rightarrow> 'v NativeAuditFrame list \<times> NativeAuditWriter \<times> host" where
  "run_calls E cs s = fold (\<lambda>c (gs, s). case call_step E c s of (hs, s') \<Rightarrow> (gs @ hs, s')) cs ([], s)"

text \<open>
  The contract of a component that records what its calls accept: the invariant relates a state to the list of
  records, and every call extends the list by what it recorded.
\<close>

locale recorder =
  fixes step :: "'c \<Rightarrow> 's \<Rightarrow> 'f list \<times> 's"
    and inv :: "'f list \<Rightarrow> 's \<Rightarrow> bool"
  assumes step_inv: "inv fs s \<Longrightarrow> step c s = (gs, s') \<Longrightarrow> inv (fs @ gs) s'"
begin

lemma run_from_inv:
  assumes "inv fs s" "fold (\<lambda>c (gs, s). case step c s of (hs, s') \<Rightarrow> (gs @ hs, s')) cs (gs0, s) = (gs, s')"
  shows "\<exists>hs. gs = gs0 @ hs \<and> inv (fs @ hs) s'"
  using assms
proof (induction cs arbitrary: fs gs0 s)
  case (Cons c cs)
  obtain hs s1 where st: "step c s = (hs, s1)" by (cases "step c s")
  from step_inv [OF Cons.prems(1) st] Cons.prems(2) st Cons.IH [of "fs @ hs" s1 "gs0 @ hs"] show ?case by auto
qed simp

lemma run_inv:
  assumes "inv fs s" "fold (\<lambda>c (gs, s). case step c s of (hs, s') \<Rightarrow> (gs @ hs, s')) cs ([], s) = (gs, s')"
  shows "inv (fs @ gs) s'"
  using run_from_inv [OF assms] by simp

end

text \<open>An action that keeps the invariant, recording the given frames when it succeeds.\<close>

definition records ::
  "'v audit_env \<Rightarrow> (NativeAuditWriter \<times> host \<Rightarrow> 'v NativeAuditFrame list) \<Rightarrow> ('v, 'a) audit_action \<Rightarrow> bool" where
  "records E g m \<longleftrightarrow>
     (\<forall>fs s r s'. writer_inv E fs s \<longrightarrow> m s = (r, s') \<longrightarrow>
        writer_inv E (fs @ (if is_ok r then g s else [])) s')"

lemma recordsI [intro]:
  "(\<And>fs s r s'. writer_inv E fs s \<Longrightarrow> m s = (r, s') \<Longrightarrow> writer_inv E (fs @ (if is_ok r then g s else [])) s') \<Longrightarrow>
   records E g m"
  by (simp add: records_def)

lemma recordsD:
  "records E g m \<Longrightarrow> writer_inv E fs s \<Longrightarrow> m s = (r, s') \<Longrightarrow> writer_inv E (fs @ (if is_ok r then g s else [])) s'"
  unfolding records_def by blast

lemma discard_eq: "discard m s = (r, s') \<Longrightarrow> \<exists>q. m s = (q, s') \<and> is_ok q = is_ok r"
  by (auto simp: discard_def bind_action_def ret_def split: prod.splits sum.splits)

lemma records_discard: "records E g m \<Longrightarrow> records E g (discard m)"
proof (rule recordsI)
  fix fs s r s' assume m: "records E g m" and inv: "writer_inv E fs s" and "discard m s = (r, s')"
  from discard_eq [OF this(3)] obtain q where q: "m s = (q, s')" "is_ok q = is_ok r" by blast
  from recordsD [OF m inv q(1)] q(2) show "writer_inv E (fs @ (if is_ok r then g s else [])) s'" by simp
qed

lemma records_append_frame: "records E (\<lambda>_. [f]) (append_frame E f)"
proof (rule recordsI)
  fix fs s r s' assume "writer_inv E fs s" "append_frame E f s = (r, s')"
  from append_frame_inv [OF this] show "writer_inv E (fs @ (if is_ok r then [f] else [])) s'" by (cases r) simp_all
qed

lemma writer_inv_tick: "writer_inv E fs (w, h) \<Longrightarrow> writer_inv E fs (w, tick h)"
  by (cases "aw_closed w") (simp_all add: writer_inv_def closed_ok_def open_ok_def status_on_disk_def)

lemma writer_inv_fail: "writer_inv E fs (w, h) \<Longrightarrow> writer_inv E fs (w\<lparr>aw_failed := True\<rparr>, h)"
  by (cases "aw_closed w")
    (auto simp: writer_inv_def writer_log_def closed_ok_def open_ok_def status_on_disk_def)

lemma records_append_bytes: "records E (\<lambda>s. [bytes_frame E d c t i p md s]) (append_bytes E d c t i p md)"
proof (rule recordsI)
  fix fs s r s' assume inv: "writer_inv E fs s" and run: "append_bytes E d c t i p md s = (r, s')"
  obtain w h where s: "s = (w, h)" by (cases s)
  have "append_frame E (bytes_frame E d c t i p md s) (w, tick h) = (r, s')"
    using run by (simp add: append_bytes_def bytes_frame_def s utc_now_def)
  then show "writer_inv E (fs @ (if is_ok r then [bytes_frame E d c t i p md s] else [])) s'"
    using recordsD [OF records_append_frame] writer_inv_tick inv s by blast
qed

lemma records_nothing:
  assumes "\<And>fs s r s'. writer_inv E fs s \<Longrightarrow> m s = (r, s') \<Longrightarrow> writer_inv E fs s'"
  shows "records E (\<lambda>_. []) m"
  using assms by (intro recordsI) simp

lemma records_close:
  assumes "audit_codec E"
  shows "records E (\<lambda>_. []) (close_with_status E status)" "records E (\<lambda>_. []) (close_stream E)"
    "records E (\<lambda>_. []) (fail_closed E)"
  using close_with_status_inv [OF assms] writer_inv_fail
  by (auto intro!: records_nothing simp: close_stream_def fail_closed_def split: prod.splits) blast+

lemma call_frames_eq:
  "call_frames E (CallAppend f) = (\<lambda>_. [f])"
  "call_frames E (CallBytes d c t i p md) = (\<lambda>s. [bytes_frame E d c t i p md s])"
  "call_frames E (CallCanonicalInput message i) =
     (case au_message_to_vec E message of
        Inl _ \<Rightarrow> (\<lambda>_. [])
      | Inr p \<Rightarrow> (\<lambda>s. [bytes_frame E AuditInput ChCanonicalInput ''application/json'' i p None s]))"
  "call_frames E (CallCanonicalReference ref i) =
     (\<lambda>s. [bytes_frame E AuditInput ChCanonicalInput
       ''application/vnd.vibe-kanban.native-audit-reference+json'' i [] (Some (au_reference_json E ref)) s])"
  "call_frames E (CallCloseWith status) = (\<lambda>_. [])" "call_frames E CallClose = (\<lambda>_. [])"
  "call_frames E CallFail = (\<lambda>_. [])"
  by (auto simp: fun_eq_iff split: sum.split)

lemma records_do_call:
  assumes "audit_codec E"
  shows "records E (call_frames E c) (do_call E c)"
proof (cases c)
  case (CallCanonicalInput message i)
  have none: "records E (\<lambda>_. []) (raise e)" for e :: NativeAuditError
    by (rule records_nothing) (simp add: raise_def)
  show ?thesis
    by (cases "au_message_to_vec E message")
      (auto simp: CallCanonicalInput append_canonical_input_def call_frames_eq none
        intro!: records_discard records_append_bytes)
qed (auto simp: append_canonical_input_reference_def call_frames_eq
      intro!: records_discard records_append_frame records_append_bytes records_close [OF assms])

lemma call_step_inv:
  assumes "audit_codec E" "writer_inv E fs s" "call_step E c s = (gs, s')"
  shows "writer_inv E (fs @ gs) s'"
proof -
  obtain r s1 where d: "do_call E c s = (r, s1)" by (cases "do_call E c s")
  from recordsD [OF records_do_call [OF assms(1)] assms(2) d] assms(3) d show ?thesis
    by (cases r) (simp_all add: call_step_def)
qed

interpretation audit: recorder "call_step E" "\<lambda>fs s. audit_codec E \<and> writer_inv E fs s" for E :: "'v audit_env"
  by unfold_locales (auto dest: call_step_inv)

lemma run_calls_inv:
  "audit_codec E \<Longrightarrow> writer_inv E fs s \<Longrightarrow> run_calls E cs s = (gs, s') \<Longrightarrow> writer_inv E (fs @ gs) s'"
  unfolding run_calls_def using audit.run_inv [of E fs s cs gs s'] by simp

section \<open>A failed writer stays failed\<close>

definition doomed :: "NativeAuditWriter \<Rightarrow> bool" where
  "doomed w \<longleftrightarrow> (if aw_closed w then mf_integrity_status (aw_manifest w) = AuditAuditFailed else aw_failed w)"

definition manifest_identity ::
  "NativeAuditManifest \<Rightarrow> uuid \<times> uuid \<times> uuid \<times> uuid \<times> u32 \<times> string \<times> NativeAuditVersionSet" where
  "manifest_identity m = (mf_session_id m, mf_agent_run_id m, mf_turn_id m, mf_run_attempt_id m,
     mf_run_attempt_number m, mf_provider_id m, manifest_versions m)"

definition writer_moves :: "NativeAuditWriter \<times> host \<Rightarrow> NativeAuditWriter \<times> host \<Rightarrow> bool" where
  "writer_moves s s' \<longleftrightarrow>
     aw_directory (fst s') = aw_directory (fst s) \<and>
     manifest_identity (aw_manifest (fst s')) = manifest_identity (aw_manifest (fst s)) \<and>
     (doomed (fst s) \<longrightarrow> doomed (fst s'))"

interpretation moves: step_relation writer_moves
  by unfold_locales (auto simp: writer_moves_def)

lemma moves_append_frame: "acts writer_moves (append_frame E f)"
proof -
  have "writer_moves s (snd (append_frame E f s))" for s
  proof -
    obtain w h where s: "s = (w, h)" by (cases s)
    show ?thesis
    proof (cases "aw_closed w \<or> aw_failed w")
      case True
      then show ?thesis by (cases "aw_closed w") (auto simp: s append_frame_def writer_moves_def)
    next
      case False
      then show ?thesis
        by (auto simp: s append_frame_def writer_moves_def doomed_def record_line_def Let_def
            manifest_identity_def manifest_versions_def
            split: sum.split prod.split)
    qed
  qed
  then show ?thesis by (simp add: acts_def)
qed

lemma moves_close_with_status: "acts writer_moves (close_with_status E status)"
  unfolding acts_def
  by (auto simp: close_with_status_def writer_moves_def doomed_def final_manifest_def manifest_identity_def
      manifest_versions_def Let_def split: sum.split prod.split)

lemma moves_do_call: "acts writer_moves (do_call E c)"
proof -
  have "writer_moves s (snd (append_bytes E d ch t i p md s))" for s d ch t i p md
    using moves_append_frame [of E "bytes_frame E d ch t i p md s"]
    by (cases s) (auto simp: acts_def append_bytes_def bytes_frame_def utc_now_def writer_moves_def)
  then have bytes: "acts writer_moves (append_bytes E d ch t i p md)" for d ch t i p md
    by (simp add: acts_def)
  have "writer_moves s (snd (fail_closed E s))" "writer_moves s (snd (close_stream E s))" for s
    using moves_close_with_status [of E]
    by (cases s; auto simp: fail_closed_def close_stream_def acts_def writer_moves_def doomed_def)+
  then have "acts writer_moves (fail_closed E)" "acts writer_moves (close_stream E)" by (simp_all add: acts_def)
  with bytes show ?thesis
    by (cases c) (auto simp: discard_def append_canonical_input_def append_canonical_input_reference_def
        intro!: moves.acts_rules moves_append_frame moves_close_with_status split: sum.split)
qed

text \<open>A call that fails on an open stream marks the writer, unless it is an append whose JSON encoding failed.\<close>

definition is_close_call :: "'v audit_call \<Rightarrow> bool" where
  "is_close_call c \<longleftrightarrow> c = CallClose \<or> c = CallFail \<or> (\<exists>status. c = CallCloseWith status)"

lemma append_frame_fails:
  "append_frame E f (w, h) = (Inl err, (w', h')) \<Longrightarrow> \<not> aw_closed w \<Longrightarrow> \<forall>e. err \<noteq> AuditJson e \<Longrightarrow> aw_failed w' \<and> \<not> aw_closed w'"
  by (auto simp: append_frame_def Let_def split: if_splits sum.splits prod.splits)

lemma close_with_status_fails:
  "close_with_status E status (w, h) = (Inl err, (w', h')) \<Longrightarrow> \<not> aw_closed w \<Longrightarrow> aw_failed w' \<and> \<not> aw_closed w'"
  by (auto simp: close_with_status_def Let_def split: if_splits sum.splits prod.splits)

lemma discard_err_iff: "discard m s = (Inl e, s') \<longleftrightarrow> m s = (Inl e, s')"
  by (auto simp: discard_def bind_action_def ret_def split: prod.splits sum.splits)

lemma failed_call_dooms:
  assumes "do_call E c (w, h) = (Inl err, (w', h'))" "\<not> aw_closed w" "is_close_call c \<or> (\<forall>e. err \<noteq> AuditJson e)"
  shows "aw_failed w' \<and> \<not> aw_closed w'"
proof -
  have bytes: "aw_failed w' \<and> \<not> aw_closed w'"
    if "append_bytes E d ch t i p md (w, h) = (Inl err, (w', h'))" "\<forall>e. err \<noteq> AuditJson e" for d ch t i p md
    using that assms(2) append_frame_fails by (fastforce simp: append_bytes_def utc_now_def)
  show ?thesis
    using assms
    by (cases c)
       (auto simp: discard_err_iff is_close_call_def append_canonical_input_def append_canonical_input_reference_def
          close_stream_def fail_closed_def raise_def dest: append_frame_fails close_with_status_fails bytes split: sum.splits)
qed

lemma run_calls_moves: "run_calls E cs s = (gs, s') \<Longrightarrow> writer_moves s s'"
proof -
  have step: "writer_moves s s'" if "call_step E c s = (gs, s')" for c s gs s'
  proof -
    obtain r s1 where d: "do_call E c s = (r, s1)" by (cases "do_call E c s")
    with that have "s' = s1" by (cases r) (simp_all add: call_step_def)
    with actsD [OF moves_do_call d] show ?thesis by simp
  qed
  have "writer_moves s s'" if "fold (\<lambda>c (gs, s). case call_step E c s of (hs, s') \<Rightarrow> (gs @ hs, s')) cs (gs0, s) = (gs, s')"
    for gs0 s
    using that
  proof (induction cs arbitrary: gs0 s)
    case (Cons c cs)
    obtain hs s1 where "call_step E c s = (hs, s1)" by (cases "call_step E c s")
    with Cons step [of c s hs s1] moves.step_trans show ?case by auto
  qed (simp add: moves.step_refl)
  then show "run_calls E cs s = (gs, s') \<Longrightarrow> writer_moves s s'" by (simp add: run_calls_def)
qed

section \<open>Reading\<close>

lemma read_bundle_ok:
  assumes "read_bundle E d h = (Inr ab, h')"
  obtains b where "manifest_on_disk E (d @ [NATIVE_AUDIT_MANIFEST_FILE]) h = Some (ab_manifest ab)"
    "check_manifest (ab_manifest ab) = Inr ()" "host_files h (d @ [NATIVE_AUDIT_FRAMES_FILE]) = Some b"
    "check_frames E (ab_manifest ab) b = Inr (ab_frames ab)" "ab_directory ab = d"
proof -
  from assms obtain mb h1 m b h2 fs where
      r: "read_file (d @ [NATIVE_AUDIT_MANIFEST_FILE]) h = (Inr mb, h1)" "au_manifest_from_slice E mb = Inr m"
        "check_manifest m = Inr ()" "read_file (d @ [NATIVE_AUDIT_FRAMES_FILE]) h1 = (Inr b, h2)"
        "check_frames E m b = Inr fs" "ab = \<lparr>ab_directory = d, ab_manifest = m, ab_frames = fs\<rparr>"
    unfolding read_bundle_def
    by (auto simp: map_sum_def split: prod.splits sum.splits)
  have "h1 = tick h" using r(1) by (rule read_file_touches)
  with read_file_ok [OF r(1)] read_file_ok [OF r(4)] r show thesis
    by (intro that [of b]) (simp_all add: manifest_on_disk_def)
qed

lemma writer_inv_readable:
  assumes "audit_codec E" "writer_inv E fs (w, h)" "read_bundle E (aw_directory w) h = (Inr ab, h')"
  shows "aw_closed w" "mf_integrity_status (aw_manifest w) \<noteq> AuditAuditFailed" "ab_manifest ab = aw_manifest w"
    "list_all2 (same_frame E) fs (ab_frames ab)"
proof -
  from assms(3) obtain b where
      b: "manifest_on_disk E (aw_directory w @ [NATIVE_AUDIT_MANIFEST_FILE]) h = Some (ab_manifest ab)"
        "check_manifest (ab_manifest ab) = Inr ()" "host_files h (aw_directory w @ [NATIVE_AUDIT_FRAMES_FILE]) = Some b"
        "check_frames E (ab_manifest ab) b = Inr (ab_frames ab)"
    by (rule read_bundle_ok)
  have wl: "writer_log E fs w" using assms(2) by (simp add: writer_inv_def)
  then have paths: "aw_manifest_path w = aw_directory w @ [NATIVE_AUDIT_MANIFEST_FILE]"
      "aw_frames_path w = aw_directory w @ [NATIVE_AUDIT_FRAMES_FILE]" by (simp_all add: writer_log_def)
  have status: "mf_integrity_status (ab_manifest ab) \<in> {AuditComplete, AuditRecovered}"
    using b(2) by (auto simp: check_manifest_def split: if_splits)
  show closed: "aw_closed w"
    using assms(2) b(1) status by (cases "aw_closed w") (auto simp: writer_inv_def open_ok_def status_on_disk_def paths)
  with assms(2) have cl: "closed_ok E fs w h" by (simp add: writer_inv_def)
  then show m: "ab_manifest ab = aw_manifest w" using b(1) by (simp add: closed_ok_def paths)
  then show nf: "mf_integrity_status (aw_manifest w) \<noteq> AuditAuditFailed" using status by auto
  with cl b(3) have "b = stream_of E fs" by (simp add: closed_ok_def paths)
  with b(4) m cl wl check_frames_written [OF assms(1), of fs "aw_manifest w"] show
    "list_all2 (same_frame E) fs (ab_frames ab)"
    by (auto simp: writer_log_def closed_ok_def)
qed

end
