(* ===== verification/Audit_Replay.thy ===== *)
theory Audit_Replay
  imports Audit_Trail
begin

text \<open>
  What a bundle that reads back is good for: it cannot be changed without a collision of SHA-256, and the default
  mapper replays it into a complete run state.
\<close>

section \<open>Tampering\<close>

lemma hex_digit_code: "n < 16 \<Longrightarrow> of_char (hex_digit n) = (if n < 10 then 48 + n else 87 + n :: nat)"
  by (simp add: hex_digit_def)

lemma hex_digit_inj:
  assumes "m < 16" "n < 16" "hex_digit m = hex_digit n"
  shows "m = n"
proof -
  have "(of_char (hex_digit m) :: nat) = of_char (hex_digit n)" by (simp only: assms(3))
  then have "(if m < 10 then 48 + m else 87 + m) = (if n < 10 then 48 + n else 87 + n)"
    unfolding hex_digit_code [OF assms(1)] hex_digit_code [OF assms(2)] .
  then show ?thesis by presburger
qed

lemma hex_byte_inj: "hex_byte a = hex_byte b \<longleftrightarrow> a = b"
proof
  assume eq: "hex_byte a = hex_byte b"
  have "unat a < 256" "unat b < 256" using unsigned_less [of a] unsigned_less [of b] by simp_all
  then have "unat a div 16 = unat b div 16" "unat a mod 16 = unat b mod 16"
    using eq by (auto simp: hex_byte_def intro!: hex_digit_inj)
  then have "unat a = unat b" by (metis mult_div_mod_eq)
  then show "a = b" by (simp only: word_unat_eq_iff)
qed simp

lemma hex_digest_eq_iff: "hex_digest E x = hex_digest E y \<longleftrightarrow> au_sha256 E x = au_sha256 E y"
proof -
  have "concat (map hex_byte xs) = concat (map hex_byte ys) \<longleftrightarrow> xs = ys" for xs ys
  proof (induction xs arbitrary: ys)
    case Nil
    then show ?case by (cases ys) (auto simp: hex_byte_def)
  next
    case (Cons x xs)
    have split: "hex_byte x @ us = hex_byte y @ vs \<longleftrightarrow> x = y \<and> us = vs" for y us vs
      using hex_byte_inj [of x y] unfolding hex_byte_def by (simp, blast)
    show ?case
    proof (cases ys)
      case Nil
      then show ?thesis by (simp add: hex_byte_def)
    next
      case (Cons y ys')
      then show ?thesis using Cons.IH by (simp add: split)
    qed
  qed
  then show ?thesis by (simp add: hex_digest_def)
qed

text \<open>The bytes the checksum covers: all lines but the blank ones.\<close>

definition audited :: "bytes \<Rightarrow> bytes" where
  "audited b = concat (filter (\<lambda>l. l \<noteq> [10]) (split_inclusive b))"

lemma read_lines_filter: "read_lines E n hs acc ls = read_lines E n hs acc (filter (\<lambda>l. l \<noteq> [10]) ls)"
  by (induction ls arbitrary: n hs acc) (auto split: sum.split cong: sum.case_cong)

fun valid_from :: "'v audit_env \<Rightarrow> u64 \<Rightarrow> 'v NativeAuditFrame list \<Rightarrow> bool" where
  "valid_from E n [] = True"
| "valid_from E n (f # fs) \<longleftrightarrow> validate_frame E f n = Inr () \<and> valid_from E (n + 1) fs"

lemma read_lines_ok:
  assumes "read_lines E n hs acc ls = Inr (n', hs', fs)"
  shows "hs' = hs @ concat (filter (\<lambda>l. l \<noteq> [10]) ls)" "\<exists>gs. fs = acc @ gs \<and> valid_from E n gs"
  using assms
proof (induction ls arbitrary: n hs acc)
  case (Cons l ls)
  {
    case 1
    then show ?case by (auto simp: result_simps split: if_splits sum.splits dest!: Cons.IH(1))
  next
    case 2
    show ?case
    proof (cases "l = [10]")
      case True
      with 2 Cons.IH(2) show ?thesis by simp
    next
      case False
      with 2 obtain g where g: "validate_frame E g n = Inr ()"
          "read_lines E (n + 1) (hs @ l) (acc @ [g]) ls = Inr (n', hs', fs)"
        by (auto simp: result_simps split: sum.splits)
      from Cons.IH(2) [OF g(2)] obtain gs where "fs = (acc @ [g]) @ gs" "valid_from E (n + 1) gs" by blast
      with g(1) have "fs = acc @ g # gs" "valid_from E n (g # gs)" by simp_all
      then show ?thesis by blast
    qed
  }
qed auto

lemma check_frames_ok:
  assumes "check_frames E m b = Inr fs"
  shows "mf_final_checksum m = Some (hex_digest E (audited b))" "valid_from E 1 fs"
    "mf_frame_count m = of_nat (length fs)" "\<exists>n hs. read_lines E 1 [] [] (split_inclusive b) = Inr (n, hs, fs)"
    "\<forall>l \<in> set (split_inclusive b). whole_line l"
proof -
  from assms obtain n hs where r: "read_lines E 1 [] [] (split_inclusive b) = Inr (n, hs, fs)"
      and c: "mf_final_checksum m = Some (hex_digest E hs)" "mf_frame_count m = of_nat (length fs)"
      and b: "b = [] \<or> last b = 10"
    by (auto simp: check_frames_def Let_def result_simps split: if_splits)
  from read_lines_ok [OF r] c r show "mf_final_checksum m = Some (hex_digest E (audited b))" "valid_from E 1 fs"
    "mf_frame_count m = of_nat (length fs)" "\<exists>n hs. read_lines E 1 [] [] (split_inclusive b) = Inr (n, hs, fs)"
    by (auto simp: audited_def)
  show "\<forall>l \<in> set (split_inclusive b). whole_line l" using b split_inclusive_whole by auto
qed

lemma audited_determines_frames:
  assumes "check_frames E m b = Inr fs" "check_frames E m' b' = Inr fs'" "audited b = audited b'"
  shows "fs = fs'"
proof -
  let ?P = "\<lambda>l. l \<noteq> [10 :: 8 word]"
  note ok = check_frames_ok [OF assms(1)] and ok' = check_frames_ok [OF assms(2)]
  have "split_inclusive (audited b) = filter ?P (split_inclusive b)"
      "split_inclusive (audited b') = filter ?P (split_inclusive b')"
    unfolding audited_def using ok(5) ok'(5) by (intro split_inclusive_concat; simp)+
  then have "filter ?P (split_inclusive b) = filter ?P (split_inclusive b')" using assms(3) by simp
  then have "read_lines E 1 [] [] (split_inclusive b) = read_lines E 1 [] [] (split_inclusive b')"
    by (simp only: read_lines_filter [of E 1 "[]" "[]" "split_inclusive b"]
        read_lines_filter [of E 1 "[]" "[]" "split_inclusive b'"])
  with ok(4) ok'(4) show ?thesis by auto
qed

lemma read_bundle_checksum:
  assumes "read_bundle E d h = (Inr ab, h')"
  shows "\<exists>b. mf_final_checksum (ab_manifest ab) = Some (hex_digest E b)"
  using assms by (elim read_bundle_ok) (auto dest: check_frames_ok(1))

section \<open>Replay\<close>

definition replayed_event :: "NativeAuditManifest \<Rightarrow> u64 \<Rightarrow> 'v AgentEventEnvelope \<Rightarrow> bool" where
  "replayed_event m n e \<longleftrightarrow>
     ae_schema_version e = AGENT_EVENT_SCHEMA_VERSION \<and> ae_payload_version e = AGENT_EVENT_PAYLOAD_VERSION \<and>
     ae_session_id e = mf_session_id m \<and> ae_agent_run_id e = mf_agent_run_id m \<and> ae_turn_id e = mf_turn_id m \<and>
     ae_run_attempt_id e = mf_run_attempt_id m \<and> ae_run_attempt_number e = mf_run_attempt_number m \<and>
     ae_sequence e = n \<and> (\<exists>p c v. ae_payload e = AEProviderExtension p c v)"

definition at_event :: "NativeAuditManifest \<Rightarrow> nat \<Rightarrow> 'v RunState \<Rightarrow> bool" where
  "at_event m k s \<longleftrightarrow>
     st_state_schema_version s = RUN_STATE_SCHEMA_VERSION \<and> st_reducer_version s = RUN_STATE_REDUCER_VERSION \<and>
     st_session_id s = mf_session_id m \<and> st_agent_run_id s = mf_agent_run_id m \<and> st_turn_id s = mf_turn_id m \<and>
     st_projection_status s = ProjCurrent \<and> st_status s = APending \<and> st_last_event_sequence s = of_nat k \<and>
     st_unknown_event_count s = 0 \<and>
     (if k = 0 then st_last_run_attempt_id s = None \<and> st_last_run_attempt_number s = 0
      else st_last_run_attempt_id s = Some (mf_run_attempt_id m) \<and>
           st_last_run_attempt_number s = mf_run_attempt_number m)"

lemma of_nat_u64_order:
  assumes "Suc k < 2 ^ 64"
  shows "(of_nat (Suc k) :: u64) \<noteq> 0" "(of_nat k :: u64) < of_nat (Suc k)"
proof -
  have u: "unat (of_nat (Suc k) :: u64) = Suc k" "unat (of_nat k :: u64) = k"
    using assms by (simp_all add: unat_of_nat take_bit_nat_eq_self_iff del: of_nat_Suc)
  then show "(of_nat (Suc k) :: u64) \<noteq> 0" by (metis Zero_not_Suc unat_0)
  show "(of_nat k :: u64) < of_nat (Suc k)" unfolding word_less_nat_alt u by simp
qed

lemma reduce_replayed_event:
  assumes "at_event m k s" "replayed_event m (of_nat (Suc k)) e" "mf_run_attempt_number m \<noteq> 0" "Suc k < 2 ^ 64"
  shows "\<exists>s'. reduce_agent_event s e = (s', Inr RApplied) \<and> at_event m (Suc k) s'"
proof -
  obtain p c v where p: "ae_payload e = AEProviderExtension p c v"
    using assms(2) by (auto simp: replayed_event_def)
  note seq = of_nat_u64_order [OF assms(4)]
  have adm: "agent_admitted s e"
    using assms(1-3) seq(1) by (simp add: agent_admitted_def at_event_def replayed_event_def validate_run_state_def
        agent_validate_for_projection_def validate_current_version_def del: of_nat_Suc)
  have new: "is_new_attempt s e = Inr (k = 0)"
    using assms(1-3) by (cases "k = 0") (simp_all add: at_event_def replayed_event_def is_new_attempt_def)
  have gap: "\<not> agent_had_gap (k = 0) s e"
    using assms(1,2) by (auto simp: at_event_def replayed_event_def agent_had_gap_def)
  have "ae_sequence e \<noteq> 0 \<and> st_last_event_sequence s < ae_sequence e"
    using assms(1,2) seq by (simp add: at_event_def replayed_event_def del: of_nat_Suc)
  then have red: "reduce_agent_event s e = (fst (commit_agent_event (k = 0) s e), Inr (snd (commit_agent_event (k = 0) s e)))"
    using reduce_agent_admitted [OF adm] new by auto
  have "snd (commit_agent_event (k = 0) s e) = RApplied \<and> at_event m (Suc k) (fst (commit_agent_event (k = 0) s e))"
    using assms(1,2) gap by (auto simp: commit_agent_event_def Let_def p apply_agent_payload_def at_event_def replayed_event_def)
  with red show ?thesis by simp
qed

fun replayed_from :: "NativeAuditManifest \<Rightarrow> u64 \<Rightarrow> 'v AgentEventEnvelope list \<Rightarrow> bool" where
  "replayed_from m n [] = True"
| "replayed_from m n (e # es) \<longleftrightarrow> replayed_event m n e \<and> replayed_from m (n + 1) es"

lemma reduce_replayed_events:
  assumes "at_event m k s" "replayed_from m (of_nat (Suc k)) es"
    and "mf_run_attempt_number m \<noteq> 0" "k + length es < 2 ^ 64"
  shows "\<exists>s'. reduce_all s es = Inr s' \<and> at_event m (k + length es) s'"
  using assms(1,2,4)
proof (induction es arbitrary: k s)
  case (Cons e es)
  have "replayed_event m (of_nat (Suc k)) e" "replayed_from m (of_nat (Suc (Suc k))) es"
    using Cons.prems(2) by (simp_all add: algebra_simps)
  moreover obtain s1 where "reduce_agent_event s e = (s1, Inr RApplied)" "at_event m (Suc k) s1"
    using reduce_replayed_event [OF Cons.prems(1) calculation(1) assms(3)] Cons.prems(3) by auto
  ultimately show ?case using Cons.IH [of "Suc k" s1] Cons.prems(3) by auto
qed auto

definition frame_reference :: "NativeAuditManifest \<Rightarrow> 'v NativeAuditFrame \<Rightarrow> NativeAuditReference" where
  "frame_reference m f = \<lparr>na_stream_id = mf_run_attempt_id m, na_sequence = fr_sequence f,
     na_checksum = Some (fr_payload_checksum f)\<rparr>"

lemma replay_frames_default:
  assumes "valid_from E n fs"
  shows "\<exists>events aes. replay_frames (default_mapper E v) m fs = Inr (events, aes) \<and>
    map (\<lambda>e. Inr (pe_payload e)) events = map (payload_bytes E) fs \<and> replayed_from m n aes \<and>
    map ae_native_refs aes = map (\<lambda>f. [frame_reference m f]) fs"
  using assms
proof (induction fs arbitrary: n)
  case (Cons f fs)
  then have f: "validate_frame E f n = Inr ()" by simp
  then obtain p where p: "payload_bytes E f = Inr p" and n: "fr_sequence f = n"
    by (auto simp: validate_frame_def result_simps split: if_splits)
  define ev where "ev = (THE x. default_decode E f = Inr x)"
  have ev: "default_decode E f = Inr ev" by (simp add: ev_def default_decode_def p)
  have ev': "pe_payload ev = p" "pe_sequence ev = n" "na_checksum (pe_native_ref ev) = Some (fr_payload_checksum f)"
    using ev p n by (auto simp: default_decode_def)
  obtain ae where ae: "default_map E (ev\<lparr>pe_native_ref := (pe_native_ref ev)\<lparr>na_stream_id := mf_run_attempt_id m\<rparr>\<rparr>) m = Inr [ae]"
      "replayed_event m n ae" "ae_native_refs ae = [frame_reference m f]"
    using ev' n by (auto simp: default_map_def replayed_event_def frame_reference_def)
  from Cons.IH [of "n + 1"] Cons.prems obtain events aes where
      "replay_frames (default_mapper E v) m fs = Inr (events, aes)"
      "map (\<lambda>e. Inr (pe_payload e)) events = map (payload_bytes E) fs" "replayed_from m (n + 1) aes"
      "map ae_native_refs aes = map (\<lambda>f. [frame_reference m f]) fs" by auto
  with ev ev' ae p show ?case by (simp add: default_mapper_def Let_def)
qed auto

lemma compare_versions_refl [simp]: "compare_versions v v = Inr ()"
  by (simp add: compare_versions_def)

end
