(* ===== verification/Audit_Session.thy ===== *)
theory Audit_Session
  imports Audit_Replay "HOL-Library.Countable"
begin

text \<open>
  Recording a whole session: on a host whose file operations succeed the audit writer accepts every payload, and the
  closed bundle gives the payloads back. The end of the theory has the example on which the hypotheses of the audit properties hold.
\<close>

section \<open>File operations that succeed\<close>

text \<open>The directory exists, nothing in it is a directory, and no temporary file is left in it.\<close>

definition room :: "path \<Rightarrow> host \<Rightarrow> bool" where
  "room d h \<longleftrightarrow>
     healthy h \<and> d \<in> host_dirs h \<and> (\<forall>n. d @ [n] \<notin> host_dirs h) \<and> (\<forall>n. host_files h (d @ [CHR ''.'' # n]) = None)"

lemma room_tick [simp]: "room d (tick h) = room d h"
  by (simp add: room_def)

lemma room_update: "room d h \<Longrightarrow> (\<forall>n. f (d @ [CHR ''.'' # n]) = None) \<Longrightarrow> room d (h\<lparr>host_files := f\<rparr>)"
  by (simp add: room_def)

lemma write_all_healthy:
  assumes "healthy h" "host_files h (file_path f) = Some c" "file_pos f = length c"
  shows "write_all f b h =
    (Inr (), f\<lparr>file_pos := length (c @ b)\<rparr>, tick h\<lparr>host_files := (host_files h)(file_path f \<mapsto> c @ b)\<rparr>)"
  using assms by (simp add: write_all_def healthy_def write_at_def overwrite_end)

lemma write_out_healthy:
  assumes "healthy h" "host_files h (file_path f) = Some c" "file_pos f = length c"
  shows "write_out f b h =
    (Inr (f\<lparr>file_pos := length (c @ b)\<rparr>), tick h\<lparr>host_files := (host_files h)(file_path f \<mapsto> c @ b)\<rparr>)"
  by (simp add: write_out_def write_all_healthy [OF assms])

lemma sync_file_healthy: "healthy h \<Longrightarrow> sync_file h = (Inr (), tick h)"
  by (simp add: sync_file_def io_call_healthy)

lemma open_new_healthy:
  assumes "healthy h" "host_files h p = None" "p \<notin> host_dirs h" "butlast p \<in> host_dirs h"
  shows "open_new p h = (Inr \<lparr>file_path = p, file_pos = 0\<rparr>, tick h\<lparr>host_files := (host_files h)(p \<mapsto> [])\<rparr>)"
  using assms by (simp add: open_new_def io_call_healthy)

lemma rename_healthy:
  assumes "healthy h" "host_files h a = Some c" "b \<notin> host_dirs h"
  shows "rename a b h = (Inr (), tick h\<lparr>host_files := (host_files h)(a := None, b := Some c)\<rparr>)"
  using assms by (simp add: rename_def io_call_healthy)

lemma replace_file_healthy:
  assumes "healthy h" "host_files h t = None" "t \<notin> host_dirs h" "butlast t \<in> host_dirs h" "p \<notin> host_dirs h"
  shows "\<exists>h'. replace_file t p b h = (Inr (), h') \<and> healthy h' \<and> host_dirs h' = host_dirs h \<and>
    host_files h' = (host_files h)(t := None, p := Some (b @ [10]))"
proof -
  define h1 where "h1 = tick h\<lparr>host_files := (host_files h)(t \<mapsto> [])\<rparr>"
  define h2 where "h2 = tick h1\<lparr>host_files := (host_files h1)(t \<mapsto> b)\<rparr>"
  define h3 where "h3 = tick h2\<lparr>host_files := (host_files h2)(t \<mapsto> b @ [10])\<rparr>"
  let ?f = "\<lparr>file_path = t, file_pos = 0\<rparr>"
  have o: "open_new t h = (Inr ?f, h1)" unfolding h1_def by (rule open_new_healthy [OF assms(1-4)])
  have w1: "write_out ?f b h1 = (Inr (?f\<lparr>file_pos := length b\<rparr>), h2)"
    using write_out_healthy [of h1 ?f "[]" b] assms(1) by (simp add: h1_def h2_def)
  have w2: "write_out (?f\<lparr>file_pos := length b\<rparr>) [10] h2 = (Inr (?f\<lparr>file_pos := length (b @ [10])\<rparr>), h3)"
    using write_out_healthy [of h2 "?f\<lparr>file_pos := length b\<rparr>" b "[10]"] assms(1) by (simp add: h1_def h2_def h3_def)
  have hs: "healthy h3" "host_files h3 t = Some (b @ [10])" "host_dirs h3 = host_dirs h"
      "host_files h3 = (host_files h)(t \<mapsto> b @ [10])"
    using assms(1) by (simp_all add: h1_def h2_def h3_def)
  have "replace_file t p b h = (Inr (), tick (tick h3)\<lparr>host_files := (host_files h3)(t := None, p := Some (b @ [10]))\<rparr>)"
    unfolding replace_file_def bind_action_def using o w1 w2 hs assms(5)
    by (simp add: sync_file_healthy rename_healthy)
  with hs show ?thesis by simp
qed

lemma write_manifest_healthy:
  assumes "audit_codec_total E" "room d h"
  shows "\<exists>h'. write_atomic_json E (d @ [NATIVE_AUDIT_MANIFEST_FILE]) m h = (Inr (), h') \<and> room d h'"
proof -
  obtain b where b: "au_manifest_to_vec_pretty E m = Inr b" using assms(1) unfolding audit_codec_total_def is_ok_iff by blast
  define t where "t = d @ [''.'' @ NATIVE_AUDIT_MANIFEST_FILE @ ''.tmp-'' @ au_uuid_text E (fst (new_v4 h))]"
  have "\<exists>h'. replace_file t (d @ [NATIVE_AUDIT_MANIFEST_FILE]) b (tick h) = (Inr (), h') \<and> healthy h' \<and>
      host_dirs h' = host_dirs (tick h) \<and>
      host_files h' = (host_files (tick h))(t := None, d @ [NATIVE_AUDIT_MANIFEST_FILE] := Some (b @ [10]))"
    using assms(2) by (intro replace_file_healthy) (simp_all add: room_def t_def)
  then obtain h' where h': "replace_file t (d @ [NATIVE_AUDIT_MANIFEST_FILE]) b (tick h) = (Inr (), h')"
      "healthy h'" "host_dirs h' = host_dirs h"
      "host_files h' = (host_files h)(t := None, d @ [NATIVE_AUDIT_MANIFEST_FILE] := Some (b @ [10]))" by auto
  have "write_atomic_json E (d @ [NATIVE_AUDIT_MANIFEST_FILE]) m h = (Inr (), h')"
    using b h'(1) by (simp add: write_atomic_json_def new_v4_def t_def)
  moreover have "room d h'"
    using assms(2) h' by (simp add: room_def NATIVE_AUDIT_MANIFEST_FILE_def)
  ultimately show ?thesis by blast
qed

section \<open>A session\<close>

lemma create_in_healthy:
  assumes "audit_codec_total E" "am_run_attempt_number md \<noteq> 0" "healthy h"
    and "d = root_dir @ rp_directory (stream_relative_paths E md)"
    and "\<forall>q \<in> set (prefixes d). host_files h q = None"
    and "\<forall>n. host_files h (d @ [n]) = None \<and> d @ [n] \<notin> host_dirs h"
  shows "\<exists>w h'. create_in E root_dir md h = (Inr w, h') \<and> aw_directory w = d \<and> room d h'"
proof -
  define D where "D = host_dirs h \<union> set (prefixes d)"
  define h1 where "h1 = tick h\<lparr>host_dirs := D\<rparr>"
  have "takeWhile (\<lambda>q. host_files h q = None) (prefixes d) = prefixes d"
    using assms(5) by (simp add: takeWhile_eq_all_conv)
  with assms(3,5) have c: "create_dir_all d h = (Inr (), h1)"
    by (simp add: create_dir_all_def io_call_healthy h1_def D_def del: takeWhile_eq_all_conv)
  have h1: "healthy h1" "host_files h1 = host_files h" "d \<in> host_dirs h1" "\<forall>n. d @ [n] \<notin> host_dirs h1"
    using assms(3,6) by (auto simp: h1_def D_def)
  have absent: "path_exists (d @ [n]) g = (False, tick g)" if "host_files g = host_files h" "host_dirs g = host_dirs h1" for n g
    using that assms(6) h1(4) by (simp add: path_exists_def)
  define h4 where "h4 = tick (tick (tick h1))\<lparr>host_files := (host_files h)(d @ [NATIVE_AUDIT_FRAMES_FILE] \<mapsto> [])\<rparr>"
  have o: "open_new (d @ [NATIVE_AUDIT_FRAMES_FILE]) (tick (tick h1)) =
      (Inr \<lparr>file_path = d @ [NATIVE_AUDIT_FRAMES_FILE], file_pos = 0\<rparr>, h4)"
    using h1 assms(6) by (simp add: open_new_healthy h4_def)
  have "room d h4"
    unfolding h4_def using h1 assms(6) by (intro room_update)
      (auto simp: room_def NATIVE_AUDIT_FRAMES_FILE_def)
  then obtain h5 where "write_atomic_json E (d @ [NATIVE_AUDIT_MANIFEST_FILE])
      (initial_manifest md (stream_relative_paths E md)) h4 = (Inr (), h5)" "room d h5"
    using write_manifest_healthy [OF assms(1)] by blast
  then show ?thesis
    using assms(2) c o absent [of h1] absent [of "tick h1"] h1(2)
    by (simp add: create_in_def Let_def flip: assms(4))
qed

lemma append_bytes_healthy:
  assumes "audit_codec_total E" "writer_inv E fs (w, h)" "\<not> aw_closed w" "\<not> aw_failed w" "room (aw_directory w) h"
  shows "\<exists>r w' h'. append_bytes E d c t i p md (w, h) = (Inr r, (w', h')) \<and> \<not> aw_closed w' \<and> \<not> aw_failed w' \<and>
    aw_directory w' = aw_directory w \<and> room (aw_directory w) h'"
proof -
  let ?f = "frame_from_bytes E (aw_next_sequence w) (host_now h (host_calls h)) d c t i p md"
  have wl: "writer_log E fs w" and oo: "open_ok E fs w h" using assms(2,3) by (simp_all add: writer_inv_def)
  have v: "validate_frame E ?f (aw_next_sequence w) = Inr ()"
    using assms(1) by (simp add: validate_frame_def frame_from_bytes_def payload_bytes_def audit_codec_total_def)
  obtain b where b: "au_frame_to_vec E ?f = Inr b" using assms(1) unfolding audit_codec_total_def is_ok_iff by blast
  have hf: "healthy (tick h)" "host_files (tick h) (file_path (aw_frames w)) = Some (stream_of E fs)"
      "file_pos (aw_frames w) = length (stream_of E fs)"
    using assms(4,5) oo wl by (simp_all add: room_def open_ok_def writer_log_def)
  define h1 where "h1 = tick (tick (tick h)\<lparr>host_files :=
    (host_files h)(file_path (aw_frames w) \<mapsto> stream_of E fs @ b @ [10])\<rparr>)"
  have "write_synced (aw_frames w) (b @ [10]) (tick h) =
      (Inr (), (aw_frames w)\<lparr>file_pos := length (stream_of E fs @ b @ [10])\<rparr>, h1)"
    using write_all_healthy [OF hf] hf(1) by (simp add: write_synced_def sync_file_healthy h1_def)
  moreover have "room (aw_directory w) h1"
    unfolding h1_def room_tick using assms(5) wl
    by (intro room_update) (auto simp: writer_log_def NATIVE_AUDIT_FRAMES_FILE_def room_def)
  ultimately show ?thesis
    using assms(3,4) v b by (simp add: append_bytes_def utc_now_def append_frame_def record_line_def)
qed

text \<open>What a client records: direction, channel, content type, correlation id, payload and metadata of each frame.\<close>

type_synonym 'v audit_input =
  "NativeAuditDirection \<times> NativeAuditChannel \<times> string \<times> uuid \<times> bytes \<times> 'v option"

definition record_input :: "'v audit_env \<Rightarrow> 'v audit_input \<Rightarrow> ('v, unit) audit_action" where
  "record_input E x = (case x of (d, c, t, i, p, md) \<Rightarrow> discard (append_bytes E d c t i p md))"

text \<open>What of an input a frame gives back.\<close>

definition input_of :: "'v audit_input \<Rightarrow> (NativeAuditError + bytes) \<times> NativeAuditDirection \<times> string \<times> string \<times> uuid" where
  "input_of x = (case x of (d, c, t, i, p, md) \<Rightarrow> (Inr p, d, channel_as_str c, t, i))"

definition frame_input ::
  "'v audit_env \<Rightarrow> 'v NativeAuditFrame \<Rightarrow> (NativeAuditError + bytes) \<times> NativeAuditDirection \<times> string \<times> string \<times> uuid" where
  "frame_input E f = (payload_bytes E f, fr_direction f, channel_as_str (fr_channel f), fr_content_type f,
     fr_correlation_id f)"

lemma same_frame_input: "same_frame E f g \<Longrightarrow> frame_input E g = frame_input E f"
proof -
  assume same: "same_frame E f g"
  then have f: "f = g\<lparr>fr_channel := fr_channel f, fr_metadata := fr_metadata f\<rparr>" by (simp add: same_frame_def)
  have "fr_direction g = fr_direction f" "fr_content_type g = fr_content_type f"
      "fr_correlation_id g = fr_correlation_id f" by (subst f, simp)+
  with same_frame_payload(1) [OF same] same show "frame_input E g = frame_input E f"
    by (simp add: frame_input_def same_frame_def)
qed

lemma bytes_frame_input:
  "audit_codec_total E \<Longrightarrow> frame_input E (bytes_frame E d c t i p md s) = input_of (d, c, t, i, p, md)"
  by (simp add: frame_input_def input_of_def bytes_frame_def frame_from_bytes_def payload_bytes_def
      audit_codec_total_def)

lemma record_inputs_healthy:
  assumes "audit_codec E" "audit_codec_total E"
    and "writer_inv E fs (w, h)" "\<not> aw_closed w" "\<not> aw_failed w" "room (aw_directory w) h"
  shows "\<exists>w' h' gs. each (record_input E) xs (w, h) = (Inr (), (w', h')) \<and> writer_inv E (fs @ gs) (w', h') \<and>
    \<not> aw_closed w' \<and> \<not> aw_failed w' \<and> aw_directory w' = aw_directory w \<and> room (aw_directory w) h' \<and>
    map (frame_input E) gs = map input_of xs"
  using assms(3-6)
proof (induction xs arbitrary: fs w h)
  case Nil
  then show ?case by (auto simp: ret_def intro!: exI [of _ "[]"])
next
  case (Cons x xs)
  obtain d c t i p md where x: "x = (d, c, t, i, p, md)" by (cases x)
  let ?g = "bytes_frame E d c t i p md (w, h)"
  obtain r w1 h1 where ap: "append_bytes E d c t i p md (w, h) = (Inr r, (w1, h1))"
      and w1: "\<not> aw_closed w1" "\<not> aw_failed w1" "aw_directory w1 = aw_directory w" "room (aw_directory w) h1"
    using append_bytes_healthy [OF assms(2) Cons.prems] by blast
  have inv: "writer_inv E (fs @ [?g]) (w1, h1)"
    using recordsD [OF records_append_bytes Cons.prems(1) ap] by simp
  obtain w' h' gs where "each (record_input E) xs (w1, h1) = (Inr (), (w', h'))"
      "writer_inv E ((fs @ [?g]) @ gs) (w', h')" "\<not> aw_closed w'" "\<not> aw_failed w'" "aw_directory w' = aw_directory w1"
      "room (aw_directory w1) h'" "map (frame_input E) gs = map input_of xs"
    using Cons.IH [OF inv w1(1,2)] w1(3,4) by metis
  moreover have "record_input E x (w, h) = (Inr (), (w1, h1))"
    by (simp add: record_input_def x discard_def bind_action_def ap ret_def)
  ultimately have "each (record_input E) (x # xs) (w, h) = (Inr (), (w', h'))"
      "writer_inv E (fs @ ?g # gs) (w', h')" "map (frame_input E) (?g # gs) = map input_of (x # xs)"
    using bytes_frame_input [OF assms(2)] by (simp_all add: bind_action_def x)
  with \<open>\<not> aw_closed w'\<close> \<open>\<not> aw_failed w'\<close> \<open>aw_directory w' = aw_directory w1\<close> \<open>room (aw_directory w1) h'\<close> w1(3)
  show ?case by auto
qed

lemma close_stream_healthy:
  assumes "audit_codec_total E" "writer_inv E fs (w, h)" "\<not> aw_closed w" "\<not> aw_failed w" "room (aw_directory w) h"
  shows "\<exists>m w' h'. close_stream E (w, h) = (Inr m, (w', h')) \<and> aw_closed w' \<and> aw_directory w' = aw_directory w \<and>
    aw_manifest w' = m \<and> mf_integrity_status m = AuditComplete \<and> healthy h'"
proof -
  have "healthy h" using assms(5) by (simp add: room_def)
  define m where "m = final_manifest E w AuditComplete (host_now (tick h) (host_calls (tick h)))"
  have mp: "aw_manifest_path w = aw_directory w @ [NATIVE_AUDIT_MANIFEST_FILE]"
    using assms(2) by (simp add: writer_inv_def writer_log_def)
  obtain h' where "write_atomic_json E (aw_manifest_path w) m (tick (tick h)) = (Inr (), h')" "room (aw_directory w) h'"
    using write_manifest_healthy [OF assms(1), of "aw_directory w" "tick (tick h)" m] assms(5) mp by auto
  with assms(3,4) \<open>healthy h\<close> show ?thesis
    by (auto simp: close_stream_def close_with_status_def sync_file_healthy utc_now_def m_def final_manifest_def
        room_def Let_def)
qed

lemma read_bundle_healthy:
  assumes "audit_codec E" "writer_inv E fs (w, h)" "aw_closed w" "healthy h"
    and "mf_integrity_status (aw_manifest w) = AuditComplete"
  shows "\<exists>ab h'. read_bundle E (aw_directory w) h = (Inr ab, h') \<and> ab_manifest ab = aw_manifest w \<and>
    list_all2 (same_frame E) fs (ab_frames ab)"
proof -
  have wl: "writer_log E fs w" and cl: "closed_ok E fs w h" using assms(2,3) by (simp_all add: writer_inv_def)
  have paths: "aw_manifest_path w = aw_directory w @ [NATIVE_AUDIT_MANIFEST_FILE]"
      "aw_frames_path w = aw_directory w @ [NATIVE_AUDIT_FRAMES_FILE]" using wl by (simp_all add: writer_log_def)
  obtain mb where mb: "host_files h (aw_directory w @ [NATIVE_AUDIT_MANIFEST_FILE]) = Some mb"
      "au_manifest_from_slice E mb = Inr (aw_manifest w)"
    using cl by (auto simp: closed_ok_def manifest_on_disk_def paths split: option.splits sum.splits)
  have st: "host_files h (aw_directory w @ [NATIVE_AUDIT_FRAMES_FILE]) = Some (stream_of E fs)"
    using cl assms(5) by (simp add: closed_ok_def paths)
  obtain gs where gs: "check_frames E (aw_manifest w) (stream_of E fs) = Inr gs" "list_all2 (same_frame E) fs gs"
    using check_frames_written [OF assms(1), of fs "aw_manifest w"] wl cl by (auto simp: writer_log_def closed_ok_def)
  have "check_manifest (aw_manifest w) = Inr ()"
    using wl assms(5) by (simp add: check_manifest_def writer_log_def counts_ok_def)
  then show ?thesis
    using mb st gs assms(4) by (simp add: read_bundle_def read_file_def io_call_healthy)
qed

text \<open>The same session as a sequence of calls.\<close>

definition input_call :: "'v audit_input \<Rightarrow> 'v audit_call" where
  "input_call x = (case x of (d, c, t, i, p, md) \<Rightarrow> CallBytes d c t i p md)"

lemma run_calls_Nil [simp]: "run_calls E [] s = ([], s)"
  by (simp add: run_calls_def)

lemma run_calls_Cons:
  assumes "call_step E c s = (hs, s1)" "run_calls E cs s1 = (gs, s2)"
  shows "run_calls E (c # cs) s = (hs @ gs, s2)"
proof -
  have acc: "fold (\<lambda>c (gs, s). case call_step E c s of (hs, s') \<Rightarrow> (gs @ hs, s')) cs (acc, s) =
      (acc @ fst (run_calls E cs s), snd (run_calls E cs s))" for acc s
    unfolding run_calls_def
  proof (induction cs arbitrary: acc s rule: rev_induct)
    case (snoc c cs)
    show ?case using snoc.IH [of acc s] by (cases "acc = []") (simp_all add: split_beta)
  qed simp
  show ?thesis using assms by (simp add: run_calls_def [of E "c # cs"] acc)
qed

lemma run_inputs:
  assumes "each (record_input E) xs s = (Inr (), s1)" "close_stream E s1 = (Inr m, s2)"
  shows "\<exists>gs. run_calls E (map input_call xs @ [CallClose]) s = (gs, s2)"
  using assms(1)
proof (induction xs arbitrary: s)
  case Nil
  then have "call_step E CallClose s = ([], s2)"
    using assms(2) by (simp add: call_step_def discard_def bind_action_def ret_def)
  then show ?case using run_calls_Cons [of E CallClose s "[]" s2 "[]"] by auto
next
  case (Cons x xs)
  then obtain s' where s': "record_input E x s = (Inr (), s')" "each (record_input E) xs s' = (Inr (), s1)"
    by (auto simp: bind_ok_iff)
  then have "call_step E (input_call x) s = (call_frames E (input_call x) s, s')"
    by (cases x) (simp add: call_step_def input_call_def record_input_def)
  then show ?case using Cons.IH [OF s'(2)] run_calls_Cons by fastforce
qed

lemma session_healthy:
  assumes "audit_codec E" "audit_codec_total E" "am_run_attempt_number md \<noteq> 0" "healthy h"
    and "d = root_dir @ rp_directory (stream_relative_paths E md)"
    and "\<forall>q \<in> set (prefixes d). host_files h q = None"
    and "\<forall>n. host_files h (d @ [n]) = None \<and> d @ [n] \<notin> host_dirs h"
  obtains w h1 s2 m s3 ab h4 fs where "create_in E root_dir md h = (Inr w, h1)" "aw_directory w = d"
    "each (record_input E) xs (w, h1) = (Inr (), s2)" "close_stream E s2 = (Inr m, s3)"
    "run_calls E (map input_call xs @ [CallClose]) (w, h1) = (fs, s3)"
    "read_bundle E d (snd s3) = (Inr ab, h4)" "ab_manifest ab = m"
    "map (frame_input E) (ab_frames ab) = map input_of xs"
    "mf_run_attempt_number (ab_manifest ab) = am_run_attempt_number md"
proof -
  obtain w h1 where c: "create_in E root_dir md h = (Inr w, h1)" "aw_directory w = d" "room d h1"
    using create_in_healthy [OF assms(2-7)] by blast
  obtain w2 h2 fs where r: "each (record_input E) xs (w, h1) = (Inr (), (w2, h2))" "writer_inv E fs (w2, h2)"
      "\<not> aw_closed w2" "\<not> aw_failed w2" "aw_directory w2 = d" "room d h2" "map (frame_input E) fs = map input_of xs"
    using record_inputs_healthy [OF assms(1,2) create_in_inv(1-3) [OF assms(1) c(1)], of xs] c(2,3) by auto
  obtain m w3 h3 where cl: "close_stream E (w2, h2) = (Inr m, (w3, h3))" "aw_closed w3" "aw_directory w3 = d"
      "aw_manifest w3 = m" "mf_integrity_status m = AuditComplete" "healthy h3"
    using close_stream_healthy [OF assms(2) r(2-4)] r(5,6) by auto
  have "writer_inv E fs (w3, h3)"
    using recordsD [OF records_close(2) [OF assms(1)] r(2) cl(1)] by simp
  then obtain ab h4 where ab: "read_bundle E d h3 = (Inr ab, h4)" "ab_manifest ab = m"
      "list_all2 (same_frame E) fs (ab_frames ab)"
    using read_bundle_healthy [OF assms(1)] cl by blast
  have "map (frame_input E) (ab_frames ab) = map input_of xs"
    unfolding r(7) [symmetric] using ab(3) by (induction rule: list_all2_induct) (auto simp: same_frame_input)
  moreover obtain gs where run: "run_calls E (map input_call xs @ [CallClose]) (w, h1) = (gs, (w3, h3))"
    using run_inputs [OF r(1) cl(1)] by blast
  moreover have "mf_run_attempt_number (aw_manifest w3) = am_run_attempt_number md"
    using run_calls_moves [OF run] create_in_inv(4) [OF assms(1) c(1)]
    by (simp add: writer_moves_def manifest_identity_def initial_manifest_def)
  ultimately show thesis using c(1,2) r(1) cl(1,4) ab by (intro that [of w h1 "(w2, h2)" m "(w3, h3)" gs ab h4]) auto
qed

section \<open>Export\<close>

lemma copy_file_healthy:
  assumes "healthy h" "host_files h a = Some c" "b \<notin> host_dirs h" "butlast b \<in> host_dirs h" "a \<noteq> b"
  shows "copy_file a b h = (Inr (), tick h\<lparr>host_files := (host_files h)(b \<mapsto> c)\<rparr>)"
  using assms by (simp add: copy_file_def io_call_healthy)

text \<open>Both directories exist and hold no directories.\<close>

definition flat_dirs :: "path \<Rightarrow> path \<Rightarrow> host \<Rightarrow> bool" where
  "flat_dirs d e h \<longleftrightarrow> healthy h \<and> e \<in> host_dirs h \<and> (\<forall>n. d @ [n] \<notin> host_dirs h \<and> e @ [n] \<notin> host_dirs h)"

lemma flat_dirs_update [simp]:
  "flat_dirs d e (tick h) = flat_dirs d e h" "flat_dirs d e (h\<lparr>host_files := f\<rparr>) = flat_dirs d e h"
  by (simp_all add: flat_dirs_def)

lemma copy_if_there_healthy:
  assumes "flat_dirs d e h" "d \<noteq> e"
  shows "\<exists>h'. copy_if_there d e n h = (Inr (), h') \<and> flat_dirs d e h' \<and> touches {e @ [n]} h h'"
proof (cases "host_files h (d @ [n])")
  case None
  with assms(1) show ?thesis by (simp add: copy_if_there_def path_exists_def flat_dirs_def healthy_def)
next
  case (Some c)
  with assms copy_file_healthy [of "tick h" "d @ [n]" c "e @ [n]"] show ?thesis
    by (auto simp: copy_if_there_def path_exists_def flat_dirs_def healthy_def touches_def)
qed

lemma export_to_healthy:
  assumes "healthy h" "ab_directory ab = d" "d \<noteq> e" "\<forall>q \<in> set (prefixes e). host_files h q = None"
    and "\<forall>n. d @ [n] \<notin> host_dirs h \<union> set (prefixes e) \<and> e @ [n] \<notin> host_dirs h"
    and "host_files h (d @ [NATIVE_AUDIT_MANIFEST_FILE]) = Some mb" "host_files h (d @ [NATIVE_AUDIT_FRAMES_FILE]) = Some fb"
  shows "\<exists>h'. export_to ab e h = (Inr (), h') \<and> healthy h' \<and>
    host_files h' (e @ [NATIVE_AUDIT_MANIFEST_FILE]) = Some mb \<and> host_files h' (e @ [NATIVE_AUDIT_FRAMES_FILE]) = Some fb"
proof -
  let ?M = NATIVE_AUDIT_MANIFEST_FILE and ?F = NATIVE_AUDIT_FRAMES_FILE
  define h1 where "h1 = tick h\<lparr>host_dirs := host_dirs h \<union> set (prefixes e)\<rparr>"
  define h2 where "h2 = tick h1\<lparr>host_files := (host_files h)(e @ [?M] \<mapsto> mb)\<rparr>"
  define h3 where "h3 = tick h2\<lparr>host_files := (host_files h2)(e @ [?F] \<mapsto> fb)\<rparr>"
  have "takeWhile (\<lambda>q. host_files h q = None) (prefixes e) = prefixes e"
    using assms(4) by (simp add: takeWhile_eq_all_conv)
  with assms(1,4) have c: "create_dir_all e h = (Inr (), h1)"
    by (simp add: create_dir_all_def io_call_healthy h1_def del: takeWhile_eq_all_conv)
  have fl: "flat_dirs d e h1" using assms(1,5) by (auto simp: flat_dirs_def h1_def)
  have m: "copy_file (d @ [?M]) (e @ [?M]) h1 = (Inr (), h2)"
    using fl assms(3,6) copy_file_healthy [of h1 "d @ [?M]" mb "e @ [?M]"]
    by (simp add: flat_dirs_def h1_def h2_def)
  have f: "copy_file (d @ [?F]) (e @ [?F]) h2 = (Inr (), h3)"
    using fl assms(3,7) copy_file_healthy [of h2 "d @ [?F]" fb "e @ [?F]"] file_names(2)
    by (simp add: flat_dirs_def h1_def h2_def h3_def)
  have "flat_dirs d e h3" using fl by (simp add: h2_def h3_def)
  then obtain h4 where x: "copy_if_there d e ''expected-provider-events.jsonl'' h3 = (Inr (), h4)" "flat_dirs d e h4"
      "touches {e @ [''expected-provider-events.jsonl'']} h3 h4"
    using copy_if_there_healthy assms(3) by blast
  then obtain h5 where y: "copy_if_there d e ''expected-agent-events.jsonl'' h4 = (Inr (), h5)" "flat_dirs d e h5"
      "touches {e @ [''expected-agent-events.jsonl'']} h4 h5"
    using copy_if_there_healthy assms(3) by blast
  have "export_to ab e h = (Inr (), h5)"
    using c m f x(1) y(1) assms(2) by (simp add: export_to_def bind_action_def Let_def ret_def)
  moreover have "host_files h5 (e @ [n]) = host_files h3 (e @ [n])" if "n \<in> {?M, ?F}" for n
    using touchesD [OF x(3), of "e @ [n]"] touchesD [OF y(3), of "e @ [n]"] that
    by (auto simp: NATIVE_AUDIT_MANIFEST_FILE_def NATIVE_AUDIT_FRAMES_FILE_def)
  ultimately show ?thesis
    using y(2) file_names(2) by (simp add: flat_dirs_def h2_def h3_def)
qed

text \<open>
  An exported bundle is the bundle: on a host whose file operations succeed, exporting to another directory works and the copy
  reads back with the same manifest and frames.
\<close>

lemma exported_bundle_reads_back:
  assumes "read_bundle E d h0 = (Inr ab, h)" "healthy h0" "d \<noteq> e" "\<forall>q \<in> set (prefixes e). host_files h0 q = None"
    and "\<forall>n. d @ [n] \<notin> host_dirs h0 \<union> set (prefixes e) \<and> e @ [n] \<notin> host_dirs h0"
  shows "\<exists>h' h''. export_to ab e h0 = (Inr (), h') \<and> read_bundle E e h' = (Inr (ab\<lparr>ab_directory := e\<rparr>), h'')"
proof -
  from assms(1) obtain fb where fb: "manifest_on_disk E (d @ [NATIVE_AUDIT_MANIFEST_FILE]) h0 = Some (ab_manifest ab)"
      "check_manifest (ab_manifest ab) = Inr ()" "host_files h0 (d @ [NATIVE_AUDIT_FRAMES_FILE]) = Some fb"
      "check_frames E (ab_manifest ab) fb = Inr (ab_frames ab)" "ab_directory ab = d" by (rule read_bundle_ok)
  then obtain mb where mb: "host_files h0 (d @ [NATIVE_AUDIT_MANIFEST_FILE]) = Some mb"
      "au_manifest_from_slice E mb = Inr (ab_manifest ab)"
    by (auto simp: manifest_on_disk_def split: option.splits sum.splits)
  from export_to_healthy [OF assms(2) fb(5) assms(3-5) mb(1) fb(3)] obtain h' where
    "export_to ab e h0 = (Inr (), h')" "healthy h'" "host_files h' (e @ [NATIVE_AUDIT_MANIFEST_FILE]) = Some mb"
    "host_files h' (e @ [NATIVE_AUDIT_FRAMES_FILE]) = Some fb" by blast
  moreover have "read_bundle E e h' = (Inr (ab\<lparr>ab_directory := e\<rparr>), tick (tick h'))"
    using calculation mb fb by (simp add: read_bundle_def read_file_def io_call_healthy)
  ultimately show ?thesis by blast
qed

section \<open>An example\<close>

text \<open>
  A codec that satisfies the laws: it writes the number of a value in a fixed enumeration, in unary. A byte-to-character map stands in
  for base64, and the digest is a parameter: the constant digest makes every two streams collide.
\<close>

instance json_lit :: countable
  by countable_datatype

instance NativeAuditDirection :: countable
  by countable_datatype

instance NativeAuditChannel :: countable
  by countable_datatype

instance NativePayloadEncoding :: countable
  by countable_datatype

instance NativeAuditIntegrityStatus :: countable
  by countable_datatype

definition frame_fields :: "'v NativeAuditFrame \<Rightarrow> u16 \<times> u64 \<times> datetime \<times> NativeAuditDirection \<times> NativeAuditChannel \<times>
    string \<times> uuid \<times> NativePayloadEncoding \<times> string \<times> string \<times> 'v option" where
  "frame_fields f = (fr_audit_format_version f, fr_sequence f, fr_timestamp f, fr_direction f, fr_channel f,
     fr_content_type f, fr_correlation_id f, fr_payload_encoding f, fr_payload_base64 f, fr_payload_checksum f,
     fr_metadata f)"

definition frame_of_fields :: "u16 \<times> u64 \<times> datetime \<times> NativeAuditDirection \<times> NativeAuditChannel \<times>
    string \<times> uuid \<times> NativePayloadEncoding \<times> string \<times> string \<times> 'v option \<Rightarrow> 'v NativeAuditFrame" where
  "frame_of_fields x = (case x of (a, b, c, d, e, f, g, h, i, j, k) \<Rightarrow>
     \<lparr>fr_audit_format_version = a, fr_sequence = b, fr_timestamp = c, fr_direction = d, fr_channel = e,
      fr_content_type = f, fr_correlation_id = g, fr_payload_encoding = h, fr_payload_base64 = i,
      fr_payload_checksum = j, fr_metadata = k\<rparr>)"

lemma frame_of_fields [simp]: "frame_of_fields (frame_fields f) = f"
  by (simp add: frame_of_fields_def frame_fields_def)

definition manifest_fields :: "NativeAuditManifest \<Rightarrow> (u16 \<times> uuid \<times> uuid \<times> uuid \<times> uuid \<times> u32 \<times> string \<times> string \<times>
    string \<times> string option \<times> string option \<times> string) \<times> (string \<times> u64 \<times> u64 option \<times> u64 option \<times> string option \<times>
    NativeAuditIntegrityStatus \<times> datetime \<times> datetime option \<times> string \<times> string \<times> bool)" where
  "manifest_fields m = ((mf_audit_schema_version m, mf_session_id m, mf_agent_run_id m, mf_turn_id m,
     mf_run_attempt_id m, mf_run_attempt_number m, mf_provider_id m, mf_runtime_profile_id m, mf_workspace_path m,
     mf_runtime_version m, mf_protocol_version m, mf_adapter_version m),
     (mf_mapper_version m, mf_frame_count m, mf_first_sequence m, mf_last_sequence m, mf_final_checksum m,
      mf_integrity_status m, mf_created_at m, mf_closed_at m, mf_manifest_relative_path m, mf_frames_relative_path m,
      mf_raw_content_trusted m))"

definition manifest_of_fields :: "(u16 \<times> uuid \<times> uuid \<times> uuid \<times> uuid \<times> u32 \<times> string \<times> string \<times>
    string \<times> string option \<times> string option \<times> string) \<times> (string \<times> u64 \<times> u64 option \<times> u64 option \<times> string option \<times>
    NativeAuditIntegrityStatus \<times> datetime \<times> datetime option \<times> string \<times> string \<times> bool) \<Rightarrow> NativeAuditManifest" where
  "manifest_of_fields x = (case x of ((a, b, c, d, e, f, g, h, i, j, k, l), (m, n, p, q, r, s, t, u, v, w, y)) \<Rightarrow>
     \<lparr>mf_audit_schema_version = a, mf_session_id = b, mf_agent_run_id = c, mf_turn_id = d, mf_run_attempt_id = e,
      mf_run_attempt_number = f, mf_provider_id = g, mf_runtime_profile_id = h, mf_workspace_path = i,
      mf_runtime_version = j, mf_protocol_version = k, mf_adapter_version = l, mf_mapper_version = m,
      mf_frame_count = n, mf_first_sequence = p, mf_last_sequence = q, mf_final_checksum = r,
      mf_integrity_status = s, mf_created_at = t, mf_closed_at = u, mf_manifest_relative_path = v,
      mf_frames_relative_path = w, mf_raw_content_trusted = y\<rparr>)"

lemma manifest_of_fields [simp]: "manifest_of_fields (manifest_fields m) = m"
  by (simp add: manifest_of_fields_def manifest_fields_def)

definition unary :: "nat \<Rightarrow> bytes" where
  "unary n = replicate (Suc n) 0"

definition sample_audit :: "(bytes \<Rightarrow> bytes) \<Rightarrow> json_lit audit_env" where
  "sample_audit sha256 = \<lparr>
     au_sha256 = sha256,
     au_base64_encode = map (\<lambda>b. char_of (unat b)),
     au_base64_decode = (\<lambda>s. Inr (map (\<lambda>c. of_nat (of_char c)) s)),
     au_frame_to_vec = (\<lambda>f. Inr (unary (to_nat (frame_fields f)))),
     au_frame_from_slice = (\<lambda>b. Inr (frame_of_fields (from_nat (length b - 1)))),
     au_manifest_to_vec_pretty = (\<lambda>m. Inr (unary (to_nat (manifest_fields m)))),
     au_manifest_from_slice = (\<lambda>b. Inr (manifest_of_fields (from_nat (length b - 2)))),
     au_message_to_vec = (\<lambda>_. Inr []),
     au_value_from_slice = (\<lambda>_. Inl ''EOF while parsing a value''),
     au_value_string = JStr,
     au_reference_json = (\<lambda>_. JNull),
     au_value_back = Some,
     au_uuid_text = (\<lambda>u. dec_of_nat (unat u))\<rparr>"

lemma sample_audit_codec [simp]: "audit_codec (sample_audit sha)"
  by (auto simp: audit_codec_def sample_audit_def unary_def same_frame_def)

lemma sample_audit_total [simp]: "audit_codec_total (sample_audit sha)"
proof -
  have "unat (x :: 8 word) < 256" for x using unsigned_less [of x] by simp
  then have "unat (x :: 8 word) mod 256 = unat x" for x by simp
  then show ?thesis by (simp add: audit_codec_total_def sample_audit_def comp_def)
qed

definition flat_digest :: "bytes \<Rightarrow> bytes" where
  "flat_digest b = replicate 32 0"

definition sample_metadata :: NativeAuditMetadata where
  "sample_metadata = \<lparr>am_session_id = 1, am_agent_run_id = 2, am_turn_id = 3, am_run_attempt_id = 4,
     am_run_attempt_number = 1, am_provider_id = ''codex'', am_runtime_profile_id = ''CODEX'',
     am_workspace_path = ''/work'', am_runtime_version = None, am_protocol_version = None,
     am_adapter_version = ''1'', am_mapper_version = ''1'', am_created_at = 0\<rparr>"

definition sample_host :: host where
  "sample_host = \<lparr>host_files = (\<lambda>_. None), host_dirs = {[]}, host_calls = 0, host_fault = (\<lambda>_. None),
     host_now = (\<lambda>_. 0), host_uuid = (\<lambda>_. 7)\<rparr>"

definition sample_input :: "8 word \<Rightarrow> json_lit audit_input" where
  "sample_input b = (AuditOutput, ChOther ''stdout'', ''text/plain'', 9, [b, b], None)"

definition sample_inputs :: "json_lit audit_input list" where
  "sample_inputs = [(AuditInput, ChStdin, ''text/plain'', 9, [104, 105], None), sample_input 111]"

definition sample_dir :: path where
  "sample_dir = rp_directory (stream_relative_paths (sample_audit flat_digest) sample_metadata)"

lemma sample_start [simp]: "am_run_attempt_number sample_metadata = 1" "healthy sample_host"
  "host_files sample_host p = None" "p \<in> host_dirs sample_host \<longleftrightarrow> p = []"
  by (simp_all add: sample_metadata_def sample_host_def healthy_def)

lemmas sample_session = session_healthy [OF sample_audit_codec sample_audit_total, of sample_metadata sample_host
    sample_dir "[]" flat_digest, simplified, OF sample_dir_def]

section \<open>Properties\<close>

text \<open>
  C14: a bundle that reads back holds exactly what was recorded. Whatever methods are called on a new audit writer, and
  whichever file operations fail or write only a part on the way, when the directory of the writer then reads as a bundle its
  frames are those whose append succeeded, in that order (up to the spelling of the channel and to what JSON makes of
  metadata values, see \<open>same_frame\<close>), the stream has been closed, and its manifest names the
  session, run, attempt, provider and versions the writer was created for.
\<close>

theorem readable_bundle_is_what_was_recorded:
  assumes "audit_codec E" "create_in E root_dir metadata h0 = (Inr w, h1)"
    and "run_calls E calls (w, h1) = (recorded, (w', h2))"
    and "read_bundle E (aw_directory w) h2 = (Inr ab, h3)"
  shows "list_all2 (same_frame E) recorded (ab_frames ab) \<and> aw_closed w' \<and>
    manifest_identity (ab_manifest ab) =
      manifest_identity (initial_manifest metadata (stream_relative_paths E metadata))"
proof -
  have inv: "writer_inv E recorded (w', h2)"
    using run_calls_inv [OF assms(1) create_in_inv(1) [OF assms(1,2)] assms(3)] by simp
  have "aw_directory w' = aw_directory w" "manifest_identity (aw_manifest w') = manifest_identity (aw_manifest w)"
    using run_calls_moves [OF assms(3)] by (simp_all add: writer_moves_def)
  with writer_inv_readable [OF assms(1) inv, of ab h3] assms(4) create_in_inv(4) [OF assms(1,2)]
  show ?thesis by simp
qed

theorem readable_bundle_is_what_was_recorded_witness:
  "\<exists>w h1 recorded w' h2 ab h3. create_in (sample_audit flat_digest) [] sample_metadata sample_host = (Inr w, h1) \<and>
    run_calls (sample_audit flat_digest) (map input_call sample_inputs @ [CallClose]) (w, h1) = (recorded, (w', h2)) \<and>
    read_bundle (sample_audit flat_digest) (aw_directory w) h2 = (Inr ab, h3) \<and>
    list_all2 (same_frame (sample_audit flat_digest)) recorded (ab_frames ab) \<and> aw_closed w' \<and> length (ab_frames ab) = 2 \<and>
    manifest_identity (ab_manifest ab) = manifest_identity (initial_manifest sample_metadata
      (stream_relative_paths (sample_audit flat_digest) sample_metadata))"
proof (rule sample_session [of sample_inputs])
  fix w h1 s2 m s3 ab h4 fs
  assume c: "create_in (sample_audit flat_digest) [] sample_metadata sample_host = (Inr w, h1)" "aw_directory w = sample_dir"
    and run: "run_calls (sample_audit flat_digest) (map input_call sample_inputs @ [CallClose]) (w, h1) = (fs, s3)"
    and read: "read_bundle (sample_audit flat_digest) sample_dir (snd s3) = (Inr ab, h4)"
    and fi: "map (frame_input (sample_audit flat_digest)) (ab_frames ab) = map input_of sample_inputs"
  obtain w' h2 where s3: "s3 = (w', h2)" by (cases s3)
  have "length (ab_frames ab) = 2" using arg_cong [OF fi, of length] by (simp add: sample_inputs_def)
  with readable_bundle_is_what_was_recorded [OF sample_audit_codec c(1) run [unfolded s3], of ab h4] c run read s3
  show ?thesis by auto
qed

text \<open>
  C15: a failed writer never leaves a readable bundle. When a call on an open stream fails, an append or a close, then the directory
  does not read as a bundle, whatever calls came before and whatever calls follow: a later close, with any
  status, only records the failure. The exception is an append whose frame or message cannot be encoded as JSON: it
  returns its error before anything is written and leaves the stream as usable as before.
\<close>

theorem failed_writer_stays_unreadable:
  assumes "audit_codec E" "create_in E root_dir metadata h0 = (Inr w, h1)"
    and "run_calls E before (w, h1) = (recorded, (w', h2))" "\<not> aw_closed w'"
    and "do_call E c (w', h2) = (Inl err, (w2, h3))" "is_close_call c \<or> (\<forall>e. err \<noteq> AuditJson e)"
    and "run_calls E after (w2, h3) = (recorded', (w'', h4))"
  shows "\<not> is_ok (fst (read_bundle E (aw_directory w) h4))"
proof
  assume "is_ok (fst (read_bundle E (aw_directory w) h4))"
  then obtain ab h5 where read: "read_bundle E (aw_directory w) h4 = (Inr ab, h5)"
    by (auto simp: is_ok_iff prod_eq_iff)
  have "writer_inv E recorded (w', h2)"
    using run_calls_inv [OF assms(1) create_in_inv(1) [OF assms(1,2)] assms(3)] by simp
  then have "writer_inv E recorded (w2, h3)"
    using recordsD [OF records_do_call [OF assms(1)] _ assms(5)] by simp
  then have inv: "writer_inv E (recorded @ recorded') (w'', h4)"
    by (rule run_calls_inv [OF assms(1) _ assms(7)])
  have moved: "writer_moves (w, h1) (w', h2)" "writer_moves (w', h2) (w2, h3)" "writer_moves (w2, h3) (w'', h4)"
    using run_calls_moves [OF assms(3)] actsD [OF moves_do_call assms(5)] run_calls_moves [OF assms(7)] by simp_all
  have "doomed w2" using failed_call_dooms [OF assms(5,4,6)] by (simp add: doomed_def)
  with moved have "aw_directory w'' = aw_directory w" "doomed w''" by (auto simp: writer_moves_def)
  with writer_inv_readable [OF assms(1) inv, of ab h5] read show False by (simp add: doomed_def)
qed

definition bad_frame :: "json_lit NativeAuditFrame" where
  "bad_frame = frame_from_bytes (sample_audit flat_digest) 5 0 AuditInput ChStdin ''text/plain'' 9 [1] None"

theorem failed_writer_stays_unreadable_witness:
  "\<exists>w h1 w2 h3 recorded w'' h4. create_in (sample_audit flat_digest) [] sample_metadata sample_host = (Inr w, h1) \<and>
    do_call (sample_audit flat_digest) (CallAppend bad_frame) (w, h1) = (Inl (SequenceMismatch 1 5), (w2, h3)) \<and>
    run_calls (sample_audit flat_digest) [CallCloseWith AuditComplete] (w2, h3) = (recorded, (w'', h4)) \<and>
    \<not> is_ok (fst (read_bundle (sample_audit flat_digest) (aw_directory w) h4))"
proof (rule sample_session [of "[]"])
  fix w h1
  let ?E = "sample_audit flat_digest"
  assume c: "create_in ?E [] sample_metadata sample_host = (Inr w, h1)"
  note inv = create_in_inv [OF sample_audit_codec c]
  have "aw_next_sequence w = 1" using inv(1) by (simp add: writer_inv_def writer_log_def)
  then have bad: "do_call ?E (CallAppend bad_frame) (w, h1) = (Inl (SequenceMismatch 1 5), (w\<lparr>aw_failed := True\<rparr>, h1))"
    using inv(2,3) by (simp add: discard_err_iff append_frame_def validate_frame_def bad_frame_def frame_from_bytes_def)
  obtain recorded w'' h4 where close: "run_calls ?E [CallCloseWith AuditComplete] (w\<lparr>aw_failed := True\<rparr>, h1) = (recorded, (w'', h4))"
    by (metis prod.collapse)
  from failed_writer_stays_unreadable [OF sample_audit_codec c run_calls_Nil inv(2) bad _ close] c bad close show ?thesis by auto
qed

text \<open>
  C17: the checksum of a bundle pins its frames. When two directories both read as bundles and their manifests carry the same
  checksum, either the frames are the same, or the two frame files, without their blank lines, are a collision of SHA-256.
\<close>

theorem tampering_needs_a_collision:
  assumes "read_bundle E d h = (Inr ab, h')" "read_bundle E d' g = (Inr ab', g')"
    and "mf_final_checksum (ab_manifest ab) = mf_final_checksum (ab_manifest ab')" "ab_frames ab \<noteq> ab_frames ab'"
  shows "\<exists>b b'. host_files h (d @ [NATIVE_AUDIT_FRAMES_FILE]) = Some b \<and>
    host_files g (d' @ [NATIVE_AUDIT_FRAMES_FILE]) = Some b' \<and>
    audited b \<noteq> audited b' \<and> au_sha256 E (audited b) = au_sha256 E (audited b')"
proof -
  from assms(1) obtain b where b: "host_files h (d @ [NATIVE_AUDIT_FRAMES_FILE]) = Some b"
      "check_frames E (ab_manifest ab) b = Inr (ab_frames ab)" by (rule read_bundle_ok)
  from assms(2) obtain b' where b': "host_files g (d' @ [NATIVE_AUDIT_FRAMES_FILE]) = Some b'"
      "check_frames E (ab_manifest ab') b' = Inr (ab_frames ab')" by (rule read_bundle_ok)
  have "au_sha256 E (audited b) = au_sha256 E (audited b')"
    using check_frames_ok(1) [OF b(2)] check_frames_ok(1) [OF b'(2)] assms(3) by (simp add: hex_digest_eq_iff)
  with b b' audited_determines_frames [OF b(2) b'(2)] assms(4) show ?thesis by blast
qed

theorem tampering_needs_a_collision_witness:
  "\<exists>h ab h' g ab' g' b b'. read_bundle (sample_audit flat_digest) sample_dir h = (Inr ab, h') \<and>
    read_bundle (sample_audit flat_digest) sample_dir g = (Inr ab', g') \<and> ab_frames ab \<noteq> ab_frames ab' \<and>
    host_files h (sample_dir @ [NATIVE_AUDIT_FRAMES_FILE]) = Some b \<and>
    host_files g (sample_dir @ [NATIVE_AUDIT_FRAMES_FILE]) = Some b' \<and>
    audited b \<noteq> audited b' \<and> flat_digest (audited b) = flat_digest (audited b')"
proof (rule sample_session [of "[sample_input 1]"], rule sample_session [of "[sample_input 2]"])
  let ?E = "sample_audit flat_digest"
  fix s3 ab h4 t3 ab' g4 m m'
  assume r: "read_bundle ?E sample_dir (snd s3) = (Inr ab, h4)" "read_bundle ?E sample_dir (snd t3) = (Inr ab', g4)"
    and f: "map (frame_input ?E) (ab_frames ab) = map input_of [sample_input 1]"
      "map (frame_input ?E) (ab_frames ab') = map input_of [sample_input 2]"
  from f have "ab_frames ab \<noteq> ab_frames ab'" by (auto simp: sample_input_def input_of_def)
  moreover have "mf_final_checksum (ab_manifest ab) = mf_final_checksum (ab_manifest ab')"
    using read_bundle_checksum [OF r(1)] read_bundle_checksum [OF r(2)]
    by (simp add: hex_digest_def sample_audit_def flat_digest_def)
  ultimately show ?thesis
    using tampering_needs_a_collision [OF r] r by (fastforce simp: sample_audit_def)
qed

text \<open>
  C18: every bundle that reads back can be replayed. Without an attempt number of zero and with fewer than \<open>2 ^ 64\<close>
  frames, the default mapper replays it without an error: each frame gives a provider event with the frame's payload and an agent event that
  refers to the frame by number and checksum, the reducer accepts all of them, and the resulting state is
  current, with the number of frames as its cursor.
\<close>

theorem readable_bundle_replays:
  assumes "read_bundle E d h = (Inr ab, h')" "mf_run_attempt_number (ab_manifest ab) \<noteq> 0"
    and "length (ab_frames ab) < 2 ^ 64"
  shows "\<exists>r. replay_default E ab = Inr r \<and>
    map (\<lambda>e. Inr (pe_payload e)) (rr_provider_events r) = map (payload_bytes E) (ab_frames ab) \<and>
    map ae_native_refs (rr_agent_events r) = map (\<lambda>f. [frame_reference (ab_manifest ab) f]) (ab_frames ab) \<and>
    st_projection_status (rr_state r) = ProjCurrent \<and>
    st_last_event_sequence (rr_state r) = mf_frame_count (ab_manifest ab)"
proof -
  define m where "m = ab_manifest ab"
  from assms(1) obtain b where "check_frames E m b = Inr (ab_frames ab)"
    unfolding m_def by (rule read_bundle_ok)
  note ok = check_frames_ok [OF this]
  obtain events aes where ev: "replay_frames (default_mapper E (manifest_versions m)) m (ab_frames ab) = Inr (events, aes)"
      "map (\<lambda>e. Inr (pe_payload e)) events = map (payload_bytes E) (ab_frames ab)" "replayed_from m 1 aes"
      "map ae_native_refs aes = map (\<lambda>f. [frame_reference m f]) (ab_frames ab)"
    using replay_frames_default [OF ok(2)] by blast
  have len: "length aes = length (ab_frames ab)" using ev(4) by (metis length_map)
  have "at_event m 0 (replay_start m)" by (simp add: at_event_def replay_start_def)
  then obtain s where "reduce_all (replay_start m) aes = Inr s" "at_event m (length aes) s"
    using reduce_replayed_events [of m 0 _ aes] ev(3) assms(2,3) len by (auto simp: m_def)
  with ev ok(3) len show ?thesis
    by (simp add: replay_default_def replay_def validate_versions_def default_mapper_def at_event_def flip: m_def)
qed

theorem readable_bundle_replays_witness:
  "\<exists>h ab h' r. read_bundle (sample_audit flat_digest) sample_dir h = (Inr ab, h') \<and>
    replay_default (sample_audit flat_digest) ab = Inr r \<and>
    map (\<lambda>e. Inr (pe_payload e)) (rr_provider_events r) = map (payload_bytes (sample_audit flat_digest)) (ab_frames ab) \<and>
    map ae_native_refs (rr_agent_events r) = map (\<lambda>f. [frame_reference (ab_manifest ab) f]) (ab_frames ab) \<and>
    st_projection_status (rr_state r) = ProjCurrent \<and>
    st_last_event_sequence (rr_state r) = mf_frame_count (ab_manifest ab) \<and> length (ab_frames ab) = 2"
proof (rule sample_session [of sample_inputs])
  let ?E = "sample_audit flat_digest"
  fix s3 ab h4 m
  assume r: "read_bundle ?E sample_dir (snd s3) = (Inr ab, h4)" and n: "ab_manifest ab = m" "mf_run_attempt_number m = 1"
    and fi: "map (frame_input ?E) (ab_frames ab) = map input_of sample_inputs"
  have "length (ab_frames ab) = 2" using arg_cong [OF fi, of length] by (simp add: sample_inputs_def)
  with readable_bundle_replays [OF r] n r show ?thesis by auto
qed

text \<open>
  C16: what is recorded can be read back. For an attempt number other than zero, which \<open>create_in\<close> refuses, on a host whose
  file operations succeed, with values that can be encoded as JSON and bytes that survive base64, and in a directory that holds
  nothing yet, no part of whose path is a file: a stream can be created, every input is accepted, closing succeeds, and reading the
  directory gives the manifest that closing returned and one frame per input, in order, with its payload,
  direction, channel name, content type and correlation id.
\<close>

theorem recorded_session_reads_back:
  assumes "audit_codec E" "audit_codec_total E" "am_run_attempt_number md \<noteq> 0" "healthy h"
    and "d = root_dir @ rp_directory (stream_relative_paths E md)"
    and "\<forall>q \<in> set (prefixes d). host_files h q = None"
    and "\<forall>n. host_files h (d @ [n]) = None \<and> d @ [n] \<notin> host_dirs h"
  shows "\<exists>w h1 s2 m s3 ab h4. create_in E root_dir md h = (Inr w, h1) \<and>
    each (record_input E) xs (w, h1) = (Inr (), s2) \<and> close_stream E s2 = (Inr m, s3) \<and>
    read_bundle E d (snd s3) = (Inr ab, h4) \<and> ab_manifest ab = m \<and>
    map (frame_input E) (ab_frames ab) = map input_of xs"
  by (rule session_healthy [OF assms, of xs]) blast

theorem recorded_session_reads_back_witness:
  "\<exists>w h1 s2 m s3 ab h4. create_in (sample_audit flat_digest) [] sample_metadata sample_host = (Inr w, h1) \<and>
    each (record_input (sample_audit flat_digest)) sample_inputs (w, h1) = (Inr (), s2) \<and>
    close_stream (sample_audit flat_digest) s2 = (Inr m, s3) \<and>
    read_bundle (sample_audit flat_digest) sample_dir (snd s3) = (Inr ab, h4) \<and> ab_manifest ab = m \<and>
    map (frame_input (sample_audit flat_digest)) (ab_frames ab) = map input_of sample_inputs"
  by (rule recorded_session_reads_back) (simp_all add: sample_dir_def)

end
