(* ===== verification/Workflow_Queue.thy ===== *)
theory Workflow_Queue
  imports Agent_Store "HOL-Library.Multiset"
begin

text \<open>
  The queue of workflow runs: \<open>crates/db/src/models/workflow_queue.rs\<close> and the dispatcher of
  \<open>crates/server/src/workflow_runtime/queue.rs\<close>, with the statements of \<open>runner.rs\<close> and \<open>management.rs\<close> that change the queue, the
  slots or the status of a run. A project has one slot; a run that is accepted waits in the queue, takes the slot when it is the
  oldest unfinished one of its project, and gives it back when it has ended and nothing it started is still alive.

  The set of runs that are being started (\<open>in_flight\<close>) is a process-wide set behind a mutex; the dispatcher and the
  delivery of stop intents leave such a run alone. They test it first and release the run later, after other work:
  \<open>ds_releasing\<close> are the runs that have passed the test and whose release is still to come, one for each task. What a step
  reads of the orchestration store and the agent store is an argument.
\<close>

section \<open>Rows\<close>

datatype WorkflowRunStatus =
  WrPending | WrRunning | WrAwaitingHuman | WrAwaitingArena | WrCancelling | WrSucceeded | WrFailed | WrCanceled

datatype DbNodeExecutionStatus =
  NxPending | NxRunning | NxAwaitingHuman | NxAwaitingArena | NxCancelling | NxSucceeded | NxFailed | NxCancelled
| NxSkipped

datatype queue_phase = PhQueued | PhWaitingForSource | PhStoppingSource | PhStarting | PhActive | PhFinished

record WorkflowQueueEntry =
  wq_sequence :: i64
  wq_run_id :: uuid
  wq_project_id :: uuid
  wq_phase :: queue_phase

text \<open>Of the other tables, the columns the queue reads or writes.\<close>

record workflow_run_row =
  wr_id :: uuid
  wr_issue_id :: uuid
  wr_status :: WorkflowRunStatus
  wr_started_at :: "sql_text option"
  wr_finished_at :: "sql_text option"
  wr_updated_at :: sql_text

record node_execution_row =
  nx_run_id :: uuid
  nx_status :: DbNodeExecutionStatus
  nx_arena_group_id :: "uuid option"
  nx_finished_at :: "sql_text option"

record project_slot =
  sl_project_id :: uuid
  sl_run_id :: uuid

record workflow_db =
  wdb_issues :: "(uuid \<times> uuid) list"
  wdb_runs :: "workflow_run_row list"
  wdb_queue :: "WorkflowQueueEntry list"
  wdb_last_sequence :: i64
  wdb_slots :: "project_slot list"
  wdb_nodes :: "node_execution_row list"

section \<open>Queue entries\<close>

definition unfinished_phases :: "queue_phase set" where
  "unfinished_phases = {PhQueued, PhWaitingForSource, PhStoppingSource, PhStarting, PhActive}"

definition waiting_phases :: "queue_phase set" where
  "waiting_phases = {PhQueued, PhWaitingForSource, PhStoppingSource}"

definition run_has_status :: "workflow_db \<Rightarrow> uuid \<Rightarrow> WorkflowRunStatus set \<Rightarrow> bool" where
  "run_has_status w i S \<longleftrightarrow> list_ex (\<lambda>r. wr_id r = i \<and> wr_status r \<in> S) (wdb_runs w)"

definition project_busy :: "workflow_db \<Rightarrow> WorkflowQueueEntry \<Rightarrow> bool" where
  "project_busy w q \<longleftrightarrow>
     list_ex (\<lambda>r. wr_id r \<noteq> wq_run_id q \<and>
       wr_status r \<in> {WrRunning, WrAwaitingHuman, WrAwaitingArena, WrCancelling} \<and>
       list_ex (\<lambda>i. fst i = wr_issue_id r \<and> snd i = wq_project_id q) (wdb_issues w)) (wdb_runs w)"

definition queue_claimable :: "workflow_db \<Rightarrow> WorkflowQueueEntry \<Rightarrow> bool" where
  "queue_claimable w q \<longleftrightarrow>
     wq_phase q = PhQueued \<and> run_has_status w (wq_run_id q) {WrPending} \<and>
     \<not> list_ex (\<lambda>s. sl_project_id s = wq_project_id q) (wdb_slots w) \<and>
     \<not> list_ex (\<lambda>e. wq_project_id e = wq_project_id q \<and> wq_sequence e < wq_sequence q \<and>
         wq_phase e \<in> unfinished_phases) (wdb_queue w) \<and>
     \<not> project_busy w q"

definition set_phase :: "(WorkflowQueueEntry \<Rightarrow> bool) \<Rightarrow> queue_phase \<Rightarrow> workflow_db \<Rightarrow> workflow_db" where
  "set_phase P ph w = w\<lparr>wdb_queue := update_where P (\<lambda>q. q\<lparr>wq_phase := ph\<rparr>) (wdb_queue w)\<rparr>"

definition queue_claim_next :: "workflow_db \<Rightarrow> (DbError + WorkflowQueueEntry option) \<times> workflow_db" where
  "queue_claim_next w =
     (case first_by wq_sequence (filter (queue_claimable w) (wdb_queue w)) of
        None \<Rightarrow> (Inr None, w)
      | Some q \<Rightarrow>
          if list_ex (\<lambda>s. sl_run_id s = wq_run_id q) (wdb_slots w)
          then (Inl (DbUnique ''workflow_project_slots.run_id''), w)
          else let w1 = w\<lparr>wdb_slots := wdb_slots w @ [\<lparr>sl_project_id = wq_project_id q, sl_run_id = wq_run_id q\<rparr>]\<rparr>;
                   hit = (\<lambda>e. wq_run_id e = wq_run_id q \<and> wq_phase e = PhQueued)
               in (Inr (map_option (\<lambda>e. e\<lparr>wq_phase := PhStarting\<rparr>) (find hit (wdb_queue w1))), set_phase hit PhStarting w1))"

definition finish_run :: "WorkflowRunStatus \<Rightarrow> sql_text \<Rightarrow> uuid \<Rightarrow> workflow_db \<Rightarrow> workflow_db" where
  "finish_run st now i w =
     w\<lparr>wdb_runs := update_where (\<lambda>r. wr_id r = i \<and> wr_status r = WrPending)
         (\<lambda>r. r\<lparr>wr_status := st, wr_finished_at := Some now, wr_updated_at := now\<rparr>) (wdb_runs w)\<rparr>"

definition cancel_pending_nodes :: "sql_text \<Rightarrow> uuid \<Rightarrow> workflow_db \<Rightarrow> workflow_db" where
  "cancel_pending_nodes now i w =
     w\<lparr>wdb_nodes := update_where (\<lambda>n. nx_run_id n = i \<and> nx_status n = NxPending)
         (\<lambda>n. n\<lparr>nx_status := NxCancelled, nx_finished_at := Some now\<rparr>) (wdb_nodes w)\<rparr>"

definition cancel_queued :: "sql_text \<Rightarrow> uuid \<Rightarrow> workflow_db \<Rightarrow> bool \<times> workflow_db" where
  "cancel_queued now i w =
     (let hit = (\<lambda>q. wq_run_id q = i \<and> wq_phase q \<in> waiting_phases \<and> run_has_status w i {WrPending});
          changed = (rows_affected hit (wdb_queue w) = 1);
          w1 = set_phase hit PhFinished w
      in (changed, if changed then cancel_pending_nodes now i (finish_run WrCanceled now i w1) else w1))"

text \<open>The runs a workflow run owns: itself and the arenas its nodes have opened.\<close>

definition owned_runs :: "uuid \<Rightarrow> 'v db \<Rightarrow> workflow_db \<Rightarrow> uuid list" where
  "owned_runs i d w =
     i # map or_id (filter (\<lambda>run. or_product_kind run = ''arena'' \<and>
           list_ex (\<lambda>n. nx_run_id n = i \<and> nx_arena_group_id n = Some (or_source_definition_id run)) (wdb_nodes w))
         (db_runs d))"

definition owned_agents :: "uuid \<Rightarrow> 'v db \<Rightarrow> workflow_db \<Rightarrow> uuid list" where
  "owned_agents i d w =
     map ol_agent_run_id (filter (\<lambda>l. ol_orchestration_run_id l \<in> set (owned_runs i d w)) (db_links d))"

text \<open>The three \<open>NOT EXISTS\<close> conditions of \<open>release_terminal\<close> on the children; a missing row counts as alive.\<close>

definition agent_run_alive :: "'v agent_db \<Rightarrow> uuid \<Rightarrow> bool" where
  "agent_run_alive a i \<longleftrightarrow>
     \<not> list_ex (\<lambda>s. ars_agent_run_id s = i) (adb_states a) \<or>
     list_ex (\<lambda>s. ars_agent_run_id s = i \<and> \<not> agent_terminal (ars_status s)) (adb_states a)"

definition agent_process_alive :: "'v agent_db \<Rightarrow> uuid \<Rightarrow> bool" where
  "agent_process_alive a i \<longleftrightarrow>
     list_ex (\<lambda>t. aa_agent_run_id t = i \<and>
       (\<not> list_ex (\<lambda>p. pr_run_attempt_id p = aa_id t) (adb_registry a) \<or>
        list_ex (\<lambda>p. pr_run_attempt_id p = aa_id t \<and> pr_registry_status p \<noteq> RegExited) (adb_registry a)))
       (adb_attempts a)"

definition undelivered_command :: "uuid list \<Rightarrow> 'v db \<Rightarrow> bool" where
  "undelivered_command runs d \<longleftrightarrow>
     list_ex (\<lambda>c. ob_orchestration_run_id c \<in> set runs \<and> ob_delivery_status c \<in> {DPending, DDelivering}) (db_outbox d)"

definition node_open :: "workflow_db \<Rightarrow> uuid \<Rightarrow> bool" where
  "node_open w i \<longleftrightarrow>
     list_ex (\<lambda>n. nx_run_id n = i \<and> nx_status n \<in> {NxRunning, NxCancelling, NxAwaitingHuman, NxAwaitingArena})
       (wdb_nodes w)"

definition run_settled :: "uuid \<Rightarrow> 'v db \<Rightarrow> 'v agent_db \<Rightarrow> workflow_db \<Rightarrow> bool" where
  "run_settled i d a w \<longleftrightarrow>
     run_has_status w i {WrSucceeded, WrFailed, WrCanceled} \<and>
     \<not> list_ex (agent_run_alive a) (owned_agents i d w) \<and> \<not> list_ex (agent_process_alive a) (owned_agents i d w) \<and>
     \<not> undelivered_command (owned_runs i d w) d \<and> \<not> node_open w i"

definition release_terminal :: "uuid \<Rightarrow> 'v db \<Rightarrow> 'v agent_db \<Rightarrow> workflow_db \<Rightarrow> bool \<times> workflow_db" where
  "release_terminal i d a w =
     (let hit = (\<lambda>s. sl_run_id s = i \<and> run_settled i d a w);
          released = (rows_affected hit (wdb_slots w) = 1);
          w1 = w\<lparr>wdb_slots := filter (\<lambda>s. \<not> hit s) (wdb_slots w)\<rparr>
      in (released, if released then set_phase (\<lambda>q. wq_run_id q = i) PhFinished w1 else w1))"

text \<open>
  What a submission that waits for another run asks about that run, a query of its own: each \<open>LEFT JOIN\<close> gives one row with
  nulls when nothing matches, which counts as alive.
\<close>

definition source_boundary_settled_in :: "uuid \<Rightarrow> 'v db \<Rightarrow> 'v agent_db \<Rightarrow> workflow_db \<Rightarrow> bool" where
  "source_boundary_settled_in i d a w \<longleftrightarrow>
     list_ex (\<lambda>r. wr_id r = i \<and> wr_status r \<in> {WrSucceeded, WrFailed, WrCanceled}) (wdb_runs w) \<and>
     \<not> list_ex (\<lambda>s. sl_run_id s = i) (wdb_slots w) \<and>
     \<not> list_ex (\<lambda>n. nx_run_id n = i \<and> nx_status n \<in> {NxRunning, NxCancelling, NxAwaitingHuman, NxAwaitingArena}) (wdb_nodes w) \<and>
     \<not> list_ex (\<lambda>l. ol_orchestration_run_id l \<in> set (owned_runs i d w) \<and>
         (let joined = filter (\<lambda>s. ars_agent_run_id s = ol_agent_run_id l) (adb_states a)
          in joined = [] \<or>
             list_ex (\<lambda>s. ars_status s \<notin> {ASucceeded, AFailed, ACancelled, ACrashed, AAuditFailed}) joined)) (db_links d) \<and>
     \<not> list_ex (\<lambda>l. ol_orchestration_run_id l \<in> set (owned_runs i d w) \<and>
         list_ex (\<lambda>t. aa_agent_run_id t = ol_agent_run_id l \<and>
           (let joined = filter (\<lambda>p. pr_run_attempt_id p = aa_id t) (adb_registry a)
            in joined = [] \<or> list_ex (\<lambda>p. pr_registry_status p \<noteq> RegExited) joined)) (adb_attempts a)) (db_links d) \<and>
     \<not> list_ex (\<lambda>c. ob_orchestration_run_id c \<in> set (owned_runs i d w) \<and> ob_delivery_status c \<in> {DPending, DDelivering}) (db_outbox d)"

lemma source_boundary_settled_iff:
  "source_boundary_settled_in i d a w \<longleftrightarrow> run_settled i d a w \<and> \<not> list_ex (\<lambda>s. sl_run_id s = i) (wdb_slots w)"
proof -
  have terminal: "agent_terminal st \<longleftrightarrow> st \<in> {ASucceeded, AFailed, ACancelled, ACrashed, AAuditFailed}" for st
    by (cases st) simp_all
  have runs: "(let joined = filter (\<lambda>s. ars_agent_run_id s = g) (adb_states a)
      in joined = [] \<or> list_ex (\<lambda>s. ars_status s \<notin> {ASucceeded, AFailed, ACancelled, ACrashed, AAuditFailed}) joined) \<longleftrightarrow>
    agent_run_alive a g" for g
    by (auto simp: agent_run_alive_def terminal list_ex_iff filter_empty_conv Let_def)
  have processes: "list_ex (\<lambda>t. aa_agent_run_id t = g \<and> (let joined = filter (\<lambda>p. pr_run_attempt_id p = aa_id t) (adb_registry a)
      in joined = [] \<or> list_ex (\<lambda>p. pr_registry_status p \<noteq> RegExited) joined)) (adb_attempts a) \<longleftrightarrow> agent_process_alive a g" for g
    by (fastforce simp: agent_process_alive_def list_ex_iff filter_empty_conv Let_def)
  have owned: "list_ex P (owned_agents i d w) \<longleftrightarrow>
      list_ex (\<lambda>l. ol_orchestration_run_id l \<in> set (owned_runs i d w) \<and> P (ol_agent_run_id l)) (db_links d)" for P
    by (auto simp: owned_agents_def list_ex_iff)
  show ?thesis
    unfolding source_boundary_settled_in_def runs processes
    by (auto simp: run_settled_def owned run_has_status_def undelivered_command_def node_open_def)
qed

section \<open>Acceptance, start and recovery\<close>

text \<open>
  Of \<open>initialize_workflow_run_in\<close>, the row of the run (\<open>ON CONFLICT(id) DO NOTHING\<close>) and, for a queued run that is
  new, the row of the queue; \<open>AUTOINCREMENT\<close> never reuses a sequence number. A run without a queue project runs at once.
\<close>

definition enqueue_run :: "uuid \<Rightarrow> uuid \<Rightarrow> queue_phase \<Rightarrow> workflow_db \<Rightarrow> DbError + workflow_db" where
  "enqueue_run i project ph w =
     (if list_ex (\<lambda>q. wq_run_id q = i) (wdb_queue w) then Inl (DbUnique ''workflow_run_queue.run_id'')
      else Inr (w\<lparr>wdb_queue := wdb_queue w @ [\<lparr>wq_sequence = wdb_last_sequence w + 1, wq_run_id = i,
                    wq_project_id = project, wq_phase = ph\<rparr>],
                  wdb_last_sequence := wdb_last_sequence w + 1\<rparr>))"

definition accept_run ::
  "sql_text \<Rightarrow> uuid \<Rightarrow> uuid \<Rightarrow> uuid option \<Rightarrow> queue_phase \<Rightarrow> workflow_db \<Rightarrow> DbError + workflow_db" where
  "accept_run now i issue project ph w =
     (if list_ex (\<lambda>r. wr_id r = i) (wdb_runs w) then Inr w
      else let w1 = w\<lparr>wdb_runs := wdb_runs w @ [\<lparr>wr_id = i, wr_issue_id = issue,
                        wr_status = (if project \<noteq> None then WrPending else WrRunning),
                        wr_started_at = (if project \<noteq> None then None else Some now), wr_finished_at = None,
                        wr_updated_at = now\<rparr>]\<rparr>
           in (case project of None \<Rightarrow> Inr w1 | Some p \<Rightarrow> enqueue_run i p ph w1))"

definition begin_start :: "sql_text \<Rightarrow> uuid \<Rightarrow> workflow_db \<Rightarrow> bool \<times> workflow_db" where
  "begin_start now i w =
     (let hit = (\<lambda>r. wr_id r = i \<and> wr_status r = WrPending \<and> list_ex (\<lambda>s. sl_run_id s = i) (wdb_slots w))
      in (rows_affected hit (wdb_runs w) \<noteq> 0,
          w\<lparr>wdb_runs := update_where hit
             (\<lambda>r. r\<lparr>wr_status := WrRunning,
                    wr_started_at := (case wr_started_at r of None \<Rightarrow> Some now | Some t \<Rightarrow> Some t),
                    wr_updated_at := now\<rparr>) (wdb_runs w)\<rparr>))"

definition mark_active :: "uuid \<Rightarrow> workflow_db \<Rightarrow> workflow_db" where
  "mark_active i = set_phase (\<lambda>q. wq_run_id q = i) PhActive"

definition mark_starting :: "uuid \<Rightarrow> workflow_db \<Rightarrow> workflow_db" where
  "mark_starting i = set_phase (\<lambda>q. wq_run_id q = i \<and> wq_phase q = PhActive) PhStarting"

definition rewind_running :: "uuid \<Rightarrow> workflow_db \<Rightarrow> workflow_db" where
  "rewind_running i w =
     w\<lparr>wdb_runs := update_where (\<lambda>r. wr_id r = i \<and> wr_status r = WrRunning) (\<lambda>r. r\<lparr>wr_status := WrPending\<rparr>) (wdb_runs w)\<rparr>"

definition mark_recovered :: "uuid \<Rightarrow> workflow_db \<Rightarrow> workflow_db" where
  "mark_recovered i w =
     set_phase (\<lambda>q. wq_run_id q = i \<and> wq_phase q = PhStarting \<and>
       run_has_status w i {WrRunning, WrAwaitingHuman, WrAwaitingArena, WrCancelling}) PhActive w"

definition update_run_status :: "sql_text \<Rightarrow> uuid \<Rightarrow> WorkflowRunStatus \<Rightarrow> bool \<Rightarrow> workflow_db \<Rightarrow> workflow_db" where
  "update_run_status now i st finished w =
     w\<lparr>wdb_runs := update_where
         (\<lambda>r. wr_id r = i \<and> wr_status r \<notin> {WrSucceeded, WrFailed, WrCanceled} \<and>
              (wr_status r \<notin> {WrCancelling, WrCanceled} \<or> st \<in> {WrCancelling, WrCanceled}))
         (\<lambda>r. r\<lparr>wr_status := st, wr_finished_at := (if finished then Some now else None), wr_updated_at := now\<rparr>)
         (wdb_runs w)\<rparr>"

text \<open>
  Of \<open>resolve_waiting_submissions\<close>, what it does to the queue when the plan is ready and when planning failed.
\<close>

definition mark_planned :: "uuid \<Rightarrow> workflow_db \<Rightarrow> workflow_db" where
  "mark_planned i w =
     set_phase (\<lambda>q. wq_run_id q = i \<and> wq_phase q \<in> {PhWaitingForSource, PhStoppingSource} \<and>
       run_has_status w i {WrPending}) PhQueued w"

definition mark_planning_failed :: "sql_text \<Rightarrow> uuid \<Rightarrow> workflow_db \<Rightarrow> workflow_db" where
  "mark_planning_failed now i w =
     set_phase (\<lambda>q. wq_run_id q = i \<and> wq_phase q \<in> waiting_phases) PhFinished (finish_run WrFailed now i w)"

section \<open>The dispatcher\<close>

record dispatcher =
  ds_db :: workflow_db
  ds_in_flight :: "uuid set"
  ds_releasing :: "uuid multiset"

definition is_starting :: "uuid \<Rightarrow> dispatcher \<Rightarrow> bool" where
  "is_starting i ds \<longleftrightarrow> i \<in> ds_in_flight ds"

text \<open>\<open>schedule\<close>: true when the task was spawned.\<close>

definition schedule :: "uuid \<Rightarrow> dispatcher \<Rightarrow> bool \<times> dispatcher" where
  "schedule i ds = (i \<notin> ds_in_flight ds, ds\<lparr>ds_in_flight := insert i (ds_in_flight ds)\<rparr>)"

definition recoverable :: "bool \<Rightarrow> workflow_db \<Rightarrow> uuid list" where
  "recoverable include_active w =
     map wq_run_id (filter (\<lambda>q. (wq_phase q = PhStarting \<or> (include_active \<and> wq_phase q = PhActive)) \<and>
       run_has_status w (wq_run_id q) {WrPending, WrRunning, WrAwaitingHuman, WrAwaitingArena}) (wdb_queue w))"

definition recover_starting :: "bool \<Rightarrow> dispatcher \<Rightarrow> dispatcher" where
  "recover_starting include_active ds = fold (\<lambda>i. snd \<circ> schedule i) (recoverable include_active (ds_db ds)) ds"

text \<open>The loop at the end of \<open>tick\<close>: claim and schedule until nothing can be claimed.\<close>

definition queued_count :: "workflow_db \<Rightarrow> nat" where
  "queued_count w = length (filter (\<lambda>q. wq_phase q = PhQueued) (wdb_queue w))"

definition with_phase :: "(WorkflowQueueEntry \<Rightarrow> bool) \<Rightarrow> queue_phase \<Rightarrow> WorkflowQueueEntry \<Rightarrow> WorkflowQueueEntry" where
  "with_phase P ph q = (if P q then q\<lparr>wq_phase := ph\<rparr> else q)"

lemma with_phase_simps [simp]:
  "wq_run_id (with_phase P ph q) = wq_run_id q" "wq_project_id (with_phase P ph q) = wq_project_id q"
  "wq_sequence (with_phase P ph q) = wq_sequence q" "wq_phase (with_phase P ph q) = (if P q then ph else wq_phase q)"
  by (simp_all add: with_phase_def)

lemma set_phase_simps [simp]:
  "wdb_slots (set_phase P ph w) = wdb_slots w" "wdb_runs (set_phase P ph w) = wdb_runs w"
  "wdb_issues (set_phase P ph w) = wdb_issues w" "wdb_nodes (set_phase P ph w) = wdb_nodes w"
  "wdb_last_sequence (set_phase P ph w) = wdb_last_sequence w"
  "wdb_queue (set_phase P ph w) = map (with_phase P ph) (wdb_queue w)"
  by (simp_all add: set_phase_def update_where_def with_phase_def cong: map_cong)

text \<open>A claim that hands out an entry.\<close>

lemma queue_claim_cases:
  assumes "queue_claim_next w = (r, w')"
  obtains (nothing_there) "r = Inr None" "w' = w" "\<And>q. q \<in> set (wdb_queue w) \<Longrightarrow> \<not> queue_claimable w q"
    | (slot_taken) q where "r = Inl (DbUnique ''workflow_project_slots.run_id'')" "w' = w" "q \<in> set (wdb_queue w)"
        "queue_claimable w q" "\<exists>s \<in> set (wdb_slots w). sl_run_id s = wq_run_id q"
    | (claimed) q e where "q \<in> set (wdb_queue w)" "queue_claimable w q"
        "\<And>p. p \<in> set (wdb_queue w) \<Longrightarrow> queue_claimable w p \<Longrightarrow> wq_sequence q \<le> wq_sequence p"
        "\<forall>s \<in> set (wdb_slots w). sl_run_id s \<noteq> wq_run_id q"
        "r = Inr (Some e)" "wq_run_id e = wq_run_id q"
        "w' = set_phase (\<lambda>p. wq_run_id p = wq_run_id q \<and> wq_phase p = PhQueued) PhStarting
           (w\<lparr>wdb_slots := wdb_slots w @ [\<lparr>sl_project_id = wq_project_id q, sl_run_id = wq_run_id q\<rparr>]\<rparr>)"
proof (cases "first_by wq_sequence (filter (queue_claimable w) (wdb_queue w))")
  case None
  then have "\<And>q. q \<in> set (wdb_queue w) \<Longrightarrow> \<not> queue_claimable w q"
    by (auto simp: first_by_None filter_empty_conv)
  with None assms nothing_there show ?thesis by (simp add: queue_claim_next_def)
next
  case (Some q)
  note q = first_by_Some [OF Some]
  show ?thesis
  proof (cases "\<exists>s \<in> set (wdb_slots w). sl_run_id s = wq_run_id q")
    case True
    then have "list_ex (\<lambda>s. sl_run_id s = wq_run_id q) (wdb_slots w)" by (simp add: list_ex_iff)
    with Some assms have "r = Inl (DbUnique ''workflow_project_slots.run_id'')" "w' = w"
      by (simp_all add: queue_claim_next_def)
    with True q slot_taken [of q] show ?thesis by simp
  next
    case False
    let ?hit = "\<lambda>p. wq_run_id p = wq_run_id q \<and> wq_phase p = PhQueued"
    have "\<not> list_ex (\<lambda>s. sl_run_id s = wq_run_id q) (wdb_slots w)" using False by (simp add: list_ex_iff)
    moreover from q have "wq_phase q = PhQueued" "q \<in> set (wdb_queue w)" by (simp_all add: queue_claimable_def)
    then obtain e where "find ?hit (wdb_queue w) = Some e"
      by (cases "find ?hit (wdb_queue w)") (auto simp: find_None)
    moreover from this have "?hit e" by (auto dest: find_SomeD)
    ultimately show ?thesis
      using Some assms q False claimed [of q "e\<lparr>wq_phase := PhStarting\<rparr>"] by (simp add: queue_claim_next_def Let_def)
  qed
qed

lemma queue_claim_less:
  assumes "queue_claim_next w = (Inr (Some e), w')"
  shows "queued_count w' < queued_count w"
  using assms
proof (cases rule: queue_claim_cases)
  case (claimed q e')
  have q: "wq_phase q = PhQueued" using claimed(2) by (simp add: queue_claimable_def)
  let ?g = "with_phase (\<lambda>p. wq_run_id p = wq_run_id q \<and> wq_phase p = PhQueued) PhStarting"
  have le: "length (filter (\<lambda>p. wq_phase p = PhQueued) (map ?g ys)) \<le> length (filter (\<lambda>p. wq_phase p = PhQueued) ys)" for ys
    by (induction ys) auto
  have "length (filter (\<lambda>p. wq_phase p = PhQueued) (map ?g xs)) < length (filter (\<lambda>p. wq_phase p = PhQueued) xs)"
    if "q \<in> set xs" for xs
    using that
  proof (induction xs)
    case (Cons x xs)
    show ?case using Cons q le [of xs] by (cases "x = q") (auto simp: less_Suc_eq_le)
  qed simp
  with claimed(1) show ?thesis by (simp add: queued_count_def claimed(7))
qed simp_all

function dispatch :: "dispatcher \<Rightarrow> (DbError + uuid list) \<times> dispatcher" where
  "dispatch ds =
     (case queue_claim_next (ds_db ds) of
        (Inl e, w) \<Rightarrow> (Inl e, ds\<lparr>ds_db := w\<rparr>)
      | (Inr None, w) \<Rightarrow> (Inr [], ds\<lparr>ds_db := w\<rparr>)
      | (Inr (Some q), w) \<Rightarrow>
          (case dispatch (snd (schedule (wq_run_id q) (ds\<lparr>ds_db := w\<rparr>))) of
             (r, ds') \<Rightarrow> (map_sum id ((#) (wq_run_id q)) r, ds')))"
  by pat_completeness auto
termination
  by (relation "measure (\<lambda>ds. queued_count (ds_db ds))") (auto simp: schedule_def dest: queue_claim_less [OF sym])

declare dispatch.simps [simp del]

end
