(* ===== verification/Queue_Order.thy ===== *)
theory Queue_Order
  imports Workflow_Queue Agent_Runtime
begin

text \<open>
  What the queue of workflow runs promises: the invariant of queue, slots and runs in flight, the steps that can be taken
  in any order, the result of the claim loop, and the properties.
\<close>

section \<open>The invariant\<close>

definition holding :: "queue_phase set" where
  "holding = {PhStarting, PhActive}"

definition queue_keys :: "WorkflowQueueEntry list \<Rightarrow> i64 \<Rightarrow> bool" where
  "queue_keys Q n \<longleftrightarrow> distinct (map wq_run_id Q) \<and> distinct (map wq_sequence Q) \<and> (\<forall>q \<in> set Q. wq_sequence q \<le> n)"

text \<open>The slots are those of the entries that are being started or are active, one for each.\<close>

definition slot_of :: "WorkflowQueueEntry \<Rightarrow> project_slot" where
  "slot_of q = \<lparr>sl_project_id = wq_project_id q, sl_run_id = wq_run_id q\<rparr>"

lemma slot_of_simps [simp]:
  "sl_project_id (slot_of q) = wq_project_id q" "sl_run_id (slot_of q) = wq_run_id q"
  "slot_of (with_phase P ph q) = slot_of q"
  by (simp_all add: slot_of_def)

definition slots_match :: "WorkflowQueueEntry list \<Rightarrow> project_slot list \<Rightarrow> bool" where
  "slots_match Q S \<longleftrightarrow> distinct (map sl_project_id S) \<and> distinct (map sl_run_id S) \<and>
     set S = slot_of ` {q \<in> set Q. wq_phase q \<in> holding}"

definition in_order :: "WorkflowQueueEntry list \<Rightarrow> bool" where
  "in_order Q \<longleftrightarrow>
     (\<forall>q \<in> set Q. \<forall>e \<in> set Q. wq_phase q \<in> holding \<longrightarrow> wq_project_id e = wq_project_id q \<longrightarrow>
        wq_sequence e < wq_sequence q \<longrightarrow> wq_phase e = PhFinished)"

lemma in_orderD:
  "in_order Q \<Longrightarrow> q \<in> set Q \<Longrightarrow> e \<in> set Q \<Longrightarrow> wq_phase q \<in> holding \<Longrightarrow> wq_project_id e = wq_project_id q \<Longrightarrow>
    wq_sequence e < wq_sequence q \<Longrightarrow> wq_phase e = PhFinished"
  unfolding in_order_def by blast

definition queue_ok :: "dispatcher \<Rightarrow> bool" where
  "queue_ok ds \<longleftrightarrow>
     queue_keys (wdb_queue (ds_db ds)) (wdb_last_sequence (ds_db ds)) \<and>
     slots_match (wdb_queue (ds_db ds)) (wdb_slots (ds_db ds)) \<and> in_order (wdb_queue (ds_db ds)) \<and>
     ds_in_flight ds \<subseteq> sl_run_id ` set (wdb_slots (ds_db ds))"

lemma queue_same_run:
  "queue_ok ds \<Longrightarrow> p \<in> set (wdb_queue (ds_db ds)) \<Longrightarrow> q \<in> set (wdb_queue (ds_db ds)) \<Longrightarrow>
    wq_run_id p = wq_run_id q \<Longrightarrow> p = q"
  by (auto simp: queue_ok_def queue_keys_def distinct_map dest: inj_onD)

lemma slot_holder:
  assumes "queue_ok ds" "s \<in> set (wdb_slots (ds_db ds))"
  obtains q where "q \<in> set (wdb_queue (ds_db ds))" "wq_phase q \<in> holding" "s = slot_of q"
  using assms unfolding queue_ok_def slots_match_def by blast

lemma holder_has_slot:
  "queue_ok ds \<Longrightarrow> q \<in> set (wdb_queue (ds_db ds)) \<Longrightarrow> wq_phase q \<in> holding \<Longrightarrow> slot_of q \<in> set (wdb_slots (ds_db ds))"
  unfolding queue_ok_def slots_match_def by blast

text \<open>A run with a slot, in particular one that is being started, holds it.\<close>

lemma slot_run_holds:
  assumes "queue_ok ds" "i \<in> sl_run_id ` set (wdb_slots (ds_db ds))" "q \<in> set (wdb_queue (ds_db ds))" "wq_run_id q = i"
  shows "wq_phase q \<in> holding"
proof -
  from assms(2) obtain s where s: "s \<in> set (wdb_slots (ds_db ds))" "sl_run_id s = i" by blast
  with slot_holder [OF assms(1) s(1)] obtain h where h: "h \<in> set (wdb_queue (ds_db ds))" "wq_phase h \<in> holding" "s = slot_of h"
    by blast
  with s assms(4) have "h = q" by (intro queue_same_run [OF assms(1) h(1) assms(3)]) simp
  with h show ?thesis by simp
qed

lemma in_flight_holds:
  "queue_ok ds \<Longrightarrow> i \<in> ds_in_flight ds \<Longrightarrow> q \<in> set (wdb_queue (ds_db ds)) \<Longrightarrow> wq_run_id q = i \<Longrightarrow>
    wq_phase q \<in> holding"
  by (rule slot_run_holds [where i = i]) (auto simp: queue_ok_def)

lemma queue_ok_frame:
  assumes "queue_ok ds" "wdb_queue w = wdb_queue (ds_db ds)" "wdb_last_sequence w = wdb_last_sequence (ds_db ds)"
    "wdb_slots w = wdb_slots (ds_db ds)"
  shows "queue_ok (ds\<lparr>ds_db := w\<rparr>)"
  using assms by (simp add: queue_ok_def)

text \<open>
  A change of phases is harmless when it neither takes nor gives up a slot and when a finished entry stays finished.
\<close>

definition same_slots :: "(WorkflowQueueEntry \<Rightarrow> bool) \<Rightarrow> queue_phase \<Rightarrow> WorkflowQueueEntry list \<Rightarrow> bool" where
  "same_slots P ph Q \<longleftrightarrow>
     (\<forall>q \<in> set Q. P q \<longrightarrow> (wq_phase q \<in> holding \<longleftrightarrow> ph \<in> holding) \<and> (wq_phase q = PhFinished \<longrightarrow> ph = PhFinished))"

lemma with_phase_holding:
  assumes "same_slots P ph Q" "q \<in> set Q"
  shows "wq_phase (with_phase P ph q) \<in> holding \<longleftrightarrow> wq_phase q \<in> holding"
    and "wq_phase q = PhFinished \<Longrightarrow> wq_phase (with_phase P ph q) = PhFinished"
  using assms by (auto simp: same_slots_def)

lemma slots_match_set_phase:
  assumes "same_slots P ph Q"
  shows "slots_match (map (with_phase P ph) Q) S \<longleftrightarrow> slots_match Q S"
proof -
  have "{q \<in> set (map (with_phase P ph) Q). wq_phase q \<in> holding} = with_phase P ph ` {q \<in> set Q. wq_phase q \<in> holding}"
    using with_phase_holding(1) [OF assms] by (auto simp del: with_phase_simps)
  then have "slot_of ` {q \<in> set (map (with_phase P ph) Q). wq_phase q \<in> holding} =
      slot_of ` {q \<in> set Q. wq_phase q \<in> holding}"
    by (simp only: image_image slot_of_simps)
  then show ?thesis by (simp add: slots_match_def)
qed

lemma queue_keys_set_phase [simp]: "queue_keys (map (with_phase P ph) Q) n = queue_keys Q n"
  by (simp add: queue_keys_def comp_def)

lemma in_order_set_phase:
  assumes P: "same_slots P ph Q" and ord: "in_order Q"
  shows "in_order (map (with_phase P ph) Q)"
  unfolding in_order_def
proof (intro ballI impI)
  fix q' e'
  assume q': "q' \<in> set (map (with_phase P ph) Q)" "wq_phase q' \<in> holding"
    and e': "e' \<in> set (map (with_phase P ph) Q)"
    and less: "wq_project_id e' = wq_project_id q'" "wq_sequence e' < wq_sequence q'"
  from q'(1) e' obtain q e where qe: "q \<in> set Q" "q' = with_phase P ph q" "e \<in> set Q" "e' = with_phase P ph e"
    unfolding set_map by blast
  with q'(2) less have "wq_phase q \<in> holding" "wq_project_id e = wq_project_id q" "wq_sequence e < wq_sequence q"
    by (simp_all add: with_phase_holding(1) [OF P] del: with_phase_simps(4))
  then have "wq_phase e = PhFinished" by (rule in_orderD [OF ord qe(1,3)])
  with qe show "wq_phase e' = PhFinished" by (simp add: with_phase_holding(2) [OF P] del: with_phase_simps(4))
qed

lemma queue_ok_set_phase:
  assumes ok: "queue_ok ds" and P: "same_slots P ph (wdb_queue (ds_db ds))"
  shows "queue_ok (ds\<lparr>ds_db := set_phase P ph (ds_db ds)\<rparr>)"
  using ok by (simp add: queue_ok_def slots_match_set_phase [OF P] in_order_set_phase [OF P])

text \<open>Acceptance appends an entry that waits, with the largest sequence number.\<close>

lemma queue_ok_accept:
  assumes ok: "queue_ok ds" and acc: "accept_run now i issue project ph (ds_db ds) = Inr w" and ph: "ph \<in> waiting_phases"
  shows "queue_ok (ds\<lparr>ds_db := w\<rparr>)"
proof -
  let ?Q = "wdb_queue (ds_db ds)" and ?n = "wdb_last_sequence (ds_db ds)"
  from acc consider "wdb_queue w = ?Q" "wdb_last_sequence w = ?n" "wdb_slots w = wdb_slots (ds_db ds)"
    | p where "wdb_queue w = ?Q @ [\<lparr>wq_sequence = ?n + 1, wq_run_id = i, wq_project_id = p, wq_phase = ph\<rparr>]"
        "wdb_last_sequence w = ?n + 1" "wdb_slots w = wdb_slots (ds_db ds)" "\<forall>q \<in> set ?Q. wq_run_id q \<noteq> i"
  proof (cases "list_ex (\<lambda>r. wr_id r = i) (wdb_runs (ds_db ds)) \<or> project = None")
    case True
    with acc that(1) show ?thesis by (auto simp: accept_run_def enqueue_run_def Let_def split: if_splits)
  next
    case False
    then obtain p where "project = Some p" by blast
    with False acc that(2) [of p] show ?thesis
      by (auto simp: accept_run_def enqueue_run_def Let_def list_ex_iff split: if_splits)
  qed
  then show ?thesis
  proof cases
    case 1
    with ok show ?thesis by (intro queue_ok_frame)
  next
    case (2 p)
    let ?q = "\<lparr>wq_sequence = ?n + 1, wq_run_id = i, wq_project_id = p, wq_phase = ph\<rparr>"
    have nh: "ph \<notin> holding" using ph by (auto simp: holding_def waiting_phases_def)
    have keys: "queue_keys ?Q ?n" "slots_match ?Q (wdb_slots (ds_db ds))" "in_order ?Q" using ok by (simp_all add: queue_ok_def)
    have "queue_keys (?Q @ [?q]) (?n + 1)" using keys(1) 2(4) by (fastforce simp: queue_keys_def)
    moreover have "{q \<in> set (?Q @ [?q]). wq_phase q \<in> holding} = {q \<in> set ?Q. wq_phase q \<in> holding}" using nh by auto
    then have "slots_match (?Q @ [?q]) (wdb_slots (ds_db ds))" using keys(2) by (simp add: slots_match_def)
    moreover have "in_order (?Q @ [?q])"
      unfolding in_order_def
    proof (intro ballI impI)
      fix h e
      assume h: "h \<in> set (?Q @ [?q])" "wq_phase h \<in> holding" and e: "e \<in> set (?Q @ [?q])"
        and less: "wq_project_id e = wq_project_id h" "wq_sequence e < wq_sequence h"
      from h nh have hQ: "h \<in> set ?Q" by auto
      with keys(1) less(2) have "wq_sequence e \<noteq> ?n + 1" by (fastforce simp: queue_keys_def)
      with e have "e \<in> set ?Q" by auto
      from keys(3) hQ this h(2) less show "wq_phase e = PhFinished" by (rule in_orderD)
    qed
    ultimately show ?thesis using ok by (simp add: queue_ok_def 2)
  qed
qed

text \<open>A claim takes a free slot for the oldest unfinished entry of a project.\<close>

lemma queue_ok_claim:
  assumes ok: "queue_ok ds" and claim: "queue_claim_next (ds_db ds) = (r, w)"
  shows "(\<exists>e. r = Inr e) \<and> queue_ok (ds\<lparr>ds_db := w\<rparr>)"
  using claim
proof (cases rule: queue_claim_cases)
  case nothing_there
  with ok show ?thesis by simp
next
  case (slot_taken q)
  then obtain s where "s \<in> set (wdb_slots (ds_db ds))" "sl_run_id s = wq_run_id q" by blast
  then have "wq_phase q \<in> holding" using slot_run_holds [OF ok _ slot_taken(3)] by force
  with slot_taken(4) show ?thesis by (simp add: queue_claimable_def holding_def)
next
  case (claimed q e)
  let ?Q = "wdb_queue (ds_db ds)" and ?S = "wdb_slots (ds_db ds)"
  let ?P = "\<lambda>p. wq_run_id p = wq_run_id q \<and> wq_phase p = PhQueued"
  have q: "wq_phase q = PhQueued" "\<forall>s \<in> set ?S. sl_project_id s \<noteq> wq_project_id q"
    "\<forall>p \<in> set ?Q. wq_project_id p = wq_project_id q \<longrightarrow> wq_sequence p < wq_sequence q \<longrightarrow> wq_phase p \<notin> unfinished_phases"
    using claimed(2) by (auto simp: queue_claimable_def list_ex_iff)
  have only: "?P p \<longleftrightarrow> p = q" if "p \<in> set ?Q" for p
    using queue_same_run [OF ok that claimed(1)] q(1) by auto
  have hp: "wq_phase (with_phase ?P PhStarting p) \<in> holding \<longleftrightarrow> p = q \<or> wq_phase p \<in> holding" if "p \<in> set ?Q" for p
    using only [OF that] by (simp add: holding_def)
  have hold: "{p \<in> set (map (with_phase ?P PhStarting) ?Q). wq_phase p \<in> holding} =
      with_phase ?P PhStarting ` insert q {p \<in> set ?Q. wq_phase p \<in> holding}"
    using hp claimed(1) by (auto simp del: with_phase_simps(4))
  have old: "queue_keys ?Q (wdb_last_sequence (ds_db ds))" "slots_match ?Q ?S" "in_order ?Q" using ok by (simp_all add: queue_ok_def)
  have "slots_match (map (with_phase ?P PhStarting) ?Q) (?S @ [slot_of q])"
    using old(2) q(2) claimed(4) unfolding slots_match_def hold by (auto simp: image_image)
  moreover have "in_order (map (with_phase ?P PhStarting) ?Q)"
    unfolding in_order_def
  proof (intro ballI impI)
    fix p' e'
    assume p': "p' \<in> set (map (with_phase ?P PhStarting) ?Q)" "wq_phase p' \<in> holding"
      and e': "e' \<in> set (map (with_phase ?P PhStarting) ?Q)"
      and less: "wq_project_id e' = wq_project_id p'" "wq_sequence e' < wq_sequence p'"
    from p'(1) e' obtain p d where pd: "p \<in> set ?Q" "p' = with_phase ?P PhStarting p" "d \<in> set ?Q" "e' = with_phase ?P PhStarting d"
      unfolding set_map by blast
    have ls: "wq_project_id d = wq_project_id p" "wq_sequence d < wq_sequence p" using less pd by simp_all
    have fin: "wq_phase d = PhFinished"
    proof (cases "p = q")
      case True
      with q(3) pd(3) ls have "wq_phase d \<notin> unfinished_phases" by blast
      then show ?thesis by (cases "wq_phase d") (simp_all add: unfinished_phases_def)
    next
      case False
      with p'(2) pd hp have "wq_phase p \<in> holding" by blast
      then show ?thesis using ls by (rule in_orderD [OF old(3) pd(1,3)])
    qed
    then have "\<not> ?P d" by simp
    with fin pd(4) show "wq_phase e' = PhFinished" by simp
  qed
  ultimately show ?thesis
    using ok claimed(5,7) by (auto simp: queue_ok_def slot_of_def)
qed

text \<open>A release removes at most one slot, and only that of the run.\<close>

lemma release_terminal_cases:
  assumes ok: "queue_ok ds" and rel: "release_terminal i d a (ds_db ds) = (r, w)"
  obtains (kept) "\<not> r" "w = ds_db ds" "i \<in> sl_run_id ` set (wdb_slots (ds_db ds)) \<longrightarrow> \<not> run_settled i d a (ds_db ds)"
    | (released) "r" "run_settled i d a (ds_db ds)" "i \<in> sl_run_id ` set (wdb_slots (ds_db ds))"
        "w = set_phase (\<lambda>q. wq_run_id q = i) PhFinished
           ((ds_db ds)\<lparr>wdb_slots := filter (\<lambda>s. sl_run_id s \<noteq> i) (wdb_slots (ds_db ds))\<rparr>)"
proof -
  let ?S = "wdb_slots (ds_db ds)"
  have d: "distinct (map sl_run_id ?S)" using ok by (simp add: queue_ok_def slots_match_def)
  show ?thesis
  proof (cases "run_settled i d a (ds_db ds) \<and> i \<in> sl_run_id ` set ?S")
    case True
    then have "rows_affected (\<lambda>s. sl_run_id s = i \<and> run_settled i d a (ds_db ds)) ?S = 1"
      by (subst rows_affected_one [OF d]) auto
    with True rel released show ?thesis by (auto simp: release_terminal_def Let_def)
  next
    case False
    then have "filter (\<lambda>s. sl_run_id s = i \<and> run_settled i d a (ds_db ds)) ?S = []"
      by (auto simp: filter_empty_conv)
    moreover from False have "filter (\<lambda>s. \<not> (sl_run_id s = i \<and> run_settled i d a (ds_db ds))) ?S = ?S"
      by (auto simp: filter_id_conv)
    ultimately have "\<not> r \<and> w = ds_db ds" using rel by (auto simp: release_terminal_def rows_affected_def Let_def)
    with False kept show ?thesis by blast
  qed
qed

lemma queue_ok_release:
  assumes ok: "queue_ok ds" and rel: "release_terminal i d a (ds_db ds) = (r, w)" and idle: "\<not> is_starting i ds"
  shows "queue_ok (ds\<lparr>ds_db := w\<rparr>)"
  using ok rel
proof (cases rule: release_terminal_cases)
  case kept
  with ok show ?thesis by simp
next
  case released
  let ?Q = "wdb_queue (ds_db ds)" and ?S = "wdb_slots (ds_db ds)" and ?f = "with_phase (\<lambda>q. wq_run_id q = i) PhFinished"
  have old: "queue_keys ?Q (wdb_last_sequence (ds_db ds))" "slots_match ?Q ?S" "in_order ?Q" using ok by (simp_all add: queue_ok_def)
  have hp: "wq_phase (?f q) \<in> holding \<longleftrightarrow> wq_run_id q \<noteq> i \<and> wq_phase q \<in> holding" for q by (simp add: holding_def)
  have "slot_of ` {q \<in> set (map ?f ?Q). wq_phase q \<in> holding} = slot_of ` {q \<in> set ?Q. wq_run_id q \<noteq> i \<and> wq_phase q \<in> holding}"
  proof -
    have "{q \<in> set (map ?f ?Q). wq_phase q \<in> holding} = ?f ` {q \<in> set ?Q. wq_run_id q \<noteq> i \<and> wq_phase q \<in> holding}"
      using hp by (auto simp del: with_phase_simps(4))
    then show ?thesis by (simp only: image_image slot_of_simps)
  qed
  also have "\<dots> = set (filter (\<lambda>s. sl_run_id s \<noteq> i) ?S)"
    using old(2) by (auto simp: slots_match_def)
  finally have "slots_match (map ?f ?Q) (filter (\<lambda>s. sl_run_id s \<noteq> i) ?S)"
    using old(2) by (simp add: slots_match_def distinct_map_filter)
  moreover have "in_order (map ?f ?Q)"
    unfolding in_order_def
  proof (intro ballI impI)
    fix h' e'
    assume h': "h' \<in> set (map ?f ?Q)" "wq_phase h' \<in> holding" and e': "e' \<in> set (map ?f ?Q)"
      and less: "wq_project_id e' = wq_project_id h'" "wq_sequence e' < wq_sequence h'"
    from h'(1) e' obtain h e where he: "h \<in> set ?Q" "h' = ?f h" "e \<in> set ?Q" "e' = ?f e" unfolding set_map by blast
    with h'(2) less hp have "wq_phase h \<in> holding" "wq_project_id e = wq_project_id h" "wq_sequence e < wq_sequence h"
      by simp_all
    then have "wq_phase e = PhFinished" by (rule in_orderD [OF old(3) he(1,3)])
    with he show "wq_phase e' = PhFinished" by simp
  qed
  moreover have "ds_in_flight ds \<subseteq> sl_run_id ` set (filter (\<lambda>s. sl_run_id s \<noteq> i) ?S)"
    using ok idle unfolding is_starting_def queue_ok_def by fastforce
  ultimately show ?thesis using old(1) released(4) by (simp add: queue_ok_def)
qed

section \<open>The steps of the dispatcher and of the tasks it starts\<close>

text \<open>
  Requests accept, cancel and stop runs, the dispatcher claims, recovers and releases, a start task (which is in flight)
  begins its run and marks it, anything may record a status, and the process may be restarted at any moment. The
  dispatcher and a stop request test whether a run is in flight and release it in a later step.
\<close>

inductive queue_step :: "dispatcher \<Rightarrow> dispatcher \<Rightarrow> bool" where
  accepted: "accept_run now i issue project ph (ds_db ds) = Inr w \<Longrightarrow> ph \<in> waiting_phases \<Longrightarrow> queue_step ds (ds\<lparr>ds_db := w\<rparr>)"
| claimed: "queue_claim_next (ds_db ds) = (r, w) \<Longrightarrow> queue_step ds (ds\<lparr>ds_db := w\<rparr>)"
| spawned: "q \<in> set (wdb_queue (ds_db ds)) \<Longrightarrow> wq_phase q = PhStarting \<Longrightarrow> queue_step ds (snd (schedule (wq_run_id q) ds))"
| recovered: "queue_step ds (recover_starting include_active ds)"
| begun: "is_starting i ds \<Longrightarrow> begin_start now i (ds_db ds) = (b, w) \<Longrightarrow> queue_step ds (ds\<lparr>ds_db := w\<rparr>)"
| activated: "is_starting i ds \<Longrightarrow> queue_step ds (ds\<lparr>ds_db := mark_active i (ds_db ds)\<rparr>)"
| restarting: "is_starting i ds \<Longrightarrow> queue_step ds (ds\<lparr>ds_db := mark_starting i (ds_db ds)\<rparr>)"
| rewound: "is_starting i ds \<Longrightarrow> queue_step ds (ds\<lparr>ds_db := rewind_running i (ds_db ds)\<rparr>)"
| resumed: "is_starting i ds \<Longrightarrow> queue_step ds (ds\<lparr>ds_db := mark_recovered i (ds_db ds)\<rparr>)"
| started: "queue_step ds (ds\<lparr>ds_in_flight := ds_in_flight ds - {i}\<rparr>)"
| status_recorded: "queue_step ds (ds\<lparr>ds_db := update_run_status now i st finished (ds_db ds)\<rparr>)"
| cancelled: "cancel_queued now i (ds_db ds) = (b, w) \<Longrightarrow> queue_step ds (ds\<lparr>ds_db := w\<rparr>)"
| planned: "queue_step ds (ds\<lparr>ds_db := mark_planned i (ds_db ds)\<rparr>)"
| planning_failed: "queue_step ds (ds\<lparr>ds_db := mark_planning_failed now i (ds_db ds)\<rparr>)"
| release_tested: "\<not> is_starting i ds \<Longrightarrow> queue_step ds (ds\<lparr>ds_releasing := add_mset i (ds_releasing ds)\<rparr>)"
| released: "i \<in># ds_releasing ds \<Longrightarrow> release_terminal i (d :: sql_text db) a (ds_db ds) = (b, w) \<Longrightarrow> queue_step ds (ds\<lparr>ds_db := w\<rparr>)"
| nodes_moved: "queue_step ds (ds\<lparr>ds_db := (ds_db ds)\<lparr>wdb_nodes := ns, wdb_issues := js\<rparr>\<rparr>)"
| release_over: "queue_step ds (ds\<lparr>ds_releasing := ds_releasing ds - {#i#}\<rparr>)"
| process_restarted: "queue_step ds (ds\<lparr>ds_in_flight := {}, ds_releasing := {#}\<rparr>)"

text \<open>
  An orderly step schedules no run that has passed the test and whose release is still to come. (The dispatcher's own
  test and release cannot be interrupted by its own scheduling; a stop request's can.)
\<close>

definition orderly_queue_step :: "dispatcher \<Rightarrow> dispatcher \<Rightarrow> bool" where
  "orderly_queue_step ds ds' \<longleftrightarrow> queue_step ds ds' \<and> (\<forall>i \<in># ds_releasing ds. i \<in> ds_in_flight ds' \<longrightarrow> i \<in> ds_in_flight ds)"

definition releases_apart :: "dispatcher \<Rightarrow> bool" where
  "releases_apart ds \<longleftrightarrow> ds_in_flight ds \<inter> set_mset (ds_releasing ds) = {}"

definition queue_empty :: "dispatcher \<Rightarrow> bool" where
  "queue_empty ds \<longleftrightarrow> wdb_queue (ds_db ds) = [] \<and> wdb_slots (ds_db ds) = [] \<and> ds_in_flight ds = {} \<and> ds_releasing ds = {#}"

lemma queue_ok_releasing [simp]: "queue_ok (ds\<lparr>ds_releasing := R\<rparr>) = queue_ok ds"
  by (simp add: queue_ok_def)

lemma queue_ok_in_flight:
  "queue_ok ds \<Longrightarrow> F \<subseteq> ds_in_flight ds \<union> sl_run_id ` set (wdb_slots (ds_db ds)) \<Longrightarrow> queue_ok (ds\<lparr>ds_in_flight := F\<rparr>)"
  by (auto simp: queue_ok_def)

lemma queue_ok_schedule:
  assumes "queue_ok ds" "q \<in> set (wdb_queue (ds_db ds))" "wq_phase q \<in> holding"
  shows "queue_ok (snd (schedule (wq_run_id q) ds))"
proof -
  have "wq_run_id q \<in> sl_run_id ` set (wdb_slots (ds_db ds))"
    using holder_has_slot [OF assms] by (metis imageI slot_of_simps(2))
  with assms(1) show ?thesis unfolding schedule_def snd_conv by (intro queue_ok_in_flight) auto
qed

lemma queue_ok_recover_starting:
  assumes "queue_ok ds"
  shows "queue_ok (recover_starting b ds)"
proof -
  have "queue_ok (fold (\<lambda>i. snd \<circ> schedule i) (map wq_run_id qs) ds)"
    if "queue_ok ds" "set qs \<subseteq> {q \<in> set (wdb_queue (ds_db ds)). wq_phase q \<in> holding}" for qs ds
    using that
  proof (induction qs arbitrary: ds)
    case (Cons q qs)
    then have "queue_ok (snd (schedule (wq_run_id q) ds))" by (intro queue_ok_schedule) auto
    with Cons show ?case by (simp add: schedule_def)
  qed simp
  note scheduled = this [OF assms]
  show ?thesis unfolding recover_starting_def recoverable_def
    by (rule scheduled) (auto simp: holding_def)
qed

lemma queue_ok_phase_step:
  assumes "queue_ok ds"
  shows "is_starting i ds \<Longrightarrow> queue_ok (ds\<lparr>ds_db := mark_active i (ds_db ds)\<rparr>)"
    and "queue_ok (ds\<lparr>ds_db := mark_starting i (ds_db ds)\<rparr>)"
    and "queue_ok (ds\<lparr>ds_db := mark_recovered i (ds_db ds)\<rparr>)"
    and "queue_ok (ds\<lparr>ds_db := mark_planned i (ds_db ds)\<rparr>)"
proof -
  show "queue_ok (ds\<lparr>ds_db := mark_active i (ds_db ds)\<rparr>)" if "is_starting i ds"
  proof -
    have "same_slots (\<lambda>q. wq_run_id q = i) PhActive (wdb_queue (ds_db ds))"
      unfolding same_slots_def
    proof (intro ballI impI)
      fix q assume "q \<in> set (wdb_queue (ds_db ds))" "wq_run_id q = i"
      with that assms have "wq_phase q \<in> holding" by (intro in_flight_holds) (simp_all add: is_starting_def)
      then show "(wq_phase q \<in> holding \<longleftrightarrow> PhActive \<in> holding) \<and> (wq_phase q = PhFinished \<longrightarrow> PhActive = PhFinished)"
        by (auto simp: holding_def)
    qed
    with assms show ?thesis unfolding mark_active_def by (rule queue_ok_set_phase)
  qed
  show "queue_ok (ds\<lparr>ds_db := mark_starting i (ds_db ds)\<rparr>)"
    unfolding mark_starting_def by (rule queue_ok_set_phase [OF assms]) (auto simp: same_slots_def holding_def)
  show "queue_ok (ds\<lparr>ds_db := mark_recovered i (ds_db ds)\<rparr>)"
    unfolding mark_recovered_def by (rule queue_ok_set_phase [OF assms]) (auto simp: same_slots_def holding_def)
  show "queue_ok (ds\<lparr>ds_db := mark_planned i (ds_db ds)\<rparr>)"
    unfolding mark_planned_def by (rule queue_ok_set_phase [OF assms]) (auto simp: same_slots_def holding_def)
qed

lemma queue_ok_finish_waiting:
  assumes "queue_ok ds" "\<And>q. P q \<Longrightarrow> wq_phase q \<in> waiting_phases"
  shows "queue_ok (ds\<lparr>ds_db := set_phase P PhFinished (ds_db ds)\<rparr>)"
  using assms(1)
  by (rule queue_ok_set_phase) (use assms(2) in \<open>force simp: same_slots_def holding_def waiting_phases_def\<close>)

lemma queue_ok_cancel:
  assumes "queue_ok ds" "cancel_queued now i (ds_db ds) = (b, w)"
  shows "queue_ok (ds\<lparr>ds_db := w\<rparr>)"
proof -
  let ?P = "\<lambda>q. wq_run_id q = i \<and> wq_phase q \<in> waiting_phases \<and> run_has_status (ds_db ds) i {WrPending}"
  have ok: "queue_ok (ds\<lparr>ds_db := set_phase ?P PhFinished (ds_db ds)\<rparr>)" using assms(1) by (rule queue_ok_finish_waiting) simp
  have "queue_ok (ds\<lparr>ds_db := set_phase ?P PhFinished (ds_db ds), ds_db := w\<rparr>)"
    using assms(2) by (intro queue_ok_frame [OF ok])
      (auto simp: cancel_queued_def Let_def cancel_pending_nodes_def finish_run_def split: if_splits)
  then show ?thesis by simp
qed

lemma queue_ok_planning_failed:
  assumes "queue_ok ds"
  shows "queue_ok (ds\<lparr>ds_db := mark_planning_failed now i (ds_db ds)\<rparr>)"
proof -
  have "queue_ok (ds\<lparr>ds_db := finish_run WrFailed now i (ds_db ds)\<rparr>)"
    using assms by (rule queue_ok_frame) (simp_all add: finish_run_def)
  from queue_ok_finish_waiting [OF this, of "\<lambda>q. wq_run_id q = i \<and> wq_phase q \<in> waiting_phases"]
  show ?thesis by (simp add: mark_planning_failed_def)
qed

lemma queue_ok_step:
  assumes "queue_step ds ds'" "queue_ok ds" "releases_apart ds"
  shows "queue_ok ds'"
  using assms
proof (induction rule: queue_step.induct)
  case accepted then show ?case by (intro queue_ok_accept)
next
  case claimed then show ?case by (blast dest: queue_ok_claim)
next
  case spawned then show ?case by (intro queue_ok_schedule) (simp_all add: holding_def)
next
  case recovered then show ?case by (intro queue_ok_recover_starting)
next
  case begun then show ?case by (intro queue_ok_frame) (auto simp: begin_start_def Let_def)
next
  case activated then show ?case by (intro queue_ok_phase_step)
next
  case restarting then show ?case by (intro queue_ok_phase_step)
next
  case rewound then show ?case by (intro queue_ok_frame) (auto simp: rewind_running_def)
next
  case resumed then show ?case by (intro queue_ok_phase_step)
next
  case started then show ?case by (intro queue_ok_in_flight) auto
next
  case status_recorded then show ?case by (intro queue_ok_frame) (simp_all add: update_run_status_def)
next
  case cancelled then show ?case by (intro queue_ok_cancel)
next
  case planned then show ?case by (intro queue_ok_phase_step)
next
  case planning_failed then show ?case by (intro queue_ok_planning_failed)
next
  case release_tested then show ?case by simp
next
  case released then show ?case by (intro queue_ok_release) (auto simp: releases_apart_def is_starting_def)
next
  case release_over then show ?case by simp
next
  case nodes_moved then show ?case by (intro queue_ok_frame) simp_all
next
  case (process_restarted ds)
  then have "queue_ok (ds\<lparr>ds_in_flight := {}\<rparr>)" by (intro queue_ok_in_flight) simp_all
  then show ?case using queue_ok_releasing [where ds = "ds\<lparr>ds_in_flight := {}\<rparr>"] by simp
qed

lemma fold_schedule_releasing: "ds_releasing (fold (\<lambda>i. snd \<circ> schedule i) is ds) = ds_releasing ds"
  by (induction "is" arbitrary: ds) (simp_all add: schedule_def)

lemma releases_apart_step:
  assumes "orderly_queue_step ds ds'" "releases_apart ds"
  shows "releases_apart ds'"
proof -
  have "set_mset (ds_releasing ds') \<subseteq> set_mset (ds_releasing ds) \<or>
      (\<exists>i. i \<notin> ds_in_flight ds \<and> ds' = ds\<lparr>ds_releasing := add_mset i (ds_releasing ds)\<rparr>)"
    using assms(1)
    by (auto simp: orderly_queue_step_def recover_starting_def fold_schedule_releasing schedule_def is_starting_def
        elim!: queue_step.cases dest: in_diffD)
  with assms show ?thesis unfolding orderly_queue_step_def releases_apart_def by fastforce
qed

lemma queue_ok_reachable:
  assumes "orderly_queue_step\<^sup>*\<^sup>* ds ds'" "queue_empty ds"
  shows "queue_ok ds'"
proof -
  from assms have "queue_ok ds' \<and> releases_apart ds'"
  proof (induction rule: rtranclp_induct)
    case base
    then show ?case by (simp add: queue_empty_def queue_ok_def queue_keys_def slots_match_def in_order_def releases_apart_def)
  next
    case (step ds' ds'')
    then show ?case by (auto intro: releases_apart_step queue_ok_step simp: orderly_queue_step_def)
  qed
  then show ?thesis ..
qed

section \<open>The claim loop\<close>

text \<open>Of two entries of a project only the older can be claimed.\<close>

lemma claimable_one_per_project:
  assumes ok: "queue_ok ds" and p: "p \<in> set (wdb_queue (ds_db ds))" "queue_claimable (ds_db ds) p"
    and q: "q \<in> set (wdb_queue (ds_db ds))" "queue_claimable (ds_db ds) q" and same: "wq_project_id p = wq_project_id q"
  shows "p = q"
proof -
  have "wq_phase p \<in> unfinished_phases" "wq_phase q \<in> unfinished_phases"
    using p q by (simp_all add: queue_claimable_def unfinished_phases_def)
  then have "\<not> wq_sequence p < wq_sequence q" "\<not> wq_sequence q < wq_sequence p"
    using p q same unfolding queue_claimable_def list_ex_iff by metis+
  then have "wq_sequence p = wq_sequence q" by linarith
  with ok p(1) q(1) show ?thesis by (auto simp: queue_ok_def queue_keys_def distinct_map dest: inj_onD)
qed

text \<open>A claim removes the oldest claimable entry and no other.\<close>

lemma claimable_after_claim:
  assumes ok: "queue_ok ds" and q: "q \<in> set (wdb_queue (ds_db ds))" "queue_claimable (ds_db ds) q"
    and w: "w = set_phase (\<lambda>p. wq_run_id p = wq_run_id q \<and> wq_phase p = PhQueued) PhStarting
      ((ds_db ds)\<lparr>wdb_slots := wdb_slots (ds_db ds) @ [\<lparr>sl_project_id = wq_project_id q, sl_run_id = wq_run_id q\<rparr>]\<rparr>)"
  shows "filter (queue_claimable w) (wdb_queue w) = filter (\<lambda>p. p \<noteq> q) (filter (queue_claimable (ds_db ds)) (wdb_queue (ds_db ds)))"
proof -
  let ?Q = "wdb_queue (ds_db ds)" and ?P = "\<lambda>p. wq_run_id p = wq_run_id q \<and> wq_phase p = PhQueued"
  have ph: "wq_phase q = PhQueued" using q(2) by (simp add: queue_claimable_def)
  have only: "?P p \<longleftrightarrow> p = q" if "p \<in> set ?Q" for p using queue_same_run [OF ok that q(1)] ph by auto
  have earlier: "list_ex (\<lambda>e. R e \<and> wq_phase e \<in> unfinished_phases) (map (with_phase ?P PhStarting) ?Q) \<longleftrightarrow>
      list_ex (\<lambda>e. R e \<and> wq_phase e \<in> unfinished_phases) ?Q"
    if "\<And>e. R (with_phase ?P PhStarting e) = R e" for R
    by (auto simp: list_ex_iff that unfinished_phases_def ph)
  have same: "queue_claimable w p \<longleftrightarrow> queue_claimable (ds_db ds) p \<and> p \<noteq> q" if p: "p \<in> set ?Q" for p
  proof -
    have "queue_claimable w p \<longleftrightarrow> queue_claimable (ds_db ds) p \<and> wq_project_id p \<noteq> wq_project_id q"
      using earlier [of "\<lambda>e. wq_project_id e = wq_project_id p \<and> wq_sequence e < wq_sequence p"]
      by (auto simp: queue_claimable_def w run_has_status_def project_busy_def conj_assoc)
    with claimable_one_per_project [OF ok p _ q] show ?thesis by auto
  qed
  have "filter (queue_claimable w) (map (with_phase ?P PhStarting) xs) = filter (\<lambda>p. p \<noteq> q) (filter (queue_claimable (ds_db ds)) xs)"
    if "set xs \<subseteq> set ?Q" for xs
    using that
  proof (induction xs)
    case (Cons x xs)
    show ?case
    proof (cases "x = q")
      case True
      with only [of q] q(1) have "wq_phase (with_phase ?P PhStarting x) = PhStarting" by simp
      then have "\<not> queue_claimable w (with_phase ?P PhStarting x)" by (simp add: queue_claimable_def)
      with Cons True show ?thesis by simp
    next
      case False
      with Cons.prems only have "with_phase ?P PhStarting x = x" by (simp add: with_phase_def)
      with Cons False same show ?thesis by simp
    qed
  qed simp
  from this [of ?Q] show ?thesis by (simp add: w)
qed

lemma sort_key_least:
  assumes "distinct (map f xs)" "q \<in> set xs" "\<And>x. x \<in> set xs \<Longrightarrow> f q \<le> f x"
  shows "sort_key f xs = q # sort_key f (filter (\<lambda>x. x \<noteq> q) xs)"
proof (rule map_sorted_distinct_set_unique [where f = f])
  show "inj_on f (set (sort_key f xs) \<union> set (q # sort_key f (filter (\<lambda>x. x \<noteq> q) xs)))"
    using assms(1,2) by (auto simp: distinct_map insert_absorb intro: inj_on_subset [of f "set xs"])
  show "sorted (map f (sort_key f xs))" by simp
  show "distinct (map f (sort_key f xs))" using assms(1) by (simp add: distinct_map)
  show "sorted (map f (q # sort_key f (filter (\<lambda>x. x \<noteq> q) xs)))" using assms(3) by simp
  show "distinct (map f (q # sort_key f (filter (\<lambda>x. x \<noteq> q) xs)))"
  proof -
    have "x = q" if "x \<in> set xs" "f q = f x" for x using assms(1,2) that by (auto simp: distinct_map dest: inj_onD)
    then show ?thesis using assms(1) by (auto simp: distinct_map intro: inj_on_subset)
  qed
  show "set (sort_key f xs) = set (q # sort_key f (filter (\<lambda>x. x \<noteq> q) xs))" using assms(2) by auto
qed

lemma dispatch_result:
  assumes "queue_ok ds"
  shows "\<exists>ds'. dispatch ds = (Inr (map wq_run_id (sort_key wq_sequence (filter (queue_claimable (ds_db ds)) (wdb_queue (ds_db ds))))), ds') \<and>
    queue_ok ds' \<and> (\<forall>q \<in> set (wdb_queue (ds_db ds')). \<not> queue_claimable (ds_db ds') q) \<and>
    ds_in_flight ds' = ds_in_flight ds \<union> wq_run_id ` {q \<in> set (wdb_queue (ds_db ds)). queue_claimable (ds_db ds) q} \<and>
    wdb_runs (ds_db ds') = wdb_runs (ds_db ds)"
  using assms
proof (induction ds rule: dispatch.induct)
  case (1 ds)
  obtain r w where c: "queue_claim_next (ds_db ds) = (r, w)" by fastforce
  from c show ?case
  proof (cases rule: queue_claim_cases)
    case nothing_there
    then have "filter (queue_claimable (ds_db ds)) (wdb_queue (ds_db ds)) = []" by (simp add: filter_empty_conv)
    with nothing_there c 1(2) show ?thesis by (auto simp: dispatch.simps [of ds])
  next
    case slot_taken
    with queue_ok_claim [OF 1(2) c] show ?thesis by simp
  next
    case (claimed q e)
    let ?next = "snd (schedule (wq_run_id q) (ds\<lparr>ds_db := w\<rparr>))"
    have ok: "queue_ok (ds\<lparr>ds_db := w\<rparr>)" using queue_ok_claim [OF 1(2) c] by simp
    have e': "with_phase (\<lambda>p. wq_run_id p = wq_run_id q \<and> wq_phase p = PhQueued) PhStarting q \<in> set (wdb_queue w)"
      using claimed(1,7) by simp
    have "wq_phase q = PhQueued" using claimed(2) by (simp add: queue_claimable_def)
    with queue_ok_schedule [OF ok, of "with_phase (\<lambda>p. wq_run_id p = wq_run_id q \<and> wq_phase p = PhQueued) PhStarting q"] e'
    have ok': "queue_ok ?next" by (simp add: holding_def)
    note IH = 1(1) [OF c [symmetric], of "Some e" e]
    note rest = claimable_after_claim [OF 1(2) claimed(1,2,7)]
    have srt: "sort_key wq_sequence (filter (queue_claimable (ds_db ds)) (wdb_queue (ds_db ds))) =
        q # sort_key wq_sequence (filter (queue_claimable w) (wdb_queue w))"
      unfolding rest using 1(2) claimed(1-3)
      by (intro sort_key_least) (auto simp: queue_ok_def queue_keys_def distinct_map_filter)
    have "insert (wq_run_id q) (wq_run_id ` {p \<in> set (wdb_queue w). queue_claimable w p}) =
        wq_run_id ` {p \<in> set (wdb_queue (ds_db ds)). queue_claimable (ds_db ds) p}"
    proof -
      have "{p \<in> set (wdb_queue w). queue_claimable w p} = set (filter (queue_claimable w) (wdb_queue w))" by auto
      also have "\<dots> = {p \<in> set (wdb_queue (ds_db ds)). queue_claimable (ds_db ds) p} - {q}" unfolding rest by auto
      finally show ?thesis using claimed(1,2) by auto
    qed
    moreover have "wdb_runs w = wdb_runs (ds_db ds)" using claimed(7) by simp
    moreover obtain ds' where "dispatch ?next =
        (Inr (map wq_run_id (sort_key wq_sequence (filter (queue_claimable w) (wdb_queue w)))), ds')"
      "queue_ok ds'" "\<forall>q \<in> set (wdb_queue (ds_db ds')). \<not> queue_claimable (ds_db ds') q"
      "ds_in_flight ds' = insert (wq_run_id q) (ds_in_flight ds) \<union> wq_run_id ` {p \<in> set (wdb_queue w). queue_claimable w p}"
      "wdb_runs (ds_db ds') = wdb_runs w"
      using IH claimed(5,6) ok' by (auto simp: schedule_def)
    moreover have "dispatch ds = (case dispatch ?next of (r, ds') \<Rightarrow> (map_sum id ((#) (wq_run_id q)) r, ds'))"
      using c claimed(5,6) by (simp add: dispatch.simps [of ds])
    ultimately show ?thesis by (auto simp: srt)
  qed
qed

section \<open>A small queue\<close>

text \<open>Two runs of one project and one of another are accepted in turn; the claims take the first and the third.\<close>

definition sample_entry :: "i64 \<Rightarrow> uuid \<Rightarrow> uuid \<Rightarrow> queue_phase \<Rightarrow> WorkflowQueueEntry" where
  "sample_entry n i p ph = \<lparr>wq_sequence = n, wq_run_id = i, wq_project_id = p, wq_phase = ph\<rparr>"

definition sample_run :: "uuid \<Rightarrow> WorkflowRunStatus \<Rightarrow> workflow_run_row" where
  "sample_run i st = \<lparr>wr_id = i, wr_issue_id = 9, wr_status = st, wr_started_at = None, wr_finished_at = None, wr_updated_at = ''now''\<rparr>"

definition sample_queue :: "WorkflowQueueEntry list \<Rightarrow> workflow_run_row list \<Rightarrow> project_slot list \<Rightarrow> workflow_db" where
  "sample_queue Q R S = \<lparr>wdb_issues = [], wdb_runs = R, wdb_queue = Q, wdb_last_sequence = int (length Q), wdb_slots = S, wdb_nodes = []\<rparr>"

definition sample_dispatcher :: "WorkflowQueueEntry list \<Rightarrow> workflow_run_row list \<Rightarrow> project_slot list \<Rightarrow> dispatcher" where
  "sample_dispatcher Q R S = \<lparr>ds_db = sample_queue Q R S, ds_in_flight = {}, ds_releasing = {#}\<rparr>"

lemmas sample_queue_defs = sample_entry_def sample_run_def sample_queue_def sample_dispatcher_def

abbreviation waiting_three :: dispatcher where
  "waiting_three \<equiv> sample_dispatcher
     [sample_entry 1 11 1 PhQueued, sample_entry 2 12 1 PhQueued, sample_entry 3 13 2 PhQueued]
     [sample_run 11 WrPending, sample_run 12 WrPending, sample_run 13 WrPending] []"

abbreviation first_claimed :: dispatcher where
  "first_claimed \<equiv> sample_dispatcher
     [sample_entry 1 11 1 PhStarting, sample_entry 2 12 1 PhQueued, sample_entry 3 13 2 PhQueued]
     [sample_run 11 WrPending, sample_run 12 WrPending, sample_run 13 WrPending] [\<lparr>sl_project_id = 1, sl_run_id = 11\<rparr>]"

lemma waiting_three_reached: "orderly_queue_step\<^sup>*\<^sup>* (sample_dispatcher [] [] []) waiting_three"
proof -
  have "orderly_queue_step (sample_dispatcher [] [] [])
      (sample_dispatcher [sample_entry 1 11 1 PhQueued] [sample_run 11 WrPending] [])"
    using queue_step.accepted [of "''now''" 11 9 "Some 1" PhQueued "sample_dispatcher [] [] []"]
    by (simp add: orderly_queue_step_def sample_queue_defs accept_run_def enqueue_run_def waiting_phases_def)
  moreover have "orderly_queue_step (sample_dispatcher [sample_entry 1 11 1 PhQueued] [sample_run 11 WrPending] [])
      (sample_dispatcher [sample_entry 1 11 1 PhQueued, sample_entry 2 12 1 PhQueued]
         [sample_run 11 WrPending, sample_run 12 WrPending] [])"
    using queue_step.accepted [of "''now''" 12 9 "Some 1" PhQueued
        "sample_dispatcher [sample_entry 1 11 1 PhQueued] [sample_run 11 WrPending] []"]
    by (simp add: orderly_queue_step_def sample_queue_defs accept_run_def enqueue_run_def waiting_phases_def)
  moreover have "orderly_queue_step (sample_dispatcher [sample_entry 1 11 1 PhQueued, sample_entry 2 12 1 PhQueued]
         [sample_run 11 WrPending, sample_run 12 WrPending] []) waiting_three"
    using queue_step.accepted [of "''now''" 13 9 "Some 2" PhQueued
        "sample_dispatcher [sample_entry 1 11 1 PhQueued, sample_entry 2 12 1 PhQueued]
           [sample_run 11 WrPending, sample_run 12 WrPending] []"]
    by (simp add: orderly_queue_step_def sample_queue_defs accept_run_def enqueue_run_def waiting_phases_def)
  ultimately show ?thesis by (meson converse_rtranclp_into_rtranclp r_into_rtranclp)
qed

lemma first_claim: "queue_claim_next (ds_db waiting_three) = (Inr (Some (sample_entry 1 11 1 PhStarting)), ds_db first_claimed)"
  by (simp add: sample_queue_defs queue_claim_next_def queue_claimable_def run_has_status_def project_busy_def
      unfinished_phases_def first_by_def set_phase_def update_where_def)

lemma first_claimed_reached: "orderly_queue_step\<^sup>*\<^sup>* (sample_dispatcher [] [] []) first_claimed"
proof -
  have "orderly_queue_step waiting_three first_claimed"
    using queue_step.claimed [OF first_claim] by (simp add: orderly_queue_step_def sample_dispatcher_def)
  with waiting_three_reached show ?thesis by (rule rtranclp.rtrancl_into_rtrancl)
qed

lemma empty_start: "queue_empty (sample_dispatcher [] [] [])"
  by (simp add: queue_empty_def sample_queue_defs)

text \<open>
  What the condition on scheduling excludes. A stop request finds that run 11 is not in flight; the dispatcher then claims the
  run and starts it; the stop request cancels the run and releases it; and the start task marks it active. Its entry is
  then active without a slot, which no later release can change, and the next run of the project cannot be claimed.
\<close>

definition late_start :: "queue_phase \<Rightarrow> WorkflowRunStatus \<Rightarrow> project_slot list \<Rightarrow> uuid set \<Rightarrow> uuid multiset \<Rightarrow> dispatcher" where
  "late_start ph st S F R = \<lparr>ds_db = \<lparr>wdb_issues = [],
       wdb_runs = [(sample_run 11 st)\<lparr>wr_started_at := (if st = WrPending then None else Some ''now''),
          wr_finished_at := (if st = WrCanceled then Some ''now'' else None)\<rparr>, sample_run 12 WrPending],
       wdb_queue = [sample_entry 1 11 1 ph, sample_entry 2 12 1 PhQueued], wdb_last_sequence = 2, wdb_slots = S, wdb_nodes = []\<rparr>,
     ds_in_flight = F, ds_releasing = R\<rparr>"

lemmas late_start_defs = late_start_def sample_entry_def sample_run_def

abbreviation slot_11 :: project_slot where
  "slot_11 \<equiv> \<lparr>sl_project_id = 1, sl_run_id = 11\<rparr>"

lemma late_start_steps:
  "queue_step (late_start PhQueued WrPending [] {} {#}) (late_start PhQueued WrPending [] {} {#11#})"
  "queue_step (late_start PhQueued WrPending [] {} {#11#}) (late_start PhStarting WrPending [slot_11] {} {#11#})"
  "queue_step (late_start PhStarting WrPending [slot_11] {} {#11#}) (late_start PhStarting WrPending [slot_11] {11} {#11#})"
  "queue_step (late_start PhStarting WrPending [slot_11] {11} {#11#}) (late_start PhStarting WrRunning [slot_11] {11} {#11#})"
  "queue_step (late_start PhStarting WrRunning [slot_11] {11} {#11#}) (late_start PhStarting WrCanceled [slot_11] {11} {#11#})"
  "queue_step (late_start PhStarting WrCanceled [slot_11] {11} {#11#}) (late_start PhFinished WrCanceled [] {11} {#11#})"
  "queue_step (late_start PhFinished WrCanceled [] {11} {#11#}) (late_start PhActive WrCanceled [] {11} {#11#})"
proof -
  show "queue_step (late_start PhQueued WrPending [] {} {#}) (late_start PhQueued WrPending [] {} {#11#})"
    using release_tested [of 11 "late_start PhQueued WrPending [] {} {#}"] by (simp add: is_starting_def late_start_def)
  show "queue_step (late_start PhQueued WrPending [] {} {#11#}) (late_start PhStarting WrPending [slot_11] {} {#11#})"
    using claimed [of "late_start PhQueued WrPending [] {} {#11#}" "fst (queue_claim_next (ds_db (late_start PhQueued WrPending [] {} {#11#})))"
        "snd (queue_claim_next (ds_db (late_start PhQueued WrPending [] {} {#11#})))"]
    by (simp add: late_start_defs queue_claim_next_def queue_claimable_def run_has_status_def project_busy_def
        unfinished_phases_def first_by_def set_phase_def update_where_def)
  show "queue_step (late_start PhStarting WrPending [slot_11] {} {#11#}) (late_start PhStarting WrPending [slot_11] {11} {#11#})"
    using spawned [of "sample_entry 1 11 1 PhStarting" "late_start PhStarting WrPending [slot_11] {} {#11#}"]
    by (simp add: late_start_defs schedule_def)
  show "queue_step (late_start PhStarting WrPending [slot_11] {11} {#11#}) (late_start PhStarting WrRunning [slot_11] {11} {#11#})"
    using begun [of 11 "late_start PhStarting WrPending [slot_11] {11} {#11#}" "''now''" True
        "ds_db (late_start PhStarting WrRunning [slot_11] {11} {#11#})"]
    by (simp add: late_start_defs is_starting_def begin_start_def update_where_def rows_affected_def)
  show "queue_step (late_start PhStarting WrRunning [slot_11] {11} {#11#}) (late_start PhStarting WrCanceled [slot_11] {11} {#11#})"
    using status_recorded [of "late_start PhStarting WrRunning [slot_11] {11} {#11#}" "''now''" 11 WrCanceled True]
    by (simp add: late_start_defs update_run_status_def update_where_def)
  show "queue_step (late_start PhStarting WrCanceled [slot_11] {11} {#11#}) (late_start PhFinished WrCanceled [] {11} {#11#})"
    using released [of 11 "late_start PhStarting WrCanceled [slot_11] {11} {#11#}" empty_db _ True
        "ds_db (late_start PhFinished WrCanceled [] {11} {#11#})"]
    by (simp add: late_start_defs release_terminal_def run_settled_def run_has_status_def owned_agents_def owned_runs_def
        undelivered_command_def node_open_def empty_db_def rows_affected_def set_phase_def update_where_def)
  show "queue_step (late_start PhFinished WrCanceled [] {11} {#11#}) (late_start PhActive WrCanceled [] {11} {#11#})"
    using activated [of 11 "late_start PhFinished WrCanceled [] {11} {#11#}"]
    by (simp add: late_start_defs is_starting_def mark_active_def set_phase_def update_where_def)
qed

lemma late_start_blocks_the_project:
  "queue_step\<^sup>*\<^sup>* (late_start PhQueued WrPending [] {} {#}) (late_start PhActive WrCanceled [] {11} {#11#})"
  "queue_claim_next (ds_db (late_start PhActive WrCanceled [] F R)) = (Inr None, ds_db (late_start PhActive WrCanceled [] F R))"
  "release_terminal 11 d a (ds_db (late_start PhActive WrCanceled [] F R)) = (False, ds_db (late_start PhActive WrCanceled [] F R))"
proof -
  show "queue_step\<^sup>*\<^sup>* (late_start PhQueued WrPending [] {} {#}) (late_start PhActive WrCanceled [] {11} {#11#})"
    using late_start_steps by (meson converse_rtranclp_into_rtranclp r_into_rtranclp)
qed (simp_all add: late_start_defs queue_claim_next_def queue_claimable_def unfinished_phases_def first_by_def
      release_terminal_def rows_affected_def)

section \<open>What the queue promises\<close>

text \<open>
  C19: in every state that the dispatcher, its start tasks and the requests can reach from an empty queue, across
  restarts of the process, provided that no run is scheduled after a release has found it not in flight and before
  that release is over: a run that is being started or is active holds the slot of its project, every run that the
  project accepted before it has finished, and no other run of the project is being started or active. (The code does not
  enforce the condition, see \<open>late_start_blocks_the_project\<close>.)
\<close>

theorem project_runs_one_at_a_time_in_order:
  assumes "orderly_queue_step\<^sup>*\<^sup>* ds ds'" "queue_empty ds"
    and q: "q \<in> set (wdb_queue (ds_db ds'))" "wq_phase q \<in> {PhStarting, PhActive}"
    and e: "e \<in> set (wdb_queue (ds_db ds'))" "wq_project_id e = wq_project_id q" "e \<noteq> q"
  shows "\<lparr>sl_project_id = wq_project_id q, sl_run_id = wq_run_id q\<rparr> \<in> set (wdb_slots (ds_db ds')) \<and>
    (if wq_sequence e < wq_sequence q then wq_phase e = PhFinished else wq_phase e \<notin> {PhStarting, PhActive})"
proof -
  have ok: "queue_ok ds'" using assms(1,2) by (rule queue_ok_reachable)
  then have ord: "in_order (wdb_queue (ds_db ds'))" by (simp add: queue_ok_def)
  have h: "wq_phase q \<in> holding" using q(2) by (simp add: holding_def)
  have "wq_phase e \<notin> holding" if "\<not> wq_sequence e < wq_sequence q"
  proof
    assume "wq_phase e \<in> holding"
    have "wq_sequence q \<noteq> wq_sequence e"
      using ok q(1) e(1,3) by (auto simp: queue_ok_def queue_keys_def distinct_map dest: inj_onD)
    with that have "wq_sequence q < wq_sequence e" by simp
    with in_orderD [OF ord e(1) q(1) \<open>wq_phase e \<in> holding\<close>] e(2) q(2) show False by auto
  qed
  with in_orderD [OF ord q(1) e(1) h e(2)] holder_has_slot [OF ok q(1) h] show ?thesis
    by (auto simp: holding_def slot_of_def)
qed

theorem project_runs_one_at_a_time_in_order_witness:
  "\<lparr>sl_project_id = 1, sl_run_id = 11\<rparr> \<in> set (wdb_slots (ds_db first_claimed)) \<and>
   wq_phase (sample_entry 2 12 1 PhQueued) \<notin> {PhStarting, PhActive}"
  using project_runs_one_at_a_time_in_order [OF first_claimed_reached empty_start,
      of "sample_entry 1 11 1 PhStarting" "sample_entry 2 12 1 PhQueued"]
  by (simp add: sample_queue_defs)

text \<open>
  C20: a release happens only to a run that is over: its status is terminal, every agent run that it or one of its
  arenas has started has a state row and only terminal ones, every attempt of these has a registry row and only
  exited processes, none of its commands is waiting or being delivered, and none of its nodes is running or awaiting
  anybody. It then gives up exactly the slot of the run and finishes exactly its entry, and to a submission that
  waits for it the run counts as settled.
\<close>

theorem released_run_is_over:
  assumes "release_terminal i d a w = (True, w')"
  shows "(\<exists>r \<in> set (wdb_runs w). wr_id r = i \<and> wr_status r \<in> {WrSucceeded, WrFailed, WrCanceled}) \<and>
    (\<forall>g \<in> set (owned_agents i d w).
       (\<exists>s \<in> set (adb_states a). ars_agent_run_id s = g) \<and>
       (\<forall>s \<in> set (adb_states a). ars_agent_run_id s = g \<longrightarrow> agent_terminal (ars_status s)) \<and>
       (\<forall>t \<in> set (adb_attempts a). aa_agent_run_id t = g \<longrightarrow>
          (\<exists>p \<in> set (adb_registry a). pr_run_attempt_id p = aa_id t) \<and>
          (\<forall>p \<in> set (adb_registry a). pr_run_attempt_id p = aa_id t \<longrightarrow> pr_registry_status p = RegExited))) \<and>
    (\<forall>c \<in> set (db_outbox d). ob_orchestration_run_id c \<in> set (owned_runs i d w) \<longrightarrow>
       ob_delivery_status c \<notin> {DPending, DDelivering}) \<and>
    (\<forall>n \<in> set (wdb_nodes w). nx_run_id n = i \<longrightarrow>
       nx_status n \<notin> {NxRunning, NxCancelling, NxAwaitingHuman, NxAwaitingArena}) \<and>
    wdb_slots w' = filter (\<lambda>s. sl_run_id s \<noteq> i) (wdb_slots w) \<and>
    wdb_queue w' = map (\<lambda>q. if wq_run_id q = i then q\<lparr>wq_phase := PhFinished\<rparr> else q) (wdb_queue w) \<and>
    wdb_runs w' = wdb_runs w \<and> wdb_nodes w' = wdb_nodes w \<and> source_boundary_settled_in i d a w'"
proof -
  have settled: "run_settled i d a w"
    by (rule ccontr) (use assms in \<open>simp add: release_terminal_def rows_affected_def Let_def\<close>)
  then have w': "w' = set_phase (\<lambda>q. wq_run_id q = i) PhFinished (w\<lparr>wdb_slots := filter (\<lambda>s. sl_run_id s \<noteq> i) (wdb_slots w)\<rparr>)"
    using assms by (auto simp: release_terminal_def Let_def)
  have "source_boundary_settled_in i d a w'"
    using settled by (simp add: source_boundary_settled_iff w' run_settled_def run_has_status_def owned_agents_def
        owned_runs_def node_open_def list_ex_iff)
  moreover have "map (with_phase (\<lambda>q. wq_run_id q = i) PhFinished) Q = map (\<lambda>q. if wq_run_id q = i then q\<lparr>wq_phase := PhFinished\<rparr> else q) Q" for Q
    by (simp add: with_phase_def)
  moreover from settled have "\<forall>g \<in> set (owned_agents i d w). \<not> agent_run_alive a g \<and> \<not> agent_process_alive a g"
    by (auto simp: run_settled_def list_ex_iff)
  then have "\<forall>g \<in> set (owned_agents i d w).
       (\<exists>s \<in> set (adb_states a). ars_agent_run_id s = g) \<and>
       (\<forall>s \<in> set (adb_states a). ars_agent_run_id s = g \<longrightarrow> agent_terminal (ars_status s)) \<and>
       (\<forall>t \<in> set (adb_attempts a). aa_agent_run_id t = g \<longrightarrow>
          (\<exists>p \<in> set (adb_registry a). pr_run_attempt_id p = aa_id t) \<and>
          (\<forall>p \<in> set (adb_registry a). pr_run_attempt_id p = aa_id t \<longrightarrow> pr_registry_status p = RegExited))"
    unfolding agent_run_alive_def agent_process_alive_def list_ex_iff by blast
  ultimately show ?thesis
    using settled
    by (simp add: w' run_settled_def run_has_status_def undelivered_command_def node_open_def list_ex_iff Bex_def)
qed

text \<open>The one agent run of the sample has succeeded and its process has exited.\<close>

definition sample_settled_agents :: "json_lit agent_db" where
  "sample_settled_agents = snd (mark_process_exited unary_env 7 (Some 0) 3 3
     (snd (mark_process_started unary_env 7 42 None None 2 2 sample_finished_db)))"

definition sample_linked_db :: "json_lit db" where
  "sample_linked_db = empty_db\<lparr>db_links := [\<lparr>ol_id = 1, ol_orchestration_run_id = 11, ol_node_execution_id = 2,
     ol_agent_run_id = 3, ol_dispatch_idempotency_key = ''key'', ol_created_at = ''now''\<rparr>]\<rparr>"

definition sample_over :: workflow_db where
  "sample_over = sample_queue [sample_entry 1 11 1 PhActive] [sample_run 11 WrSucceeded] [\<lparr>sl_project_id = 1, sl_run_id = 11\<rparr>]"

theorem released_run_is_over_witness:
  "fst (release_terminal 11 sample_linked_db sample_settled_agents sample_over) \<and>
   owned_agents 11 sample_linked_db sample_over = [3] \<and>
   (\<exists>s \<in> set (adb_states sample_settled_agents). ars_agent_run_id s = 3) \<and>
   wdb_slots (snd (release_terminal 11 sample_linked_db sample_settled_agents sample_over)) = []"
proof -
  have finished: "fst (release_terminal 11 sample_linked_db sample_settled_agents sample_over)" by code_simp
  have one: "owned_agents 11 sample_linked_db sample_over = [3]" by code_simp
  from released_run_is_over [of 11 sample_linked_db sample_settled_agents sample_over
      "snd (release_terminal 11 sample_linked_db sample_settled_agents sample_over)"] finished one
  show ?thesis by (simp add: prod_eq_iff) (simp add: sample_over_def sample_queue_def)
qed

text \<open>
  C21: in a state reached from an empty queue under the same condition on scheduling, the claim loop at the end of a tick,
  run without interruption, ends without an error: it starts exactly the runs whose
  entries could be claimed when it began, oldest first, leaves none that can be claimed, and all it has started is
  in flight.
\<close>

theorem claim_loop_starts_all_that_can_start:
  assumes "orderly_queue_step\<^sup>*\<^sup>* ds0 ds" "queue_empty ds0"
  shows "\<exists>ds'. dispatch ds =
      (Inr (map wq_run_id (sort_key wq_sequence (filter (queue_claimable (ds_db ds)) (wdb_queue (ds_db ds))))), ds') \<and>
    (\<forall>q \<in> set (wdb_queue (ds_db ds')). \<not> queue_claimable (ds_db ds') q) \<and>
    ds_in_flight ds' = ds_in_flight ds \<union> wq_run_id ` {q \<in> set (wdb_queue (ds_db ds)). queue_claimable (ds_db ds) q}"
  using dispatch_result [OF queue_ok_reachable [OF assms]] by blast

theorem claim_loop_starts_all_that_can_start_witness:
  "\<exists>ds'. dispatch waiting_three = (Inr [11, 13], ds') \<and> ds_in_flight ds' = {11, 13}"
proof -
  have two: "filter (queue_claimable (ds_db waiting_three)) (wdb_queue (ds_db waiting_three)) =
      [sample_entry 1 11 1 PhQueued, sample_entry 3 13 2 PhQueued]"
    by (simp add: sample_queue_defs queue_claimable_def run_has_status_def project_busy_def unfinished_phases_def)
  have srt: "map wq_run_id (sort_key wq_sequence [sample_entry 1 11 1 PhQueued, sample_entry 3 13 2 PhQueued]) = [11, 13]"
    by (simp add: sample_queue_defs)
  have all: "{q \<in> set Q. P q} = set (filter P Q)" for P and Q :: "WorkflowQueueEntry list" by auto
  have "wq_run_id ` {q \<in> set (wdb_queue (ds_db waiting_three)). queue_claimable (ds_db waiting_three) q} = {11, 13}"
    unfolding all two by (simp add: sample_queue_defs)
  moreover have "ds_in_flight waiting_three = {}" by (simp add: sample_queue_defs)
  ultimately show ?thesis
    using claim_loop_starts_all_that_can_start [OF waiting_three_reached empty_start] unfolding two srt by auto
qed

end
