(* ===== verification/Approvals.thy ===== *)
theory Approvals
  imports Contracts
begin

text \<open>
  Approvals and questions of a running agent: \<open>crates/services/src/services/approvals.rs\<close>, the types of
  \<open>crates/utils/src/approvals.rs\<close> and the answers of \<open>approvals/executor_approvals.rs\<close>.

  An executor creates an approval and waits; somebody responds, the executor gives up, or the deadline
  passes. Creations, responses, cancellations and the watcher of each approval run concurrently: every access to one of
  the two hash maps, every patch that is broadcast and every send on a one-shot channel is atomic, what comes between two
  of them is not. The methods are therefore cut at these accesses, and a step relation interleaves the pieces. The one-shot channel of an approval is named by the id of the approval;
  its sending end is a field of the pending entry, so that it belongs to whoever has taken the entry
  out of the map. Instants and durations count nanoseconds.
\<close>

section \<open>Data\<close>

record QuestionAnswer =
  qa_question :: string
  qa_answer :: "string list"

datatype ApprovalOutcome = Approved | Denied "string option" | Answered "QuestionAnswer list" | TimedOut

datatype ApprovalStatus = StatusPending | StatusApproved | StatusDenied "string option" | StatusTimedOut

datatype QuestionStatus = QuestionAnswered "QuestionAnswer list" | QuestionTimedOut

record ApprovalRequest =
  aq_id :: string
  aq_tool_name :: string
  aq_execution_process_id :: uuid
  aq_created_at :: int
  aq_timeout_at :: int

definition APPROVAL_TIMEOUT_SECONDS :: i64 where
  "APPROVAL_TIMEOUT_SECONDS = 36000"

text \<open>\<open>Duration::from_std\<close>: a signed duration has at most \<open>i64::MAX\<close> milliseconds.\<close>

definition duration_from_std :: "nat \<Rightarrow> int option" where
  "duration_from_std n = (if int n \<le> (2 ^ 63 - 1) * 1000000 then Some (int n) else None)"

definition new_with_timeout :: "string \<Rightarrow> int \<Rightarrow> string \<Rightarrow> uuid \<Rightarrow> nat option \<Rightarrow> ApprovalRequest" where
  "new_with_timeout i now tool_name process timeout =
     (let d = (case Option.bind timeout duration_from_std of None \<Rightarrow> APPROVAL_TIMEOUT_SECONDS * 1000000000 | Some d \<Rightarrow> d)
      in \<lparr>aq_id = i, aq_tool_name = tool_name, aq_execution_process_id = process, aq_created_at = now,
          aq_timeout_at = now + d\<rparr>)"

record PendingApproval =
  pa_execution_process_id :: uuid
  pa_tool_name :: string
  pa_is_question :: bool
  pa_created_at :: int
  pa_timeout_at :: int

record ToolContext =
  tc_tool_name :: string
  tc_execution_process_id :: uuid

record ApprovalInfo =
  ai_approval_id :: string
  ai_tool_name :: string
  ai_execution_process_id :: uuid
  ai_is_question :: bool
  ai_created_at :: int
  ai_timeout_at :: int

datatype ApprovalError = ApNotFound | ApAlreadyCompleted | ApNoExecutorSession string | ApInvalidStatus | ApCustom string

datatype approval_patch = PatchSnapshot "ApprovalInfo list" | PatchCreated ApprovalInfo | PatchResolved string

text \<open>The broadcast channel is the list of the patches sent so far.\<close>

record Approvals =
  ap_pending :: "(string \<times> PendingApproval) list"
  ap_completed :: "(string \<times> ApprovalOutcome) list"
  ap_patches :: "approval_patch list"

definition new_approvals :: Approvals where
  "new_approvals = \<lparr>ap_pending = [], ap_completed = [], ap_patches = []\<rparr>"

section \<open>The pieces of the methods\<close>

definition put_pending :: "string \<Rightarrow> PendingApproval \<Rightarrow> Approvals \<Rightarrow> Approvals" where
  "put_pending i p s = s\<lparr>ap_pending := AList.update i p (ap_pending s)\<rparr>"

definition take_pending :: "string \<Rightarrow> Approvals \<Rightarrow> PendingApproval option \<times> Approvals" where
  "take_pending i s = (map_of (ap_pending s) i, s\<lparr>ap_pending := AList.delete i (ap_pending s)\<rparr>)"

definition put_completed :: "string \<Rightarrow> ApprovalOutcome \<Rightarrow> Approvals \<Rightarrow> Approvals" where
  "put_completed i oc s = s\<lparr>ap_completed := AList.update i oc (ap_completed s)\<rparr>"

definition send_patch :: "approval_patch \<Rightarrow> Approvals \<Rightarrow> Approvals" where
  "send_patch x s = s\<lparr>ap_patches := ap_patches s @ [x]\<rparr>"

definition info_of :: "string \<Rightarrow> PendingApproval \<Rightarrow> ApprovalInfo" where
  "info_of i p = \<lparr>ai_approval_id = i, ai_tool_name = pa_tool_name p, ai_execution_process_id = pa_execution_process_id p,
     ai_is_question = pa_is_question p, ai_created_at = pa_created_at p, ai_timeout_at = pa_timeout_at p\<rparr>"

definition pending_of_request :: "ApprovalRequest \<Rightarrow> bool \<Rightarrow> PendingApproval" where
  "pending_of_request r is_question =
     \<lparr>pa_execution_process_id = aq_execution_process_id r, pa_tool_name = aq_tool_name r, pa_is_question = is_question,
      pa_created_at = aq_created_at r, pa_timeout_at = aq_timeout_at r\<rparr>"

text \<open>\<open>create_with_waiter\<close>, \<open>respond\<close> and \<open>cancel\<close> when nothing else runs; the value for the channel is the outcome \<open>respond\<close> returns.\<close>

definition create_with_waiter :: "ApprovalRequest \<Rightarrow> bool \<Rightarrow> Approvals \<Rightarrow> Approvals" where
  "create_with_waiter r is_question s =
     (let p = pending_of_request r is_question
      in send_patch (PatchCreated (info_of (aq_id r) p)) (put_pending (aq_id r) p s))"

fun validate_approval_response :: "ApprovalOutcome \<Rightarrow> bool \<Rightarrow> ApprovalError + unit" where
  "validate_approval_response Approved is_question = (if is_question then Inl ApInvalidStatus else Inr ())"
| "validate_approval_response (Denied _) is_question = (if is_question then Inl ApInvalidStatus else Inr ())"
| "validate_approval_response (Answered _) is_question = (if is_question then Inr () else Inl ApInvalidStatus)"
| "validate_approval_response TimedOut _ = Inr ()"

definition respond_absent :: "string \<Rightarrow> Approvals \<Rightarrow> ApprovalError" where
  "respond_absent i s = (if map_of (ap_completed s) i \<noteq> None then ApAlreadyCompleted else ApNotFound)"

definition tool_context :: "PendingApproval \<Rightarrow> ToolContext" where
  "tool_context p = \<lparr>tc_tool_name = pa_tool_name p, tc_execution_process_id = pa_execution_process_id p\<rparr>"

definition respond :: "string \<Rightarrow> ApprovalOutcome \<Rightarrow> Approvals \<Rightarrow> (ApprovalError + ApprovalOutcome \<times> ToolContext) \<times> Approvals" where
  "respond i req s =
     (case take_pending i s of
        (None, s1) \<Rightarrow> (Inl (respond_absent i s1), s1)
      | (Some p, s1) \<Rightarrow>
          (case validate_approval_response req (pa_is_question p) of
             Inl e \<Rightarrow> (Inl e, put_pending i p s1)
           | Inr _ \<Rightarrow> (Inr (req, tool_context p), send_patch (PatchResolved i) (put_completed i req s1))))"

definition cancel_outcome :: ApprovalOutcome where
  "cancel_outcome = Denied (Some ''Cancelled'')"

definition cancel_approval :: "string \<Rightarrow> Approvals \<Rightarrow> Approvals" where
  "cancel_approval i s =
     (case take_pending i s of
        (None, s1) \<Rightarrow> s1
      | (Some p, s1) \<Rightarrow> send_patch (PatchResolved i) (put_completed i cancel_outcome s1))"

text \<open>The map as it is at one moment; the iteration of the code goes shard by shard, and may see different shards at different moments.\<close>

definition pending_infos :: "Approvals \<Rightarrow> ApprovalInfo list" where
  "pending_infos s = map (\<lambda>(i, p). info_of i p) (ap_pending s)"

definition get_pending_execution_process_ids :: "uuid list \<Rightarrow> Approvals \<Rightarrow> uuid set" where
  "get_pending_execution_process_ids ids s =
     set (filter (\<lambda>e. e \<in> set ids) (map (\<lambda>(i, p). pa_execution_process_id p) (ap_pending s)))"

text \<open>
  A subscriber gets a snapshot, then the patches sent from then on; one that lags is given a fresh snapshot instead of
  what it has missed.
\<close>

definition patch_stream :: "Approvals \<Rightarrow> approval_patch list \<Rightarrow> approval_patch list" where
  "patch_stream s live = PatchSnapshot (pending_infos s) # live"

section \<open>What the executor gets\<close>

text \<open>
  The errors are those of \<open>executors/src/approvals.rs\<close>, in \<open>Contracts\<close>. The bridge keeps the waiters of the approvals it has created until somebody waits. The \<open>select!\<close> of \<open>wait_internal\<close> takes one of
  two branches: with \<open>None\<close> the one of the cancellation, which then also runs \<open>cancel_approval\<close>, else that of the waiter with its value.
\<close>

definition wait_internal :: "string \<Rightarrow> ApprovalOutcome option \<Rightarrow> string list \<Rightarrow> (ExecutorApprovalError + ApprovalOutcome) \<times> string list" where
  "wait_internal i branch waiters =
     (if i \<notin> set waiters then (Inl (RequestFailed (''no waiter found for approval_id='' @ i)), waiters)
      else ((case branch of None \<Rightarrow> Inl ApprovalRequestCancelled | Some oc \<Rightarrow> Inr oc), filter (\<lambda>k. k \<noteq> i) waiters))"

fun tool_status :: "ApprovalOutcome \<Rightarrow> ExecutorApprovalError + ApprovalStatus" where
  "tool_status Approved = Inr StatusApproved"
| "tool_status (Denied reason) = Inr (StatusDenied reason)"
| "tool_status TimedOut = Inr StatusTimedOut"
| "tool_status (Answered _) = Inl (RequestFailed ''unexpected question response for permission request'')"

fun question_status :: "ApprovalOutcome \<Rightarrow> ExecutorApprovalError + QuestionStatus" where
  "question_status (Answered answers) = Inr (QuestionAnswered answers)"
| "question_status TimedOut = Inr QuestionTimedOut"
| "question_status _ = Inl (RequestFailed ''unexpected permission response for question request'')"

definition wait_tool_approval :: "string \<Rightarrow> ApprovalOutcome option \<Rightarrow> string list \<Rightarrow> (ExecutorApprovalError + ApprovalStatus) \<times> string list" where
  "wait_tool_approval i branch waiters = (case wait_internal i branch waiters of (r, ws) \<Rightarrow> (and_then r tool_status, ws))"

definition wait_question_answer :: "string \<Rightarrow> ApprovalOutcome option \<Rightarrow> string list \<Rightarrow> (ExecutorApprovalError + QuestionStatus) \<times> string list" where
  "wait_question_answer i branch waiters = (case wait_internal i branch waiters of (r, ws) \<Rightarrow> (and_then r question_status, ws))"

section \<open>Concurrent execution\<close>

datatype oneshot = ChOpen | ChSent ApprovalOutcome | ChDropped

text \<open>
  A caller that has taken an entry out of the map: in \<open>respond\<close> before and after it has recorded the outcome, in \<open>cancel\<close>
  before it has recorded the outcome, before and after it has sent the patch. The task of an approval is first the rest of
  \<open>create_with_waiter\<close>, which announces the approval and spawns the watcher, then the watcher; a watcher that has taken the
  entry sends the patch, then the value.
\<close>

datatype approval_caller = CallResponding ApprovalOutcome PendingApproval | CallRecorded ApprovalOutcome PendingApproval
  | CallCancelling PendingApproval | CallCancelRecorded PendingApproval | CallCancelSent PendingApproval

datatype watcher = WatchUnannounced | WatchUnspawned | WatchWaiting | WatchSelected ApprovalOutcome
  | WatchRecorded ApprovalOutcome | WatchTaken PendingApproval | WatchPatched PendingApproval | WatchDone

text \<open>
  \<open>wo_unsent\<close> are the approvals whose response has been sent on the channel by a caller that has yet to send the patch. The last
  field remembers what was created, for the statements below.
\<close>

record approval_world =
  wo_approvals :: Approvals
  wo_channels :: "string \<rightharpoonup> oneshot"
  wo_callers :: "string \<rightharpoonup> approval_caller"
  wo_watchers :: "string \<rightharpoonup> watcher"
  wo_unsent :: "string list"
  wo_clock :: int
  wo_created :: "string \<rightharpoonup> PendingApproval"

definition approval_start :: "int \<Rightarrow> approval_world" where
  "approval_start now = \<lparr>wo_approvals = new_approvals, wo_channels = Map.empty, wo_callers = Map.empty, wo_watchers = Map.empty,
     wo_unsent = [], wo_clock = now, wo_created = Map.empty\<rparr>"

text \<open>The value of the shared waiter: a closed channel counts as a timeout.\<close>

definition waiter_value :: "string \<Rightarrow> approval_world \<Rightarrow> ApprovalOutcome option" where
  "waiter_value i w =
     (case wo_channels w i of Some (ChSent oc) \<Rightarrow> Some oc | Some ChDropped \<Rightarrow> Some TimedOut | _ \<Rightarrow> None)"

definition set_watcher :: "string \<Rightarrow> watcher \<Rightarrow> approval_world \<Rightarrow> approval_world" where
  "set_watcher i x w = w\<lparr>wo_watchers := (wo_watchers w)(i \<mapsto> x)\<rparr>"

definition set_caller :: "string \<Rightarrow> approval_caller option \<Rightarrow> approval_world \<Rightarrow> approval_world" where
  "set_caller i c w = w\<lparr>wo_callers := (wo_callers w)(i := c)\<rparr>"

definition step_patch :: "approval_patch \<Rightarrow> approval_world \<Rightarrow> approval_world" where
  "step_patch x w = w\<lparr>wo_approvals := send_patch x (wo_approvals w)\<rparr>"

definition step_create :: "ApprovalRequest \<Rightarrow> bool \<Rightarrow> approval_world \<Rightarrow> approval_world" where
  "step_create r is_question w =
     (let p = pending_of_request r is_question
      in w\<lparr>wo_approvals := put_pending (aq_id r) p (wo_approvals w),
           wo_channels := (wo_channels w)(aq_id r \<mapsto> ChOpen), wo_watchers := (wo_watchers w)(aq_id r \<mapsto> WatchUnannounced),
           wo_created := (wo_created w)(aq_id r \<mapsto> p)\<rparr>)"

definition step_announce :: "string \<Rightarrow> PendingApproval \<Rightarrow> approval_world \<Rightarrow> approval_world" where
  "step_announce i p w = set_watcher i WatchUnspawned (step_patch (PatchCreated (info_of i p)) w)"

definition step_take :: "string \<Rightarrow> (PendingApproval \<Rightarrow> approval_caller) \<Rightarrow> approval_world \<Rightarrow> approval_world" where
  "step_take i caller w =
     (case take_pending i (wo_approvals w) of
        (None, _) \<Rightarrow> w
      | (Some p, s) \<Rightarrow> w\<lparr>wo_approvals := s, wo_callers := (wo_callers w)(i \<mapsto> caller p)\<rparr>)"

definition step_respond :: "string \<Rightarrow> ApprovalOutcome \<Rightarrow> PendingApproval \<Rightarrow> approval_world \<Rightarrow> approval_world" where
  "step_respond i req p w =
     (case validate_approval_response req (pa_is_question p) of
        Inl _ \<Rightarrow> w\<lparr>wo_approvals := put_pending i p (wo_approvals w), wo_callers := (wo_callers w)(i := None)\<rparr>
      | Inr _ \<Rightarrow> w\<lparr>wo_approvals := put_completed i req (wo_approvals w), wo_callers := (wo_callers w)(i \<mapsto> CallRecorded req p)\<rparr>)"

definition step_answer :: "string \<Rightarrow> ApprovalOutcome \<Rightarrow> approval_world \<Rightarrow> approval_world" where
  "step_answer i oc w =
     w\<lparr>wo_channels := (wo_channels w)(i \<mapsto> ChSent oc), wo_callers := (wo_callers w)(i := None), wo_unsent := i # wo_unsent w\<rparr>"

definition step_answer_patch :: "string \<Rightarrow> approval_world \<Rightarrow> approval_world" where
  "step_answer_patch i w = step_patch (PatchResolved i) (w\<lparr>wo_unsent := remove1 i (wo_unsent w)\<rparr>)"

definition step_cancel_record :: "string \<Rightarrow> PendingApproval \<Rightarrow> approval_world \<Rightarrow> approval_world" where
  "step_cancel_record i p w =
     set_caller i (Some (CallCancelRecorded p)) (w\<lparr>wo_approvals := put_completed i cancel_outcome (wo_approvals w)\<rparr>)"

definition step_cancel_patch :: "string \<Rightarrow> PendingApproval \<Rightarrow> approval_world \<Rightarrow> approval_world" where
  "step_cancel_patch i p w = set_caller i (Some (CallCancelSent p)) (step_patch (PatchResolved i) w)"

definition step_cancel_drop :: "string \<Rightarrow> approval_world \<Rightarrow> approval_world" where
  "step_cancel_drop i w = set_caller i None (w\<lparr>wo_channels := (wo_channels w)(i \<mapsto> ChDropped)\<rparr>)"

definition step_watch_record :: "string \<Rightarrow> ApprovalOutcome \<Rightarrow> approval_world \<Rightarrow> approval_world" where
  "step_watch_record i oc w = set_watcher i (WatchRecorded oc) (w\<lparr>wo_approvals := put_completed i oc (wo_approvals w)\<rparr>)"

definition step_watch_take :: "string \<Rightarrow> ApprovalOutcome \<Rightarrow> approval_world \<Rightarrow> approval_world" where
  "step_watch_take i oc w =
     (if oc = TimedOut then
        (case take_pending i (wo_approvals w) of
           (None, _) \<Rightarrow> set_watcher i WatchDone w
         | (Some p, s) \<Rightarrow> set_watcher i (WatchTaken p) (w\<lparr>wo_approvals := s\<rparr>))
      else set_watcher i WatchDone w)"

definition step_watch_patch :: "string \<Rightarrow> PendingApproval \<Rightarrow> approval_world \<Rightarrow> approval_world" where
  "step_watch_patch i p w = set_watcher i (WatchPatched p) (step_patch (PatchResolved i) w)"

definition step_watch_send :: "string \<Rightarrow> approval_world \<Rightarrow> approval_world" where
  "step_watch_send i w = set_watcher i WatchDone (w\<lparr>wo_channels := (wo_channels w)(i \<mapsto> ChSent TimedOut)\<rparr>)"

text \<open>
  The ids of requests are fresh UUIDs. The watcher selects with a bias: a resolved waiter wins over the deadline.
\<close>

inductive work_step :: "approval_world \<Rightarrow> approval_world \<Rightarrow> bool" where
  announce: "wo_watchers w i = Some WatchUnannounced \<Longrightarrow> wo_created w i = Some p \<Longrightarrow> work_step w (step_announce i p w)"
| spawn: "wo_watchers w i = Some WatchUnspawned \<Longrightarrow> work_step w (set_watcher i WatchWaiting w)"
| respond_judge: "wo_callers w i = Some (CallResponding req p) \<Longrightarrow> work_step w (step_respond i req p w)"
| respond_answer: "wo_callers w i = Some (CallRecorded oc p) \<Longrightarrow> work_step w (step_answer i oc w)"
| respond_patch: "i \<in> set (wo_unsent w) \<Longrightarrow> work_step w (step_answer_patch i w)"
| cancel_record: "wo_callers w i = Some (CallCancelling p) \<Longrightarrow> work_step w (step_cancel_record i p w)"
| cancel_patch: "wo_callers w i = Some (CallCancelRecorded p) \<Longrightarrow> work_step w (step_cancel_patch i p w)"
| cancel_drop: "wo_callers w i = Some (CallCancelSent p) \<Longrightarrow> work_step w (step_cancel_drop i w)"
| watch_resolved: "wo_watchers w i = Some WatchWaiting \<Longrightarrow> waiter_value i w = Some oc \<Longrightarrow>
    work_step w (set_watcher i (WatchSelected oc) w)"
| watch_deadline: "wo_watchers w i = Some WatchWaiting \<Longrightarrow> waiter_value i w = None \<Longrightarrow> wo_created w i = Some p \<Longrightarrow>
    pa_timeout_at p \<le> wo_clock w \<Longrightarrow> work_step w (set_watcher i (WatchSelected TimedOut) w)"
| watch_record: "wo_watchers w i = Some (WatchSelected oc) \<Longrightarrow> work_step w (step_watch_record i oc w)"
| watch_take: "wo_watchers w i = Some (WatchRecorded oc) \<Longrightarrow> work_step w (step_watch_take i oc w)"
| watch_patch: "wo_watchers w i = Some (WatchTaken p) \<Longrightarrow> work_step w (step_watch_patch i p w)"
| watch_send: "wo_watchers w i = Some (WatchPatched p) \<Longrightarrow> work_step w (step_watch_send i w)"

text \<open>Requests come from outside, and time passes.\<close>

inductive approval_step :: "approval_world \<Rightarrow> approval_world \<Rightarrow> bool" where
  create: "wo_created w (aq_id r) = None \<Longrightarrow> approval_step w (step_create r is_question w)"
| respond_take: "approval_step w (step_take i (CallResponding req) w)"
| cancel_take: "approval_step w (step_take i CallCancelling w)"
| time_passes: "wo_clock w \<le> now \<Longrightarrow> approval_step w (w\<lparr>wo_clock := now\<rparr>)"
| work: "work_step w w' \<Longrightarrow> approval_step w w'"

section \<open>The place of an approval\<close>

text \<open>
  An approval that was created is at every moment in exactly one place: pending, in the hands of one caller, in the hands of its
  watcher, or settled; as long as it is not settled its channel is open.
\<close>

definition fits :: "PendingApproval \<Rightarrow> ApprovalOutcome \<Rightarrow> bool" where
  "fits p oc \<longleftrightarrow> validate_approval_response oc (pa_is_question p) = Inr ()"

fun caller_ok :: "PendingApproval \<Rightarrow> approval_caller \<Rightarrow> bool" where
  "caller_ok p (CallResponding req q) \<longleftrightarrow> q = p"
| "caller_ok p (CallRecorded oc q) \<longleftrightarrow> q = p \<and> fits p oc"
| "caller_ok p (CallCancelling q) \<longleftrightarrow> q = p"
| "caller_ok p (CallCancelRecorded q) \<longleftrightarrow> q = p"
| "caller_ok p (CallCancelSent q) \<longleftrightarrow> q = p"

fun channel_settled :: "PendingApproval \<Rightarrow> oneshot \<Rightarrow> bool" where
  "channel_settled p ChOpen \<longleftrightarrow> False"
| "channel_settled p (ChSent oc) \<longleftrightarrow> fits p oc"
| "channel_settled p ChDropped \<longleftrightarrow> True"

fun watcher_ok :: "oneshot \<Rightarrow> watcher \<Rightarrow> bool" where
  "watcher_ok ch (WatchSelected oc) \<longleftrightarrow> oc = TimedOut \<or> ch = ChSent oc"
| "watcher_ok ch (WatchRecorded oc) \<longleftrightarrow> oc = TimedOut \<or> ch = ChSent oc"
| "watcher_ok ch _ \<longleftrightarrow> True"

fun watcher_holds :: "watcher \<Rightarrow> PendingApproval option" where
  "watcher_holds (WatchTaken p) = Some p"
| "watcher_holds (WatchPatched p) = Some p"
| "watcher_holds _ = None"

fun place_ok :: "PendingApproval option \<Rightarrow> PendingApproval option \<Rightarrow> approval_caller option \<Rightarrow> oneshot option \<Rightarrow> watcher option \<Rightarrow> bool" where
  "place_ok None q c ch x \<longleftrightarrow> q = None \<and> c = None \<and> ch = None \<and> x = None"
| "place_ok (Some p) q c (Some ch) (Some x) \<longleftrightarrow> watcher_ok ch x \<and>
     (q = Some p \<and> c = None \<and> watcher_holds x = None \<and> ch = ChOpen \<or>
      q = None \<and> (\<exists>d. c = Some d \<and> caller_ok p d) \<and> watcher_holds x = None \<and> ch = ChOpen \<or>
      q = None \<and> c = None \<and> watcher_holds x = Some p \<and> ch = ChOpen \<or>
      q = None \<and> c = None \<and> watcher_holds x = None \<and> channel_settled p ch)"
| "place_ok (Some p) q c _ _ \<longleftrightarrow> False"

definition approval_ok :: "approval_world \<Rightarrow> string \<Rightarrow> bool" where
  "approval_ok w i \<longleftrightarrow> place_ok (wo_created w i) (map_of (ap_pending (wo_approvals w)) i) (wo_callers w i) (wo_channels w i) (wo_watchers w i)"

lemmas approval_pieces =
  put_pending_def take_pending_def put_completed_def send_patch_def step_patch_def step_create_def step_announce_def step_take_def
  step_respond_def step_answer_def step_answer_patch_def step_cancel_record_def step_cancel_patch_def step_cancel_drop_def
  set_watcher_def set_caller_def step_watch_record_def step_watch_take_def step_watch_patch_def step_watch_send_def

lemma fits_TimedOut [simp]: "fits p TimedOut"
  by (simp add: fits_def)

lemma place_okE:
  assumes "place_ok cr q c ch x"
  obtains (absent) "cr = None" "q = None" "c = None" "ch = None" "x = None"
    | (waiting) p y where "cr = Some p" "q = Some p" "c = None" "ch = Some ChOpen" "x = Some y" "watcher_ok ChOpen y" "watcher_holds y = None"
    | (held) p d y where "cr = Some p" "q = None" "c = Some d" "caller_ok p d" "ch = Some ChOpen" "x = Some y" "watcher_ok ChOpen y"
        "watcher_holds y = None"
    | (watching) p y where "cr = Some p" "q = None" "c = None" "ch = Some ChOpen" "x = Some y" "watcher_holds y = Some p"
    | (settled) p h y where "cr = Some p" "q = None" "c = None" "ch = Some h" "channel_settled p h" "x = Some y" "watcher_ok h y"
        "watcher_holds y = None"
  using assms by (cases "(cr, q, c, ch, x)" rule: place_ok.cases) auto

lemma watcher_ok_open: "watcher_ok ChOpen y \<Longrightarrow> watcher_ok ch y"
  by (cases y) auto

text \<open>A step moves one approval; the others stay where they are.\<close>

lemma approval_ok_callers:
  assumes "\<And>i. approval_ok w i"
  shows "wo_callers w i = Some (CallResponding req p) \<Longrightarrow> approval_ok (step_respond i req p w) j"
    and "wo_callers w i = Some (CallRecorded oc p) \<Longrightarrow> approval_ok (step_answer i oc w) j"
    and "approval_ok (step_answer_patch i w) j"
    and "wo_callers w i = Some (CallCancelling p) \<Longrightarrow> approval_ok (step_cancel_record i p w) j"
    and "wo_callers w i = Some (CallCancelRecorded p) \<Longrightarrow> approval_ok (step_cancel_patch i p w) j"
    and "wo_callers w i = Some (CallCancelSent p) \<Longrightarrow> approval_ok (step_cancel_drop i w) j"
  using assms [of i] assms [of j] unfolding approval_ok_def
  by (cases rule: place_okE; auto simp: approval_pieces watcher_ok_open fits_def split: sum.splits)+

lemma approval_ok_watchers:
  assumes "\<And>i. approval_ok w i"
  shows "wo_watchers w i = Some WatchUnannounced \<Longrightarrow> approval_ok (step_announce i p w) j"
    and "wo_watchers w i = Some WatchUnspawned \<Longrightarrow> approval_ok (set_watcher i WatchWaiting w) j"
    and "wo_watchers w i = Some WatchWaiting \<Longrightarrow> waiter_value i w = Some oc \<Longrightarrow> approval_ok (set_watcher i (WatchSelected oc) w) j"
    and "wo_watchers w i = Some WatchWaiting \<Longrightarrow> approval_ok (set_watcher i (WatchSelected TimedOut) w) j"
    and "wo_watchers w i = Some (WatchSelected oc) \<Longrightarrow> approval_ok (step_watch_record i oc w) j"
    and "wo_watchers w i = Some (WatchRecorded oc) \<Longrightarrow> approval_ok (step_watch_take i oc w) j"
    and "wo_watchers w i = Some (WatchTaken p) \<Longrightarrow> approval_ok (step_watch_patch i p w) j"
    and "wo_watchers w i = Some (WatchPatched p) \<Longrightarrow> approval_ok (step_watch_send i w) j"
  using assms [of i] assms [of j] unfolding approval_ok_def
  by (cases rule: place_okE; auto simp: approval_pieces waiter_value_def split: oneshot.splits option.splits)+

lemma approval_ok_work:
  assumes "work_step w w'" "\<And>i. approval_ok w i"
  shows "approval_ok w' j"
  using assms by (induction rule: work_step.induct) (auto intro: approval_ok_callers approval_ok_watchers)

lemma approval_ok_take:
  assumes "\<And>i. approval_ok w i" "\<And>p. caller_ok p (c p)"
  shows "approval_ok (step_take i c w) j"
  using assms(1) [of i] assms(1) [of j] assms(2) unfolding approval_ok_def
  by (cases rule: place_okE) (auto simp: approval_pieces split: option.splits)

lemma approval_ok_step:
  assumes "approval_step w w'" "\<And>i. approval_ok w i"
  shows "approval_ok w' j"
  using assms
proof (induction rule: approval_step.induct)
  case (create w r is_question)
  from create(2) [of "aq_id r"] create(2) [of j] create(1) show ?case
    by (auto simp: approval_ok_def approval_pieces Let_def)
next
  case (time_passes w now)
  from time_passes(2) [of j] show ?case by (simp add: approval_ok_def)
next
  case (work w w')
  then show ?case by (blast intro: approval_ok_work)
qed (auto intro: approval_ok_take)

lemma approval_ok_steps:
  assumes "approval_step\<^sup>*\<^sup>* w w'" "\<And>i. approval_ok w i"
  shows "approval_ok w' i"
  using assms by (induction arbitrary: i rule: rtranclp_induct) (auto intro: approval_ok_step)

lemma approval_ok_start: "approval_ok (approval_start now) i"
  by (simp add: approval_ok_def approval_start_def new_approvals_def)

lemmas approval_ok_reachable = approval_ok_steps [OF _ approval_ok_start]

end
