(* ===== verification/Approval_Runs.thy ===== *)
theory Approval_Runs
  imports Approvals
begin

text \<open>
  What approvals promise over all interleavings of creations, responses, cancellations, watchers and the clock: settled
  approvals, deadlines and answers that fit; and three interleavings that go wrong.
\<close>

section \<open>Settled approvals\<close>

definition is_settled :: "string \<Rightarrow> ApprovalOutcome \<Rightarrow> approval_world \<Rightarrow> bool" where
  "is_settled i oc w \<longleftrightarrow> waiter_value i w = Some oc \<and> map_of (ap_pending (wo_approvals w)) i = None \<and> wo_callers w i = None"

lemma waiter_value_settled:
  assumes "approval_ok w i" "waiter_value i w = Some oc"
  shows "is_settled i oc w \<and> (\<exists>p. wo_created w i = Some p \<and> fits p oc)"
  using assms(1) unfolding approval_ok_def
proof (cases rule: place_okE)
  case (settled p h y)
  with assms(2) show ?thesis by (cases h) (auto simp: is_settled_def waiter_value_def)
qed (use assms(2) in \<open>auto simp: waiter_value_def\<close>)

text \<open>The watcher of a settled approval does not hold it.\<close>

lemma is_settled_watcher:
  assumes "approval_ok w i" "is_settled i oc w"
  shows "wo_watchers w i \<noteq> Some (WatchPatched p)"
proof -
  from assms(2) have "waiter_value i w \<noteq> None" by (simp add: is_settled_def)
  with assms(1) show ?thesis unfolding approval_ok_def by (cases rule: place_okE) (auto simp: waiter_value_def)
qed

lemma is_settled_work:
  assumes "work_step w w'" "approval_ok w i" "is_settled i oc w"
  shows "is_settled i oc w'"
  using assms
proof (induction rule: work_step.induct)
  case (watch_send w k p)
  with is_settled_watcher have "k \<noteq> i" by blast
  with watch_send show ?case by (auto simp: is_settled_def waiter_value_def approval_pieces)
qed (auto simp: is_settled_def waiter_value_def approval_pieces split: option.splits sum.splits)

lemma is_settled_step:
  assumes "approval_step w w'" "approval_ok w i" "is_settled i oc w"
  shows "is_settled i oc w'"
  using assms
proof (induction rule: approval_step.induct)
  case (create w r is_question)
  then have "wo_created w i \<noteq> None" using waiter_value_settled [of w i oc] by (auto simp: is_settled_def)
  with create show ?case by (auto simp: is_settled_def waiter_value_def approval_pieces Let_def)
next
  case (work w w')
  then show ?case by (blast intro: is_settled_work)
qed (auto simp: is_settled_def waiter_value_def approval_pieces split: option.splits)

lemma is_settled_steps:
  assumes "approval_step\<^sup>*\<^sup>* w w'" "\<And>i. approval_ok w i" "is_settled i oc w"
  shows "is_settled i oc w'"
  using assms
proof (induction rule: rtranclp_induct)
  case (step y z)
  have "approval_ok y i" using step.hyps(1) step.prems(1) by (rule approval_ok_steps)
  with step show ?case by (blast intro: is_settled_step)
qed

section \<open>Deadlines\<close>

text \<open>Runs in which nobody gives an answer of the wrong kind.\<close>

definition decent :: "approval_world \<Rightarrow> bool" where
  "decent w \<longleftrightarrow> (\<forall>i req p. wo_callers w i = Some (CallResponding req p) \<longrightarrow> fits p req)"

definition decent_step :: "approval_world \<Rightarrow> approval_world \<Rightarrow> bool" where
  "decent_step w w' \<longleftrightarrow> approval_step w w' \<and> decent w'"

definition watched :: "approval_world \<Rightarrow> bool" where
  "watched w \<longleftrightarrow> (\<forall>i. wo_watchers w i = Some WatchDone \<longrightarrow> map_of (ap_pending (wo_approvals w)) i = None)"

lemma watched_work:
  assumes "work_step w w'" "watched w" "decent w" "\<And>i. approval_ok w i"
  shows "watched w'"
  using assms
proof (induction rule: work_step.induct)
  case (respond_judge w i req p)
  then have "fits p req" by (auto simp: decent_def)
  with respond_judge(2) show ?case by (auto simp: watched_def approval_pieces fits_def)
next
  case (watch_take w i oc)
  show ?case
  proof (cases "oc = TimedOut")
    case False
    have "map_of (ap_pending (wo_approvals w)) i = None"
      using watch_take(4) [of i] unfolding approval_ok_def
      by (cases rule: place_okE) (use watch_take(1) False in auto)
    with False watch_take(2) show ?thesis by (auto simp: watched_def approval_pieces)
  qed (use watch_take(2) in \<open>auto simp: watched_def approval_pieces split: option.splits\<close>)
next
  case (watch_send w i p)
  have "map_of (ap_pending (wo_approvals w)) i = None"
    using watch_send(4) [of i] unfolding approval_ok_def by (cases rule: place_okE) (use watch_send(1) in auto)
  with watch_send(2) show ?case by (auto simp: watched_def approval_pieces)
qed (auto simp: watched_def approval_pieces)

lemma watched_step:
  assumes "approval_step w w'" "watched w" "decent w" "\<And>i. approval_ok w i"
  shows "watched w'"
  using assms
proof (induction rule: approval_step.induct)
  case (work w w')
  then show ?case by (blast intro: watched_work)
qed (auto simp: watched_def approval_pieces Let_def split: option.splits)

lemma decent_reachable:
  assumes "decent_step\<^sup>*\<^sup>* (approval_start now) w"
  shows "watched w \<and> decent w \<and> (\<forall>i. approval_ok w i)"
  using assms
proof (induction rule: rtranclp_induct)
  case base
  then show ?case by (simp add: approval_ok_start) (simp add: watched_def decent_def approval_start_def)
next
  case (step y z)
  then have yz: "approval_step y z" "decent z" and y: "watched y" "decent y" "\<And>i. approval_ok y i"
    by (auto simp: decent_step_def)
  from watched_step [OF yz(1) y] approval_ok_step [OF yz(1) y(3)] yz(2) show ?case by blast
qed

definition can_settle :: "string \<Rightarrow> approval_world \<Rightarrow> bool" where
  "can_settle i w \<longleftrightarrow> (\<exists>w' oc. work_step\<^sup>*\<^sup>* w w' \<and> waiter_value i w' = Some oc)"

lemma can_settle_step: "work_step w w' \<Longrightarrow> can_settle i w' \<Longrightarrow> can_settle i w"
  unfolding can_settle_def by (meson converse_rtranclp_into_rtranclp)

lemma can_settle_now: "waiter_value i w = Some oc \<Longrightarrow> can_settle i w"
  unfolding can_settle_def by blast

text \<open>A watcher that has the entry goes on to send the timeout; one that has selected the timeout takes a pending entry; one that
  is past the deadline selects the timeout; and a creation that is under way spawns the watcher.\<close>

lemma holding_watcher_settles:
  assumes "wo_watchers w i = Some y" "watcher_holds y \<noteq> None"
  shows "can_settle i w"
proof -
  have patched: "can_settle i w" if "wo_watchers w i = Some (WatchPatched p)" for w p
    by (rule can_settle_step [OF watch_send [OF that]], rule can_settle_now [where oc = TimedOut])
      (simp add: waiter_value_def approval_pieces)
  show ?thesis
  proof (cases y)
    case (WatchTaken p)
    with assms(1) have "wo_watchers w i = Some (WatchTaken p)" by simp
    then show ?thesis by (rule can_settle_step [OF watch_patch], intro patched [of _ p]) (simp add: approval_pieces)
  qed (use assms patched in auto)
qed

lemma selected_watcher_settles:
  assumes "wo_watchers w i \<in> {Some (WatchSelected TimedOut), Some (WatchRecorded TimedOut)}"
    "map_of (ap_pending (wo_approvals w)) i = Some p"
  shows "can_settle i w"
proof -
  have recorded: "can_settle i w"
    if "wo_watchers w i = Some (WatchRecorded TimedOut)" "map_of (ap_pending (wo_approvals w)) i = Some p" for w
    by (rule can_settle_step [OF watch_take [OF that(1)]], rule holding_watcher_settles [of _ _ "WatchTaken p"])
      (use that(2) in \<open>simp_all add: approval_pieces\<close>)
  have "can_settle i w" if "wo_watchers w i = Some (WatchSelected TimedOut)"
    by (rule can_settle_step [OF watch_record [OF that]], rule recorded) (use assms(2) in \<open>simp_all add: approval_pieces\<close>)
  with recorded assms show ?thesis by blast
qed

lemma late_watcher_settles:
  assumes "wo_watchers w i = Some WatchWaiting" "map_of (ap_pending (wo_approvals w)) i = Some p"
    "wo_channels w i = Some ChOpen" "wo_created w i = Some p" "pa_timeout_at p \<le> wo_clock w"
  shows "can_settle i w"
proof -
  have "waiter_value i w = None" using assms(3) by (simp add: waiter_value_def)
  from watch_deadline [OF assms(1) this assms(4,5)] show ?thesis
    by (rule can_settle_step, intro selected_watcher_settles [of _ _ p]) (use assms(2) in \<open>simp_all add: approval_pieces\<close>)
qed

lemma watcher_settles:
  assumes "wo_watchers w i = Some y" "y \<noteq> WatchDone" "watcher_ok ChOpen y" "map_of (ap_pending (wo_approvals w)) i = Some p"
    "wo_channels w i = Some ChOpen" "wo_created w i = Some p" "pa_timeout_at p \<le> wo_clock w"
  shows "can_settle i w"
proof -
  have spawned: "can_settle i w" if "wo_watchers w i = Some WatchUnspawned" "map_of (ap_pending (wo_approvals w)) i = Some p"
    "wo_channels w i = Some ChOpen" "wo_created w i = Some p" "pa_timeout_at p \<le> wo_clock w" for w
    by (rule can_settle_step [OF spawn [OF that(1)]], rule late_watcher_settles [of _ _ p])
      (use that(2-5) in \<open>simp_all add: approval_pieces\<close>)
  show ?thesis
  proof (cases y)
    case WatchUnannounced
    with assms(1) have "wo_watchers w i = Some WatchUnannounced" by simp
    from announce [OF this assms(6)] show ?thesis
      by (rule can_settle_step, intro spawned) (use assms(4-7) in \<open>simp_all add: approval_pieces\<close>)
  qed (use assms spawned late_watcher_settles selected_watcher_settles holding_watcher_settles in auto)
qed

lemma recorded_settles: "wo_callers w i = Some (CallRecorded oc p) \<Longrightarrow> can_settle i w"
  by (drule respond_answer, erule can_settle_step, rule can_settle_now [where oc = oc]) (simp add: waiter_value_def approval_pieces)

lemma cancelling_settles:
  assumes "wo_callers w i \<in> {Some (CallCancelling p), Some (CallCancelRecorded p), Some (CallCancelSent p)}"
  shows "can_settle i w"
proof -
  have sent: "can_settle i w" if "wo_callers w i = Some (CallCancelSent p)" for w
    by (rule can_settle_step [OF cancel_drop [OF that]], rule can_settle_now [where oc = TimedOut])
      (simp add: waiter_value_def approval_pieces)
  have recorded: "can_settle i w" if "wo_callers w i = Some (CallCancelRecorded p)" for w
    by (rule can_settle_step [OF cancel_patch [OF that]], rule sent) (simp add: approval_pieces)
  have "can_settle i w" if "wo_callers w i = Some (CallCancelling p)"
    by (rule can_settle_step [OF cancel_record [OF that]], rule recorded) (simp add: approval_pieces)
  with sent recorded assms show ?thesis by blast
qed

lemma caller_settles:
  assumes "wo_callers w i = Some d" "caller_ok p d" "\<And>req. d = CallResponding req p \<Longrightarrow> fits p req"
  shows "can_settle i w"
proof (cases d)
  case (CallResponding req q)
  with assms have d: "wo_callers w i = Some (CallResponding req p)" "fits p req" by auto
  then have "wo_callers (step_respond i req p w) i = Some (CallRecorded req p)"
    by (simp add: approval_pieces fits_def)
  then show ?thesis by (rule can_settle_step [OF respond_judge [OF d(1)] recorded_settles])
qed (use assms recorded_settles cancelling_settles in auto)

section \<open>What a subscriber sees\<close>

fun view_patch :: "approval_patch \<Rightarrow> string set \<Rightarrow> string set" where
  "view_patch (PatchSnapshot infos) v = set (map ai_approval_id infos)"
| "view_patch (PatchCreated info) v = insert (ai_approval_id info) v"
| "view_patch (PatchResolved i) v = v - {i}"

definition client_view :: "approval_patch list \<Rightarrow> string set" where
  "client_view ps = fold view_patch ps {}"

section \<open>A method without interruptions\<close>

text \<open>When nothing comes in between, the pieces of a response that fits are \<open>respond\<close>, and the waiter gets its value.\<close>

lemma respond_by_steps:
  assumes "map_of (ap_pending (wo_approvals w)) i = Some p" "fits p req"
  shows "\<exists>w'. approval_step\<^sup>*\<^sup>* w w' \<and> wo_approvals w' = snd (respond i req (wo_approvals w)) \<and>
    fst (respond i req (wo_approvals w)) = Inr (req, tool_context p) \<and> waiter_value i w' = Some req"
proof -
  let ?w1 = "step_take i (CallResponding req) w"
  let ?w2 = "step_respond i req p ?w1"
  let ?w3 = "step_answer i req ?w2"
  let ?w4 = "step_answer_patch i ?w3"
  have w1: "wo_callers ?w1 i = Some (CallResponding req p)" using assms(1) by (simp add: approval_pieces)
  have w2: "wo_callers ?w2 i = Some (CallRecorded req p)" using assms(2) by (simp add: fits_def step_respond_def)
  have "approval_step w ?w1" by (rule approval_step.respond_take)
  moreover have "approval_step ?w1 ?w2" using w1 by (intro approval_step.work work_step.respond_judge)
  moreover have "approval_step ?w2 ?w3" using w2 by (intro approval_step.work work_step.respond_answer)
  moreover have "approval_step ?w3 ?w4" by (intro approval_step.work work_step.respond_patch) (simp add: step_answer_def)
  ultimately have "approval_step\<^sup>*\<^sup>* w ?w4" by (meson converse_rtranclp_into_rtranclp r_into_rtranclp)
  with assms show ?thesis
    by (intro exI [of _ ?w4]) (simp add: respond_def fits_def waiter_value_def approval_pieces)
qed

section \<open>A sample approval\<close>

definition sample_approval :: ApprovalRequest where
  "sample_approval = new_with_timeout ''a'' 0 ''bash'' 5 (Some 10)"

abbreviation sample_entry_a :: PendingApproval where
  "sample_entry_a \<equiv> pending_of_request sample_approval False"

text \<open>The approval in the map, announced, and with its watcher.\<close>

definition sample_inserted :: approval_world where
  "sample_inserted = step_create sample_approval False (approval_start 0)"

definition sample_asked :: approval_world where
  "sample_asked = set_watcher ''a'' WatchWaiting (step_announce ''a'' sample_entry_a sample_inserted)"

definition sample_taken :: "ApprovalOutcome \<Rightarrow> approval_world" where
  "sample_taken req = step_take ''a'' (CallResponding req) sample_asked"

definition sample_answered :: approval_world where
  "sample_answered = step_answer ''a'' Approved (step_respond ''a'' Approved sample_entry_a (sample_taken Approved))"

lemmas sample_approval_defs = sample_approval_def sample_inserted_def sample_asked_def sample_taken_def sample_answered_def new_with_timeout_def
  duration_from_std_def approval_start_def new_approvals_def approval_pieces pending_of_request_def

lemma sample_inserted_step: "approval_step (approval_start 0) sample_inserted"
  unfolding sample_inserted_def by (rule approval_step.create) (simp add: approval_start_def)

lemma sample_asked_steps:
  "work_step sample_inserted (step_announce ''a'' sample_entry_a sample_inserted)"
  "work_step (step_announce ''a'' sample_entry_a sample_inserted) sample_asked"
proof -
  show "work_step sample_inserted (step_announce ''a'' sample_entry_a sample_inserted)"
    by (rule work_step.announce) (simp_all add: sample_approval_defs Let_def)
  show "work_step (step_announce ''a'' sample_entry_a sample_inserted) sample_asked"
    unfolding sample_asked_def by (rule work_step.spawn) (simp add: step_announce_def set_watcher_def)
qed

lemma sample_asked_reached: "approval_step\<^sup>*\<^sup>* (approval_start 0) sample_asked"
  using sample_inserted_step sample_asked_steps [THEN approval_step.work]
  by (meson converse_rtranclp_into_rtranclp r_into_rtranclp)

lemma sample_taken_reached: "approval_step\<^sup>*\<^sup>* (approval_start 0) (sample_taken req)"
  using sample_asked_reached approval_step.respond_take [of sample_asked "''a''" req]
  unfolding sample_taken_def by (rule rtranclp.rtrancl_into_rtrancl)

lemma sample_taken_caller: "wo_callers (sample_taken req) ''a'' = Some (CallResponding req sample_entry_a)"
  by (simp add: sample_approval_defs Let_def)

lemma sample_answered_steps: "approval_step\<^sup>*\<^sup>* (sample_taken Approved) sample_answered"
proof -
  let ?w = "step_respond ''a'' Approved sample_entry_a (sample_taken Approved)"
  have "approval_step (sample_taken Approved) ?w"
    by (intro approval_step.work work_step.respond_judge sample_taken_caller)
  moreover have "wo_callers ?w ''a'' = Some (CallRecorded Approved sample_entry_a)"
    by (simp add: step_respond_def pending_of_request_def)
  then have "approval_step ?w sample_answered"
    unfolding sample_answered_def by (intro approval_step.work work_step.respond_answer)
  ultimately show ?thesis by (meson converse_rtranclp_into_rtranclp r_into_rtranclp)
qed

lemma sample_answered_reached: "approval_step\<^sup>*\<^sup>* (approval_start 0) sample_answered"
  using sample_taken_reached sample_answered_steps by (rule rtranclp_trans)

lemma sample_answered_value: "waiter_value ''a'' sample_answered = Some Approved"
  by (simp add: sample_answered_def waiter_value_def step_answer_def)

section \<open>Properties\<close>

text \<open>
  C24: whatever the interleaving, the outcome that a waiter gets is of the kind it waits for: an executor that waits for
  a permission never gets the answer of a question and conversely, so that the two errors for an unexpected response are never returned.
\<close>

theorem approval_answers_fit:
  assumes "approval_step\<^sup>*\<^sup>* (approval_start now) w" "wo_created w i = Some p" "waiter_value i w = Some oc" "i \<in> set waiters"
  shows "if pa_is_question p then \<exists>st. fst (wait_question_answer i (Some oc) waiters) = Inr st
    else \<exists>st. fst (wait_tool_approval i (Some oc) waiters) = Inr st"
proof -
  have "fits p oc" using waiter_value_settled [OF approval_ok_reachable [OF assms(1)] assms(3)] assms(2) by auto
  with assms(4) show ?thesis
    by (cases oc) (auto simp: fits_def wait_tool_approval_def wait_question_answer_def wait_internal_def split: if_splits)
qed

theorem approval_answers_fit_witness:
  "\<exists>st. fst (wait_tool_approval ''a'' (Some Approved) [''a'']) = Inr st"
  using approval_answers_fit [OF sample_answered_reached _ sample_answered_value, of sample_entry_a "[''a'']"]
  by (simp add: sample_approval_defs Let_def)

text \<open>
  C22: an approval settles once. From the moment its waiter has a value, the value stays, the approval is neither
  pending nor in the hands of a caller, and every further response is refused without any effect.
\<close>

theorem approval_settles_once:
  assumes "approval_step\<^sup>*\<^sup>* (approval_start now) w" "waiter_value i w = Some oc" "approval_step\<^sup>*\<^sup>* w w'"
  shows "waiter_value i w' = Some oc \<and> map_of (ap_pending (wo_approvals w')) i = None \<and> wo_callers w' i = None \<and>
    (\<exists>e. respond i req (wo_approvals w') = (Inl e, wo_approvals w'))"
proof -
  have ok: "\<And>i. approval_ok w i" using assms(1) by (rule approval_ok_reachable)
  have "is_settled i oc w" using waiter_value_settled [OF ok assms(2)] by blast
  then have "is_settled i oc w'" by (rule is_settled_steps [OF assms(3) ok])
  moreover have "AList.delete i m = m" if "map_of m i = None" for m :: "(string \<times> PendingApproval) list"
    using that by (simp add: map_of_eq_None_iff)
  ultimately show ?thesis by (auto simp: is_settled_def respond_def take_pending_def)
qed

theorem approval_settles_once_witness:
  "\<exists>e. respond ''a'' (Denied None) (wo_approvals sample_answered) = (Inl e, wo_approvals sample_answered)"
  using approval_settles_once [OF sample_answered_reached sample_answered_value rtranclp.rtrancl_refl] by blast

text \<open>
  C23: once its deadline has passed, an approval is always settled by the tasks that are already there, a
  caller that has taken it, the call that creates it or its watcher, provided that nobody has given an answer of the wrong kind.
\<close>

theorem approval_deadline_settles:
  assumes "decent_step\<^sup>*\<^sup>* (approval_start now) w" "wo_created w i = Some p" "pa_timeout_at p \<le> wo_clock w"
  shows "\<exists>w' oc. work_step\<^sup>*\<^sup>* w w' \<and> waiter_value i w' = Some oc"
proof -
  from decent_reachable [OF assms(1)] have w: "watched w" "decent w" "approval_ok w i" by auto
  from w(3) have "can_settle i w"
    unfolding approval_ok_def
  proof (cases rule: place_okE)
    case (waiting q y)
    then have "y \<noteq> WatchDone" using w(1) by (auto simp: watched_def)
    with waiting assms(2,3) watcher_settles [of w i y p] show ?thesis by auto
  next
    case (held q d y)
    with assms(2) w(2) show ?thesis by (intro caller_settles [of w i d p]) (auto simp: decent_def)
  next
    case (watching q y)
    then show ?thesis by (intro holding_watcher_settles [of w i y]) simp_all
  next
    case (settled q h y)
    then have "waiter_value i w \<noteq> None" by (cases h) (auto simp: waiter_value_def)
    then show ?thesis by (auto intro: can_settle_now)
  qed (use assms(2) in simp)
  then show ?thesis by (simp add: can_settle_def)
qed

theorem approval_deadline_settles_witness:
  "\<exists>w' oc. work_step\<^sup>*\<^sup>* (sample_inserted\<lparr>wo_clock := 10\<rparr>) w' \<and> waiter_value ''a'' w' = Some oc"
proof -
  have "decent_step (approval_start 0) sample_inserted"
    using sample_inserted_step by (simp add: decent_step_def) (simp add: decent_def sample_approval_defs Let_def)
  moreover have "approval_step sample_inserted (sample_inserted\<lparr>wo_clock := 10\<rparr>)"
    by (rule approval_step.time_passes) (simp add: sample_approval_defs Let_def)
  then have "decent_step sample_inserted (sample_inserted\<lparr>wo_clock := 10\<rparr>)"
    by (simp add: decent_step_def) (simp add: decent_def sample_approval_defs Let_def)
  ultimately have "decent_step\<^sup>*\<^sup>* (approval_start 0) (sample_inserted\<lparr>wo_clock := 10\<rparr>)"
    by (meson converse_rtranclp_into_rtranclp r_into_rtranclp)
  then show ?thesis by (rule approval_deadline_settles [of _ _ _ sample_entry_a]) (simp_all add: sample_approval_defs Let_def)
qed

section \<open>Interleavings that go wrong\<close>

text \<open>
  A response of the wrong kind takes the entry out of the map and puts it back. When the watcher runs in between, it finds
  no entry and ends; the approval is pending again, its deadline has passed, and nothing that is running will ever settle it.
\<close>

definition sample_hung :: approval_world where
  "sample_hung = step_respond ''a'' (Answered []) sample_entry_a (step_watch_take ''a'' TimedOut
     (step_watch_record ''a'' TimedOut (set_watcher ''a'' (WatchSelected TimedOut) ((sample_taken (Answered []))\<lparr>wo_clock := 10\<rparr>))))"

theorem approval_can_hang:
  "approval_step\<^sup>*\<^sup>* (approval_start 0) sample_hung \<and>
   (\<exists>p. map_of (ap_pending (wo_approvals sample_hung)) ''a'' = Some p \<and> pa_timeout_at p \<le> wo_clock sample_hung) \<and>
   (\<forall>w'. work_step\<^sup>*\<^sup>* sample_hung w' \<longrightarrow> waiter_value ''a'' w' = None)"
proof -
  let ?w1 = "(sample_taken (Answered []))\<lparr>wo_clock := 10\<rparr>"
  let ?w2 = "set_watcher ''a'' (WatchSelected TimedOut) ?w1"
  let ?w3 = "step_watch_record ''a'' TimedOut ?w2"
  let ?w4 = "step_watch_take ''a'' TimedOut ?w3"
  have "approval_step (sample_taken (Answered [])) ?w1"
    by (rule approval_step.time_passes) (simp add: sample_approval_defs Let_def)
  moreover have "approval_step ?w1 ?w2"
    by (rule approval_step.work, rule work_step.watch_deadline [of _ _ sample_entry_a])
      (simp_all add: sample_approval_defs waiter_value_def Let_def)
  moreover have "approval_step ?w2 ?w3"
    by (rule approval_step.work, rule work_step.watch_record) (simp add: set_watcher_def)
  moreover have "approval_step ?w3 ?w4"
    by (rule approval_step.work, rule work_step.watch_take) (simp add: approval_pieces)
  moreover have "wo_callers ?w4 ''a'' = Some (CallResponding (Answered []) sample_entry_a)"
    by (simp add: sample_approval_defs Let_def)
  then have "approval_step ?w4 sample_hung"
    unfolding sample_hung_def by (intro approval_step.work work_step.respond_judge)
  ultimately have "approval_step\<^sup>*\<^sup>* (sample_taken (Answered [])) sample_hung"
    by (meson converse_rtranclp_into_rtranclp r_into_rtranclp)
  then have reached: "approval_step\<^sup>*\<^sup>* (approval_start 0) sample_hung" by (rule rtranclp_trans [OF sample_taken_reached])
  have idle: "wo_callers sample_hung = Map.empty" "wo_watchers sample_hung = [''a'' \<mapsto> WatchDone]" "wo_channels sample_hung ''a'' = Some ChOpen"
      "wo_unsent sample_hung = []"
    by (simp_all add: sample_hung_def sample_approval_defs Let_def)
  have "\<not> work_step sample_hung w'" for w'
    by (rule notI, erule work_step.cases) (auto simp: idle split: if_splits)
  then have "w' = sample_hung" if "work_step\<^sup>*\<^sup>* sample_hung w'" for w'
    using that by (auto elim: converse_rtranclpE)
  moreover have "waiter_value ''a'' sample_hung = None" by (simp add: waiter_value_def idle)
  moreover have "\<exists>p. map_of (ap_pending (wo_approvals sample_hung)) ''a'' = Some p \<and> pa_timeout_at p \<le> wo_clock sample_hung"
    by (simp add: sample_hung_def sample_approval_defs Let_def)
  ultimately show ?thesis using reached by blast
qed

text \<open>
  \<open>patch_stream\<close> takes its snapshot before it subscribes. An approval that is created and announced in between is in neither,
  and the subscriber does not see it.
\<close>

theorem subscriber_can_miss_an_approval:
  "approval_step\<^sup>*\<^sup>* (approval_start 0) sample_asked \<and> ''a'' \<in> dom (map_of (ap_pending (wo_approvals sample_asked))) \<and>
   ''a'' \<notin> client_view (patch_stream (wo_approvals (approval_start 0)) [])"
  using sample_asked_reached
  by (simp add: client_view_def patch_stream_def pending_infos_def) (simp add: sample_approval_defs Let_def)

text \<open>
  \<open>create_with_waiter\<close> inserts the entry before it announces it. When a subscriber takes its snapshot and a response is
  given in between, the announcement comes after the patch that resolves the approval, and the subscriber keeps an
  approval that has been settled.
\<close>

definition sample_early :: approval_world where
  "sample_early = step_answer_patch ''a'' (step_answer ''a'' Approved (step_respond ''a'' Approved sample_entry_a
     (step_take ''a'' (CallResponding Approved) sample_inserted)))"

theorem subscriber_can_keep_a_settled_approval:
  "approval_step\<^sup>*\<^sup>* (approval_start 0) sample_inserted \<and>
   approval_step\<^sup>*\<^sup>* sample_inserted (step_announce ''a'' sample_entry_a sample_early) \<and>
   (\<exists>live. ap_patches (wo_approvals (step_announce ''a'' sample_entry_a sample_early)) = ap_patches (wo_approvals sample_inserted) @ live \<and>
      ''a'' \<in> client_view (patch_stream (wo_approvals sample_inserted) live)) \<and>
   waiter_value ''a'' (step_announce ''a'' sample_entry_a sample_early) = Some Approved"
proof -
  let ?w1 = "step_take ''a'' (CallResponding Approved) sample_inserted"
  let ?w2 = "step_respond ''a'' Approved sample_entry_a ?w1"
  let ?w3 = "step_answer ''a'' Approved ?w2"
  have "approval_step sample_inserted ?w1" by (rule approval_step.respond_take)
  moreover have "approval_step ?w1 ?w2"
    by (rule approval_step.work, rule work_step.respond_judge) (simp add: sample_approval_defs Let_def)
  moreover have "approval_step ?w2 ?w3"
    by (rule approval_step.work, rule work_step.respond_answer [where p = sample_entry_a]) (simp add: step_respond_def pending_of_request_def)
  moreover have "approval_step ?w3 sample_early"
    unfolding sample_early_def by (rule approval_step.work, rule work_step.respond_patch) (simp add: step_answer_def)
  moreover have "approval_step sample_early (step_announce ''a'' sample_entry_a sample_early)"
    by (rule approval_step.work, rule work_step.announce) (simp_all add: sample_early_def sample_approval_defs Let_def)
  ultimately have "approval_step\<^sup>*\<^sup>* sample_inserted (step_announce ''a'' sample_entry_a sample_early)"
    by (meson converse_rtranclp_into_rtranclp r_into_rtranclp)
  moreover have "ap_patches (wo_approvals (step_announce ''a'' sample_entry_a sample_early)) =
      ap_patches (wo_approvals sample_inserted) @ [PatchResolved ''a'', PatchCreated (info_of ''a'' sample_entry_a)]"
    by (simp add: sample_early_def sample_approval_defs Let_def)
  moreover have "''a'' \<in> client_view (patch_stream s [PatchResolved ''a'', PatchCreated (info_of ''a'' sample_entry_a)])" for s
    by (simp add: client_view_def patch_stream_def info_of_def)
  moreover have "waiter_value ''a'' (step_announce ''a'' sample_entry_a sample_early) = Some Approved"
    by (simp add: sample_early_def waiter_value_def approval_pieces)
  ultimately show ?thesis using sample_inserted_step by blast
qed

end
