(* ===== verification/Spec2Isabelle.thy ===== *)
theory Spec2Isabelle
  imports Rework Handlers Events Templates Guarantees Agent_Runtime Condition_Router Audit_Session Queue_Order
    Approval_Runs
begin

text \<open>
  Verification of the workflow and orchestration core of Easy Vibe Kanban (the Rust workspace under
  \<open>src/crates\<close>).

  \<^bold>\<open>The program.\<close> A user draws a workflow graph. The \<open>workflow\<close> crate validates it, plans which
  nodes of a run are ready, runs the nodes that need no agent, plans partial re-runs and publishes
  sequenced events. The \<open>server\<close> crate asks an agent to route at condition nodes and turns its answer
  into an output the planner reads. The \<open>executors\<close> crate defines the profiles of the coding agents and the
  contracts between orchestration and agents: requests, attempts, capability snapshots, event
  envelopes, and the reducers that project an event stream onto a run state. The \<open>services\<close> crate
  runs orchestrations: it starts runs, queues and delivers commands to agent runs, turns their events into join decisions,
  cancels, and reconciles after a restart. The \<open>db\<close> crate keeps orchestration runs in SQLite: an event
  log with its projection, an outbox of commands to agent runs, an inbox of their events, consumptions by joins, and
  leases that keep two workers apart. Accepted workflow runs wait in a queue, and a dispatcher starts them, one at a time for
  each project. An agent that wants to use a tool or has a question asks for an approval and waits. What an agent's provider sends and receives is recorded in an audit bundle on
  disk, from which the run state can be replayed.

  \<^bold>\<open>Theories and sources.\<close>
  \<^item> \<open>Prelude\<close>: \<open>Result\<close> and \<open>?\<close> (\<open>and_then\<close>, \<open>map_err\<close>, \<open>for_each\<close>), the string functions of the standard
    library that the sources use, ordered sets, the locale \<open>saturation\<close> of set-growing loops.
  \<^item> \<open>Serde\<close>: the JSON library as a record of operations; \<open>Hash_Map\<close>: hash maps as association
    lists in iteration order, and the locale \<open>map_loop\<close> of loops over a map that build a map.
  \<^item> \<open>Graph\<close> (\<open>workflow/src/graph.rs\<close>), \<open>Validation\<close> (\<open>validation.rs\<close>), \<open>Planner\<close> (\<open>planner.rs\<close>, \<open>runner.rs\<close>),
    \<open>Rework\<close> (\<open>rework.rs\<close>), \<open>Handlers\<close> (\<open>handlers.rs\<close>, \<open>transform.rs\<close>), \<open>Events\<close> (\<open>events.rs\<close>),
    \<open>Templates\<close> (\<open>templates.rs\<close>).
  \<^item> \<open>Profiles\<close> (\<open>executors/src/profile.rs\<close>, \<open>profile/runtime_identity.rs\<close>), \<open>Contracts\<close>
    (\<open>runtime/contracts.rs\<close>, \<open>event.rs\<close>, \<open>error.rs\<close>), \<open>Orchestration\<close> (\<open>runtime/orchestration.rs\<close>).
  \<^item> \<open>Projection\<close>: the locale \<open>event_projection\<close>, what every reducer of an ordered stream promises;
    \<open>Reducers\<close> (\<open>runtime/reducer.rs\<close>, \<open>orchestration_reducer.rs\<close>) interprets it twice.
  \<^item> \<open>Decisions\<close> (the pure functions of \<open>services/src/services/orchestration.rs\<close>), \<open>Condition_Router\<close>
    (\<open>server/src/workflow_runtime/condition_router.rs\<close>, \<open>envelope.rs\<close>).
  \<^item> the orchestration store, \<open>db/src/models/orchestration.rs\<close>: \<open>Tables\<close> (rows, SQL vocabulary, the locale \<open>keyed_table\<close> of
    tables with a conflict key), \<open>Event_Store\<close> (runs, event log, nodes, links), \<open>Leases\<close> (with the locale \<open>lease_contract\<close>),
    \<open>Outbox\<close>, \<open>Inbox\<close>, and \<open>Store\<close>, the step relation over all of them.
  \<^item> the orchestration service, \<open>services/src/services/orchestration.rs\<close>: \<open>Actions\<close> (sequences of fallible steps on a state, and the
    relations they respect, with the locale \<open>step_relation\<close>), \<open>Service\<close> (events, commands, delivery, cancellation, joins,
    consumption), \<open>Reconciler\<close> (draining and reconciliation), \<open>Guarantees\<close> (what the service as a whole promises). The locales
    \<open>log_relation\<close>, \<open>event_relation\<close>, \<open>drain_relation\<close> and \<open>service_relation\<close> say which laws on the store carry over to
    which methods; they are interpreted with the step relation of the store, with the number of pending events, with the
    order of cancellation, and with the commands that stay as they are.
  \<^item> the agent runtime store, \<open>db/src/models/agent_runtime.rs\<close>: \<open>Agent_Tables\<close> (rows), \<open>Agent_Store\<close> (identities, events and their
    projection), \<open>Agent_Processes\<close> (process registry, launch gates, commands), \<open>Agent_Runtime\<close> (the step relation and what it keeps).
  \<^item> the native audit, \<open>executors/src/runtime/native_audit.rs\<close>: \<open>Host_Files\<close> (the file system, the clock and the random source, with
    failures at any call), \<open>Native_Audit\<close> (frames, writer, reader, export, replay), \<open>Audit_Frames\<close> (laws of the codec, atomic
    replacement, lines), \<open>Audit_Trail\<close> (the invariant of the writer, with the locale \<open>recorder\<close>), \<open>Audit_Replay\<close> (checksums and
    replay), \<open>Audit_Session\<close> (whole sessions, and the properties).
  \<^item> the queue of workflow runs, \<open>db/src/models/workflow_queue.rs\<close> and \<open>server/src/workflow_runtime/queue.rs\<close>: \<open>Workflow_Queue\<close> (entries,
    project slots, claim, cancellation, release, the marks of acceptance, start and recovery in \<open>runner.rs\<close> and \<open>management.rs\<close>, the claim
    loop), \<open>Queue_Order\<close> (the invariant, the step relation and the properties).
  \<^item> approvals, \<open>services/src/services/approvals.rs\<close> and \<open>utils/src/approvals.rs\<close>: \<open>Approvals\<close> (the methods, and their pieces as concurrent steps),
    \<open>Approval_Runs\<close> (what holds for every interleaving, and three interleavings that go wrong).
  \<^item> this theory: the router and the planner together.

  Structs are records, enums datatypes, \<open>Result\<close> is a sum with the error on the left; \<open>u16\<close>, \<open>u32\<close>, \<open>u64\<close> and
  UUIDs are words, and additions on them wrap or are guarded as the source has them. A definition has the
  name of the function it models, with a prefix where two types share a method name.

  \<^bold>\<open>Parameters.\<close> Third-party code is an argument: the JSON library (\<open>'v serde_json\<close>, with
  \<open>serde_accessors\<close> and \<open>serde_roundtrip\<close> as hypotheses), the regular expression library, the case
  conversion library (\<open>case_stable\<close>), SHA-256, the text encoding of times and UUIDs in SQL (\<open>sql_env\<close>; fresh ids and the
  clock are arguments of the operations; for the service they are functions of the number of readings so far), the port to agent runs
  (functions on the world and the database in \<open>service_env\<close>, with \<open>port_respects\<close> as hypothesis), base64 and the JSON codec of the audit
  (\<open>audit_env\<close>, with \<open>audit_codec\<close> and \<open>audit_codec_total\<close>), the files read and written by the profile loader, and the
  iteration order of hash maps and sets.

  \<^bold>\<open>What is shown.\<close> Validation is equivalent to a declarative well-formedness; its
  depth-first search and worklist terminate and are exact. On validated graphs the planner is never stuck, plans
  exactly the triggered executions and each once. A rework plan splits the graph into
  affected, reused and skipped nodes, and succeeds exactly when stated. Routing decisions, automatic or manual,
  fire exactly the selected edges. Saved profile overrides load back to the same configuration. Both reducers
  apply each event once and in order, a projection that is still current was projected without a gap inside an attempt, terminal statuses are
  final. Joins are sound, final and live; stable ids are injective up to hash collisions.
  For the store, over every interleaving of its operations: the stored state of a run is the replay of its log; settled rows
  stay; the effects of a consumption happen once and together; a claimed command and a held lease
  exclude everybody else until they expire; a serial join runs one target at a time; queueing is idempotent.
  For the agent store likewise: a persisted identity is stable, and exited processes, settled gates and delivered commands stay as
  they are; and the stored state of an agent run is the replay of its log, as long as no event is appended between the read and the
  write of a mark as degraded, which is not a transaction (an example shows the event that is lost otherwise).
  For the audit: whatever file operations fail, a bundle that reads back holds the frames whose append succeeded, a writer
  on which an append or a close has failed never leaves a readable bundle, and changing the frames under a manifest takes a hash collision; when no
  operation fails, what is recorded reads back, can be exported, and replays into a current run state.
  For the queue, across restarts and in every order of its steps in which no run is scheduled between the test and the release of a
  task that gives it up: a run that is started or active holds the slot of its project, and
  all that the project accepted before has finished; the claim loop ends, without an error, and starts exactly what can
  start. A slot is given up only by a run of which nothing is alive. The code does not enforce the condition: an example shows a stop request that
  leaves a project blocked.
  For approvals, in every interleaving: an approval settles once, with an outcome of the kind that was asked for; its deadline settles it
  when nobody has answered in the wrong kind. An answer of the wrong kind at the moment of the deadline can leave an approval pending for ever, an
  approval created while somebody subscribes can be missed, and one that is answered before it is announced can stay in the view of a
  subscriber.
  For the service: every method is a sequence of store steps, so that a sound database stays sound; a run that was stopped
  queues and starts no agent; cancellation reaches every execution; draining comes to an end, and on a finished run
  acknowledges every pending event.

  \<^bold>\<open>Bounds.\<close> No definition uses fuel: the loops terminate by measures on unseen nodes or remaining
  text, draining by the number of pending events, and the claim loop by the number of queued entries. Characters are those of \<open>char\<close>, the code points up to 255.

  \<^bold>\<open>Not modelled.\<close> The run loop of the server, which drives the modelled parts, except for its statements on the queue and on the status of runs; the stream that \<open>subscribe_agent_run\<close> passes on; the notifications about approvals; process supervision and the provider executors, which start and parse
  external programs; provider settings files; the other database models, and of the agent store
  the provider sessions, the index rows of audit streams and the workspace summaries; HTTP routes, the MCP server, the hosted service, the
  relay, git, desktop and preview crates, which are adapters to networks, git and user interfaces.
  In the store, failures of the disk and of JSON encoding are left out; a method of the service runs by itself, and
  interleavings are those of the store operations.
\<close>

section \<open>Routing and planning together\<close>

text \<open>
  The condition router (server crate) writes the text that the planner (workflow crate) later reads as
  the output of the condition node. The two agree on which edges fire.
\<close>

lemma routed_output:
  assumes "parse_router_decision P raw = Inr d"
    and "\<not> should_pause (evaluate_router_output S P raw g n mw)"
  shows "evaluate_router_output S P raw g n mw =
    auto_route (router_output_payload S ''router'' ''selected'' (Some d) raw (rd_selected d)
        (filter (\<lambda>t. t \<notin> set (rd_selected d)) (condition_outgoing_target_ids g n))
        ''auto_route'' None mw False)
      (rd_selected d) (filter (\<lambda>t. t \<notin> set (rd_selected d)) (condition_outgoing_target_ids g n)) \<and>
    valid_selection g n (rd_selected d)"
proof (cases rule: evaluate_router_output_cases [of P raw g n mw S])
  case (route d' v)
  with assms(1) show ?thesis by (auto simp: validate_router_decision_ok)
next
  case (paused err parsed prompt)
  with assms(2) show ?thesis by (simp add: pause_def should_pause_def)
qed

lemma condition_edge_triggers:
  assumes "find_node g (wn_id n) = Some n" "wn_kind n = KCondition" "we_source e = wn_id n"
  shows "execution_triggers_edge S g e x \<longleftrightarrow>
    condition_output_selects_target S (es_output_text x) (we_target e)"
  using assms by (simp add: execution_triggers_edge_def)

lemma outgoing_target:
  "e \<in> set (wg_edges g) \<Longrightarrow> we_source e = wn_id n \<Longrightarrow>
     we_target e \<in> set (condition_outgoing_target_ids g n)"
  by (auto simp: condition_outgoing_target_ids_def condition_outgoing_edges_def)

text \<open>
  C31: an automatic route is carried out as decided. When the router has routed a condition node and
  its output is recorded, the planner lets an outgoing edge of the node fire exactly when its target
  is among the selected targets, and the targets of the edges that do not fire are the skipped ones.
  This rests on the accessors of the JSON library and on the payload surviving printing and parsing.
\<close>

theorem automatic_route_is_carried_out:
  assumes "serde_accessors S"
    and "parse_router_decision P raw = Inr d"
    and "\<not> should_pause (evaluate_router_output S P raw g n mw)"
    and "serde_roundtrip S (payload_json ''router'' ''selected'' (Some d) raw (rd_selected d)
      (rc_skipped (evaluate_router_output S P raw g n mw)) ''auto_route'' None mw False)"
    and "find_node g (wn_id n) = Some n" "e \<in> set (wg_edges g)" "we_source e = wn_id n"
    and "es_output_text x = Some (rc_output_text (evaluate_router_output S P raw g n mw))"
  shows "(execution_triggers_edge S g e x \<longleftrightarrow>
      we_target e \<in> set (rc_selected (evaluate_router_output S P raw g n mw))) \<and>
    (\<not> execution_triggers_edge S g e x \<longleftrightarrow>
      we_target e \<in> set (rc_skipped (evaluate_router_output S P raw g n mw)))"
proof -
  note out = routed_output [OF assms(2,3)]
  from out have kind: "wn_kind n = KCondition" by (simp add: valid_selection_def)
  have "execution_triggers_edge S g e x \<longleftrightarrow> we_target e \<in> set (rd_selected d)"
    using assms(4,8) out payload_selects [OF assms(1)]
    unfolding condition_edge_triggers [OF assms(5) kind assms(7)] by (simp add: auto_route_def)
  with out outgoing_target [OF assms(6,7)] show ?thesis by (auto simp: auto_route_def)
qed

definition sample_decision :: RouterDecision where
  "sample_decision = \<lparr>rd_schema_version = 1, rd_status = RDSelected, rd_selected = [''agent''],
     rd_skipped = [''end''], rd_confidence = Some ConfHigh, rd_reason = None, rd_question = None\<rparr>"

definition sample_answer :: string where
  "sample_answer = ''Routing. '' @ DECISION_START_TAG @ ''decision'' @ DECISION_END_TAG"

definition sample_decision_parser :: "string \<Rightarrow> string + RouterDecision" where
  "sample_decision_parser b = (if b = ''decision'' then Inr sample_decision else Inl ''expected value'')"

definition sample_serde :: "json_lit serde_json" where
  "sample_serde = lit_serde [(''payload'',
     payload_json ''router'' ''selected'' (Some sample_decision) sample_answer [''agent''] [''end'']
       ''auto_route'' None None False)]"

theorem automatic_route_is_carried_out_witness:
  "execution_triggers_edge sample_serde condition_graph (test_edge ''e2'' ''condition'' ''agent'')
     ((pending_execution ''condition'')\<lparr>es_status := NSucceeded, es_output_text := Some ''payload''\<rparr>)"
proof -
  let ?c = "evaluate_router_output sample_serde sample_decision_parser sample_answer condition_graph
      condition_test_node None"
  have c: "rc_output_text ?c = ''payload''" "rc_selected ?c = [''agent'']" "rc_skipped ?c = [''end'']"
      "\<not> should_pause ?c"
    by code_simp+
  have parsed: "parse_router_decision sample_decision_parser sample_answer = Inr sample_decision" by code_simp
  have rt: "serde_roundtrip sample_serde (payload_json ''router'' ''selected'' (Some sample_decision) sample_answer
      (rd_selected sample_decision) (rc_skipped ?c) ''auto_route'' None None False)"
    unfolding c(3) by (simp add: sample_serde_def sample_decision_def)
  have acc: "serde_accessors sample_serde" by (simp add: sample_serde_def)
  have node: "find_node condition_graph (wn_id condition_test_node) = Some condition_test_node" by code_simp
  have edge: "test_edge ''e2'' ''condition'' ''agent'' \<in> set (wg_edges condition_graph)"
      "we_source (test_edge ''e2'' ''condition'' ''agent'') = wn_id condition_test_node"
    by (simp_all add: condition_graph_def condition_test_node_def test_graph_def)
  show ?thesis
    using automatic_route_is_carried_out [OF acc parsed c(4) rt node edge,
      of "(pending_execution ''condition'')\<lparr>es_status := NSucceeded, es_output_text := Some ''payload''\<rparr>"] c
    by simp
qed

text \<open>
  A human can route a condition node by hand with exactly the selections that are valid for
  it, and the planner carries the manual route out in the same way: an outgoing edge fires
  exactly when its target was selected.
\<close>

theorem manual_route_is_carried_out:
  assumes "serde_accessors S"
    and "find_node g (wn_id n) = Some n" "e \<in> set (wg_edges g)" "we_source e = wn_id n"
  shows "(is_ok (build_manual_route S g n sel reason overrode) \<longleftrightarrow> valid_selection g n sel) \<and>
    (\<forall>r x. build_manual_route S g n sel reason overrode = Inr r \<and>
       serde_roundtrip S (payload_json ''user'' ''selected'' None [] sel (mr_skipped r) ''manual_route'' reason
         None overrode) \<and>
       es_output_text x = Some (mr_output_text r) \<longrightarrow>
       (execution_triggers_edge S g e x \<longleftrightarrow> we_target e \<in> set sel))"
proof (intro conjI allI impI)
  show "is_ok (build_manual_route S g n sel reason overrode) \<longleftrightarrow> valid_selection g n sel"
    by (auto simp: is_ok_iff build_manual_route_def and_then_eq_Inr validate_target_selection_ok)
  fix r and x :: NodeExecutionSnapshot
  assume "build_manual_route S g n sel reason overrode = Inr r \<and>
       serde_roundtrip S (payload_json ''user'' ''selected'' None [] sel (mr_skipped r) ''manual_route'' reason
         None overrode) \<and> es_output_text x = Some (mr_output_text r)"
  then have built: "build_manual_route S g n sel reason overrode = Inr r"
    and rt: "serde_roundtrip S (payload_json ''user'' ''selected'' None [] sel (mr_skipped r) ''manual_route''
      reason None overrode)"
    and x: "es_output_text x = Some (mr_output_text r)"
    by blast+
  from built have out: "mr_output_text r = router_output_payload S ''user'' ''selected'' None [] sel (mr_skipped r)
      ''manual_route'' reason None overrode" and kind: "wn_kind n = KCondition"
    by (auto simp: build_manual_route_def and_then_eq_Inr validate_target_selection_ok valid_selection_def)
  show "execution_triggers_edge S g e x \<longleftrightarrow> we_target e \<in> set sel"
    unfolding condition_edge_triggers [OF assms(2) kind assms(4)] x out
    by (simp add: payload_selects [OF assms(1) rt])
qed

theorem manual_route_is_carried_out_witness:
  "is_ok (build_manual_route (lit_serde []) condition_graph condition_test_node [''end''] None False)"
proof -
  have node: "find_node condition_graph (wn_id condition_test_node) = Some condition_test_node" by code_simp
  have edge: "test_edge ''e2'' ''condition'' ''agent'' \<in> set (wg_edges condition_graph)"
      "we_source (test_edge ''e2'' ''condition'' ''agent'') = wn_id condition_test_node"
    by (simp_all add: condition_graph_def condition_test_node_def test_graph_def)
  have "valid_selection condition_graph condition_test_node [''end'']" by code_simp
  with manual_route_is_carried_out [OF lit_serde_accessors node edge, of "[]" "[''end'']" None False]
  show ?thesis by simp
qed

end
